(* ===== verification/Kernelite_Prelude.thy ===== *)
theory Kernelite_Prelude
  imports Main "HOL-Library.Word"
begin

text \<open>
  Shared vocabulary of the development: the C integer types as words, the constants of
  \<^verbatim>\<open>linker_defines.h\<close> and \<^verbatim>\<open>page_table.h\<close> that several components use, the counting
  loop \<^verbatim>\<open>for (size_t i = a; i < b; i++)\<close> as the list of its counter values, and the word
  arithmetic lemmas that move a statement from \<open>64 word\<close> to \<open>nat\<close>.
\<close>

unbundle bit_operations_syntax

section \<open>The C integer types\<close>

type_synonym u8 = "8 word"
type_synonym u32 = "32 word"
type_synonym u64 = "64 word"
type_synonym phy_addr = "64 word"
type_synonym virt_addr = "64 word"

named_theorems page_arith \<open>facts on pages, frames and page counts as natural numbers\<close>
named_theorems state_frame \<open>which state components an operation leaves alone\<close>

section \<open>Pages\<close>

text \<open>\<^verbatim>\<open>LINKER_PAGE_SIZE\<close> (linker_defines.h) and \<^verbatim>\<open>PAGE_SIZE\<close> (page_table.h).\<close>

definition PAGE_SIZE :: u64 where
  "PAGE_SIZE = 0x1000"

text \<open>\<^verbatim>\<open>NUM_PAGES(size)\<close>: the rounding addition wraps as the C expression does.\<close>

definition NUM_PAGES :: "u64 \<Rightarrow> u64" where
  "NUM_PAGES sz = (sz + PAGE_SIZE - 1) div PAGE_SIZE"

text \<open>The frame number of an address and the alignment of a frame's base.\<close>

definition frame :: "u64 \<Rightarrow> nat" where
  "frame a = unat a div 4096"

definition page_aligned :: "u64 \<Rightarrow> bool" where
  "page_aligned a \<longleftrightarrow> unat a mod 4096 = 0"

section \<open>Word arithmetic through natural numbers\<close>

lemma unat_lt64: "unat (x :: u64) < 2 ^ 64"
  using unsigned_less [of x] by simp

lemma unat_add64: "unat a + unat b < 2 ^ 64 \<Longrightarrow> unat (a + b :: u64) = unat a + unat b"
  by (simp add: unat_word_ariths)

lemma unat_mult64: "unat a * unat b < 2 ^ 64 \<Longrightarrow> unat (a * b :: u64) = unat a * unat b"
  by (simp add: unat_word_ariths)

lemma unat_sub64: "b \<le> a \<Longrightarrow> unat (a - b :: u64) = unat a - unat b"
  by (rule unat_sub)

lemma unat_of_nat64: "n < 2 ^ 64 \<Longrightarrow> unat (of_nat n :: u64) = n"
  by (simp add: unat_of_nat)

lemma of_nat_eq64: "a < 2 ^ 64 \<Longrightarrow> b < 2 ^ 64 \<Longrightarrow> (of_nat a :: u64) = of_nat b \<longleftrightarrow> a = b"
  by (metis unat_of_nat64)

lemma unat_div64: "unat (a div b :: u64) = unat a div unat b"
  by (rule unat_div_distrib)

lemma unat_mod64: "unat (a mod b :: u64) = unat a mod unat b"
  by (rule unat_mod_distrib)

lemmas word_nat = word_le_nat_alt word_less_nat_alt unat_div64 unat_mod64

section \<open>Counting loops\<close>

text \<open>
  The values the counter of \<^verbatim>\<open>for (size_t i = a; i < b; i++)\<close> takes. The counter stays below
  \<open>b\<close>, so it never wraps; \<open>b < a\<close> gives no iteration.
\<close>

definition for_range :: "u64 \<Rightarrow> u64 \<Rightarrow> u64 list" where
  "for_range a b = map of_nat [unat a ..< unat b]"

lemma set_for_range: "set (for_range a b) = {i. a \<le> i \<and> i < b}"
proof -
  have "i \<in> of_nat ` {unat a ..< unat b}" if "a \<le> i" "i < b" for i :: u64
    using that by (intro image_eqI [of _ _ "unat i"]) (auto simp: word_le_nat_alt word_less_nat_alt)
  moreover have "a \<le> of_nat n \<and> (of_nat n :: u64) < b" if "unat a \<le> n" "n < unat b" for n
  proof -
    have "n < 2 ^ 64" using that(2) unat_lt64 [of b] by simp
    then have "unat (of_nat n :: u64) = n" by (simp add: unat_of_nat64)
    with that show ?thesis by (simp add: word_le_nat_alt word_less_nat_alt)
  qed
  ultimately show ?thesis by (auto simp: for_range_def)
qed

lemma distinct_for_range: "distinct (for_range a b)"
proof -
  have "inj_on (of_nat :: nat \<Rightarrow> u64) {unat a ..< unat b}"
  proof (rule inj_onI)
    fix x y assume *: "x \<in> {unat a ..< unat b}" "y \<in> {unat a ..< unat b}"
      and eq: "(of_nat x :: u64) = of_nat y"
    have "x < 2 ^ 64" "y < 2 ^ 64" using * unat_lt64 [of b] by auto
    then show "x = y" using eq by (simp add: of_nat_eq64)
  qed
  then show ?thesis by (simp add: for_range_def distinct_map)
qed

section \<open>Frames and page counts\<close>

lemma unat_PAGE_SIZE [simp]: "unat PAGE_SIZE = 4096"
  by (simp add: PAGE_SIZE_def)

lemma NUM_PAGES_unat [page_arith]:
  assumes "unat sz + 4095 < 2 ^ 64"
  shows "unat (NUM_PAGES sz) = (unat sz + 4095) div 4096"
proof -
  have "sz + PAGE_SIZE - 1 = sz + 4095" by (simp add: PAGE_SIZE_def)
  moreover have "unat (sz + 4095) = unat sz + 4095"
    using assms by (subst unat_add64) simp_all
  ultimately show ?thesis unfolding NUM_PAGES_def by (simp only: unat_div64 unat_PAGE_SIZE)
qed

lemma frame_lt [page_arith]: "frame a < 2 ^ 52"
  using unat_lt64 [of a] by (simp add: frame_def less_mult_imp_div_less)

lemma page_aligned_unat [page_arith]: "page_aligned a \<Longrightarrow> unat a = frame a * 4096"
  by (auto simp: page_aligned_def frame_def)

lemma page_aligned_inj: "page_aligned a \<Longrightarrow> page_aligned b \<Longrightarrow> frame a = frame b \<Longrightarrow> a = b"
  by (metis page_aligned_unat unsigned_word_eqI)

lemma frame_offset:
  assumes "page_aligned a" and "unat b = unat a + k"
  shows "frame b = frame a + k div 4096"
proof -
  obtain q where "unat a = 4096 * q" using assms(1) by (auto simp: page_aligned_def elim: dvdE)
  then show ?thesis by (simp add: frame_def assms(2))
qed

lemma frame_add:
  assumes "page_aligned a" and "unat k < 4096"
  shows "unat (a + k) = unat a + unat k" and "frame (a + k) = frame a"
proof -
  have eq: "unat a = frame a * 4096" using assms(1) by (rule page_aligned_unat)
  have "frame a \<le> 2 ^ 52 - 1" using frame_lt [of a] by simp
  then have "unat a + unat k < 2 ^ 64" using eq assms(2) by simp
  then show *: "unat (a + k) = unat a + unat k" by (rule unat_add64)
  show "frame (a + k) = frame a" using eq assms(2) by (simp add: * frame_def)
qed

lemma page_aligned_add_pages:
  assumes "page_aligned a" and "unat a + unat n * 4096 < 2 ^ 64"
  shows "unat (a + n * PAGE_SIZE) = unat a + unat n * 4096"
    and "page_aligned (a + n * PAGE_SIZE)" and "frame (a + n * PAGE_SIZE) = frame a + unat n"
proof -
  have m: "unat (n * PAGE_SIZE) = unat n * 4096"
    using assms(2) by (subst unat_mult64) simp_all
  show *: "unat (a + n * PAGE_SIZE) = unat a + unat n * 4096"
    using assms(2) m by (subst unat_add64) simp_all
  show "page_aligned (a + n * PAGE_SIZE)"
    using assms(1) by (simp add: page_aligned_def *)
  show "frame (a + n * PAGE_SIZE) = frame a + unat n"
    by (simp add: frame_def *)
qed

text \<open>Rounding up to a page boundary by masking, as the C code writes it.\<close>

lemma and_not_mask_push_drop: "x AND NOT (mask n) = push_bit n (drop_bit n (x :: u64))"
  by (rule bit_word_eqI) (auto simp: bit_simps)

lemma unat_push_drop: "unat (push_bit n (drop_bit n (x :: u64))) = unat x div 2 ^ n * 2 ^ n"
proof -
  have "unat x div 2 ^ n * 2 ^ n < 2 ^ 64"
    using unat_lt64 [of x] div_times_less_eq_dividend [of "unat x" "2 ^ n"] by linarith
  then show ?thesis using unat_lt64 [of x]
    by (simp only: unsigned_push_bit_eq unsigned_drop_bit_eq)
      (simp add: push_bit_eq_mult drop_bit_eq_div take_bit_eq_mod)
qed

lemma unat_and_not_mask12: "unat (x AND NOT 0xFFF :: u64) = unat x div 4096 * 4096"
proof -
  have "(0xFFF :: u64) = mask 12" by (simp add: mask_eq_exp_minus_1)
  then have "x AND NOT 0xFFF = push_bit 12 (drop_bit 12 x)"
    by (simp only: and_not_mask_push_drop)
  then show ?thesis by (simp only: unat_push_drop) simp
qed

lemma and_mask12_eq_0: "(a AND 0xFFF = 0) = page_aligned a"
proof -
  have "(0xFFF :: u64) = mask 12" by (simp add: mask_eq_exp_minus_1)
  then have "a AND 0xFFF = take_bit 12 a" by (simp only: take_bit_eq_mask)
  moreover have "unat (take_bit 12 a) = unat a mod 4096"
    by (simp only: unsigned_take_bit_eq) (simp add: take_bit_eq_mod)
  ultimately show ?thesis
    by (simp add: page_aligned_def word_eq_iff_unsigned [where 'a = nat])
qed

end
