(* ===== verification/Bitfields.thy ===== *)
theory Bitfields
  imports Kernelite_Prelude
begin

text \<open>
  C bit-field structs. The sources overlay a raw integer with a packed struct of bit-fields
  (\<^verbatim>\<open>union { uint64_t value; struct { uint64_t valid : 1; ... }; }\<close>). A struct declaration is
  modelled by its layout, the list of its fields with their widths in declaration order; the
  offset of a field is the sum of the widths before it, as the AArch64 ABI packs fields from
  the least significant bit. Reading and writing a field act on the raw word. The locale
  \<open>bitfield_struct\<close> is what every such declaration has to satisfy (each field declared once,
  the widths adding up to the register width, which is the source's \<^verbatim>\<open>_Static_assert\<close> on
  its size), and gives the lemmas the components use: a written field reads back, other
  fields are untouched, and the fields determine the raw value.
\<close>

type_synonym 'f layout = "('f \<times> nat) list"

fun bf_offset :: "'f layout \<Rightarrow> 'f \<Rightarrow> nat" where
  "bf_offset [] f = 0"
| "bf_offset ((g, w) # l) f = (if f = g then 0 else w + bf_offset l f)"

fun bf_width :: "'f layout \<Rightarrow> 'f \<Rightarrow> nat" where
  "bf_width [] f = 0"
| "bf_width ((g, w) # l) f = (if f = g then w else bf_width l f)"

definition bf_size :: "'f layout \<Rightarrow> nat" where
  "bf_size l = sum_list (map snd l)"

definition bf_get :: "'f layout \<Rightarrow> 'f \<Rightarrow> 'w::len word \<Rightarrow> 'w word" where
  "bf_get l f r = take_bit (bf_width l f) (drop_bit (bf_offset l f) r)"

definition bf_set :: "'f layout \<Rightarrow> 'f \<Rightarrow> 'w::len word \<Rightarrow> 'w word \<Rightarrow> 'w word" where
  "bf_set l f v r =
     (r AND NOT (push_bit (bf_offset l f) (mask (bf_width l f))))
     OR push_bit (bf_offset l f) (take_bit (bf_width l f) v)"

lemma bit_bf_get:
  "bit (bf_get l f r) n \<longleftrightarrow> n < bf_width l f \<and> bit r (bf_offset l f + n)"
  by (auto simp: bf_get_def bit_simps)

lemma bit_bf_set:
  "bit (bf_set l f v r :: 'w::len word) n \<longleftrightarrow>
     (if bf_offset l f \<le> n \<and> n < bf_offset l f + bf_width l f
      then n < LENGTH('w) \<and> bit v (n - bf_offset l f) else bit r n)"
  by (auto simp: bf_set_def bit_simps dest: bit_imp_le_length)

lemma bf_offset_bound:
  "f \<in> fst ` set l \<Longrightarrow> bf_offset l f + bf_width l f \<le> bf_size l"
  by (induction l f rule: bf_offset.induct) (auto simp: bf_size_def)

lemma bf_disjoint:
  "f \<noteq> g \<Longrightarrow> f \<in> fst ` set l \<Longrightarrow> g \<in> fst ` set l \<Longrightarrow>
   bf_offset l f + bf_width l f \<le> bf_offset l g \<or> bf_offset l g + bf_width l g \<le> bf_offset l f"
  by (induction l f rule: bf_offset.induct) (auto split: if_splits)

lemma bf_cover:
  "distinct (map fst l) \<Longrightarrow> n < bf_size l \<Longrightarrow>
   \<exists>f \<in> fst ` set l. bf_offset l f \<le> n \<and> n < bf_offset l f + bf_width l f"
proof (induction l arbitrary: n)
  case Nil
  then show ?case by (simp add: bf_size_def)
next
  case (Cons x l)
  obtain g w where x: "x = (g, w)" by (cases x)
  show ?case
  proof (cases "n < w")
    case True
    then show ?thesis by (intro bexI [of _ g]) (auto simp: x)
  next
    case False
    with Cons.prems have "n - w < bf_size l" by (simp add: bf_size_def x)
    moreover have "distinct (map fst l)" using Cons.prems(1) by simp
    ultimately obtain f where f: "f \<in> fst ` set l" "bf_offset l f \<le> n - w"
      "n - w < bf_offset l f + bf_width l f" using Cons.IH by blast
    have "f \<noteq> g" using f(1) Cons.prems(1) by (auto simp: x)
    with f False show ?thesis by (intro bexI [of _ f]) (auto simp: x)
  qed
qed

section \<open>The contract of a bit-field struct\<close>

locale bitfield_struct =
  fixes layout :: "('f \<times> nat) list" and reg :: "'w::len itself"
  assumes fields_once: "distinct (map fst layout)"
    and all_fields: "f \<in> fst ` set layout"
    and size_ok: "bf_size layout = LENGTH('w)"
begin

lemma field_in_word: "bf_offset layout f + bf_width layout f \<le> LENGTH('w)"
  using bf_offset_bound [OF all_fields] by (simp add: size_ok)

lemma get_set_same [simp]:
  "bf_get layout f (bf_set layout f v (r :: 'w word)) = take_bit (bf_width layout f) v"
proof (rule bit_word_eqI)
  fix n assume "n < LENGTH('w)"
  then show "bit (bf_get layout f (bf_set layout f v r)) n = bit (take_bit (bf_width layout f) v) n"
    using field_in_word [of f] by (auto simp: bit_bf_get bit_bf_set bit_take_bit_iff)
qed

lemma get_set_other [simp]:
  assumes "f \<noteq> g"
  shows "bf_get layout g (bf_set layout f v (r :: 'w word)) = bf_get layout g r"
proof (rule bit_word_eqI)
  fix n assume "n < LENGTH('w)"
  show "bit (bf_get layout g (bf_set layout f v r)) n = bit (bf_get layout g r) n"
    using bf_disjoint [OF assms all_fields all_fields] by (auto simp: bit_bf_get bit_bf_set)
qed

lemma get_set:
  "bf_get layout g (bf_set layout f v (r :: 'w word)) =
     (if g = f then take_bit (bf_width layout g) v else bf_get layout g r)"
  by (cases "g = f") simp_all

lemma fields_determine:
  assumes "\<And>f. bf_get layout f (a :: 'w word) = bf_get layout f b"
  shows "a = b"
proof (rule bit_word_eqI)
  fix n assume "n < LENGTH('w)"
  then obtain f where f: "bf_offset layout f \<le> n" "n < bf_offset layout f + bf_width layout f"
    using bf_cover [OF fields_once, of n] by (auto simp: size_ok)
  have "bit (bf_get layout f a) (n - bf_offset layout f)
      = bit (bf_get layout f b) (n - bf_offset layout f)"
    by (simp only: assms)
  moreover have "n - bf_offset layout f < bf_width layout f" using f by arith
  ultimately show "bit a n = bit b n" using f by (simp add: bit_bf_get)
qed

lemma set_get_same: "bf_set layout f (bf_get layout f r) (r :: 'w word) = r"
  by (rule bit_word_eqI) (auto simp: bit_bf_set bit_bf_get)

lemma set_set_commute:
  assumes "f \<noteq> g"
  shows "bf_set layout f a (bf_set layout g b (r :: 'w word))
       = bf_set layout g b (bf_set layout f a r)"
  using bf_disjoint [OF assms all_fields all_fields]
  by (intro bit_word_eqI) (auto simp: bit_bf_set)

lemma get_zero [simp]: "bf_get layout f (0 :: 'w word) = 0"
  by (simp add: bf_get_def)

end

end
