(* ===== verification/Memory.thy ===== *)
theory Memory
  imports Kernelite_Prelude
begin

text \<open>
  The byte-addressed physical memory that the page allocator's bitmaps, the translation
  tables and the heap descriptors share, and little-endian access to 64-bit objects in it.
  The closed forms of \<open>load_le\<close> and \<open>store_le\<close> carry every later aliasing argument: a
  store changes exactly the bytes at distance less than eight, and aligned objects at
  different addresses do not overlap.
\<close>

type_synonym memory = "u64 \<Rightarrow> u8"

fun load_le :: "nat \<Rightarrow> memory \<Rightarrow> u64 \<Rightarrow> u64" where
  "load_le 0 m a = 0"
| "load_le (Suc n) m a = ucast (m a) OR push_bit 8 (load_le n m (a + 1))"

fun store_le :: "nat \<Rightarrow> memory \<Rightarrow> u64 \<Rightarrow> u64 \<Rightarrow> memory" where
  "store_le 0 m a v = m"
| "store_le (Suc n) m a v = (store_le n m (a + 1) (drop_bit 8 v))(a := ucast v)"

definition load64 :: "memory \<Rightarrow> u64 \<Rightarrow> u64" where
  "load64 m a = load_le 8 m a"

definition store64 :: "memory \<Rightarrow> u64 \<Rightarrow> u64 \<Rightarrow> memory" where
  "store64 m a v = store_le 8 m a v"

lemma bit_load_le:
  "n \<le> 8 \<Longrightarrow> bit (load_le n m a) k \<longleftrightarrow> k < 8 * n \<and> bit (m (a + of_nat (k div 8))) (k mod 8)"
proof (induction n arbitrary: a k)
  case 0
  then show ?case by simp
next
  case (Suc n)
  have IH: "bit (load_le n m (a + 1)) (k - 8) \<longleftrightarrow>
      k - 8 < 8 * n \<and> bit (m (a + 1 + of_nat ((k - 8) div 8))) ((k - 8) mod 8)"
    using Suc by simp
  show ?case
  proof (cases "k < 8")
    case True
    then show ?thesis by (simp add: bit_or_iff bit_push_bit_iff bit_ucast_iff)
  next
    case False
    then obtain j where j: "k = 8 + j" using le_Suc_ex [of 8 k] by auto
    have dv: "k div 8 = Suc (j div 8)" "k mod 8 = j mod 8" by (auto simp: j)
    have ge: "\<not> bit (ucast (m a) :: u64) k"
      using False by (auto simp: bit_ucast_iff dest: bit_imp_le_length)
    have "bit (load_le (Suc n) m a) k \<longleftrightarrow> k < 64 \<and> bit (load_le n m (a + 1)) (k - 8)"
      using False ge by (simp add: bit_or_iff bit_push_bit_iff)
    also have "\<dots> \<longleftrightarrow> k < 8 * Suc n \<and> bit (m (a + of_nat (k div 8))) (k mod 8)"
      using Suc.prems IH unfolding dv by (auto simp: j algebra_simps)
    finally show ?thesis .
  qed
qed

lemma store_le_apply:
  "n \<le> 8 \<Longrightarrow> store_le n m a v b =
     (if unat (b - a) < n then ucast (drop_bit (8 * unat (b - a)) v) else m b)"
proof (induction n arbitrary: a v)
  case 0
  then show ?case by simp
next
  case (Suc n)
  show ?case
  proof (cases "b = a")
    case True
    then show ?thesis by simp
  next
    case False
    then have "b - a \<noteq> 0" by simp
    then have d: "unat (b - a) = Suc (unat (b - (a + 1)))"
      using unatSuc [of "b - (a + 1)"] by (simp add: algebra_simps)
    show ?thesis using Suc False by (simp add: d drop_bit_drop_bit add.commute)
  qed
qed

lemma load64_cong:
  assumes "\<And>i. i < 8 \<Longrightarrow> m (a + of_nat i) = m' (a + of_nat i)"
  shows "load64 m a = load64 m' a"
proof (rule bit_word_eqI)
  fix k assume "k < LENGTH(64)"
  then have "k div 8 < 8" by simp
  with assms show "bit (load64 m a) k = bit (load64 m' a) k"
    by (simp add: load64_def bit_load_le)
qed

lemma store64_apply:
  "store64 m a v b = (if unat (b - a) < 8 then ucast (drop_bit (8 * unat (b - a)) v) else m b)"
  by (simp add: store64_def store_le_apply)

lemma load_store64_same [simp]: "load64 (store64 m a v) a = v"
proof (rule bit_word_eqI)
  fix k assume "k < LENGTH(64)"
  then have "k div 8 < 8" by simp
  then have "unat (of_nat (k div 8) :: u64) = k div 8" by (simp add: unat_of_nat64)
  with \<open>k div 8 < 8\<close> show "bit (load64 (store64 m a v) a) k = bit v k"
    by (auto simp: load64_def bit_load_le store64_apply bit_ucast_iff bit_drop_bit_eq)
qed

section \<open>Aligned objects\<close>

definition aligned8 :: "u64 \<Rightarrow> bool" where
  "aligned8 a \<longleftrightarrow> unat a mod 8 = 0"

lemma aligned8_add:
  assumes "aligned8 a" and "i < 8"
  shows "unat (a + of_nat i) = unat a + i"
proof -
  obtain q where "unat a = 8 * q" using assms(1) by (auto simp: aligned8_def elim: dvdE)
  then have "unat a \<le> 2 ^ 64 - 8" using unat_lt64 [of a] by simp
  then have "unat a + unat (of_nat i :: u64) < 2 ^ 64"
    using assms(2) by (simp add: unat_of_nat64)
  then have "unat (a + of_nat i) = unat a + unat (of_nat i :: u64)" by (rule unat_add64)
  with assms(2) show ?thesis by (simp add: unat_of_nat64)
qed

lemma aligned8_far:
  assumes "aligned8 a" "aligned8 b" "a \<noteq> b" "i < 8"
  shows "\<not> unat (a + of_nat i - b) < 8"
proof
  define j where "j = unat (a + of_nat i - b)"
  assume "unat (a + of_nat i - b) < 8"
  then have j: "j < 8" by (simp add: j_def)
  have "a + of_nat i = b + of_nat j" by (simp add: j_def)
  then have "unat a + i = unat b + j"
    using aligned8_add [OF assms(1,4)] aligned8_add [OF assms(2) j] by simp
  moreover have "unat a mod 8 = 0" "unat b mod 8 = 0"
    using assms(1,2) by (simp_all add: aligned8_def)
  ultimately have "unat a = unat b" using assms(4) j by presburger
  with assms(3) show False by (simp add: word_eq_iff_unsigned [where 'a = nat])
qed

lemma load_store64_other:
  assumes "aligned8 a" "aligned8 b" "a \<noteq> b"
  shows "load64 (store64 m b v) a = load64 m a"
  using aligned8_far [OF assms] by (intro load64_cong) (simp add: store64_apply)

end
