(* ===== verification/Mem_Layout.thy ===== *)
theory Mem_Layout
  imports Memory
begin

text \<open>
  \<^verbatim>\<open>mem_layout.c\<close>, \<^verbatim>\<open>linker/symbols.h\<close> and the part of the machine state they share: physical
  memory, the variable \<^verbatim>\<open>kernel_base_va\<close>, the half of the address space the program counter
  is in, and the physical load addresses of the linker symbols. The kernel is compiled
  position-dependent with PC-relative symbol references, so the address of a symbol is its
  load address while the PC is low and the load address plus \<^verbatim>\<open>KERNEL_BASE\<close> after
  \<^verbatim>\<open>switch_to_high_va\<close>. A C pointer to RAM is dereferenced through the linear map that
  \<^verbatim>\<open>kernel_base_va\<close> describes: the identity before the switch, the higher-half map after it.
\<close>

record linker_symbols =
  image_start :: u64
  image_end :: u64
  idmap_pg_dir_bitmap_start :: u64
  idmap_pg_dir_start :: u64
  kernel_pg_dir_root_start :: u64

record mem_state =
  mem :: memory
  kernel_base_va :: virt_addr
  pc_base :: virt_addr
  syms :: linker_symbols

definition KERNEL_BASE :: u64 where
  "KERNEL_BASE = 0xFFFF000000000000"

definition update_kernel_base_va :: "'a mem_state_scheme \<Rightarrow> 'a mem_state_scheme" where
  "update_kernel_base_va s = s\<lparr>kernel_base_va := KERNEL_BASE\<rparr>"

definition va_to_pa :: "'a mem_state_scheme \<Rightarrow> virt_addr \<Rightarrow> phy_addr" where
  "va_to_pa s v_addr = v_addr - kernel_base_va s"

definition pa_to_va :: "'a mem_state_scheme \<Rightarrow> phy_addr \<Rightarrow> virt_addr" where
  "pa_to_va s p_addr = kernel_base_va s + p_addr"

text \<open>\<^verbatim>\<open>trampoline.s\<close>: adds \<^verbatim>\<open>KERNEL_BASE\<close> to the return address and the stack pointer.\<close>

definition switch_to_high_va :: "'a mem_state_scheme \<Rightarrow> 'a mem_state_scheme" where
  "switch_to_high_va s = s\<lparr>pc_base := pc_base s + KERNEL_BASE\<rparr>"

section \<open>Linker symbols\<close>

definition sym_addr :: "'a mem_state_scheme \<Rightarrow> (linker_symbols \<Rightarrow> u64) \<Rightarrow> u64" where
  "sym_addr s f = pc_base s + f (syms s)"

definition get_image_size :: "'a mem_state_scheme \<Rightarrow> u64" where
  "get_image_size s = sym_addr s image_end - sym_addr s image_start"

definition get_id_map_region_start :: "'a mem_state_scheme \<Rightarrow> u64" where
  "get_id_map_region_start s = sym_addr s idmap_pg_dir_bitmap_start"

definition get_id_map_root :: "'a mem_state_scheme \<Rightarrow> u64" where
  "get_id_map_root s = sym_addr s idmap_pg_dir_start"

definition get_kernel_map_root :: "'a mem_state_scheme \<Rightarrow> u64" where
  "get_kernel_map_root s = sym_addr s kernel_pg_dir_root_start"

section \<open>Dereferencing pointers to RAM\<close>

definition load_byte :: "'a mem_state_scheme \<Rightarrow> virt_addr \<Rightarrow> u8" where
  "load_byte s p = mem s (va_to_pa s p)"

definition store_byte :: "virt_addr \<Rightarrow> u8 \<Rightarrow> 'a mem_state_scheme \<Rightarrow> 'a mem_state_scheme" where
  "store_byte p v s = s\<lparr>mem := (mem s)(va_to_pa s p := v)\<rparr>"

definition load_u64 :: "'a mem_state_scheme \<Rightarrow> virt_addr \<Rightarrow> u64" where
  "load_u64 s p = load64 (mem s) (va_to_pa s p)"

definition store_u64 :: "virt_addr \<Rightarrow> u64 \<Rightarrow> 'a mem_state_scheme \<Rightarrow> 'a mem_state_scheme" where
  "store_u64 p v s = s\<lparr>mem := store64 (mem s) (va_to_pa s p) v\<rparr>"

section \<open>Address translation\<close>

text \<open>The two conversions are inverse to each other in every layout state.\<close>

lemma va_to_pa_pa_to_va [simp]: "va_to_pa s (pa_to_va s p) = p"
  by (simp add: va_to_pa_def pa_to_va_def)

lemma pa_to_va_va_to_pa [simp]: "pa_to_va s (va_to_pa s v) = v"
  by (simp add: va_to_pa_def pa_to_va_def)

lemma va_to_pa_add: "va_to_pa s (p + k) = va_to_pa s p + k"
  by (simp add: va_to_pa_def algebra_simps)

lemma pa_to_va_inj [simp]: "pa_to_va s p = pa_to_va s q \<longleftrightarrow> p = q"
  by (simp add: pa_to_va_def)

lemma va_to_pa_cong: "kernel_base_va s = kernel_base_va s' \<Longrightarrow> va_to_pa s = va_to_pa s'"
  by (simp add: va_to_pa_def fun_eq_iff)

lemma pa_to_va_cong: "kernel_base_va s = kernel_base_va s' \<Longrightarrow> pa_to_va s = pa_to_va s'"
  by (simp add: pa_to_va_def fun_eq_iff)

text \<open>Stores change the memory and nothing else of the layout state.\<close>

lemma store_byte_frame [simp, state_frame]:
  "kernel_base_va (store_byte p v s) = kernel_base_va s"
  "pc_base (store_byte p v s) = pc_base s" "syms (store_byte p v s) = syms s"
  by (simp_all add: store_byte_def)

lemma store_u64_frame [simp, state_frame]:
  "kernel_base_va (store_u64 p v s) = kernel_base_va s"
  "pc_base (store_u64 p v s) = pc_base s" "syms (store_u64 p v s) = syms s"
  by (simp_all add: store_u64_def)

lemma va_to_pa_store [simp]:
  "va_to_pa (store_byte p v s) = va_to_pa s" "va_to_pa (store_u64 p w s) = va_to_pa s"
  by (simp_all add: va_to_pa_def fun_eq_iff)

lemma pa_to_va_store [simp]:
  "pa_to_va (store_byte p v s) = pa_to_va s" "pa_to_va (store_u64 p w s) = pa_to_va s"
  by (simp_all add: pa_to_va_def fun_eq_iff)

lemma mem_store [simp]:
  "mem (store_byte p v s) = (mem s)(va_to_pa s p := v)"
  "mem (store_u64 p w s) = store64 (mem s) (va_to_pa s p) w"
  by (simp_all add: store_byte_def store_u64_def)

text \<open>
  The image size does not depend on the half of the address space the kernel runs in, and a
  symbol's physical address is recovered once the PC and \<^verbatim>\<open>kernel_base_va\<close> agree.
\<close>

lemma get_image_size_eq: "get_image_size s = image_end (syms s) - image_start (syms s)"
  by (simp add: get_image_size_def sym_addr_def)

lemma va_to_pa_sym_addr: "pc_base s = kernel_base_va s \<Longrightarrow> va_to_pa s (sym_addr s f) = f (syms s)"
  by (simp add: va_to_pa_def sym_addr_def)

end
