(* ===== verification/Page_Allocator.thy ===== *)
theory Page_Allocator
  imports Mem_Layout
begin

text \<open>
  \<^verbatim>\<open>allocator/page_allocator.c\<close>: the bitmap page allocator. The bitmap of a chunk lies in the
  first pages of the chunk itself, in the shared physical memory, and is reached through the
  chunk's \<^verbatim>\<open>bitmap\<close> pointer. Every function of the file is one definition on the allocator
  state, with its early returns in the order of the source. A pointer to a chunk is the index
  of the chunk in \<^verbatim>\<open>mem_chunks\<close>; the console messages of \<^verbatim>\<open>kprintf\<close> are not part of the state.
\<close>

section \<open>Data\<close>

definition MAX_MEM_CHUNKS :: nat where
  "MAX_MEM_CHUNKS = 10"

definition PHYS_ADDR_NULL :: phy_addr where
  "PHYS_ADDR_NULL = 0"

record memory_chunk_t =
  bitmap :: virt_addr
  total_pages :: u64
  mem_base :: phy_addr
  initialized :: bool

record alloc_state = mem_state +
  mem_chunks :: "memory_chunk_t list"

definition upd_chunk ::
  "nat \<Rightarrow> (memory_chunk_t \<Rightarrow> memory_chunk_t) \<Rightarrow> 'a alloc_state_scheme \<Rightarrow> 'a alloc_state_scheme" where
  "upd_chunk ci f s = s\<lparr>mem_chunks := (mem_chunks s)[ci := f (mem_chunks s ! ci)]\<rparr>"

text \<open>The end of the managed range, as the code computes it (with wrap-around).\<close>

definition chunk_end :: "memory_chunk_t \<Rightarrow> phy_addr" where
  "chunk_end c = mem_base c + total_pages c * PAGE_SIZE"

section \<open>Bitmap access\<close>

text \<open>
  \<^verbatim>\<open>bitmap[i / 8] & (1 << (i % 8))\<close>, \<^verbatim>\<open>bitmap[i / 8] |= (1 << (i % 8))\<close> and
  \<^verbatim>\<open>bitmap[i / 8] &= ~(1 << (i % 8))\<close>.
\<close>

definition bitmap_test :: "memory_chunk_t \<Rightarrow> u64 \<Rightarrow> 'a mem_state_scheme \<Rightarrow> bool" where
  "bitmap_test c i s \<longleftrightarrow> load_byte s (bitmap c + i div 8) AND push_bit (unat (i mod 8)) 1 \<noteq> 0"

definition bitmap_set :: "memory_chunk_t \<Rightarrow> u64 \<Rightarrow> 'a mem_state_scheme \<Rightarrow> 'a mem_state_scheme" where
  "bitmap_set c i s =
     store_byte (bitmap c + i div 8)
       (load_byte s (bitmap c + i div 8) OR push_bit (unat (i mod 8)) 1) s"

definition bitmap_clear :: "memory_chunk_t \<Rightarrow> u64 \<Rightarrow> 'a mem_state_scheme \<Rightarrow> 'a mem_state_scheme" where
  "bitmap_clear c i s =
     store_byte (bitmap c + i div 8)
       (load_byte s (bitmap c + i div 8) AND NOT (push_bit (unat (i mod 8)) 1)) s"

section \<open>Operations on one chunk\<close>

definition check_kernel_binary_overlap :: "phy_addr \<Rightarrow> u64 \<Rightarrow> 'a mem_state_scheme \<Rightarrow> bool" where
  "check_kernel_binary_overlap mem_start mem_size s =
     (let kernel_start = sym_addr s image_start;
          kernel_end = sym_addr s image_end;
          mem_end = mem_start + mem_size
      in kernel_start < mem_end \<and> mem_start < kernel_end)"

definition reserve_page_chunk ::
  "phy_addr \<Rightarrow> u64 \<Rightarrow> nat \<Rightarrow> 'a alloc_state_scheme \<Rightarrow> bool \<times> 'a alloc_state_scheme" where
  "reserve_page_chunk start num_pages ci s =
     (let c = mem_chunks s ! ci in
      if mem_base c = 0 \<or> total_pages c = 0 \<or> bitmap c = 0 then (False, s)
      else
        let end_addr = start + num_pages * PAGE_SIZE;
            mem_start = mem_base c;
            mem_end = mem_start + total_pages c * PAGE_SIZE
        in if start < mem_start \<or> end_addr > mem_end then (False, s)
           else
             let start_index = (start - mem_start) div PAGE_SIZE
             in (True, fold (\<lambda>i. bitmap_set c (start_index + i)) (for_range 0 num_pages) s))"

definition page_init_chunk ::
  "phy_addr \<Rightarrow> u64 \<Rightarrow> nat \<Rightarrow> bool \<Rightarrow> 'a alloc_state_scheme \<Rightarrow> bool \<times> 'a alloc_state_scheme" where
  "page_init_chunk mem_start mem_size0 ci check_kernel_overlap s0 =
     (let s1 = upd_chunk ci (\<lambda>c. c\<lparr>initialized := False\<rparr>) s0;
          aligned_start = (mem_start + (PAGE_SIZE - 1)) AND NOT (PAGE_SIZE - 1);
          alignment_shift = aligned_start - mem_start
      in if alignment_shift \<ge> mem_size0 then (False, s1)
         else
           let mem_size = mem_size0 - alignment_shift;
               s2 = upd_chunk ci (\<lambda>c. c\<lparr>mem_base := aligned_start\<rparr>) s1;
               pages = mem_size div PAGE_SIZE;
               bitmap_size_bytes = (pages + 7) div 8;
               bitmap_size_pages = NUM_PAGES bitmap_size_bytes
           in if check_kernel_overlap
                 \<and> check_kernel_binary_overlap aligned_start (bitmap_size_pages * PAGE_SIZE) s2
              then (False, s2)
              else
                let bm = pa_to_va s2 aligned_start;
                    s3 = upd_chunk ci (\<lambda>c. c\<lparr>bitmap := bm\<rparr>) s2;
                    s4 = fold (\<lambda>i. store_byte (bm + i) 0) (for_range 0 bitmap_size_bytes) s3;
                    s5 = upd_chunk ci (\<lambda>c. c\<lparr>total_pages := pages\<rparr>) s4;
                    (reserved, s6) = reserve_page_chunk (va_to_pa s5 bm) bitmap_size_pages ci s5
                in if \<not> reserved then (False, s6)
                   else (True, upd_chunk ci (\<lambda>c. c\<lparr>initialized := True\<rparr>) s6))"

text \<open>
  The scan of \<^verbatim>\<open>page_alloc_chunk\<close>: the remaining counter values, \<^verbatim>\<open>continuous_found\<close> and
  \<^verbatim>\<open>start_index\<close>; the result is the start index of the run that completed.
\<close>

fun page_alloc_scan ::
  "memory_chunk_t \<Rightarrow> u64 \<Rightarrow> 'a mem_state_scheme \<Rightarrow> u64 list \<Rightarrow> u64 \<Rightarrow> u64 \<Rightarrow> u64 option" where
  "page_alloc_scan c num_pages s [] continuous_found start_index = None"
| "page_alloc_scan c num_pages s (i # is) continuous_found start_index =
     (if \<not> bitmap_test c i s then
        let start_index' = (if continuous_found = 0 then i else start_index);
            continuous_found' = continuous_found + 1
        in if continuous_found' = num_pages then Some start_index'
           else page_alloc_scan c num_pages s is continuous_found' start_index'
      else page_alloc_scan c num_pages s is 0 start_index)"

definition page_alloc_chunk ::
  "u64 \<Rightarrow> nat \<Rightarrow> 'a alloc_state_scheme \<Rightarrow> phy_addr \<times> 'a alloc_state_scheme" where
  "page_alloc_chunk num_pages ci s =
     (let c = mem_chunks s ! ci in
      if num_pages = 0 then (PHYS_ADDR_NULL, s)
      else if num_pages > total_pages c then (PHYS_ADDR_NULL, s)
      else case page_alloc_scan c num_pages s (for_range 0 (total_pages c)) 0 0 of
             None \<Rightarrow> (PHYS_ADDR_NULL, s)
           | Some start_index \<Rightarrow>
               (mem_base c + start_index * PAGE_SIZE,
                fold (bitmap_set c) (for_range start_index (start_index + num_pages)) s))"

definition page_free_chunk ::
  "phy_addr \<Rightarrow> u64 \<Rightarrow> nat \<Rightarrow> 'a alloc_state_scheme \<Rightarrow> 'a alloc_state_scheme" where
  "page_free_chunk start num_pages0 ci s =
     (let c = mem_chunks s ! ci in
      if mem_base c = 0 \<or> total_pages c = 0 \<or> bitmap c = 0 then s
      else
        let mem_start = mem_base c;
            mem_end = mem_base c + total_pages c * PAGE_SIZE
        in if start < mem_start \<or> start \<ge> mem_end then s
           else
             let start_index = (start - mem_start) div PAGE_SIZE;
                 num_pages = (if start_index + num_pages0 > total_pages c
                              then total_pages c - start_index else num_pages0)
             in fold (bitmap_clear c) (for_range start_index (start_index + num_pages)) s)"

section \<open>The public interface\<close>

fun find_chunk_for_address_from :: "memory_chunk_t list \<Rightarrow> nat \<Rightarrow> phy_addr \<Rightarrow> nat option" where
  "find_chunk_for_address_from [] i addr = None"
| "find_chunk_for_address_from (c # cs) i addr =
     (if initialized c \<and> addr \<ge> mem_base c \<and> addr < chunk_end c then Some i
      else find_chunk_for_address_from cs (Suc i) addr)"

definition find_chunk_for_address :: "phy_addr \<Rightarrow> 'a alloc_state_scheme \<Rightarrow> nat option" where
  "find_chunk_for_address addr s = find_chunk_for_address_from (mem_chunks s) 0 addr"

text \<open>The inner loop of \<^verbatim>\<open>find_chunk_with_free_pages\<close>.\<close>

fun has_free_run ::
  "memory_chunk_t \<Rightarrow> u64 \<Rightarrow> 'a mem_state_scheme \<Rightarrow> u64 list \<Rightarrow> u64 \<Rightarrow> bool" where
  "has_free_run c num_pages s [] continuous_found = False"
| "has_free_run c num_pages s (j # js) continuous_found =
     (if \<not> bitmap_test c j s then
        (if continuous_found + 1 = num_pages then True
         else has_free_run c num_pages s js (continuous_found + 1))
      else has_free_run c num_pages s js 0)"

fun find_chunk_with_free_pages_from ::
  "memory_chunk_t list \<Rightarrow> nat \<Rightarrow> u64 \<Rightarrow> 'a mem_state_scheme \<Rightarrow> nat option" where
  "find_chunk_with_free_pages_from [] i num_pages s = None"
| "find_chunk_with_free_pages_from (c # cs) i num_pages s =
     (if initialized c \<and> has_free_run c num_pages s (for_range 0 (total_pages c)) 0 then Some i
      else find_chunk_with_free_pages_from cs (Suc i) num_pages s)"

definition find_chunk_with_free_pages :: "u64 \<Rightarrow> 'a alloc_state_scheme \<Rightarrow> nat option" where
  "find_chunk_with_free_pages num_pages s =
     find_chunk_with_free_pages_from (mem_chunks s) 0 num_pages s"

text \<open>The slot \<^verbatim>\<open>page_allocator_add_region\<close> chooses.\<close>

fun find_region_slot_from :: "memory_chunk_t list \<Rightarrow> nat \<Rightarrow> phy_addr \<Rightarrow> nat option" where
  "find_region_slot_from [] i mem_start = None"
| "find_region_slot_from (c # cs) i mem_start =
     (if mem_base c = mem_start \<or> \<not> initialized c then Some i
      else find_region_slot_from cs (Suc i) mem_start)"

definition page_allocator_add_region ::
  "phy_addr \<Rightarrow> u64 \<Rightarrow> bool \<Rightarrow> 'a alloc_state_scheme \<Rightarrow> bool \<times> 'a alloc_state_scheme" where
  "page_allocator_add_region mem_start mem_size check_kernel_overlap s =
     (case find_region_slot_from (mem_chunks s) 0 mem_start of
        None \<Rightarrow> (False, s)
      | Some i \<Rightarrow> page_init_chunk mem_start mem_size i check_kernel_overlap s)"

fun find_region_from :: "memory_chunk_t list \<Rightarrow> nat \<Rightarrow> phy_addr \<Rightarrow> nat option" where
  "find_region_from [] i mem_start = None"
| "find_region_from (c # cs) i mem_start =
     (if initialized c \<and> mem_base c = mem_start then Some i
      else find_region_from cs (Suc i) mem_start)"

definition page_allocator_remove_region ::
  "phy_addr \<Rightarrow> 'a alloc_state_scheme \<Rightarrow> bool \<times> 'a alloc_state_scheme" where
  "page_allocator_remove_region mem_start s =
     (case find_region_from (mem_chunks s) 0 mem_start of
        None \<Rightarrow> (False, s)
      | Some i \<Rightarrow> (True, upd_chunk i (\<lambda>c. c\<lparr>initialized := False\<rparr>) s))"

definition fixup_page_allocator :: "'a alloc_state_scheme \<Rightarrow> 'a alloc_state_scheme" where
  "fixup_page_allocator s =
     s\<lparr>mem_chunks := map (\<lambda>c. if initialized c then c\<lparr>bitmap := pa_to_va s (bitmap c)\<rparr> else c)
                        (mem_chunks s)\<rparr>"

definition reserve_page ::
  "phy_addr \<Rightarrow> u64 \<Rightarrow> 'a alloc_state_scheme \<Rightarrow> bool \<times> 'a alloc_state_scheme" where
  "reserve_page start num_pages s =
     (case find_chunk_for_address start s of
        None \<Rightarrow> (False, s)
      | Some ci \<Rightarrow> reserve_page_chunk start num_pages ci s)"

definition page_alloc :: "u64 \<Rightarrow> 'a alloc_state_scheme \<Rightarrow> phy_addr \<times> 'a alloc_state_scheme" where
  "page_alloc num_pages s =
     (case find_chunk_with_free_pages num_pages s of
        None \<Rightarrow> (PHYS_ADDR_NULL, s)
      | Some ci \<Rightarrow> page_alloc_chunk num_pages ci s)"

definition page_free :: "phy_addr \<Rightarrow> u64 \<Rightarrow> 'a alloc_state_scheme \<Rightarrow> 'a alloc_state_scheme" where
  "page_free start num_pages s =
     (case find_chunk_for_address start s of
        None \<Rightarrow> s
      | Some ci \<Rightarrow> page_free_chunk start num_pages ci s)"

section \<open>Status dump and the test helpers\<close>

text \<open>
  \<^verbatim>\<open>page_dump_status_chunk\<close> prints maximal blocks of pages with the same status: the value is
  the list of printed lines (first address, last address, used, number of pages).
\<close>

fun page_dump_blocks ::
  "memory_chunk_t \<Rightarrow> 'a mem_state_scheme \<Rightarrow> u64 list \<Rightarrow> u64 \<Rightarrow> bool
     \<Rightarrow> (u64 \<times> u64 \<times> bool \<times> u64) list" where
  "page_dump_blocks c s [] start_idx current_status = []"
| "page_dump_blocks c s (i # is) start_idx current_status =
     (let status = (if i < total_pages c then bitmap_test c i s else False)
      in if status \<noteq> current_status \<or> i = total_pages c then
           (mem_base c + start_idx * PAGE_SIZE, mem_base c + i * PAGE_SIZE - 1,
            current_status, i - start_idx) # page_dump_blocks c s is i status
         else page_dump_blocks c s is start_idx current_status)"

definition page_dump_status_chunk ::
  "memory_chunk_t \<Rightarrow> 'a mem_state_scheme \<Rightarrow> (u64 \<times> u64 \<times> bool \<times> u64) list" where
  "page_dump_status_chunk c s =
     (if total_pages c = 0 then []
      else page_dump_blocks c s (for_range 1 (total_pages c) @ [total_pages c]) 0
             (bitmap_test c 0 s))"

definition page_dump_status :: "'a alloc_state_scheme \<Rightarrow> (nat \<times> (u64 \<times> u64 \<times> bool \<times> u64) list) list" where
  "page_dump_status s =
     [(i, page_dump_status_chunk (mem_chunks s ! i) s).
        i \<leftarrow> [0..<length (mem_chunks s)], initialized (mem_chunks s ! i)]"

definition invalidate_all_memory_chunks :: "'a alloc_state_scheme \<Rightarrow> 'a alloc_state_scheme" where
  "invalidate_all_memory_chunks s =
     s\<lparr>mem_chunks := map (\<lambda>c. c\<lparr>initialized := False\<rparr>) (mem_chunks s)\<rparr>"

definition get_bitmap_addr_and_size :: "phy_addr \<Rightarrow> 'a alloc_state_scheme \<Rightarrow> phy_addr \<times> u64" where
  "get_bitmap_addr_and_size addr s =
     (case find_chunk_for_address addr s of
        None \<Rightarrow> (0, 0)
      | Some ci \<Rightarrow> (va_to_pa s (bitmap (mem_chunks s ! ci)),
                     (total_pages (mem_chunks s ! ci) + 7) div 8))"

end
