(* ===== verification/Page_Table.thy ===== *)
theory Page_Table
  imports Bitfields Page_Allocator
begin

text \<open>
  \<^verbatim>\<open>page_table/page_table.c\<close> and \<^verbatim>\<open>page_table/page_table.h\<close>: the descriptor layouts, the helpers on
  descriptors, and the construction of the four-level translation tables. Tables lie in the
  shared memory; a table pointer is a virtual address and \<open>&table->entries[i]\<close> is
  \<open>table + 8 * i\<close>. Bit-field assignments through a pointer are read-modify-write accesses to
  the 64-bit entry. Pointers to local descriptors are passed by value.
\<close>

section \<open>Descriptors\<close>

datatype td_field = TD_valid | TD_is_table | TD_ignored_7_2 | TD_nlta_51_50 | TD_access_flag
  | TD_ignored_11 | TD_nlta_47_12 | TD_nlta_49_48 | TD_res_50 | TD_ignored_51 | TD_protected
  | TD_ignored_58_53 | TD_pxn_table | TD_xn_table | TD_ap_table | TD_ns_table

definition table_desc_t :: "td_field layout" where
  "table_desc_t = [(TD_valid, 1), (TD_is_table, 1), (TD_ignored_7_2, 6), (TD_nlta_51_50, 2),
     (TD_access_flag, 1), (TD_ignored_11, 1), (TD_nlta_47_12, 36), (TD_nlta_49_48, 2),
     (TD_res_50, 1), (TD_ignored_51, 1), (TD_protected, 1), (TD_ignored_58_53, 6),
     (TD_pxn_table, 1), (TD_xn_table, 1), (TD_ap_table, 2), (TD_ns_table, 1)]"

datatype pd_field = PD_valid | PD_is_page | PD_attr_indx | PD_non_secure | PD_ap | PD_sh
  | PD_access_flag | PD_non_global | PD_frame_addr_47_12 | PD_frame_addr_49_48
  | PD_guarded_page | PD_dirty_bit | PD_contiguous | PD_pxn | PD_xn | PD_sw_reserved
  | PD_attr_indx_3 | PD_po_index | PD_amec

definition page_desc_t :: "pd_field layout" where
  "page_desc_t = [(PD_valid, 1), (PD_is_page, 1), (PD_attr_indx, 3), (PD_non_secure, 1),
     (PD_ap, 2), (PD_sh, 2), (PD_access_flag, 1), (PD_non_global, 1),
     (PD_frame_addr_47_12, 36), (PD_frame_addr_49_48, 2), (PD_guarded_page, 1),
     (PD_dirty_bit, 1), (PD_contiguous, 1), (PD_pxn, 1), (PD_xn, 1), (PD_sw_reserved, 4),
     (PD_attr_indx_3, 1), (PD_po_index, 3), (PD_amec, 1)]"

datatype generic_field = GEN_valid | GEN_type | GEN_rest

definition page_table_entry_t :: "generic_field layout" where
  "page_table_entry_t = [(GEN_valid, 1), (GEN_type, 1), (GEN_rest, 62)]"

record page_permissions_t =
  read :: bool
  "write" :: bool
  execute :: bool
  user_accessible :: bool

datatype mem_type_t = DEVICE | NORMAL

definition mem_type_index :: "mem_type_t \<Rightarrow> u64" where
  "mem_type_index t = (case t of DEVICE \<Rightarrow> 0 | NORMAL \<Rightarrow> 1)"

text \<open>The enumerations \<^verbatim>\<open>aptable_values\<close>, \<^verbatim>\<open>ap_values\<close> and \<^verbatim>\<open>sh_values\<close>.\<close>

datatype aptable_values = APTABLE_EL0_NO_RESTRICTION_EL1_NO_RESTRICTION
  | APTABLE_EL0_NO_ACCESS_EL1_NO_RESTRICTION | APTABLE_EL0_NO_WRITE_EL1_NO_WRITE
  | APTABLE_EL0_NO_ACCESS_EL1_NO_WRITE

fun aptable_code :: "aptable_values \<Rightarrow> u64" where
  "aptable_code APTABLE_EL0_NO_RESTRICTION_EL1_NO_RESTRICTION = 0"
| "aptable_code APTABLE_EL0_NO_ACCESS_EL1_NO_RESTRICTION = 1"
| "aptable_code APTABLE_EL0_NO_WRITE_EL1_NO_WRITE = 2"
| "aptable_code APTABLE_EL0_NO_ACCESS_EL1_NO_WRITE = 3"

datatype ap_values = AP_PRIV_RW | AP_PRIV_UNPRIV_RW | AP_PRIV_RO | AP_PRIV_UNPRIV_RO

fun ap_code :: "ap_values \<Rightarrow> u64" where
  "ap_code AP_PRIV_RW = 0"
| "ap_code AP_PRIV_UNPRIV_RW = 1"
| "ap_code AP_PRIV_RO = 2"
| "ap_code AP_PRIV_UNPRIV_RO = 3"

datatype sh_values = SH_NON_SHAREABLE | SH_RESERVED | SH_OUTER_SHAREABLE | SH_INNER_SHAREABLE

fun sh_code :: "sh_values \<Rightarrow> u64" where
  "sh_code SH_NON_SHAREABLE = 0"
| "sh_code SH_RESERVED = 1"
| "sh_code SH_OUTER_SHAREABLE = 2"
| "sh_code SH_INNER_SHAREABLE = 3"

definition PTRS_PER_TABLE :: u64 where
  "PTRS_PER_TABLE = 512"

definition PAGE_SHIFT :: nat where "PAGE_SHIFT = 12"
definition PA_47_12_MASK :: u64 where "PA_47_12_MASK = 0xFFFFFFFFF"
definition PA_49_48_SHIFT :: nat where "PA_49_48_SHIFT = 48"
definition PA_49_48_MASK :: u64 where "PA_49_48_MASK = 0x3"
definition PA_51_50_SHIFT :: nat where "PA_51_50_SHIFT = 50"
definition PA_51_50_MASK :: u64 where "PA_51_50_MASK = 0x3"

section \<open>Helpers on descriptors\<close>

definition set_page_table_entry_address :: "u64 \<Rightarrow> phy_addr \<Rightarrow> u64" where
  "set_page_table_entry_address entry phys_addr =
     (let e1 = bf_set table_desc_t TD_nlta_47_12 0 entry;
          e2 = bf_set table_desc_t TD_nlta_49_48 0 e1;
          e3 = bf_set table_desc_t TD_nlta_51_50 0 e2;
          e4 = bf_set table_desc_t TD_nlta_47_12 (drop_bit PAGE_SHIFT phys_addr AND PA_47_12_MASK) e3;
          e5 = bf_set table_desc_t TD_nlta_49_48 (drop_bit PA_49_48_SHIFT phys_addr AND PA_49_48_MASK) e4
      in bf_set table_desc_t TD_nlta_51_50 (drop_bit PA_51_50_SHIFT phys_addr AND PA_51_50_MASK) e5)"

definition get_page_table_entry_address :: "u64 \<Rightarrow> phy_addr" where
  "get_page_table_entry_address entry =
     (if bf_get table_desc_t TD_valid entry = 0 then 0
      else push_bit PAGE_SHIFT (bf_get table_desc_t TD_nlta_47_12 entry)
           OR push_bit PA_49_48_SHIFT (bf_get table_desc_t TD_nlta_49_48 entry)
           OR push_bit PA_51_50_SHIFT (bf_get table_desc_t TD_nlta_51_50 entry))"

definition check_table_permissions :: "u64 \<Rightarrow> page_permissions_t \<Rightarrow> bool" where
  "check_table_permissions entry perms =
     (if bf_get table_desc_t TD_valid entry = 0 then False
      else
        let ap_table = bf_get table_desc_t TD_ap_table entry in
        if user_accessible perms then
          (if ap_table = aptable_code APTABLE_EL0_NO_ACCESS_EL1_NO_RESTRICTION
              \<or> ap_table = aptable_code APTABLE_EL0_NO_ACCESS_EL1_NO_WRITE then False
           else if write perms \<and> ap_table = aptable_code APTABLE_EL0_NO_WRITE_EL1_NO_WRITE then False
           else True)
        else if write perms
                \<and> (ap_table = aptable_code APTABLE_EL0_NO_WRITE_EL1_NO_WRITE
                   \<or> ap_table = aptable_code APTABLE_EL0_NO_ACCESS_EL1_NO_WRITE) then False
        else True)"

definition set_next_level_table :: "phy_addr \<Rightarrow> u64" where
  "set_next_level_table next_table_addr =
     (let e1 = bf_set table_desc_t TD_valid 1 0;
          e2 = bf_set table_desc_t TD_is_table 1 e1
      in set_page_table_entry_address e2 next_table_addr)"

section \<open>Tables in memory\<close>

definition entry_ptr :: "virt_addr \<Rightarrow> u64 \<Rightarrow> virt_addr" where
  "entry_ptr table i = table + 8 * i"

definition page_table_init :: "virt_addr \<Rightarrow> 'a mem_state_scheme \<Rightarrow> 'a mem_state_scheme" where
  "page_table_init table s =
     fold (\<lambda>i. store_u64 (entry_ptr table i) 0) (for_range 0 PTRS_PER_TABLE) s"

definition allocate_new_table :: "virt_addr \<Rightarrow> 'a alloc_state_scheme \<Rightarrow> bool \<times> 'a alloc_state_scheme" where
  "allocate_new_table entry s =
     (let (new_table_phys, s1) = page_alloc 1 s
      in if new_table_phys = PHYS_ADDR_NULL then (False, s1)
         else
           let new_table = pa_to_va s1 new_table_phys;
               s2 = page_table_init new_table s1;
               phys_addr = va_to_pa s2 new_table
           in (True, store_u64 entry (set_next_level_table phys_addr) s2))"

text \<open>The result is the pointer to the table, \<open>0\<close> being \<^verbatim>\<open>NULL\<close>.\<close>

definition get_next_level_table ::
  "virt_addr \<Rightarrow> page_permissions_t \<Rightarrow> 'a alloc_state_scheme \<Rightarrow> virt_addr \<times> 'a alloc_state_scheme" where
  "get_next_level_table entry perms s =
     (if entry = 0 then (0, s)
      else if bf_get table_desc_t TD_valid (load_u64 s entry) = 0 then
        (let (ok, s1) = allocate_new_table entry s
         in if \<not> ok then (0, s1)
            else (pa_to_va s1 (get_page_table_entry_address (load_u64 s1 entry)), s1))
      else if \<not> check_table_permissions (load_u64 s entry) perms then (0, s)
      else (pa_to_va s (get_page_table_entry_address (load_u64 s entry)), s))"

section \<open>Mapping a page\<close>

text \<open>\<^verbatim>\<open>page_desc->f = v\<close> on the page descriptor at \<open>p\<close>.\<close>

definition page_desc_put :: "virt_addr \<Rightarrow> pd_field \<Rightarrow> u64 \<Rightarrow> 'a mem_state_scheme \<Rightarrow> 'a mem_state_scheme" where
  "page_desc_put p f v s = store_u64 p (bf_set page_desc_t f v (load_u64 s p)) s"

definition set_page_desc_entry_address ::
  "virt_addr \<Rightarrow> phy_addr \<Rightarrow> 'a mem_state_scheme \<Rightarrow> 'a mem_state_scheme" where
  "set_page_desc_entry_address entry phys_addr s =
     (if entry = 0 then s
      else
        let s1 = page_desc_put entry PD_frame_addr_47_12 0 s;
            s2 = page_desc_put entry PD_frame_addr_47_12 (drop_bit PAGE_SHIFT phys_addr AND PA_47_12_MASK) s1;
            s3 = page_desc_put entry PD_frame_addr_49_48 0 s2
        in page_desc_put entry PD_frame_addr_49_48 (drop_bit PA_49_48_SHIFT phys_addr AND PA_49_48_MASK) s3)"

text \<open>The part of \<^verbatim>\<open>map_page\<close> that writes the leaf descriptor at \<open>p\<close>.\<close>

definition write_page_desc ::
  "virt_addr \<Rightarrow> phy_addr \<Rightarrow> page_permissions_t \<Rightarrow> mem_type_t \<Rightarrow> 'a mem_state_scheme \<Rightarrow> 'a mem_state_scheme" where
  "write_page_desc p pa perms mem_type s =
     (let s1 = store_u64 p 0 s;
          s2 = page_desc_put p PD_valid 1 s1;
          s3 = page_desc_put p PD_is_page 1 s2;
          s4 = set_page_desc_entry_address p pa s3;
          s5 = (if execute perms then page_desc_put p PD_pxn 0 (page_desc_put p PD_xn 0 s4)
                else page_desc_put p PD_pxn 1 (page_desc_put p PD_xn 1 s4));
          s6 = (if \<not> read perms then page_desc_put p PD_valid 0 s5
                else if write perms then
                  page_desc_put p PD_ap
                    (ap_code (if user_accessible perms then AP_PRIV_UNPRIV_RW else AP_PRIV_RW)) s5
                else
                  page_desc_put p PD_ap
                    (ap_code (if user_accessible perms then AP_PRIV_UNPRIV_RO else AP_PRIV_RO)) s5);
          s7 = page_desc_put p PD_access_flag 1 s6
      in if mem_type = DEVICE then
           page_desc_put p PD_sh (sh_code SH_NON_SHAREABLE)
             (page_desc_put p PD_attr_indx (mem_type_index DEVICE) s7)
         else
           page_desc_put p PD_sh (sh_code SH_INNER_SHAREABLE)
             (page_desc_put p PD_attr_indx (mem_type_index NORMAL) s7))"

definition map_page ::
  "virt_addr \<Rightarrow> virt_addr \<Rightarrow> phy_addr \<Rightarrow> page_permissions_t \<Rightarrow> mem_type_t
     \<Rightarrow> 'a alloc_state_scheme \<Rightarrow> bool \<times> 'a alloc_state_scheme" where
  "map_page root v_addr pa perms mem_type s =
     (if pa AND 0xFFF \<noteq> 0 \<or> v_addr AND 0xFFF \<noteq> 0 then (False, s)
      else if root = 0 then (False, s)
      else
        let idx_mask = 0x1FF;
            l0_idx = drop_bit 39 v_addr AND idx_mask;
            l1_idx = drop_bit 30 v_addr AND idx_mask;
            l2_idx = drop_bit 21 v_addr AND idx_mask;
            l3_idx = drop_bit 12 v_addr AND idx_mask;
            (level1, s1) = get_next_level_table (entry_ptr root l0_idx) perms s
        in if level1 = 0 then (False, s1)
           else
             let (level2, s2) = get_next_level_table (entry_ptr level1 l1_idx) perms s1
             in if level2 = 0 then (False, s2)
                else
                  let (level3, s3) = get_next_level_table (entry_ptr level2 l2_idx) perms s2
                  in if level3 = 0 then (False, s3)
                     else (True, write_page_desc (entry_ptr level3 l3_idx) pa perms mem_type s3))"

section \<open>Mapping regions\<close>

record memory_region_t =
  base :: phy_addr
  size :: u64

record memory_map_t =
  regions :: "memory_region_t list"
  count :: int

definition rw_perms :: page_permissions_t where
  "rw_perms = \<lparr>read = True, write = True, execute = False, user_accessible = False\<rparr>"

definition rwx_perms :: page_permissions_t where
  "rwx_perms = \<lparr>read = True, write = True, execute = True, user_accessible = False\<rparr>"

definition map_mem_region_step ::
  "phy_addr \<Rightarrow> virt_addr \<Rightarrow> 'a alloc_state_scheme \<Rightarrow> bool \<times> 'a alloc_state_scheme" where
  "map_mem_region_step cur_phy_addr root_table s =
     (let perms = (if cur_phy_addr \<ge> sym_addr s image_start \<and> cur_phy_addr < sym_addr s image_end
                   then rwx_perms else rw_perms)
      in map_page root_table (cur_phy_addr + KERNEL_BASE) cur_phy_addr perms NORMAL s)"

text \<open>
  The loop may run forever when the end address lies in the last page of the address space;
  \<open>None\<close> stands for not returning.
\<close>

partial_function (option) page_loop ::
  "(phy_addr \<Rightarrow> 's \<Rightarrow> bool \<times> 's) \<Rightarrow> phy_addr \<Rightarrow> phy_addr \<Rightarrow> 's \<Rightarrow> (bool \<times> 's) option" where
  "page_loop step cur end_addr s =
     (if cur < end_addr then
        let (ok, s') = step cur s
        in if \<not> ok then Some (False, s') else page_loop step (cur + PAGE_SIZE) end_addr s'
      else Some (True, s))"

definition map_mem_region ::
  "memory_region_t \<Rightarrow> virt_addr \<Rightarrow> 'a alloc_state_scheme \<Rightarrow> (bool \<times> 'a alloc_state_scheme) option" where
  "map_mem_region region root_table s =
     (if root_table = 0 then Some (False, s)
      else page_loop (\<lambda>cur. map_mem_region_step cur root_table)
             (base region) (base region + memory_region_t.size region) s)"

fun map_regions ::
  "memory_region_t list \<Rightarrow> virt_addr \<Rightarrow> 'a alloc_state_scheme \<Rightarrow> (bool \<times> 'a alloc_state_scheme) option" where
  "map_regions [] root s = Some (True, s)"
| "map_regions (r # rs) root s =
     (case map_mem_region r root s of
        None \<Rightarrow> None
      | Some (ok, s') \<Rightarrow> if \<not> ok then Some (False, s') else map_regions rs root s')"

text \<open>\<^verbatim>\<open>None\<close> as first argument is the null pointer.\<close>

definition setup_kernel_map ::
  "memory_map_t option \<Rightarrow> 'a alloc_state_scheme \<Rightarrow> (bool \<times> 'a alloc_state_scheme) option" where
  "setup_kernel_map mmap s =
     (case mmap of
        None \<Rightarrow> Some (False, s)
      | Some m \<Rightarrow>
          if count m = 0 then Some (False, s)
          else
            let kernel_map_root = get_kernel_map_root s;
                s1 = page_table_init kernel_map_root s
            in map_regions (take (nat (count m)) (regions m)) kernel_map_root s1)"

definition ID_MAP_SIZE :: u64 where
  "ID_MAP_SIZE = 0x6 * PAGE_SIZE"

definition setup_kernel_id_map ::
  "phy_addr \<Rightarrow> 'a alloc_state_scheme \<Rightarrow> (bool \<times> 'a alloc_state_scheme) option" where
  "setup_kernel_id_map serial_device_addr_base s =
     (let idmap_start = get_id_map_region_start s;
          (page_init_result, s1) = page_allocator_add_region idmap_start (ID_MAP_SIZE + PAGE_SIZE) False s
      in if \<not> page_init_result then Some (False, s1)
         else
           let (root_phys_addr, s2) = page_alloc 1 s1
           in if root_phys_addr = PHYS_ADDR_NULL then Some (False, s2)
              else
                let root = pa_to_va s2 root_phys_addr
                in if root \<noteq> get_id_map_root s then Some (False, s2)
                   else
                     case page_loop (\<lambda>cur. map_page root cur cur rwx_perms NORMAL)
                            (sym_addr s2 image_start) (sym_addr s2 image_end) s2 of
                       None \<Rightarrow> None
                     | Some (ok, s3) \<Rightarrow>
                         if \<not> ok then Some (False, s3)
                         else
                           let (serial_mapped, s4) =
                                 map_page (get_id_map_root s3) serial_device_addr_base
                                   serial_device_addr_base rw_perms DEVICE s3
                           in if \<not> serial_mapped then Some (False, s4)
                              else Some (True, snd (page_allocator_remove_region idmap_start s4)))"

end
