(* ===== verification/Page_Desc.thy ===== *)
theory Page_Desc
  imports Page_Table
begin

text \<open>
  The descriptor encodings: the two bit-field layouts satisfy the contract of a packed
  64-bit struct, a table descriptor carries its next-level address without loss, and the
  leaf descriptor that \<^verbatim>\<open>map_page\<close> assembles field by field is one pure value; the last theorem says
  what it grants when its bits are read by the architecture's rules.
\<close>

section \<open>The layouts are packed 64-bit structs\<close>

interpretation td: bitfield_struct table_desc_t "TYPE(64)"
proof
  show "f \<in> fst ` set table_desc_t" for f by (cases f) (simp_all add: table_desc_t_def)
qed (simp_all add: table_desc_t_def bf_size_def)

interpretation pd: bitfield_struct page_desc_t "TYPE(64)"
proof
  show "f \<in> fst ` set page_desc_t" for f by (cases f) (simp_all add: page_desc_t_def)
qed (simp_all add: page_desc_t_def bf_size_def)

interpretation gd: bitfield_struct page_table_entry_t "TYPE(64)"
proof
  show "f \<in> fst ` set page_table_entry_t" for f by (cases f) (simp_all add: page_table_entry_t_def)
qed (simp_all add: page_table_entry_t_def bf_size_def)

text \<open>The three views of an entry agree on the bits the walk looks at.\<close>

lemma entry_views:
  "bf_get page_table_entry_t GEN_valid (d :: u64) = bf_get table_desc_t TD_valid d"
  "bf_get page_table_entry_t GEN_valid d = bf_get page_desc_t PD_valid d"
  "bf_get page_table_entry_t GEN_type d = bf_get table_desc_t TD_is_table d"
  "bf_get page_table_entry_t GEN_type d = bf_get page_desc_t PD_is_page d"
  by (simp_all add: bf_get_def page_table_entry_t_def table_desc_t_def page_desc_t_def)

lemma td_valid_bit: "bf_get table_desc_t TD_valid (d :: u64) = 0 \<longleftrightarrow> \<not> bit d 0"
  by (simp add: bf_get_def table_desc_t_def take_bit_eq_mod bit_0 even_iff_mod_2_eq_zero)

section \<open>Table descriptors\<close>

lemma mask36: "x AND PA_47_12_MASK = take_bit 36 x"
  and mask2: "x AND PA_49_48_MASK = take_bit 2 x" "x AND PA_51_50_MASK = take_bit 2 x"
  by (simp_all add: PA_47_12_MASK_def PA_49_48_MASK_def PA_51_50_MASK_def take_bit_eq_mask
      mask_eq_exp_minus_1)

lemma bit_set_next_level_table:
  "bit (set_next_level_table a) n \<longleftrightarrow>
     n < 2 \<or> (8 \<le> n \<and> n < 10 \<and> bit a (42 + n)) \<or> (12 \<le> n \<and> n < 50 \<and> bit a n)"
  unfolding set_next_level_table_def set_page_table_entry_address_def Let_def mask36 mask2
  by (auto simp: bit_bf_set table_desc_t_def bit_take_bit_iff bit_drop_bit_eq bit_1_iff
      PAGE_SHIFT_def PA_49_48_SHIFT_def PA_51_50_SHIFT_def dest: bit_imp_le_length)

lemma page_aligned_bits: "page_aligned a \<longleftrightarrow> (\<forall>n < 12. \<not> bit a n)"
proof -
  have "a AND 0xFFF = take_bit 12 a" by (simp add: take_bit_eq_mask mask_eq_exp_minus_1)
  then have "page_aligned a \<longleftrightarrow> take_bit 12 a = 0" by (simp flip: and_mask12_eq_0)
  also have "\<dots> \<longleftrightarrow> (\<forall>n < 12. \<not> bit a n)" by (auto simp: bit_eq_iff bit_take_bit_iff)
  finally show ?thesis .
qed

lemma high_bits: "unat (a :: u64) < 2 ^ k \<Longrightarrow> k \<le> n \<Longrightarrow> \<not> bit a n"
proof
  assume "unat a < 2 ^ k" "k \<le> n" "bit a n"
  then have "take_bit k (unat a) = unat a" by (simp add: take_bit_nat_eq_self)
  then have "\<not> bit (unat a) n" using \<open>k \<le> n\<close> by (metis bit_take_bit_iff not_le)
  then show False using \<open>bit a n\<close> by (simp add: bit_unsigned_iff)
qed

lemma bit_get_page_table_entry_address:
  "bit d 0 \<Longrightarrow> bit (get_page_table_entry_address d) n \<longleftrightarrow>
     (12 \<le> n \<and> n < 50 \<and> bit d n) \<or> (50 \<le> n \<and> n < 52 \<and> bit d (n - 42))"
  unfolding get_page_table_entry_address_def td_valid_bit
  by (auto simp: bit_bf_get bit_or_iff bit_push_bit_iff table_desc_t_def
      PAGE_SHIFT_def PA_49_48_SHIFT_def PA_51_50_SHIFT_def)

lemma table_desc_roundtrip:
  assumes "page_aligned a" and "unat a < 2 ^ 52"
  shows "get_page_table_entry_address (set_next_level_table a) = a
    \<and> check_table_permissions (set_next_level_table a) perms"
proof
  have v: "bit (set_next_level_table a) 0" by (simp add: bit_set_next_level_table)
  show "get_page_table_entry_address (set_next_level_table a) = a"
  proof (rule bit_word_eqI)
    fix n assume "n < LENGTH(64)"
    consider "n < 12" | "12 \<le> n" "n < 50" | "50 \<le> n" "n < 52" | "52 \<le> n" by linarith
    then show "bit (get_page_table_entry_address (set_next_level_table a)) n = bit a n"
    proof cases
      case 1
      with assms(1) show ?thesis by (simp add: bit_get_page_table_entry_address [OF v] page_aligned_bits)
    next
      case 2
      then show ?thesis by (simp add: bit_get_page_table_entry_address [OF v] bit_set_next_level_table)
    next
      case 3
      then have "n = 50 \<or> n = 51" by linarith
      then show ?thesis by (auto simp: bit_get_page_table_entry_address [OF v] bit_set_next_level_table)
    next
      case 4
      with high_bits [OF assms(2) 4] show ?thesis by (simp add: bit_get_page_table_entry_address [OF v])
    qed
  qed
  have "bf_get table_desc_t TD_ap_table (set_next_level_table a) = 0"
    by (rule bit_word_eqI) (auto simp: bit_bf_get bit_set_next_level_table table_desc_t_def)
  with v show "check_table_permissions (set_next_level_table a) perms"
    by (simp add: check_table_permissions_def td_valid_bit)
qed

text \<open>
  Round trip of table descriptors: the address written by \<^verbatim>\<open>set_next_level_table\<close> is the one
  \<^verbatim>\<open>get_page_table_entry_address\<close> reads back, for every page-aligned address of the 52-bit
  physical address space, and the hierarchical permission check lets every request through.
\<close>

theorem table_descriptor_roundtrip:
  assumes "page_aligned a" and "unat a < 2 ^ 52"
  shows "get_page_table_entry_address (set_next_level_table a) = a
    \<and> check_table_permissions (set_next_level_table a) perms"
  using assms by (rule table_desc_roundtrip)

section \<open>Leaf descriptors\<close>

definition leaf_frame :: "phy_addr \<Rightarrow> u64" where
  "leaf_frame pa =
     bf_set page_desc_t PD_frame_addr_49_48 (drop_bit 48 pa)
    (bf_set page_desc_t PD_frame_addr_47_12 (drop_bit 12 pa)
    (bf_set page_desc_t PD_is_page 1 (bf_set page_desc_t PD_valid 1 0)))"

definition leaf_rights :: "page_permissions_t \<Rightarrow> u64 \<Rightarrow> u64" where
  "leaf_rights perms d =
     (let xn = (if execute perms then 0 else 1);
          d' = bf_set page_desc_t PD_pxn xn (bf_set page_desc_t PD_xn xn d)
      in if \<not> read perms then bf_set page_desc_t PD_valid 0 d'
         else bf_set page_desc_t PD_ap
           (ap_code (if write perms then (if user_accessible perms then AP_PRIV_UNPRIV_RW else AP_PRIV_RW)
                     else (if user_accessible perms then AP_PRIV_UNPRIV_RO else AP_PRIV_RO))) d')"

definition leaf_desc :: "phy_addr \<Rightarrow> page_permissions_t \<Rightarrow> mem_type_t \<Rightarrow> u64" where
  "leaf_desc pa perms mem_type =
     bf_set page_desc_t PD_sh (sh_code (if mem_type = DEVICE then SH_NON_SHAREABLE else SH_INNER_SHAREABLE))
    (bf_set page_desc_t PD_attr_indx (mem_type_index mem_type)
    (bf_set page_desc_t PD_access_flag 1 (leaf_rights perms (leaf_frame pa))))"

lemma store64_store64 [simp]: "store64 (store64 m a v) a w = store64 m a w"
  by (rule ext) (simp add: store64_apply)

lemma page_desc_put_store: "page_desc_put p f v (store_u64 p d s) = store_u64 p (bf_set page_desc_t f v d) s"
  by (simp add: page_desc_put_def load_u64_def store_u64_def va_to_pa_def)

lemma bf_set_set_same: "bf_set l f v (bf_set l f w r) = bf_set l f v r"
  by (rule bit_word_eqI) (simp add: bit_bf_set)

lemma bf_set_take_bit: "bf_set l f (take_bit (bf_width l f) v) r = bf_set l f v r"
  by (simp add: bf_set_def)

lemma write_page_desc_eq:
  assumes "p \<noteq> 0"
  shows "write_page_desc p pa perms mem_type s = store_u64 p (leaf_desc pa perms mem_type) s"
proof -
  have "bf_width page_desc_t PD_frame_addr_47_12 = 36" "bf_width page_desc_t PD_frame_addr_49_48 = 2"
    by (simp_all add: page_desc_t_def)
  then have "bf_set page_desc_t PD_frame_addr_47_12 (take_bit 36 v) r = bf_set page_desc_t PD_frame_addr_47_12 v r"
    "bf_set page_desc_t PD_frame_addr_49_48 (take_bit 2 v) r = bf_set page_desc_t PD_frame_addr_49_48 v r"
    for v r :: u64
    using bf_set_take_bit [of page_desc_t PD_frame_addr_47_12] bf_set_take_bit [of page_desc_t PD_frame_addr_49_48]
    by metis+
  then show ?thesis
    using assms
    by (cases mem_type) (simp_all add: write_page_desc_def set_page_desc_entry_address_def Let_def mask36 mask2
        PAGE_SHIFT_def PA_49_48_SHIFT_def page_desc_put_store bf_set_set_same leaf_desc_def leaf_rights_def
        leaf_frame_def)
qed

text \<open>
  The architecture's reading of a level 3 descriptor (stage 1, EL1 and EL0, 4 KB granule), by bit
  positions: the output address, and who may access and execute. Memory that EL0 may write is never
  executable at EL1. A page without the right to read at EL0 can still be executable there.
\<close>

definition leaf_output :: "u64 \<Rightarrow> phy_addr" where
  "leaf_output d = push_bit 12 (take_bit 36 (drop_bit 12 d))"

text \<open>The same with the two more bits that the layout of the source provides for.\<close>

definition output_address :: "u64 \<Rightarrow> phy_addr" where
  "output_address d = push_bit 12 (bf_get page_desc_t PD_frame_addr_47_12 d)
     OR push_bit 48 (bf_get page_desc_t PD_frame_addr_49_48 d)"

definition attr_index :: "u64 \<Rightarrow> nat" where
  "attr_index d = unat (take_bit 3 (drop_bit 2 d))"

definition el1_can_write :: "u64 \<Rightarrow> bool" where
  "el1_can_write d \<longleftrightarrow> \<not> bit d 7"

definition el0_can_read :: "u64 \<Rightarrow> bool" where
  "el0_can_read d \<longleftrightarrow> bit d 6"

definition el0_can_write :: "u64 \<Rightarrow> bool" where
  "el0_can_write d \<longleftrightarrow> bit d 6 \<and> \<not> bit d 7"

definition el1_can_execute :: "u64 \<Rightarrow> bool" where
  "el1_can_execute d \<longleftrightarrow> \<not> bit d 53 \<and> \<not> el0_can_write d"

definition el0_can_execute :: "u64 \<Rightarrow> bool" where
  "el0_can_execute d \<longleftrightarrow> \<not> bit d 54"

lemmas pd_width = arg_cong [OF page_desc_t_def, of "\<lambda>l. bf_width l f" for f]

lemma leaf_desc_fields:
  "bf_get page_desc_t PD_valid (leaf_desc pa perms mt) = (if read perms then 1 else 0)"
  "bf_get page_desc_t PD_is_page (leaf_desc pa perms mt) = 1"
  "bf_get page_desc_t PD_access_flag (leaf_desc pa perms mt) = 1"
  "bf_get page_desc_t PD_attr_indx (leaf_desc pa perms mt) = mem_type_index mt"
  "bf_get page_desc_t PD_sh (leaf_desc pa perms mt) = (if mt = DEVICE then 0 else 3)"
  "bf_get page_desc_t PD_xn (leaf_desc pa perms mt) = (if execute perms then 0 else 1)"
  "bf_get page_desc_t PD_pxn (leaf_desc pa perms mt) = (if execute perms then 0 else 1)"
  "bf_get page_desc_t PD_frame_addr_47_12 (leaf_desc pa perms mt) = take_bit 36 (drop_bit 12 pa)"
  "bf_get page_desc_t PD_frame_addr_49_48 (leaf_desc pa perms mt) = take_bit 2 (drop_bit 48 pa)"
  "read perms \<Longrightarrow> bf_get page_desc_t PD_ap (leaf_desc pa perms mt) =
     (if write perms then 0 else 2) + (if user_accessible perms then 1 else 0)"
  by (cases mt; simp add: leaf_desc_def leaf_rights_def leaf_frame_def Let_def pd_width mem_type_index_def)+

lemma load_written_desc: "p \<noteq> 0 \<Longrightarrow> load_u64 (write_page_desc p pa perms mt s) p = leaf_desc pa perms mt"
  by (simp add: write_page_desc_eq load_u64_def store_u64_def va_to_pa_def)

lemma attr_index_field: "attr_index d = unat (bf_get page_desc_t PD_attr_indx d)"
  by (simp add: attr_index_def bf_get_def page_desc_t_def numeral_2_eq_2)

lemma leaf_attr_index: "attr_index (leaf_desc pa perms mt) = (case mt of DEVICE \<Rightarrow> 0 | NORMAL \<Rightarrow> 1)"
  by (simp add: attr_index_field leaf_desc_fields mem_type_index_def split: mem_type_t.split)

lemma page_desc_bit:
  "bit d (bf_offset page_desc_t f + n) \<longleftrightarrow> bit (bf_get page_desc_t f d) n" if "n < bf_width page_desc_t f"
  using that by (simp add: bit_bf_get)

lemma written_desc_bits:
  "bit (leaf_desc pa perms mt) 0 \<longleftrightarrow> read perms" "bit (leaf_desc pa perms mt) 1" "bit (leaf_desc pa perms mt) 10"
  "bit (leaf_desc pa perms mt) 53 \<longleftrightarrow> \<not> execute perms" "bit (leaf_desc pa perms mt) 54 \<longleftrightarrow> \<not> execute perms"
  "read perms \<Longrightarrow> bit (leaf_desc pa perms mt) 6 \<longleftrightarrow> user_accessible perms"
  "read perms \<Longrightarrow> bit (leaf_desc pa perms mt) 7 \<longleftrightarrow> \<not> write perms"
proof -
  let ?d = "leaf_desc pa perms mt"
  have pos: "bit ?d 0 = bit (bf_get page_desc_t PD_valid ?d) 0" "bit ?d 1 = bit (bf_get page_desc_t PD_is_page ?d) 0"
    "bit ?d 10 = bit (bf_get page_desc_t PD_access_flag ?d) 0" "bit ?d 53 = bit (bf_get page_desc_t PD_pxn ?d) 0"
    "bit ?d 54 = bit (bf_get page_desc_t PD_xn ?d) 0" "bit ?d 6 = bit (bf_get page_desc_t PD_ap ?d) 0"
    "bit ?d 7 = bit (bf_get page_desc_t PD_ap ?d) 1"
    by (simp_all add: bit_bf_get page_desc_t_def)
  show "bit ?d 0 \<longleftrightarrow> read perms" "bit ?d 1" "bit ?d 10" "bit ?d 53 \<longleftrightarrow> \<not> execute perms" "bit ?d 54 \<longleftrightarrow> \<not> execute perms"
    "read perms \<Longrightarrow> bit ?d 6 \<longleftrightarrow> user_accessible perms" "read perms \<Longrightarrow> bit ?d 7 \<longleftrightarrow> \<not> write perms"
    by (simp_all only: pos leaf_desc_fields) simp_all
qed

lemma leaf_output_eq:
  assumes "page_aligned pa" "unat pa < 2 ^ 48"
  shows "leaf_output (leaf_desc pa perms mt) = pa"
proof -
  have "leaf_output d = push_bit 12 (bf_get page_desc_t PD_frame_addr_47_12 d)" for d
    by (simp add: leaf_output_def bf_get_def page_desc_t_def)
  then have o: "leaf_output (leaf_desc pa perms mt) = push_bit 12 (take_bit 36 (drop_bit 12 pa))"
    by (simp add: leaf_desc_fields)
  show ?thesis unfolding o
  proof (rule bit_word_eqI)
    fix n assume "n < LENGTH(64)"
    then show "bit (push_bit 12 (take_bit 36 (drop_bit 12 pa))) n = bit pa n"
      using assms(1) high_bits [OF assms(2), of n]
      by (cases "n < 12"; cases "n < 48") (auto simp: bit_push_bit_iff bit_take_bit_iff bit_drop_bit_eq page_aligned_bits)
  qed
qed

text \<open>
  C21. The leaf descriptor that \<^verbatim>\<open>map_page\<close> writes, read back from memory and by the architecture's
  rules: it is valid exactly when read permission was requested. Then it is a level 3 page that
  translates to exactly the requested frame, with the access flag set and the requested memory
  type; it may be written at EL1 exactly when write permission was requested; EL0 may read it exactly when it
  was requested as user accessible, and write it exactly when both were. Execution is not as
  requested in every case: EL0 may execute the page whenever execute was requested, also when it is not user
  accessible (the code clears UXN for kernel pages too), and EL1 may execute it unless EL0 may write it.
\<close>

theorem write_page_desc_rights:
  assumes "p \<noteq> 0" and "page_aligned pa" and "unat pa < 2 ^ 48" and "d = load_u64 (write_page_desc p pa perms mt s) p"
  shows "(bit d 0 \<longleftrightarrow> read perms)
    \<and> (read perms \<longrightarrow> bit d 1 \<and> bit d 10 \<and> leaf_output d = pa
        \<and> attr_index d = (case mt of DEVICE \<Rightarrow> 0 | NORMAL \<Rightarrow> 1)
        \<and> (el1_can_write d \<longleftrightarrow> write perms)
        \<and> (el0_can_read d \<longleftrightarrow> user_accessible perms) \<and> (el0_can_write d \<longleftrightarrow> user_accessible perms \<and> write perms)
        \<and> (el0_can_execute d \<longleftrightarrow> execute perms)
        \<and> (el1_can_execute d \<longleftrightarrow> execute perms \<and> \<not> (user_accessible perms \<and> write perms)))"
  unfolding assms(4) load_written_desc [OF assms(1)]
  by (auto simp: written_desc_bits leaf_attr_index leaf_output_eq [OF assms(2,3)] el1_can_write_def el0_can_read_def
      el0_can_write_def el0_can_execute_def el1_can_execute_def simp del: One_nat_def)

end
