(* ===== verification/Page_Table_Tree.thy ===== *)
theory Page_Table_Tree
  imports Page_Desc
begin

text \<open>
  Translation tables as trees in memory, as the table walk of the architecture sees them. A
  table is named by the path of entry indices that leads to it from the root. The invariant
  \<open>pt_tree\<close> says that different paths lead to different page-aligned tables and that every
  valid entry above level 3 is a table descriptor. The two lemmas at the end describe the
  two ways the kernel changes a tree: a new empty table is hung into an invalid entry, and
  an entry of a level 3 table is overwritten.
\<close>

section \<open>The walk\<close>

text \<open>The next-level table address as the hardware reads it (48-bit physical addresses).\<close>

definition next_table :: "u64 \<Rightarrow> phy_addr" where
  "next_table d = d AND 0x0000FFFFFFFFF000"

fun table_at :: "memory \<Rightarrow> phy_addr \<Rightarrow> u64 list \<Rightarrow> phy_addr option" where
  "table_at m t [] = Some t"
| "table_at m t (i # is) =
     (let d = load64 m (t + 8 * i) in if bit d 0 \<and> bit d 1 then table_at m (next_table d) is else None)"

definition leaf_at :: "memory \<Rightarrow> phy_addr \<Rightarrow> u64 list \<Rightarrow> u64 \<Rightarrow> u64 option" where
  "leaf_at m root p j =
     (case table_at m root p of None \<Rightarrow> None
      | Some t \<Rightarrow> (let d = load64 m (t + 8 * j) in if bit d 0 \<and> bit d 1 then Some d else None))"

definition va_path :: "virt_addr \<Rightarrow> u64 list" where
  "va_path va = [drop_bit 39 va AND 0x1FF, drop_bit 30 va AND 0x1FF, drop_bit 21 va AND 0x1FF]"

definition va_index :: "virt_addr \<Rightarrow> u64" where
  "va_index va = drop_bit 12 va AND 0x1FF"

text \<open>
  The stage 1 walk of the architecture for the 4 KB granule and 48-bit addresses, block
  descriptors included. The result is the descriptor that translates the address with its
  level, or a fault.
\<close>

datatype walk_result = Fault | Leaf nat u64

fun hw_walk :: "memory \<Rightarrow> phy_addr \<Rightarrow> nat \<Rightarrow> u64 list \<Rightarrow> walk_result" where
  "hw_walk m t l [] = Fault"
| "hw_walk m t l [i] =
     (let d = load64 m (t + 8 * i) in if bit d 0 \<and> bit d 1 then Leaf l d else Fault)"
| "hw_walk m t l (i # is) =
     (let d = load64 m (t + 8 * i)
      in if \<not> bit d 0 then Fault
         else if \<not> bit d 1 then (if l = 0 then Fault else Leaf l d)
         else hw_walk m (next_table d) (Suc l) is)"

definition translate :: "memory \<Rightarrow> phy_addr \<Rightarrow> virt_addr \<Rightarrow> walk_result" where
  "translate m root va = hw_walk m root 0 (va_path va @ [va_index va])"

lemma table_at_append:
  "table_at m t (p @ q) = (case table_at m t p of None \<Rightarrow> None | Some u \<Rightarrow> table_at m u q)"
  by (induction m t p rule: table_at.induct) (auto simp: Let_def)

section \<open>Entries\<close>

lemma entry_offset:
  assumes "page_aligned t" "i < (512 :: u64)"
  shows "unat (t + 8 * i) = unat t + 8 * unat i" "frame (t + 8 * i) = frame t" "aligned8 (t + 8 * i)"
proof -
  have i: "unat i < 512" using assms(2) by (simp add: word_less_nat_alt)
  have u: "unat (8 * i) = 8 * unat i" using i by (subst unat_mult64) simp_all
  then have lt: "unat (8 * i) < 4096" using i by simp
  show *: "unat (t + 8 * i) = unat t + 8 * unat i" "frame (t + 8 * i) = frame t"
    using frame_add [OF assms(1) lt] u by simp_all
  show "aligned8 (t + 8 * i)" using assms(1) page_aligned_unat [OF assms(1)] by (simp add: aligned8_def * mod_add_eq)
qed

lemma entry_inj:
  assumes "page_aligned t" "page_aligned u" "i < (512 :: u64)" "j < 512" "t + 8 * i = u + 8 * j"
  shows "t = u \<and> i = j"
proof -
  have "frame t = frame u" using entry_offset(2) assms by metis
  then have "t = u" by (rule page_aligned_inj [OF assms(1,2)])
  moreover from this have "unat i = unat j"
    using entry_offset(1) [OF assms(1,3)] entry_offset(1) [OF assms(2,4)] assms(5) by simp
  ultimately show ?thesis by (simp add: word_eq_iff_unsigned [where 'a = nat])
qed

lemma load_entry_store:
  assumes "page_aligned t" "page_aligned u" "i < (512 :: u64)" "j < 512"
  shows "load64 (store64 m (t + 8 * i) v) (u + 8 * j) = (if u = t \<and> j = i then v else load64 m (u + 8 * j))"
proof (cases "u = t \<and> j = i")
  case False
  then have "u + 8 * j \<noteq> t + 8 * i" using entry_inj [OF assms(2,1,4,3)] by blast
  from load_store64_other [OF entry_offset(3) [OF assms(2,4)] entry_offset(3) [OF assms(1,3)] this] False
  show ?thesis by (simp only: if_False)
qed simp

lemma load_entry_cong:
  assumes "page_aligned t" "i < (512 :: u64)" "\<And>a. frame a = frame t \<Longrightarrow> m' a = m a"
  shows "load64 m' (t + 8 * i) = load64 m (t + 8 * i)"
proof (rule load64_cong)
  fix k :: nat assume k: "k < 8"
  have i: "unat i < 512" using assms(2) by (simp add: word_less_nat_alt)
  have "unat (t + 8 * i + of_nat k) = unat t + (8 * unat i + k)"
    using aligned8_add [OF entry_offset(3) [OF assms(1,2)] k] entry_offset(1) [OF assms(1,2)] by simp
  then have "frame (t + 8 * i + of_nat k) = frame t + (8 * unat i + k) div 4096" by (rule frame_offset [OF assms(1)])
  then have "frame (t + 8 * i + of_nat k) = frame t" using i k by simp
  then show "m' (t + 8 * i + of_nat k) = m (t + 8 * i + of_nat k)" by (rule assms(3))
qed

section \<open>The invariant of a tree\<close>

definition is_path :: "u64 list \<Rightarrow> bool" where
  "is_path p \<longleftrightarrow> length p \<le> 3 \<and> (\<forall>i \<in> set p. i < 512)"

definition table_frames :: "memory \<Rightarrow> phy_addr \<Rightarrow> nat set" where
  "table_frames m root = {frame t | p t. is_path p \<and> table_at m root p = Some t}"

definition table_ok :: "phy_addr \<Rightarrow> bool" where
  "table_ok t \<longleftrightarrow> page_aligned t \<and> t \<noteq> 0 \<and> unat t < 2 ^ 48"

definition pt_tree :: "memory \<Rightarrow> phy_addr \<Rightarrow> bool" where
  "pt_tree m root \<longleftrightarrow>
     (\<forall>p t. is_path p \<and> table_at m root p = Some t \<longrightarrow> table_ok t)
     \<and> (\<forall>p q t. is_path p \<and> is_path q \<and> table_at m root p = Some t \<and> table_at m root q = Some t \<longrightarrow> p = q)
     \<and> (\<forall>p t i. is_path p \<and> length p < 3 \<and> table_at m root p = Some t \<and> i < 512
          \<and> bit (load64 m (t + 8 * i)) 0 \<longrightarrow>
          (\<exists>a. table_ok a \<and> load64 m (t + 8 * i) = set_next_level_table a))"

lemma is_path_append: "is_path (p @ q) \<Longrightarrow> is_path p"
  by (auto simp: is_path_def)

lemma pt_tree_ok: "pt_tree m root \<Longrightarrow> is_path p \<Longrightarrow> table_at m root p = Some t \<Longrightarrow> table_ok t"
  and pt_tree_inj: "pt_tree m root \<Longrightarrow> is_path p \<Longrightarrow> is_path q \<Longrightarrow> table_at m root p = Some t \<Longrightarrow>
      table_at m root q = Some t \<Longrightarrow> p = q"
  and pt_tree_entry: "pt_tree m root \<Longrightarrow> is_path p \<Longrightarrow> length p < 3 \<Longrightarrow> table_at m root p = Some t \<Longrightarrow>
      i < 512 \<Longrightarrow> bit (load64 m (t + 8 * i)) 0 \<Longrightarrow> \<exists>a. table_ok a \<and> load64 m (t + 8 * i) = set_next_level_table a"
  unfolding pt_tree_def by blast+

lemma pt_treeI:
  assumes "\<And>p t. is_path p \<Longrightarrow> table_at m root p = Some t \<Longrightarrow> table_ok t"
    and "\<And>p q t. is_path p \<Longrightarrow> is_path q \<Longrightarrow> table_at m root p = Some t \<Longrightarrow> table_at m root q = Some t \<Longrightarrow> p = q"
    and "\<And>p t i. is_path p \<Longrightarrow> length p < 3 \<Longrightarrow> table_at m root p = Some t \<Longrightarrow> i < 512 \<Longrightarrow>
      bit (load64 m (t + 8 * i)) 0 \<Longrightarrow> \<exists>a. table_ok a \<and> load64 m (t + 8 * i) = set_next_level_table a"
  shows "pt_tree m root"
  using assms unfolding pt_tree_def by blast

lemma next_table_set:
  assumes "table_ok a"
  shows "next_table (set_next_level_table a) = a"
proof (rule bit_word_eqI)
  fix n assume "n < LENGTH(64)"
  have "(0x0000FFFFFFFFF000 :: u64) = push_bit 12 (mask 36)" by (simp add: mask_eq_exp_minus_1)
  then have "bit (0x0000FFFFFFFFF000 :: u64) n \<longleftrightarrow> bit (push_bit 12 (mask 36 :: u64)) n" by (simp only:)
  also have "\<dots> \<longleftrightarrow> 12 \<le> n \<and> n < 48"
    using \<open>n < LENGTH(64)\<close> by (simp only: bit_push_bit_iff bit_mask_iff) auto
  finally have "bit (0x0000FFFFFFFFF000 :: u64) n \<longleftrightarrow> 12 \<le> n \<and> n < 48" .
  then show "bit (next_table (set_next_level_table a)) n = bit a n"
    using assms high_bits [of a 48 n]
    by (auto simp: next_table_def bit_and_iff bit_set_next_level_table table_ok_def page_aligned_bits not_le)
qed

text \<open>Without block descriptors the hardware walk is the walk along tables.\<close>

lemma hw_walk_leaf_at:
  assumes tree: "pt_tree m root" and p: "is_path p" "length p = 3" and j: "j < 512"
  shows "hw_walk m root 0 (p @ [j]) = (case leaf_at m root p j of None \<Rightarrow> Fault | Some d \<Rightarrow> Leaf 3 d)"
proof -
  have *: "is_path (q @ r) \<Longrightarrow> length (q @ r) = 3 \<Longrightarrow> table_at m root q = Some t \<Longrightarrow>
      hw_walk m t (length q) (r @ [j]) = (case leaf_at m t r j of None \<Rightarrow> Fault | Some d \<Rightarrow> Leaf 3 d)" for q r t
  proof (induction r arbitrary: q t)
    case Nil
    then show ?case by (simp add: leaf_at_def Let_def)
  next
    case (Cons i r)
    let ?d = "load64 m (t + 8 * i)"
    have q: "is_path q" "length q < 3" "i < 512" using Cons.prems by (auto simp: is_path_def)
    obtain k ks where r: "r @ [j] = k # ks" by (cases "r @ [j]") auto
    show ?case
    proof (cases "bit ?d 0")
      case False
      then show ?thesis by (simp add: r leaf_at_def Let_def)
    next
      case True
      then obtain a where a: "?d = set_next_level_table a"
        using pt_tree_entry [OF tree q(1,2) Cons.prems(3) q(3)] by blast
      then have b1: "bit ?d 1" by (simp add: bit_set_next_level_table)
      have "table_at m root (q @ [i]) = Some (next_table ?d)"
        using Cons.prems(3) True b1 by (simp add: table_at_append)
      with Cons.IH [of "q @ [i]" "next_table ?d"] Cons.prems(1,2) True b1 show ?thesis
        by (simp add: r leaf_at_def Let_def)
    qed
  qed
  from * [of "[]" p root] p show ?thesis by simp
qed

section \<open>Changing a tree\<close>

text \<open>A path is unaffected when no entry on the way changes.\<close>

lemma table_at_cong:
  assumes "\<And>p i r t. q = p @ i # r \<Longrightarrow> table_at m root p = Some t \<Longrightarrow> load64 m' (t + 8 * i) = load64 m (t + 8 * i)"
  shows "table_at m' root q = table_at m root q"
  using assms
proof (induction q rule: rev_induct)
  case (snoc j q)
  have IH: "table_at m' root q = table_at m root q"
    by (rule snoc.IH) (rule snoc.prems, simp_all)
  show ?case
  proof (cases "table_at m root q")
    case (Some t)
    with snoc.prems [of q j "[]" t] IH show ?thesis by (simp add: table_at_append Let_def)
  qed (simp add: table_at_append IH)
qed simp

lemma table_at_frames:
  assumes tree: "pt_tree m root" and q: "is_path q"
    and eq: "\<And>a. frame a \<in> table_frames m root \<Longrightarrow> m' a = m a"
  shows "table_at m' root q = table_at m root q"
proof (rule table_at_cong)
  fix p i r t assume "q = p @ i # r" and t: "table_at m root p = Some t"
  then have p: "is_path p" "i < 512" using q by (auto simp: is_path_def)
  show "load64 m' (t + 8 * i) = load64 m (t + 8 * i)"
    using pt_tree_ok [OF tree p(1) t] p t eq
    by (intro load_entry_cong) (auto simp: table_ok_def table_frames_def)
qed

lemma table_frames_cong:
  assumes "\<And>q. is_path q \<Longrightarrow> table_at m' root q = table_at m root q"
  shows "table_frames m' root = table_frames m root"
proof -
  have "(is_path q \<and> table_at m' root q = Some t) \<longleftrightarrow> (is_path q \<and> table_at m root q = Some t)" for q t
    using assms by auto
  then show ?thesis by (simp add: table_frames_def)
qed

text \<open>Memory outside the tables does not matter.\<close>

lemma tree_frames:
  assumes tree: "pt_tree m root" and eq: "\<And>a. frame a \<in> table_frames m root \<Longrightarrow> m' a = m a"
  shows "pt_tree m' root" "table_frames m' root = table_frames m root"
    and "is_path p \<Longrightarrow> j < 512 \<Longrightarrow> leaf_at m' root p j = leaf_at m root p j"
proof -
  have at: "table_at m' root q = table_at m root q" if "is_path q" for q by (rule table_at_frames [OF tree that eq])
  have ld: "load64 m' (t + 8 * i) = load64 m (t + 8 * i)"
    if "is_path q" "table_at m root q = Some t" "i < 512" for q t i
    using pt_tree_ok [OF tree that(1,2)] that eq
    by (intro load_entry_cong) (auto simp: table_ok_def table_frames_def)
  show "table_frames m' root = table_frames m root" by (rule table_frames_cong [OF at])
  show "pt_tree m' root"
  proof (rule pt_treeI)
    show "table_ok u" if "is_path q" "table_at m' root q = Some u" for q u
      using pt_tree_ok [OF tree that(1)] that at by simp
    show "q = r" if "is_path q" "is_path r" "table_at m' root q = Some u" "table_at m' root r = Some u" for q r u
      using pt_tree_inj [OF tree that(1,2)] that at by simp
    show "\<exists>a. table_ok a \<and> load64 m' (u + 8 * j) = set_next_level_table a"
      if "is_path q" "length q < 3" "table_at m' root q = Some u" "j < 512" "bit (load64 m' (u + 8 * j)) 0" for q u j
      using pt_tree_entry [OF tree that(1,2) _ that(4)] that at [OF that(1)] ld [OF that(1) _ that(4)] by auto
  qed
  show "leaf_at m' root p j = leaf_at m root p j" if "is_path p" "j < 512"
    using at [OF that(1)] ld [OF that(1) _ that(2)] by (auto simp: leaf_at_def split: option.split)
qed

lemma table_at_store:
  assumes tree: "pt_tree m root" and p: "is_path p" "table_at m root p = Some t" and i: "i < 512"
    and q: "is_path q" "\<nexists>r. q = p @ i # r"
  shows "table_at (store64 m (t + 8 * i) v) root q = table_at m root q"
proof (rule table_at_cong)
  fix p' j r u assume q': "q = p' @ j # r" and u: "table_at m root p' = Some u"
  have p': "is_path p'" "j < 512" using q' q(1) by (auto simp: is_path_def)
  have "\<not> (u = t \<and> j = i)" using pt_tree_inj [OF tree p'(1) p(1) u] p(2) q(2) q' by blast
  then show "load64 (store64 m (t + 8 * i) v) (u + 8 * j) = load64 m (u + 8 * j)"
    using pt_tree_ok [OF tree p] pt_tree_ok [OF tree p'(1) u] i p'(2)
    by (subst load_entry_store) (auto simp: table_ok_def)
qed

text \<open>Overwriting an entry of a level 3 table.\<close>

lemma tree_put_leaf:
  assumes tree: "pt_tree m root" and p: "is_path p" "length p = 3" "table_at m root p = Some t" and i: "i < 512"
    and m': "m' = store64 m (t + 8 * i) d"
  shows "pt_tree m' root" "table_frames m' root = table_frames m root"
    and "\<And>q. is_path q \<Longrightarrow> table_at m' root q = table_at m root q"
    and "\<And>q j. is_path q \<Longrightarrow> length q = 3 \<Longrightarrow> j < 512 \<Longrightarrow> leaf_at m' root q j =
       (if q = p \<and> j = i then (if bit d 0 \<and> bit d 1 then Some d else None) else leaf_at m root q j)"
proof -
  have at: "table_at m' root q = table_at m root q" if "is_path q" for q
    unfolding m' using that p(2) by (intro table_at_store [OF tree p(1,3) i]) (auto simp: is_path_def)
  then show "\<And>q. is_path q \<Longrightarrow> table_at m' root q = table_at m root q" .
  show "table_frames m' root = table_frames m root" by (rule table_frames_cong [OF at])
  have ld: "load64 m' (u + 8 * j) = (if q = p \<and> j = i then d else load64 m (u + 8 * j))"
    if "is_path q" "table_at m root q = Some u" "j < 512" for q u j
    using pt_tree_ok [OF tree p(1,3)] pt_tree_ok [OF tree that(1,2)] i that pt_tree_inj [OF tree that(1) p(1)] p(3)
    unfolding m' by (subst load_entry_store) (auto simp: table_ok_def)
  show "pt_tree m' root"
  proof (rule pt_treeI)
    show "table_ok u" if "is_path q" "table_at m' root q = Some u" for q u
      using pt_tree_ok [OF tree that(1)] that at by simp
    show "q = r" if "is_path q" "is_path r" "table_at m' root q = Some u" "table_at m' root r = Some u" for q r u
      using pt_tree_inj [OF tree that(1,2)] that at by simp
    show "\<exists>a. table_ok a \<and> load64 m' (u + 8 * j) = set_next_level_table a"
      if "is_path q" "length q < 3" "table_at m' root q = Some u" "j < 512" "bit (load64 m' (u + 8 * j)) 0" for q u j
      using pt_tree_entry [OF tree that(1,2) _ that(4)] that at [OF that(1)] ld [OF that(1) _ that(4)] p(2) by auto
  qed
  show "leaf_at m' root q j = (if q = p \<and> j = i then (if bit d 0 \<and> bit d 1 then Some d else None) else leaf_at m root q j)"
    if "is_path q" "length q = 3" "j < 512" for q j
    using at [OF that(1)] ld [OF that(1) _ that(3)] p(3) by (auto simp: leaf_at_def Let_def split: option.split)
qed

text \<open>Hanging a new empty table into an invalid entry above level 3.\<close>

lemma tree_grow:
  assumes tree: "pt_tree m root" and p: "is_path p" "length p < 3" "table_at m root p = Some t" and i: "i < 512"
    and inval: "\<not> bit (load64 m (t + 8 * i)) 0"
    and n: "table_ok n" "frame n \<notin> table_frames m root" "\<And>j. j < 512 \<Longrightarrow> load64 m (n + 8 * j) = 0"
    and m': "m' = store64 m (t + 8 * i) (set_next_level_table n)"
  shows "pt_tree m' root" "table_frames m' root = insert (frame n) (table_frames m root)"
    and "\<And>q. is_path q \<Longrightarrow> table_at m' root q = (if q = p @ [i] then Some n else table_at m root q)"
    and "\<And>q j. is_path q \<Longrightarrow> length q = 3 \<Longrightarrow> j < 512 \<Longrightarrow> leaf_at m' root q j = leaf_at m root q j"
proof -
  have tok: "table_ok t" by (rule pt_tree_ok [OF tree p(1,3)])
  have pi: "is_path (p @ [i])" using p(1,2) i by (auto simp: is_path_def)
  have fresh: "u \<noteq> n" if "is_path q" "table_at m root q = Some u" for q u
    using n(2) that by (auto simp: table_frames_def)
  have none: "table_at m root (p @ i # r) = None" for r using inval p(3) by (simp add: table_at_append Let_def)
  have ld: "load64 m' (u + 8 * j) = (if q = p \<and> j = i then set_next_level_table n else load64 m (u + 8 * j))"
    if "is_path q" "table_at m root q = Some u" "j < 512" for q u j
    using tok pt_tree_ok [OF tree that(1,2)] i that pt_tree_inj [OF tree that(1) p(1)] p(3)
    unfolding m' by (subst load_entry_store) (auto simp: table_ok_def)
  have ldn: "load64 m' (n + 8 * j) = 0" if "j < 512" for j
    using tok n(1,3) i that fresh [OF p(1,3)] unfolding m' by (subst load_entry_store) (auto simp: table_ok_def)
  have atp: "table_at m' root p = Some t"
    unfolding m' using p(3) table_at_store [OF tree p(1,3) i p(1), of "set_next_level_table n"] by simp
  have atn: "table_at m' root (p @ [i]) = Some n"
    using atp ld [OF p(1,3) i] next_table_set [OF n(1)] by (simp add: table_at_append bit_set_next_level_table Let_def)
  show at: "table_at m' root q = (if q = p @ [i] then Some n else table_at m root q)" if q: "is_path q" for q
  proof (cases "\<exists>r. q = p @ i # r")
    case True
    then obtain r where r: "q = p @ i # r" by blast
    show ?thesis
    proof (cases r)
      case Nil
      then show ?thesis using atn r by simp
    next
      case (Cons j r')
      then have "j < 512" using q r by (auto simp: is_path_def)
      have "table_at m' root q = table_at m' n r" using atn table_at_append [of m' root "p @ [i]" r] by (simp add: r)
      also have "\<dots> = None" using ldn [OF \<open>j < 512\<close>] by (simp add: Cons)
      finally show ?thesis using none [of r] Cons by (simp add: r)
    qed
  next
    case False
    then show ?thesis unfolding m' using table_at_store [OF tree p(1,3) i q] by auto
  qed
  show "table_frames m' root = insert (frame n) (table_frames m root)"
  proof -
    have "(is_path q \<and> table_at m' root q = Some u) \<longleftrightarrow>
        (q = p @ [i] \<and> u = n) \<or> (is_path q \<and> table_at m root q = Some u)" for q u
      using at none [of "[]"] pi by (auto split: if_splits)
    then show ?thesis by (auto simp: table_frames_def)
  qed
  show "leaf_at m' root q j = leaf_at m root q j" if "is_path q" "length q = 3" "j < 512" for q j
  proof (cases "q = p @ [i]")
    case True
    then show ?thesis using atn ldn [OF that(3)] none [of "[]"] by (simp add: leaf_at_def)
  next
    case False
    moreover have "q \<noteq> p" using that(2) p(2) by auto
    ultimately show ?thesis using at [OF that(1)] ld [OF that(1) _ that(3)]
      by (auto simp: leaf_at_def split: option.split)
  qed
  show "pt_tree m' root"
  proof (rule pt_treeI)
    show "table_ok u" if "is_path q" "table_at m' root q = Some u" for q u
      using pt_tree_ok [OF tree that(1)] that at [OF that(1)] n(1) by (auto split: if_splits)
    show "q = r" if "is_path q" "is_path r" "table_at m' root q = Some u" "table_at m' root r = Some u" for q r u
      using pt_tree_inj [OF tree that(1,2)] that at fresh by (metis option.inject)
    show "\<exists>a. table_ok a \<and> load64 m' (u + 8 * j) = set_next_level_table a"
      if "is_path q" "length q < 3" "table_at m' root q = Some u" "j < 512" "bit (load64 m' (u + 8 * j)) 0" for q u j
    proof (cases "q = p @ [i]")
      case True
      then show ?thesis using that atn ldn by auto
    next
      case False
      then have "table_at m root q = Some u" using at [OF that(1)] that(3) by simp
      then show ?thesis
        using pt_tree_entry [OF tree that(1,2) _ that(4)] that(5) ld [OF that(1) _ that(4)] n(1) by auto
    qed
  qed
qed

end
