(* ===== verification/Bitmap.thy ===== *)
theory Bitmap
  imports Page_Allocator
begin

text \<open>
  The bitmap of a chunk as a vector of bits. The locale \<open>bit_vector\<close> is the contract between
  the byte operations on the bitmap and the loops of the allocator: setting or clearing one
  bit changes the test of that bit only. Its lemmas describe the marking loops of
  \<^verbatim>\<open>reserve_page_chunk\<close>, \<^verbatim>\<open>page_alloc_chunk\<close> and \<^verbatim>\<open>page_free_chunk\<close>; the interpretation at the
  end of the section discharges the contract for the byte operations in memory.
\<close>

section \<open>The contract\<close>

locale bit_vector =
  fixes test :: "nat \<Rightarrow> 's \<Rightarrow> bool"
    and set1 :: "u64 \<Rightarrow> 's \<Rightarrow> 's"
    and clear1 :: "u64 \<Rightarrow> 's \<Rightarrow> 's"
  assumes test_set1: "j < 2 ^ 64 \<Longrightarrow> test j (set1 i s) \<longleftrightarrow> j = unat i \<or> test j s"
    and test_clear1: "j < 2 ^ 64 \<Longrightarrow> test j (clear1 i s) \<longleftrightarrow> j \<noteq> unat i \<and> test j s"
begin

lemma test_fold_set:
  "j < 2 ^ 64 \<Longrightarrow> test j (fold set1 is s) \<longleftrightarrow> j \<in> unat ` set is \<or> test j s"
  by (induction "is" arbitrary: s) (auto simp: test_set1)

lemma test_fold_clear:
  "j < 2 ^ 64 \<Longrightarrow> test j (fold clear1 is s) \<longleftrightarrow> j \<notin> unat ` set is \<and> test j s"
  by (induction "is" arbitrary: s) (auto simp: test_clear1)

text \<open>Clearing a range that was clear before it was set restores every test.\<close>

lemma fold_clear_set:
  assumes "\<forall>i \<in> set is. \<not> test (unat i) s" and "j < 2 ^ 64"
  shows "test j (fold clear1 is (fold set1 is s)) \<longleftrightarrow> test j s"
  using assms by (auto simp: test_fold_set test_fold_clear)

end

section \<open>Bits of a chunk's bitmap\<close>

definition page_used :: "memory_chunk_t \<Rightarrow> nat \<Rightarrow> 'a mem_state_scheme \<Rightarrow> bool" where
  "page_used c i s \<longleftrightarrow> bit (mem s (va_to_pa s (bitmap c) + of_nat (i div 8))) (i mod 8)"

lemma unat_mod8: "unat (i mod 8 :: u64) = unat i mod 8" and unat_div8: "unat (i div 8 :: u64) = unat i div 8"
  by (simp_all add: unat_mod64 unat_div64)

lemma div8_word: "(i div 8 :: u64) = of_nat (unat i div 8)"
  by (simp add: unat_div8 [symmetric])

lemma byte_and_pow: "(b AND 2 ^ k \<noteq> 0) \<longleftrightarrow> bit (b :: u8) k"
  by (simp add: and_exp_eq_0_iff_not_bit)

lemma bitmap_test_used: "bitmap_test c i s \<longleftrightarrow> page_used c (unat i) s"
  by (simp add: bitmap_test_def page_used_def byte_and_pow load_byte_def va_to_pa_add
      unat_mod8 div8_word)

lemma bitmap_byte_inj:
  "i < 2 ^ 64 \<Longrightarrow> j < 2 ^ 64 \<Longrightarrow> (of_nat (i div 8) :: u64) = of_nat (j div 8) \<longleftrightarrow> i div 8 = j div 8"
  by (intro of_nat_eq64) simp_all

lemma page_used_bitmap_set:
  assumes "j < 2 ^ 64"
  shows "page_used c j (bitmap_set c i s) \<longleftrightarrow> j = unat i \<or> page_used c j s"
proof (cases "j div 8 = unat i div 8")
  case True
  then have "j = unat i \<longleftrightarrow> j mod 8 = unat i mod 8" by (metis div_mult_mod_eq)
  with True show ?thesis
    by (simp add: page_used_def bitmap_set_def load_byte_def va_to_pa_add unat_mod8 div8_word
        bit_or_iff bit_exp_iff) auto
next
  case False
  with assms show ?thesis
    by (auto simp: page_used_def bitmap_set_def va_to_pa_add div8_word bitmap_byte_inj [OF _ unat_lt64])
qed

lemma page_used_bitmap_clear:
  assumes "j < 2 ^ 64"
  shows "page_used c j (bitmap_clear c i s) \<longleftrightarrow> j \<noteq> unat i \<and> page_used c j s"
proof (cases "j div 8 = unat i div 8")
  case True
  then have "j = unat i \<longleftrightarrow> j mod 8 = unat i mod 8" by (metis div_mult_mod_eq)
  with True show ?thesis
    by (simp add: page_used_def bitmap_clear_def load_byte_def va_to_pa_add unat_mod8 div8_word
        bit_and_iff bit_not_iff bit_exp_iff) auto
next
  case False
  with assms show ?thesis
    by (auto simp: page_used_def bitmap_clear_def va_to_pa_add div8_word bitmap_byte_inj [OF _ unat_lt64])
qed

interpretation bm: bit_vector "page_used c" "bitmap_set c" "bitmap_clear c"
  by unfold_locales (simp_all add: page_used_bitmap_set page_used_bitmap_clear)

section \<open>Frame of the bitmap loops\<close>

text \<open>Only memory changes, and in it only bytes of the addressed bitmap.\<close>

lemma bitmap_set_mem: "bitmap_set c i s = s\<lparr>mem := mem (bitmap_set c i s)\<rparr>"
  and bitmap_clear_mem: "bitmap_clear c i s = s\<lparr>mem := mem (bitmap_clear c i s)\<rparr>"
  by (simp_all add: bitmap_set_def bitmap_clear_def store_byte_def)

lemma fold_mem_only:
  fixes s :: "'a mem_state_scheme"
  assumes "\<And>i s. f i s = s\<lparr>mem := mem (f i (s :: 'a mem_state_scheme))\<rparr>"
  shows "fold f is s = s\<lparr>mem := mem (fold f is s)\<rparr>"
proof (induction "is" arbitrary: s)
  case Nil
  then show ?case by simp
next
  case (Cons i "is")
  have "fold f (i # is) s = (f i s)\<lparr>mem := mem (fold f is (f i s))\<rparr>"
    using Cons [of "f i s"] by simp
  also have "\<dots> = s\<lparr>mem := mem (fold f is (f i s))\<rparr>"
    by (subst assms) simp
  finally show ?case by simp
qed

lemmas fold_bitmap_set_mem = fold_mem_only [of "bitmap_set c" for c, OF bitmap_set_mem]
lemmas fold_bitmap_clear_mem = fold_mem_only [of "bitmap_clear c" for c, OF bitmap_clear_mem]

lemma va_to_pa_mem_upd [simp]: "va_to_pa (s\<lparr>mem := m\<rparr>) = va_to_pa s"
  and pa_to_va_mem_upd [simp]: "pa_to_va (s\<lparr>mem := m\<rparr>) = pa_to_va s"
  and sym_addr_mem_upd [simp]: "sym_addr (s\<lparr>mem := m\<rparr>) = sym_addr s"
  by (simp_all add: va_to_pa_def pa_to_va_def sym_addr_def fun_eq_iff)

lemma va_to_pa_fold_set [simp]: "va_to_pa (fold (bitmap_set c) is s) = va_to_pa s"
  by (subst fold_bitmap_set_mem) simp

lemma va_to_pa_fold_clear [simp]: "va_to_pa (fold (bitmap_clear c) is s) = va_to_pa s"
  by (subst fold_bitmap_clear_mem) simp

lemma va_to_pa_bitmap_ops [simp]:
  "va_to_pa (bitmap_set c i s) = va_to_pa s" "va_to_pa (bitmap_clear c i s) = va_to_pa s"
  by (simp_all add: bitmap_set_def bitmap_clear_def)

lemma mem_fold_bitmap_set:
  "(\<And>i. i \<in> set is \<Longrightarrow> a \<noteq> va_to_pa s (bitmap c) + i div 8) \<Longrightarrow>
   mem (fold (bitmap_set c) is s) a = mem s a"
  by (induction "is" arbitrary: s) (auto simp: bitmap_set_def va_to_pa_add)

lemma mem_fold_bitmap_clear:
  "(\<And>i. i \<in> set is \<Longrightarrow> a \<noteq> va_to_pa s (bitmap c) + i div 8) \<Longrightarrow>
   mem (fold (bitmap_clear c) is s) a = mem s a"
  by (induction "is" arbitrary: s) (auto simp: bitmap_clear_def va_to_pa_add)

lemma page_used_cong:
  assumes "va_to_pa s (bitmap c) = va_to_pa s' (bitmap c)"
    and "mem s (va_to_pa s (bitmap c) + of_nat (i div 8)) = mem s' (va_to_pa s (bitmap c) + of_nat (i div 8))"
  shows "page_used c i s = page_used c i s'"
  using assms by (simp add: page_used_def)

section \<open>The scan for a run of free pages\<close>

lemma has_free_run_scan:
  "has_free_run c n s is cf \<longleftrightarrow> page_alloc_scan c n s is cf si \<noteq> None"
  by (induction "is" arbitrary: cf si) (auto simp: Let_def)

text \<open>
  \<open>free_run c s T n b\<close>: the pages \<open>b, \<dots>, b + n - 1\<close> lie below \<open>T\<close> and are free.
\<close>

definition free_run :: "memory_chunk_t \<Rightarrow> 'a mem_state_scheme \<Rightarrow> nat \<Rightarrow> nat \<Rightarrow> nat \<Rightarrow> bool" where
  "free_run c s T n b \<longleftrightarrow> b + n \<le> T \<and> (\<forall>j \<in> {b ..< b + n}. \<not> page_used c j s)"

lemma free_run_Suc_used:
  assumes "page_used c a s" "0 < N" "\<forall>b. \<not> free_run c s a N b"
  shows "\<not> free_run c s (Suc a) N b"
proof
  assume fr: "free_run c s (Suc a) N b"
  then have "a \<notin> {b ..< b + N}" using assms(1) by (auto simp: free_run_def)
  then have "b + N \<le> a" using fr assms(2) by (auto simp: free_run_def)
  with fr assms(3) show False by (auto simp: free_run_def)
qed

lemma free_run_Suc_short:
  assumes "Suc k < N" "k = a \<or> page_used c (a - k - 1) s" "\<forall>b. \<not> free_run c s a N b"
  shows "\<not> free_run c s (Suc a) N b"
proof
  assume fr: "free_run c s (Suc a) N b"
  then have eq: "b + N = Suc a"
    using assms(3) by (cases "b + N \<le> a") (auto simp: free_run_def)
  then have lt: "b < a - k" using assms(1) by simp
  then have "page_used c (a - k - 1) s" using assms(2) by auto
  moreover have "a - k - 1 \<in> {b ..< b + N}" using lt eq by auto
  ultimately show False using fr by (auto simp: free_run_def)
qed

text \<open>
  The loop invariant of the scan at counter value \<open>a\<close>: \<open>k\<close> pages before \<open>a\<close> are free and form
  a maximal run, and no run of the requested length ends at or before \<open>a\<close>. The result is the
  lowest run, or \<open>None\<close> when there is none.
\<close>

definition scan_inv :: "memory_chunk_t \<Rightarrow> 'a mem_state_scheme \<Rightarrow> nat \<Rightarrow> nat \<Rightarrow> nat \<Rightarrow> u64 \<Rightarrow> bool" where
  "scan_inv c s N a k si \<longleftrightarrow>
     k \<le> a \<and> k < N \<and> (\<forall>j \<in> {a - k ..< a}. \<not> page_used c j s) \<and> (0 < k \<longrightarrow> si = of_nat (a - k))
     \<and> (k = a \<or> page_used c (a - k - 1) s) \<and> (\<forall>b. \<not> free_run c s a N b)"

definition scan_post :: "memory_chunk_t \<Rightarrow> 'a mem_state_scheme \<Rightarrow> nat \<Rightarrow> nat \<Rightarrow> u64 option \<Rightarrow> bool" where
  "scan_post c s T N res =
     (case res of None \<Rightarrow> \<forall>b. \<not> free_run c s T N b
      | Some r \<Rightarrow> free_run c s T N (unat r) \<and> (\<forall>b < unat r. \<not> free_run c s T N b))"

lemma scan_inv_used:
  "scan_inv c s N a k si \<Longrightarrow> page_used c a s \<Longrightarrow> scan_inv c s N (Suc a) 0 si"
  using free_run_Suc_used [of c a s N] by (auto simp: scan_inv_def)

lemma scan_inv_free:
  assumes inv: "scan_inv c s N a k si" and free: "\<not> page_used c a s" and "Suc k \<noteq> N"
  shows "scan_inv c s N (Suc a) (Suc k) (of_nat (a - k))"
proof -
  have "\<forall>j \<in> {a - k ..< Suc a}. \<not> page_used c j s"
    using inv free by (auto simp: scan_inv_def less_Suc_eq)
  moreover have "\<not> free_run c s (Suc a) N b" for b
    using inv assms(3) by (intro free_run_Suc_short [of k]) (auto simp: scan_inv_def)
  ultimately show ?thesis using inv assms(3) by (auto simp: scan_inv_def)
qed

lemma scan_inv_done:
  assumes inv: "scan_inv c s N a k si" and free: "\<not> page_used c a s" and k: "Suc k = N"
    and T: "a < T" "T < 2 ^ 64"
  shows "scan_post c s T N (Some (of_nat (a - k)))"
proof -
  have "unat (of_nat (a - k) :: u64) = a - k" using T by (intro unat_of_nat64) simp
  moreover have "free_run c s T N (a - k)"
    using inv free k T(1) by (auto simp: scan_inv_def free_run_def less_Suc_eq)
  moreover have "\<not> free_run c s T N b" if "b < a - k" for b
    using inv k that by (auto simp: scan_inv_def free_run_def)
  ultimately show ?thesis by (simp add: scan_post_def)
qed

lemma page_alloc_scan_run:
  assumes "a \<le> T" "T < 2 ^ 64" "scan_inv c s (unat n) a k si"
  shows "scan_post c s T (unat n) (page_alloc_scan c n s (map of_nat [a ..< T]) (of_nat k) si)"
  using assms
proof (induction "T - a" arbitrary: a k si)
  case 0
  then show ?case by (simp add: scan_inv_def scan_post_def)
next
  case (Suc d)
  from Suc.hyps(2) have aT: "a < T" and d: "d = T - Suc a" by simp_all
  then have upt: "[a ..< T] = a # [Suc a ..< T]" by (simp add: upt_conv_Cons)
  have used: "bitmap_test c (of_nat a) s = page_used c a s"
    using aT Suc.prems(2) by (simp add: bitmap_test_used unat_of_nat64)
  have k64: "Suc k < 2 ^ 64" using Suc.prems(3) unat_lt64 [of n] by (simp add: scan_inv_def)
  have k0: "(of_nat k :: u64) = 0 \<longleftrightarrow> k = 0" using k64 of_nat_eq64 [of k 0] by simp
  have si: "(if (of_nat k :: u64) = 0 then of_nat a else si) = of_nat (a - k)"
    using Suc.prems(3) by (simp add: k0 scan_inv_def)
  have kn: "(1 + of_nat k = n) \<longleftrightarrow> Suc k = unat n"
    using unat_of_nat64 [OF k64] by (simp add: word_eq_iff_unsigned [where 'a = nat])
  show ?case
  proof (cases "page_used c a s")
    case True
    have "scan_post c s T (unat n) (page_alloc_scan c n s (map of_nat [Suc a ..< T]) (of_nat 0) si)"
      using Suc.hyps(1) [OF d] Suc.prems(2,3) aT True scan_inv_used by (metis Suc_leI)
    with True show ?thesis by (simp add: upt used)
  next
    case free: False
    show ?thesis
    proof (cases "Suc k = unat n")
      case True
      then show ?thesis
        using scan_inv_done [OF Suc.prems(3) free True aT Suc.prems(2)]
        by (simp add: upt used free kn si Let_def add.commute)
    next
      case False
      have "scan_post c s T (unat n)
              (page_alloc_scan c n s (map of_nat [Suc a ..< T]) (of_nat (Suc k)) (of_nat (a - k)))"
        using Suc.hyps(1) [OF d] Suc.prems(2,3) aT scan_inv_free [OF Suc.prems(3) free False]
        by (metis Suc_leI)
      with False show ?thesis by (simp add: upt used free kn si Let_def add.commute)
    qed
  qed
qed

text \<open>The scan of a whole chunk finds the lowest free run, and reports failure only without one.\<close>

lemma page_alloc_scan_first_fit:
  assumes "n \<noteq> 0"
  shows "scan_post c s (unat T) (unat n) (page_alloc_scan c n s (for_range 0 T) 0 0)"
proof -
  have "0 < unat n" using assms by (simp add: unat_gt_0)
  then have "scan_inv c s (unat n) 0 0 0" by (auto simp: scan_inv_def free_run_def)
  from page_alloc_scan_run [OF _ unat_lt64 this, of T] show ?thesis by (simp add: for_range_def)
qed

end
