(* ===== verification/Page_Allocator_Inv.thy ===== *)
theory Page_Allocator_Inv
  imports Bitmap
begin

text \<open>
  The invariant of the page allocator and the view of its state as a set of used frames.
  A frame is a physical address divided by the page size. The lemmas at the end reduce every
  operation to its effect on the bits of one chunk: an update that stays inside the bitmap of
  a chunk changes the used frames of that chunk only, and keeps the invariant as long as the
  pages of the bitmap itself stay marked.
\<close>

section \<open>Invariant\<close>

definition chunk_frames :: "memory_chunk_t \<Rightarrow> nat set" where
  "chunk_frames c = {frame (mem_base c) ..< frame (mem_base c) + unat (total_pages c)}"

text \<open>Number of pages that hold the bitmap, as \<^verbatim>\<open>page_init_chunk\<close> reserves them.\<close>

definition bitmap_page_count :: "memory_chunk_t \<Rightarrow> nat" where
  "bitmap_page_count c = ((unat (total_pages c) + 7) div 8 + 4095) div 4096"

definition bitmap_frames :: "memory_chunk_t \<Rightarrow> nat set" where
  "bitmap_frames c = {frame (mem_base c) ..< frame (mem_base c) + bitmap_page_count c}"

definition chunk_shape :: "memory_chunk_t \<Rightarrow> 'a mem_state_scheme \<Rightarrow> bool" where
  "chunk_shape c s \<longleftrightarrow>
     mem_base c \<noteq> 0 \<and> page_aligned (mem_base c) \<and> total_pages c \<noteq> 0
     \<and> unat (mem_base c) + unat (total_pages c) * 4096 < 2 ^ 64
     \<and> bitmap c = pa_to_va s (mem_base c) \<and> bitmap c \<noteq> 0"

definition bitmap_marked :: "memory_chunk_t \<Rightarrow> 'a mem_state_scheme \<Rightarrow> bool" where
  "bitmap_marked c s \<longleftrightarrow> (\<forall>i < bitmap_page_count c. page_used c i s)"

definition inits :: "'a alloc_state_scheme \<Rightarrow> nat set" where
  "inits s = {i. i < length (mem_chunks s) \<and> initialized (mem_chunks s ! i)}"

definition alloc_inv :: "'a alloc_state_scheme \<Rightarrow> bool" where
  "alloc_inv s \<longleftrightarrow>
     length (mem_chunks s) = MAX_MEM_CHUNKS
     \<and> (\<forall>i \<in> inits s. chunk_shape (mem_chunks s ! i) s \<and> bitmap_marked (mem_chunks s ! i) s)
     \<and> (\<forall>i \<in> inits s. \<forall>j \<in> inits s. i \<noteq> j \<longrightarrow>
          chunk_frames (mem_chunks s ! i) \<inter> chunk_frames (mem_chunks s ! j) = {})"

definition frame_managed :: "'a alloc_state_scheme \<Rightarrow> nat \<Rightarrow> bool" where
  "frame_managed s f \<longleftrightarrow> (\<exists>i \<in> inits s. f \<in> chunk_frames (mem_chunks s ! i))"

definition frame_used :: "'a alloc_state_scheme \<Rightarrow> nat \<Rightarrow> bool" where
  "frame_used s f \<longleftrightarrow>
     (\<exists>i \<in> inits s. f \<in> chunk_frames (mem_chunks s ! i)
        \<and> page_used (mem_chunks s ! i) (f - frame (mem_base (mem_chunks s ! i))) s)"

definition is_bitmap_frame :: "'a alloc_state_scheme \<Rightarrow> nat \<Rightarrow> bool" where
  "is_bitmap_frame s f \<longleftrightarrow> (\<exists>i \<in> inits s. f \<in> bitmap_frames (mem_chunks s ! i))"

section \<open>Shape of a chunk\<close>

lemma inits_mem_upd [simp]: "inits (s\<lparr>mem := m\<rparr>) = inits s"
  by (simp add: inits_def)

lemma alloc_invD:
  assumes "alloc_inv s" "i \<in> inits s"
  shows "chunk_shape (mem_chunks s ! i) s" "bitmap_marked (mem_chunks s ! i) s"
  using assms by (auto simp: alloc_inv_def)

lemma owner_unique:
  "alloc_inv s \<Longrightarrow> i \<in> inits s \<Longrightarrow> j \<in> inits s \<Longrightarrow>
   f \<in> chunk_frames (mem_chunks s ! i) \<Longrightarrow> f \<in> chunk_frames (mem_chunks s ! j) \<Longrightarrow> i = j"
  unfolding alloc_inv_def by blast

lemma bitmap_page_count_bounds:
  assumes "chunk_shape c s"
  shows "0 < bitmap_page_count c" "bitmap_page_count c \<le> unat (total_pages c)"
proof -
  have "0 < unat (total_pages c)" using assms by (simp add: chunk_shape_def unat_gt_0)
  then show "0 < bitmap_page_count c" "bitmap_page_count c \<le> unat (total_pages c)"
    by (simp_all add: bitmap_page_count_def)
qed

lemma bitmap_frames_sub: "chunk_shape c s \<Longrightarrow> bitmap_frames c \<subseteq> chunk_frames c"
  using bitmap_page_count_bounds [of c s] by (auto simp: bitmap_frames_def chunk_frames_def)

lemma bitmap_byte_frame:
  assumes sh: "chunk_shape c s" and i: "i < unat (total_pages c)"
  shows "frame (va_to_pa s (bitmap c) + of_nat (i div 8)) \<in> bitmap_frames c"
proof -
  have base: "unat (mem_base c) + unat (total_pages c) * 4096 < 2 ^ 64"
    and al: "page_aligned (mem_base c)" and bm: "va_to_pa s (bitmap c) = mem_base c"
    using sh by (simp_all add: chunk_shape_def)
  define k :: u64 where "k = of_nat (i div 8)"
  have k: "unat k = i div 8"
    unfolding k_def using i unat_lt64 [of "total_pages c"] by (intro unat_of_nat64) linarith
  have "unat (mem_base c) + unat k < 2 ^ 64" using base i k by linarith
  then have "unat (mem_base c + of_nat (i div 8)) = unat (mem_base c) + i div 8"
    unfolding k_def [symmetric] by (simp only: unat_add64 k)
  then have "frame (mem_base c + of_nat (i div 8)) = frame (mem_base c) + i div 8 div 4096"
    by (rule frame_offset [OF al])
  moreover have "i div 8 div 4096 < bitmap_page_count c"
    using i by (simp add: bitmap_page_count_def)
  ultimately show ?thesis by (simp add: bm bitmap_frames_def)
qed

lemma page_used_upd_cong:
  assumes "chunk_shape c s" "i < unat (total_pages c)"
    and "\<And>a. frame a \<in> bitmap_frames c \<Longrightarrow> m a = mem s a"
  shows "page_used c i (s\<lparr>mem := m\<rparr>) = page_used c i s"
  using assms(3) [OF bitmap_byte_frame [OF assms(1,2)]] by (intro page_used_cong) simp_all

lemma chunk_shape_mem_upd [simp]: "chunk_shape c (s\<lparr>mem := m\<rparr>) = chunk_shape c s"
  by (simp add: chunk_shape_def)

lemma frame_used_chunk:
  assumes "alloc_inv s" "ci \<in> inits s" "f \<in> chunk_frames (mem_chunks s ! ci)"
  shows "frame_used s f \<longleftrightarrow>
    page_used (mem_chunks s ! ci) (f - frame (mem_base (mem_chunks s ! ci))) s"
proof
  assume "frame_used s f"
  then obtain i where i: "i \<in> inits s" "f \<in> chunk_frames (mem_chunks s ! i)"
    "page_used (mem_chunks s ! i) (f - frame (mem_base (mem_chunks s ! i))) s"
    unfolding frame_used_def by blast
  have "i = ci" by (rule owner_unique [OF assms(1) i(1) assms(2) i(2) assms(3)])
  with i(3) show "page_used (mem_chunks s ! ci) (f - frame (mem_base (mem_chunks s ! ci))) s"
    by simp
qed (use assms in \<open>unfold frame_used_def, blast\<close>)

lemma bitmap_frames_used:
  assumes "alloc_inv s" "is_bitmap_frame s f"
  shows "frame_used s f"
proof -
  obtain i where i: "i \<in> inits s" "f \<in> bitmap_frames (mem_chunks s ! i)"
    using assms(2) by (auto simp: is_bitmap_frame_def)
  have "f \<in> chunk_frames (mem_chunks s ! i)"
    using bitmap_frames_sub [OF alloc_invD(1) [OF assms(1) i(1)]] i(2) by blast
  moreover have "page_used (mem_chunks s ! i) (f - frame (mem_base (mem_chunks s ! i))) s"
    using alloc_invD(2) [OF assms(1) i(1)] i(2) by (auto simp: bitmap_marked_def bitmap_frames_def)
  ultimately show ?thesis using i(1) by (auto simp: frame_used_def)
qed

section \<open>Updates of one bitmap\<close>

text \<open>Memory changes outside all bitmaps are invisible to the allocator.\<close>

lemma alloc_view_mem_upd:
  assumes inv: "alloc_inv s" and out: "\<And>a. is_bitmap_frame s (frame a) \<Longrightarrow> m a = mem s a"
  shows "frame_used (s\<lparr>mem := m\<rparr>) = frame_used s" and "alloc_inv (s\<lparr>mem := m\<rparr>)"
proof -
  have pu: "page_used (mem_chunks s ! i) k (s\<lparr>mem := m\<rparr>) = page_used (mem_chunks s ! i) k s"
    if "i \<in> inits s" "k < unat (total_pages (mem_chunks s ! i))" for i k
    using that out by (intro page_used_upd_cong alloc_invD(1) [OF inv]) (auto simp: is_bitmap_frame_def)
  have "frame_used (s\<lparr>mem := m\<rparr>) f = frame_used s f" for f
    unfolding frame_used_def by (auto simp: chunk_frames_def pu)
  then show "frame_used (s\<lparr>mem := m\<rparr>) = frame_used s" by blast
  have "bitmap_marked (mem_chunks s ! i) (s\<lparr>mem := m\<rparr>)" if "i \<in> inits s" for i
    using alloc_invD [OF inv that] that pu bitmap_page_count_bounds(2)
    by (fastforce simp: bitmap_marked_def)
  then show "alloc_inv (s\<lparr>mem := m\<rparr>)" using inv by (simp add: alloc_inv_def)
qed

text \<open>Memory changes inside one bitmap show in that chunk only.\<close>

lemma chunk_mem_upd:
  assumes inv: "alloc_inv s" and ci: "ci \<in> inits s" and c: "c = mem_chunks s ! ci"
    and out: "\<And>a. frame a \<notin> bitmap_frames c \<Longrightarrow> m a = mem s a"
  shows "frame_used (s\<lparr>mem := m\<rparr>) f \<longleftrightarrow>
           (if f \<in> chunk_frames c then page_used c (f - frame (mem_base c)) (s\<lparr>mem := m\<rparr>)
            else frame_used s f)"
    and "bitmap_marked c (s\<lparr>mem := m\<rparr>) \<Longrightarrow> alloc_inv (s\<lparr>mem := m\<rparr>)"
proof -
  have pu: "page_used (mem_chunks s ! i) k (s\<lparr>mem := m\<rparr>) = page_used (mem_chunks s ! i) k s"
    if "i \<in> inits s" "i \<noteq> ci" "k < unat (total_pages (mem_chunks s ! i))" for i k
  proof (rule page_used_upd_cong [OF alloc_invD(1) [OF inv that(1)] that(3)])
    fix a assume a: "frame a \<in> bitmap_frames (mem_chunks s ! i)"
    have "bitmap_frames (mem_chunks s ! i) \<inter> bitmap_frames c = {}"
      using inv that ci bitmap_frames_sub [OF alloc_invD(1) [OF inv that(1)]]
        bitmap_frames_sub [OF alloc_invD(1) [OF inv ci]] unfolding c alloc_inv_def by blast
    with a out show "m a = mem s a" by blast
  qed
  show "frame_used (s\<lparr>mem := m\<rparr>) f \<longleftrightarrow>
           (if f \<in> chunk_frames c then page_used c (f - frame (mem_base c)) (s\<lparr>mem := m\<rparr>)
            else frame_used s f)"
  proof (cases "f \<in> chunk_frames c")
    case True
    have uniq: "\<And>i. i \<in> inits s \<Longrightarrow> f \<in> chunk_frames (mem_chunks s ! i) \<Longrightarrow> i = ci"
      using owner_unique [OF inv _ ci _ True [unfolded c]] by blast
    have mc: "mem_chunks (s\<lparr>mem := m\<rparr>) = mem_chunks s" by simp
    have "frame_used (s\<lparr>mem := m\<rparr>) f \<longleftrightarrow>
        page_used (mem_chunks s ! ci) (f - frame (mem_base (mem_chunks s ! ci))) (s\<lparr>mem := m\<rparr>)"
      using True ci uniq unfolding frame_used_def c inits_mem_upd mc by metis
    with True show ?thesis by (simp add: c)
  next
    case False
    then have "i \<noteq> ci" if "f \<in> chunk_frames (mem_chunks s ! i)" for i using that c by auto
    with False pu show ?thesis unfolding frame_used_def by (auto simp: chunk_frames_def)
  qed
  assume mk: "bitmap_marked c (s\<lparr>mem := m\<rparr>)"
  have "bitmap_marked (mem_chunks s ! i) (s\<lparr>mem := m\<rparr>)" if "i \<in> inits s" for i
  proof (cases "i = ci")
    case True
    then show ?thesis using mk by (simp add: c)
  next
    case False
    then show ?thesis
      using alloc_invD [OF inv that] that pu bitmap_page_count_bounds(2)
      by (fastforce simp: bitmap_marked_def)
  qed
  then show "alloc_inv (s\<lparr>mem := m\<rparr>)" using inv by (simp add: alloc_inv_def)
qed

end
