(* ===== verification/Page_Provider.thy ===== *)
theory Page_Provider
  imports Kernelite_Prelude
begin

text \<open>
  What a client of the page allocator may rely on, as the locale \<open>page_provider\<close>, and the
  consequences for a client that interleaves allocations and frees in any order: its live
  blocks never overlap, and the set of used frames is at every moment exactly the initial
  one plus the live blocks. The locale is interpreted on \<^verbatim>\<open>page_alloc\<close> and \<^verbatim>\<open>page_free\<close> in the
  theory of the allocator.
\<close>

text \<open>The frames of the block of \<open>n\<close> pages at physical address \<open>p\<close>.\<close>

definition block_frames :: "phy_addr \<Rightarrow> u64 \<Rightarrow> nat set" where
  "block_frames p n = {frame p ..< frame p + unat n}"

text \<open>
  A client: it keeps the blocks it holds; \<open>Take n\<close> asks for \<open>n\<close> pages, \<open>Give i\<close> returns the
  \<open>i\<close>-th block it holds.
\<close>

datatype page_req = Take u64 | Give nat

fun client_step ::
  "(u64 \<Rightarrow> 's \<Rightarrow> phy_addr \<times> 's) \<Rightarrow> (phy_addr \<Rightarrow> u64 \<Rightarrow> 's \<Rightarrow> 's)
     \<Rightarrow> page_req \<Rightarrow> 's \<times> (phy_addr \<times> u64) list \<Rightarrow> 's \<times> (phy_addr \<times> u64) list" where
  "client_step alloc free (Take n) (s, live) =
     (let (p, s') = alloc n s in if p = 0 then (s', live) else (s', (p, n) # live))"
| "client_step alloc free (Give i) (s, live) =
     (if i < length live
      then (free (fst (live ! i)) (snd (live ! i)) s, take i live @ drop (Suc i) live)
      else (s, live))"

definition client_run ::
  "(u64 \<Rightarrow> 's \<Rightarrow> phy_addr \<times> 's) \<Rightarrow> (phy_addr \<Rightarrow> u64 \<Rightarrow> 's \<Rightarrow> 's)
     \<Rightarrow> page_req list \<Rightarrow> 's \<Rightarrow> 's \<times> (phy_addr \<times> u64) list" where
  "client_run alloc free reqs s = fold (client_step alloc free) reqs (s, [])"

definition live_frames :: "(phy_addr \<times> u64) list \<Rightarrow> nat set" where
  "live_frames live = (\<Union>(p, n) \<in> set live. block_frames p n)"

fun pairwise_apart :: "(phy_addr \<times> u64) list \<Rightarrow> bool" where
  "pairwise_apart [] = True"
| "pairwise_apart ((p, n) # live) = (block_frames p n \<inter> live_frames live = {} \<and> pairwise_apart live)"

lemma live_frames_simps [simp]:
  "live_frames [] = {}" "live_frames ((p, n) # live) = block_frames p n \<union> live_frames live"
  "live_frames (xs @ ys) = live_frames xs \<union> live_frames ys"
  by (auto simp: live_frames_def)

lemma pairwise_apart_append:
  "pairwise_apart (xs @ ys) \<longleftrightarrow>
     pairwise_apart xs \<and> pairwise_apart ys \<and> live_frames xs \<inter> live_frames ys = {}"
  by (induction xs rule: pairwise_apart.induct) auto

locale page_provider =
  fixes alloc :: "u64 \<Rightarrow> 's \<Rightarrow> phy_addr \<times> 's"
    and free :: "phy_addr \<Rightarrow> u64 \<Rightarrow> 's \<Rightarrow> 's"
    and inv :: "'s \<Rightarrow> bool"
    and used :: "'s \<Rightarrow> nat set"
    and owns :: "'s \<Rightarrow> phy_addr \<Rightarrow> u64 \<Rightarrow> bool"
  assumes alloc_some:
      "inv s \<Longrightarrow> alloc n s = (p, s') \<Longrightarrow> p \<noteq> 0 \<Longrightarrow>
         inv s' \<and> owns s p n \<and> block_frames p n \<inter> used s = {} \<and> used s' = used s \<union> block_frames p n"
    and alloc_none: "inv s \<Longrightarrow> alloc n s = (0, s') \<Longrightarrow> s' = s"
    and free_owned:
      "inv s \<Longrightarrow> owns s p n \<Longrightarrow> inv (free p n s) \<and> used (free p n s) = used s - block_frames p n"
    and owns_alloc: "inv s \<Longrightarrow> alloc n s = (p, s') \<Longrightarrow> owns s' = owns s"
    and owns_free: "inv s \<Longrightarrow> owns s p n \<Longrightarrow> owns (free p n s) = owns s"
begin

text \<open>The client's view stays consistent with the provider's.\<close>

definition consistent :: "nat set \<Rightarrow> 's \<times> (phy_addr \<times> u64) list \<Rightarrow> bool" where
  "consistent U0 sl \<longleftrightarrow>
     (case sl of (s, live) \<Rightarrow>
        inv s \<and> pairwise_apart live \<and> (\<forall>(p, n) \<in> set live. owns s p n)
        \<and> used s = U0 \<union> live_frames live \<and> U0 \<inter> live_frames live = {})"

lemma consistent_Take:
  assumes "consistent U0 (s, live)"
  shows "consistent U0 (client_step alloc free (Take n) (s, live))"
proof -
  obtain p s' where a: "alloc n s = (p, s')" by (cases "alloc n s")
  have i: "inv s" using assms by (simp add: consistent_def)
  show ?thesis
  proof (cases "p = 0")
    case True
    then show ?thesis using assms a alloc_none [OF i] by auto
  next
    case False
    from alloc_some [OF i a False] owns_alloc [OF i a] assms False a show ?thesis
      by (auto simp: consistent_def)
  qed
qed

lemma consistent_Give:
  assumes "consistent U0 (s, live)"
  shows "consistent U0 (client_step alloc free (Give i) (s, live))"
proof (cases "i < length live")
  case True
  define xs p n ys where "xs = take i live" and "p = fst (live ! i)" and "n = snd (live ! i)"
    and "ys = drop (Suc i) live"
  have l: "live = xs @ (p, n) # ys"
    using True by (simp add: xs_def ys_def p_def n_def id_take_nth_drop)
  have o: "inv s" "owns s p n" using assms by (auto simp: consistent_def l)
  have "client_step alloc free (Give i) (s, live) = (free p n s, xs @ ys)"
    using True by (simp add: xs_def ys_def p_def n_def)
  moreover have "consistent U0 (free p n s, xs @ ys)"
    using assms free_owned [OF o] owns_free [OF o]
    by (auto simp: consistent_def l pairwise_apart_append)
  ultimately show ?thesis by simp
qed (use assms in simp)

lemma consistent_run:
  assumes "inv s"
  shows "consistent (used s) (client_run alloc free reqs s)"
proof -
  have "consistent U0 sl \<Longrightarrow> consistent U0 (fold (client_step alloc free) reqs sl)" for U0 sl
  proof (induction reqs arbitrary: sl)
    case (Cons r reqs)
    obtain s live where sl: "sl = (s, live)" by (cases sl)
    have "consistent U0 (client_step alloc free r sl)"
      using Cons.prems by (cases r) (simp_all only: sl consistent_Take consistent_Give)
    then show ?case by (simp add: Cons.IH)
  qed simp
  moreover have "consistent (used s) (s, [])" using assms by (simp add: consistent_def)
  ultimately show ?thesis by (simp add: client_run_def)
qed

text \<open>No interleaving of requests hands out a page twice, and nothing leaks.\<close>

lemma run_no_overlap:
  assumes "inv s" "client_run alloc free reqs s = (s', live)"
  shows "inv s'" "pairwise_apart live" "used s' = used s \<union> live_frames live"
    "used s \<inter> live_frames live = {}"
  using consistent_run [OF assms(1), of reqs] by (simp_all add: assms(2) consistent_def)

end

end
