(* ===== verification/Page_Allocator_Correct.thy ===== *)
theory Page_Allocator_Correct
  imports Page_Allocator_Inv Page_Provider
begin

text \<open>
  Correctness of the page allocator's operations, stated on frames. Each operation is
  described on every path: which frames change their status, that no other frame does, that
  the invariant is kept, and that memory outside the bitmaps is untouched.
\<close>

section \<open>Marking and unmarking pages of one chunk\<close>

lemma image_for_range:
  assumes "unat a + unat n < 2 ^ 64"
  shows "(\<lambda>i. F + unat i) ` set (for_range a (a + n)) = {F + unat a ..< F + unat a + unat n}"
proof -
  have u: "unat (a + n) = unat a + unat n" using assms by (rule unat_add64)
  show ?thesis
  proof (intro equalityI subsetI)
    fix f assume f: "f \<in> {F + unat a ..< F + unat a + unat n}"
    then have lt: "f - F < 2 ^ 64" using assms by auto
    then have "unat (of_nat (f - F) :: u64) = f - F" by (rule unat_of_nat64)
    then have "(of_nat (f - F) :: u64) \<in> set (for_range a (a + n))" and "f = F + unat (of_nat (f - F) :: u64)"
      using f by (auto simp: set_for_range word_le_nat_alt word_less_nat_alt u)
    then show "f \<in> (\<lambda>i. F + unat i) ` set (for_range a (a + n))" by blast
  qed (auto simp: set_for_range word_le_nat_alt word_less_nat_alt u)
qed

lemma bitmap_byte_out:
  assumes "chunk_shape c s" "\<forall>i \<in> set is. i < total_pages c" "frame a \<notin> bitmap_frames c" "i \<in> set is"
  shows "a \<noteq> va_to_pa s (bitmap c) + i div 8"
proof -
  have "unat i < unat (total_pages c)" using assms(2,4) by (simp add: word_less_nat_alt)
  from bitmap_byte_frame [OF assms(1) this] assms(3) show ?thesis by (auto simp: div8_word)
qed

text \<open>
  A loop over the page indices \<open>is\<close> of chunk \<open>c\<close> that combines the old bit of a page with its
  membership in \<open>is\<close> by \<open>h\<close> does the same to the frames.
\<close>

lemma chunk_loop_frames:
  assumes inv: "alloc_inv s" and ci: "ci \<in> inits s" and c: "c = mem_chunks s ! ci"
    and lt: "\<forall>i \<in> set is. i < total_pages c" and eq: "s' = s\<lparr>mem := mem s'\<rparr>"
    and out: "\<And>a. frame a \<notin> bitmap_frames c \<Longrightarrow> mem s' a = mem s a"
    and pu: "\<And>j. j < 2 ^ 64 \<Longrightarrow> page_used c j s' \<longleftrightarrow> h (j \<in> unat ` set is) (page_used c j s)"
    and h: "\<And>b. h False b = b"
  shows "frame_used s' f \<longleftrightarrow> h (f \<in> (\<lambda>i. frame (mem_base c) + unat i) ` set is) (frame_used s f)"
proof (cases "f \<in> chunk_frames c")
  case True
  then have f: "f - frame (mem_base c) < 2 ^ 64" "f = frame (mem_base c) + (f - frame (mem_base c))"
    using unat_lt64 [of "total_pages c"] by (auto simp: chunk_frames_def)
  have "f \<in> (\<lambda>i. frame (mem_base c) + unat i) ` set is \<longleftrightarrow> f - frame (mem_base c) \<in> unat ` set is"
    using f(2) by (metis (no_types, lifting) add_left_cancel image_iff)
  with True pu [OF f(1)] show ?thesis
    using chunk_mem_upd(1) [OF inv ci c out, of f] frame_used_chunk [OF inv ci, of f]
    by (simp add: c flip: eq)
next
  case False
  moreover have "(\<lambda>i. frame (mem_base c) + unat i) ` set is \<subseteq> chunk_frames c"
    using lt by (auto simp: chunk_frames_def word_less_nat_alt)
  ultimately have "f \<notin> (\<lambda>i. frame (mem_base c) + unat i) ` set is" by blast
  with False h show ?thesis
    using chunk_mem_upd(1) [OF inv ci c out, of f] by (simp flip: eq)
qed

lemma mark_pages:
  assumes inv: "alloc_inv s" and ci: "ci \<in> inits s" and c: "c = mem_chunks s ! ci"
    and lt: "\<forall>i \<in> set is. i < total_pages c" and s': "s' = fold (bitmap_set c) is s"
  shows "s' = s\<lparr>mem := mem s'\<rparr>" "alloc_inv s'"
    "frame_used s' f \<longleftrightarrow> frame_used s f \<or> f \<in> (\<lambda>i. frame (mem_base c) + unat i) ` set is"
    "frame a \<notin> bitmap_frames c \<Longrightarrow> mem s' a = mem s a"
proof -
  have sh: "chunk_shape c s" and mk: "bitmap_marked c s" using alloc_invD [OF inv ci] by (simp_all add: c)
  show eq: "s' = s\<lparr>mem := mem s'\<rparr>" unfolding s' by (rule fold_bitmap_set_mem)
  have out: "mem s' a = mem s a" if "frame a \<notin> bitmap_frames c" for a
    unfolding s' by (rule mem_fold_bitmap_set) (rule bitmap_byte_out [OF sh lt that])
  then show "frame a \<notin> bitmap_frames c \<Longrightarrow> mem s' a = mem s a" .
  have pu: "page_used c j s' \<longleftrightarrow> j \<in> unat ` set is \<or> page_used c j s" if "j < 2 ^ 64" for j
    unfolding s' by (rule bm.test_fold_set [OF that])
  have "bitmap_page_count c < 2 ^ 64"
    using bitmap_page_count_bounds(2) [OF sh] unat_lt64 [of "total_pages c"] by linarith
  then have "bitmap_marked c s'" using mk by (auto simp: bitmap_marked_def pu)
  then show "alloc_inv s'" using chunk_mem_upd(2) [OF inv ci c out] by (simp flip: eq)
  show "frame_used s' f \<longleftrightarrow> frame_used s f \<or> f \<in> (\<lambda>i. frame (mem_base c) + unat i) ` set is"
    using chunk_loop_frames [OF inv ci c lt eq out, of "(\<or>)" f] pu by auto
qed

lemma unmark_pages:
  assumes inv: "alloc_inv s" and ci: "ci \<in> inits s" and c: "c = mem_chunks s ! ci"
    and lt: "\<forall>i \<in> set is. i < total_pages c" and s': "s' = fold (bitmap_clear c) is s"
  shows "s' = s\<lparr>mem := mem s'\<rparr>"
    "(\<And>i. i \<in> set is \<Longrightarrow> bitmap_page_count c \<le> unat i) \<Longrightarrow> alloc_inv s'"
    "frame_used s' f \<longleftrightarrow> frame_used s f \<and> f \<notin> (\<lambda>i. frame (mem_base c) + unat i) ` set is"
    "frame a \<notin> bitmap_frames c \<Longrightarrow> mem s' a = mem s a"
proof -
  have sh: "chunk_shape c s" and mk: "bitmap_marked c s" using alloc_invD [OF inv ci] by (simp_all add: c)
  show eq: "s' = s\<lparr>mem := mem s'\<rparr>" unfolding s' by (rule fold_bitmap_clear_mem)
  have out: "mem s' a = mem s a" if "frame a \<notin> bitmap_frames c" for a
    unfolding s' by (rule mem_fold_bitmap_clear) (rule bitmap_byte_out [OF sh lt that])
  then show "frame a \<notin> bitmap_frames c \<Longrightarrow> mem s' a = mem s a" .
  have pu: "page_used c j s' \<longleftrightarrow> j \<notin> unat ` set is \<and> page_used c j s" if "j < 2 ^ 64" for j
    unfolding s' by (rule bm.test_fold_clear [OF that])
  have "bitmap_page_count c < 2 ^ 64"
    using bitmap_page_count_bounds(2) [OF sh] unat_lt64 [of "total_pages c"] by linarith
  then have "(\<And>i. i \<in> set is \<Longrightarrow> bitmap_page_count c \<le> unat i) \<Longrightarrow> bitmap_marked c s'"
    using mk by (fastforce simp: bitmap_marked_def pu)
  then show "(\<And>i. i \<in> set is \<Longrightarrow> bitmap_page_count c \<le> unat i) \<Longrightarrow> alloc_inv s'"
    using chunk_mem_upd(2) [OF inv ci c out] by (simp flip: eq)
  show "frame_used s' f \<longleftrightarrow> frame_used s f \<and> f \<notin> (\<lambda>i. frame (mem_base c) + unat i) ` set is"
    using chunk_loop_frames [OF inv ci c lt eq out, of "\<lambda>m b. \<not> m \<and> b" f] pu by auto
qed

section \<open>Chunk lookup\<close>

lemma find_chunk_for_address_from_Some:
  "find_chunk_for_address_from cs k addr = Some i \<Longrightarrow>
   k \<le> i \<and> i - k < length cs \<and> initialized (cs ! (i - k))
   \<and> mem_base (cs ! (i - k)) \<le> addr \<and> addr < chunk_end (cs ! (i - k))"
proof (induction cs k addr rule: find_chunk_for_address_from.induct)
  case (2 c cs k addr)
  then show ?case by (fastforce split: if_splits simp: Suc_diff_le nth_Cons' Suc_le_eq)
qed simp

lemma find_chunk_for_address_from_None:
  "find_chunk_for_address_from cs k addr = None \<Longrightarrow> c \<in> set cs \<Longrightarrow>
   \<not> (initialized c \<and> mem_base c \<le> addr \<and> addr < chunk_end c)"
  by (induction cs k addr rule: find_chunk_for_address_from.induct) (auto split: if_splits)

lemma find_chunk_with_free_pages_from_Some:
  "find_chunk_with_free_pages_from cs k n s = Some i \<Longrightarrow>
   k \<le> i \<and> i - k < length cs \<and> initialized (cs ! (i - k))
   \<and> has_free_run (cs ! (i - k)) n s (for_range 0 (total_pages (cs ! (i - k)))) 0"
proof (induction cs k n s rule: find_chunk_with_free_pages_from.induct)
  case (2 c cs k n s)
  then show ?case by (fastforce split: if_splits simp: Suc_diff_le nth_Cons' Suc_le_eq)
qed simp

lemma find_chunk_with_free_pages_from_None:
  "find_chunk_with_free_pages_from cs k n s = None \<Longrightarrow> c \<in> set cs \<Longrightarrow> initialized c \<Longrightarrow>
   \<not> has_free_run c n s (for_range 0 (total_pages c)) 0"
  by (induction cs k n s rule: find_chunk_with_free_pages_from.induct) (auto split: if_splits)

lemma chunk_end_unat:
  assumes "chunk_shape c s"
  shows "unat (chunk_end c) = unat (mem_base c) + unat (total_pages c) * 4096"
  unfolding chunk_end_def using assms by (intro page_aligned_add_pages(1)) (simp_all add: chunk_shape_def)

lemma in_chunk_frames:
  assumes "chunk_shape c s"
  shows "frame addr \<in> chunk_frames c \<longleftrightarrow> mem_base c \<le> addr \<and> addr < chunk_end c"
proof -
  obtain q where q: "unat (mem_base c) = 4096 * q"
    using assms by (auto simp: chunk_shape_def page_aligned_def elim: dvdE)
  have "frame (mem_base c) = q" by (simp add: frame_def q)
  then show ?thesis
    using chunk_end_unat [OF assms]
    by (auto simp: chunk_frames_def word_le_nat_alt word_less_nat_alt q frame_def)
qed

lemma find_chunk_for_address_iff:
  assumes inv: "alloc_inv s"
  shows "find_chunk_for_address addr s = Some ci \<longleftrightarrow>
    ci \<in> inits s \<and> frame addr \<in> chunk_frames (mem_chunks s ! ci)"
proof
  assume "find_chunk_for_address addr s = Some ci"
  from find_chunk_for_address_from_Some [OF this [unfolded find_chunk_for_address_def]]
  show "ci \<in> inits s \<and> frame addr \<in> chunk_frames (mem_chunks s ! ci)"
    using in_chunk_frames [OF alloc_invD(1) [OF inv]] by (auto simp: inits_def)
next
  assume ci: "ci \<in> inits s \<and> frame addr \<in> chunk_frames (mem_chunks s ! ci)"
  then have "mem_base (mem_chunks s ! ci) \<le> addr \<and> addr < chunk_end (mem_chunks s ! ci)"
    using in_chunk_frames [OF alloc_invD(1) [OF inv]] by blast
  then obtain j where j: "find_chunk_for_address addr s = Some j"
    using ci find_chunk_for_address_from_None [of "mem_chunks s" 0 addr "mem_chunks s ! ci"]
    by (cases "find_chunk_for_address addr s") (auto simp: find_chunk_for_address_def inits_def)
  from find_chunk_for_address_from_Some [OF this [unfolded find_chunk_for_address_def]]
  have "j \<in> inits s" "frame addr \<in> chunk_frames (mem_chunks s ! j)"
    using in_chunk_frames [OF alloc_invD(1) [OF inv]] by (auto simp: inits_def)
  with ci inv j show "find_chunk_for_address addr s = Some ci" using owner_unique by metis
qed

section \<open>Allocation\<close>

text \<open>The address of page \<open>b\<close> of a chunk.\<close>

lemma chunk_page_addr:
  assumes "chunk_shape c s" "b < total_pages c"
  shows "page_aligned (mem_base c + b * PAGE_SIZE)"
    and "frame (mem_base c + b * PAGE_SIZE) = frame (mem_base c) + unat b"
    and "mem_base c + b * PAGE_SIZE \<noteq> 0"
proof -
  have "unat (mem_base c) + unat b * 4096 < 2 ^ 64"
    using assms by (simp add: chunk_shape_def word_less_nat_alt)
  note ad = page_aligned_add_pages [OF _ this]
  show "page_aligned (mem_base c + b * PAGE_SIZE)"
    and "frame (mem_base c + b * PAGE_SIZE) = frame (mem_base c) + unat b"
    using assms(1) ad by (simp_all add: chunk_shape_def)
  have "unat (mem_base c) \<noteq> 0" using assms(1) by (simp add: chunk_shape_def unat_eq_0)
  then have "unat (mem_base c + b * PAGE_SIZE) \<noteq> 0" using assms(1) ad(1) by (simp add: chunk_shape_def)
  then show "mem_base c + b * PAGE_SIZE \<noteq> 0" by auto
qed

text \<open>What a successful allocation did: the lowest free run of the first chunk that has one.\<close>

lemma page_alloc_run:
  assumes inv: "alloc_inv s" and a: "page_alloc n s = (p, s')" and p: "p \<noteq> PHYS_ADDR_NULL"
  obtains ci c b where "ci \<in> inits s" "c = mem_chunks s ! ci" "n \<noteq> 0"
    "free_run c s (unat (total_pages c)) (unat n) (unat b)"
    "\<And>b'. b' < unat b \<Longrightarrow> \<not> free_run c s (unat (total_pages c)) (unat n) b'"
    "b < total_pages c" "p = mem_base c + b * PAGE_SIZE"
    "s' = fold (bitmap_set c) (for_range b (b + n)) s"
proof -
  obtain ci where f: "find_chunk_with_free_pages n s = Some ci"
    and pc: "page_alloc_chunk n ci s = (p, s')"
    using a p by (auto simp: page_alloc_def split: option.splits)
  from find_chunk_with_free_pages_from_Some [OF f [unfolded find_chunk_with_free_pages_def]]
  have ci: "ci \<in> inits s" by (simp add: inits_def)
  define c where c: "c = mem_chunks s ! ci"
  have n: "n \<noteq> 0" using pc p by (auto simp: page_alloc_chunk_def split: if_splits)
  obtain b where b: "page_alloc_scan c n s (for_range 0 (total_pages c)) 0 0 = Some b"
    and r: "p = mem_base c + b * PAGE_SIZE" "s' = fold (bitmap_set c) (for_range b (b + n)) s"
    using pc p by (auto simp: page_alloc_chunk_def Let_def c split: if_splits option.splits)
  have post: "free_run c s (unat (total_pages c)) (unat n) (unat b)"
    "\<And>b'. b' < unat b \<Longrightarrow> \<not> free_run c s (unat (total_pages c)) (unat n) b'"
    using page_alloc_scan_first_fit [OF n, of c s "total_pages c"] by (simp_all add: b scan_post_def)
  have "b < total_pages c"
    using post(1) n by (simp add: free_run_def word_less_nat_alt unat_gt_0 [symmetric] del: unat_gt_0)
  with that ci c n post r show thesis by blast
qed

text \<open>A failed allocation: nothing changed, and no chunk has a long enough free run.\<close>

lemma page_alloc_fail:
  assumes inv: "alloc_inv s" and a: "page_alloc n s = (PHYS_ADDR_NULL, s')"
  shows "s' = s"
    and "n \<noteq> 0 \<Longrightarrow> ci \<in> inits s \<Longrightarrow>
      \<not> free_run (mem_chunks s ! ci) s (unat (total_pages (mem_chunks s ! ci))) (unat n) b"
proof -
  have none: "find_chunk_with_free_pages n s = None" if "n \<noteq> 0"
  proof (rule ccontr)
    assume "find_chunk_with_free_pages n s \<noteq> None"
    then obtain k where f: "find_chunk_with_free_pages n s = Some k" by auto
    define c where "c = mem_chunks s ! k"
    have k: "k \<in> inits s" and run: "has_free_run c n s (for_range 0 (total_pages c)) 0"
      using find_chunk_with_free_pages_from_Some [OF f [unfolded find_chunk_with_free_pages_def]]
      by (simp_all add: c_def inits_def)
    then obtain r where r: "page_alloc_scan c n s (for_range 0 (total_pages c)) 0 0 = Some r"
      using has_free_run_scan by blast
    then have fr: "free_run c s (unat (total_pages c)) (unat n) (unat r)"
      using page_alloc_scan_first_fit [OF that, of c s "total_pages c"] by (simp add: scan_post_def)
    then have le: "n \<le> total_pages c" and lt: "r < total_pages c"
      using that by (auto simp: free_run_def word_less_nat_alt word_le_nat_alt unat_gt_0 [symmetric]
          simp del: unat_gt_0)
    have "mem_base c + r * PAGE_SIZE = PHYS_ADDR_NULL"
      using a f that le r by (auto simp: page_alloc_def page_alloc_chunk_def Let_def c_def not_less [symmetric])
    with chunk_page_addr(3) [OF _ lt] alloc_invD(1) [OF inv k] show False
      by (simp add: c_def PHYS_ADDR_NULL_def)
  qed
  show "s' = s"
    using a none by (cases "n = 0") (auto simp: page_alloc_def page_alloc_chunk_def split: option.splits)
  show "\<not> free_run (mem_chunks s ! ci) s (unat (total_pages (mem_chunks s ! ci))) (unat n) b"
    if "n \<noteq> 0" "ci \<in> inits s"
  proof -
    let ?c = "mem_chunks s ! ci"
    have "\<not> has_free_run ?c n s (for_range 0 (total_pages ?c)) 0"
      using that(2) nth_mem [of ci "mem_chunks s"] find_chunk_with_free_pages_from_None
          [OF none [OF that(1), unfolded find_chunk_with_free_pages_def], of ?c]
      by (simp add: inits_def)
    then have "page_alloc_scan ?c n s (for_range 0 (total_pages ?c)) 0 0 = None"
      using has_free_run_scan by blast
    then show ?thesis
      using page_alloc_scan_first_fit [OF that(1), of ?c s "total_pages ?c"] by (simp add: scan_post_def)
  qed
qed

end
