(* ===== verification/Page_Allocator_Ops.thy ===== *)
theory Page_Allocator_Ops
  imports Page_Allocator_Correct
begin

text \<open>
  What the public operations of the page allocator do, on every path, in terms of frames, and
  the contract that its clients rely on. The lemmas on one chunk are in
  \<^verbatim>\<open>Page_Allocator_Correct\<close>; here they are turned into statements about \<^verbatim>\<open>page_alloc\<close>,
  \<^verbatim>\<open>page_free\<close> and \<^verbatim>\<open>reserve_page\<close>.
\<close>

section \<open>Pages of one chunk\<close>

lemma for_range_pages:
  assumes sh: "chunk_shape c s" and le: "unat b + unat n \<le> unat (total_pages c)"
  shows "\<forall>i \<in> set (for_range b (b + n)). i < total_pages c"
    and "(\<lambda>i. frame (mem_base c) + unat i) ` set (for_range b (b + n))
       = {frame (mem_base c) + unat b ..< frame (mem_base c) + unat b + unat n}"
proof -
  have lt: "unat b + unat n < 2 ^ 64" using le unat_lt64 [of "total_pages c"] by linarith
  have "unat (b + n) = unat b + unat n" using lt by (rule unat_add64)
  then show "\<forall>i \<in> set (for_range b (b + n)). i < total_pages c"
    using le by (auto simp: set_for_range word_less_nat_alt)
  show "(\<lambda>i. frame (mem_base c) + unat i) ` set (for_range b (b + n))
       = {frame (mem_base c) + unat b ..< frame (mem_base c) + unat b + unat n}"
    using lt by (rule image_for_range)
qed

lemma ball_shift:
  "(\<forall>f \<in> {F + b ..< F + b + (n :: nat)}. P f) \<longleftrightarrow> (\<forall>j \<in> {b ..< b + n}. P (F + j))"
proof
  assume h: "\<forall>j \<in> {b ..< b + n}. P (F + j)"
  show "\<forall>f \<in> {F + b ..< F + b + n}. P f"
  proof
    fix f assume f: "f \<in> {F + b ..< F + b + n}"
    then have "f - F \<in> {b ..< b + n}" by auto
    with h have "P (F + (f - F))" by blast
    then show "P f" using f by simp
  qed
qed simp

lemma free_run_frames:
  assumes inv: "alloc_inv s" and ci: "ci \<in> inits s" and c: "c = mem_chunks s ! ci"
  shows "free_run c s (unat (total_pages c)) n b \<longleftrightarrow>
    b + n \<le> unat (total_pages c)
    \<and> (\<forall>f \<in> {frame (mem_base c) + b ..< frame (mem_base c) + b + n}. \<not> frame_used s f)"
proof -
  have "(\<forall>j \<in> {b ..< b + n}. \<not> page_used c j s) \<longleftrightarrow>
      (\<forall>f \<in> {frame (mem_base c) + b ..< frame (mem_base c) + b + n}. \<not> frame_used s f)"
    if le: "b + n \<le> unat (total_pages c)"
  proof -
    have pu: "frame_used s (frame (mem_base c) + j) = page_used c j s" if "j \<in> {b ..< b + n}" for j
      using frame_used_chunk [OF inv ci, of "frame (mem_base c) + j"] le that
      by (simp add: c chunk_frames_def)
    then show ?thesis by (simp add: ball_shift)
  qed
  then show ?thesis by (auto simp: free_run_def)
qed

section \<open>Allocation\<close>

text \<open>The whole effect of a successful allocation, with the chunk that served it.\<close>

lemma page_alloc_success:
  assumes inv: "alloc_inv s" and a: "page_alloc n s = (p, s')" and p: "p \<noteq> PHYS_ADDR_NULL"
  obtains ci c where "ci \<in> inits s" "c = mem_chunks s ! ci" "n \<noteq> 0" "page_aligned p"
    "block_frames p n \<subseteq> chunk_frames c" "\<forall>f \<in> block_frames p n. \<not> frame_used s f"
    "\<And>f. frame_used s' f \<longleftrightarrow> frame_used s f \<or> f \<in> block_frames p n"
    "alloc_inv s'" "s' = s\<lparr>mem := mem s'\<rparr>"
    "\<And>a. frame a \<notin> bitmap_frames c \<Longrightarrow> mem s' a = mem s a"
    "s' = fold (bitmap_set c) (for_range ((p - mem_base c) div PAGE_SIZE)
                                 ((p - mem_base c) div PAGE_SIZE + n)) s"
    "\<And>b. {frame (mem_base c) + b ..< frame (mem_base c) + b + unat n} \<subseteq> chunk_frames c \<Longrightarrow>
       \<forall>f \<in> {frame (mem_base c) + b ..< frame (mem_base c) + b + unat n}. \<not> frame_used s f \<Longrightarrow>
       frame p \<le> frame (mem_base c) + b"
proof -
  obtain ci c b where ci: "ci \<in> inits s"
    and c: "c = mem_chunks s ! ci" and n: "n \<noteq> 0"
    and run: "free_run c s (unat (total_pages c)) (unat n) (unat b)"
    and first: "\<And>b'. b' < unat b \<Longrightarrow> \<not> free_run c s (unat (total_pages c)) (unat n) b'"
    and b: "b < total_pages c" and pe: "p = mem_base c + b * PAGE_SIZE"
    and s': "s' = fold (bitmap_set c) (for_range b (b + n)) s"
    by (rule page_alloc_run [OF inv a p]) blast
  have sh: "chunk_shape c s" using alloc_invD(1) [OF inv ci] by (simp add: c)
  have le: "unat b + unat n \<le> unat (total_pages c)" using run by (simp add: free_run_def)
  note addr = chunk_page_addr [OF sh b]
  have bf: "block_frames p n = {frame (mem_base c) + unat b ..< frame (mem_base c) + unat b + unat n}"
    by (simp add: block_frames_def pe addr(2))
  note mark = mark_pages [OF inv ci c for_range_pages(1) [OF sh le] s', unfolded for_range_pages(2) [OF sh le]]
  have u: "unat (b * PAGE_SIZE) = unat b * 4096"
    using sh b by (subst unat_mult64) (simp_all add: chunk_shape_def word_less_nat_alt)
  have idx: "(p - mem_base c) div PAGE_SIZE = b"
    by (simp add: pe word_eq_iff_unsigned [where 'a = nat] unat_div64 u)
  show thesis
  proof (rule that [OF ci c n])
    show "page_aligned p" using addr(1) by (simp add: pe)
    show "block_frames p n \<subseteq> chunk_frames c" using le by (auto simp: bf chunk_frames_def)
    show "\<forall>f \<in> block_frames p n. \<not> frame_used s f"
      using run by (simp add: bf free_run_frames [OF inv ci c])
    show "\<And>f. frame_used s' f \<longleftrightarrow> frame_used s f \<or> f \<in> block_frames p n"
      using mark(3) by (simp add: bf)
    show "alloc_inv s'" "s' = s\<lparr>mem := mem s'\<rparr>"
      and "\<And>a. frame a \<notin> bitmap_frames c \<Longrightarrow> mem s' a = mem s a"
      using mark(1,2,4) by blast+
    show "s' = fold (bitmap_set c) (for_range ((p - mem_base c) div PAGE_SIZE)
                                 ((p - mem_base c) div PAGE_SIZE + n)) s"
      by (simp only: idx s')
    fix b' assume "{frame (mem_base c) + b' ..< frame (mem_base c) + b' + unat n} \<subseteq> chunk_frames c"
      and fr: "\<forall>f \<in> {frame (mem_base c) + b' ..< frame (mem_base c) + b' + unat n}. \<not> frame_used s f"
    then have "b' + unat n \<le> unat (total_pages c)"
      using n by (auto simp: chunk_frames_def unat_gt_0 [symmetric] simp del: unat_gt_0)
    with fr have "free_run c s (unat (total_pages c)) (unat n) b'" by (simp add: free_run_frames [OF inv ci c])
    then have "unat b \<le> b'" using first [of b'] by force
    then show "frame p \<le> frame (mem_base c) + b'" by (simp add: pe addr(2))
  qed
qed

text \<open>
  C5. \<^verbatim>\<open>page_alloc\<close>: a non-null result is a page-aligned block of frames that all lie in one
  managed region, were all free before and are all marked used afterwards; no other frame
  changes its status, the invariant is kept, and memory outside the allocator's own bitmap
  pages is untouched.
\<close>

theorem page_alloc_sound:
  assumes "alloc_inv s" and "page_alloc n s = (p, s')" and "p \<noteq> PHYS_ADDR_NULL"
  shows "n \<noteq> 0 \<and> page_aligned p
    \<and> (\<exists>ci \<in> inits s. block_frames p n \<subseteq> chunk_frames (mem_chunks s ! ci))
    \<and> (\<forall>f \<in> block_frames p n. \<not> frame_used s f)
    \<and> (\<forall>f. frame_used s' f \<longleftrightarrow> frame_used s f \<or> f \<in> block_frames p n)
    \<and> alloc_inv s' \<and> s' = s\<lparr>mem := mem s'\<rparr>
    \<and> (\<forall>a. \<not> is_bitmap_frame s (frame a) \<longrightarrow> mem s' a = mem s a)"
proof -
  from page_alloc_success [OF assms] obtain ci c where *: "ci \<in> inits s" "c = mem_chunks s ! ci"
    "n \<noteq> 0" "page_aligned p" "block_frames p n \<subseteq> chunk_frames c"
    "\<forall>f \<in> block_frames p n. \<not> frame_used s f"
    "\<And>f. frame_used s' f \<longleftrightarrow> frame_used s f \<or> f \<in> block_frames p n" "alloc_inv s'"
    "s' = s\<lparr>mem := mem s'\<rparr>" "\<And>a. frame a \<notin> bitmap_frames c \<Longrightarrow> mem s' a = mem s a"
    by metis
  have "mem s' a = mem s a" if "\<not> is_bitmap_frame s (frame a)" for a
    using that *(1,2) by (intro *(10)) (auto simp: is_bitmap_frame_def)
  moreover have "\<exists>ci \<in> inits s. block_frames p n \<subseteq> chunk_frames (mem_chunks s ! ci)"
    using *(1,2,5) by blast
  ultimately show ?thesis using *(3,4,6-9) by blast
qed

lemma page_alloc_iff:
  assumes inv: "alloc_inv s"
  shows "(fst (page_alloc n s) \<noteq> PHYS_ADDR_NULL \<longleftrightarrow>
      n \<noteq> 0 \<and> (\<exists>ci \<in> inits s. \<exists>f. {f ..< f + unat n} \<subseteq> chunk_frames (mem_chunks s ! ci)
                              \<and> (\<forall>g \<in> {f ..< f + unat n}. \<not> frame_used s g)))
    \<and> (fst (page_alloc n s) = PHYS_ADDR_NULL \<longrightarrow> snd (page_alloc n s) = s)"
proof -
  obtain p s' where a: "page_alloc n s = (p, s')" by (cases "page_alloc n s")
  show ?thesis
  proof (cases "p = PHYS_ADDR_NULL")
    case False
    obtain ci c where "ci \<in> inits s" "c = mem_chunks s ! ci" "n \<noteq> 0"
      "block_frames p n \<subseteq> chunk_frames c" "\<forall>f \<in> block_frames p n. \<not> frame_used s f"
      by (rule page_alloc_success [OF inv a False]) blast
    with False a show ?thesis unfolding block_frames_def by auto
  next
    case True
    with a have none: "page_alloc n s = (PHYS_ADDR_NULL, s')" by simp
    have "\<exists>g \<in> {f ..< f + unat n}. frame_used s g"
      if n: "n \<noteq> 0" and ci: "ci \<in> inits s" and sub: "{f ..< f + unat n} \<subseteq> chunk_frames (mem_chunks s ! ci)"
      for ci f
    proof -
      define c where "c = mem_chunks s ! ci"
      have "0 < unat n" using n by (simp add: unat_gt_0)
      then have f: "f = frame (mem_base c) + (f - frame (mem_base c))"
        "f - frame (mem_base c) + unat n \<le> unat (total_pages c)"
        using sub by (auto simp: chunk_frames_def c_def)
      have "\<not> free_run c s (unat (total_pages c)) (unat n) (f - frame (mem_base c))"
        unfolding c_def by (rule page_alloc_fail(2) [OF inv none n ci])
      with f show ?thesis by (auto simp: free_run_frames [OF inv ci c_def])
    qed
    with none page_alloc_fail(1) [OF inv none] show ?thesis by (auto simp: Bex_def)
  qed
qed

text \<open>
  C6. \<^verbatim>\<open>page_alloc\<close> fails only when it must: it returns null exactly when no pages are asked for
  or no managed region has that many consecutive free frames, and a failed call changes nothing.
\<close>

theorem page_alloc_complete:
  assumes inv: "alloc_inv s"
  shows "(fst (page_alloc n s) \<noteq> PHYS_ADDR_NULL \<longleftrightarrow>
      n \<noteq> 0 \<and> (\<exists>ci \<in> inits s. \<exists>f. {f ..< f + unat n} \<subseteq> chunk_frames (mem_chunks s ! ci)
                              \<and> (\<forall>g \<in> {f ..< f + unat n}. \<not> frame_used s g)))
    \<and> (fst (page_alloc n s) = PHYS_ADDR_NULL \<longrightarrow> snd (page_alloc n s) = s)"
  using inv by (rule page_alloc_iff)

section \<open>Freeing\<close>

text \<open>The index of the page that holds an address of a chunk.\<close>

lemma chunk_page_index:
  assumes "chunk_shape c s" "frame a \<in> chunk_frames c"
  shows "unat ((a - mem_base c) div PAGE_SIZE) = frame a - frame (mem_base c)"
    and "mem_base c \<le> a" and "a < chunk_end c"
proof -
  show le: "mem_base c \<le> a" and "a < chunk_end c" using assms in_chunk_frames by blast+
  obtain q where q: "unat (mem_base c) = 4096 * q"
    using assms(1) by (auto simp: chunk_shape_def page_aligned_def elim: dvdE)
  have "unat ((a - mem_base c) div PAGE_SIZE) = (unat a - 4096 * q) div 4096"
    by (simp add: unat_div64 unat_sub64 [OF le] q)
  also have "\<dots> = unat a div 4096 - q" using le by (simp add: word_le_nat_alt q div_mult_self4 diff_mult_distrib)
  finally show "unat ((a - mem_base c) div PAGE_SIZE) = frame a - frame (mem_base c)"
    by (simp add: frame_def q)
qed

text \<open>The pages \<^verbatim>\<open>page_free_chunk\<close> clears: the requested ones, cut off at the end of the chunk.\<close>

lemma page_free_loop:
  assumes inv: "alloc_inv s" and ci: "ci \<in> inits s" and c: "c = mem_chunks s ! ci"
    and fr: "frame a \<in> chunk_frames c" and nw: "frame a - frame (mem_base c) + unat n < 2 ^ 64"
  obtains b m where "unat b = frame a - frame (mem_base c)"
    "unat m = min (unat n) (unat (total_pages c) - unat b)" "unat b + unat m \<le> unat (total_pages c)"
    "page_free a n s = fold (bitmap_clear c) (for_range b (b + m)) s"
proof -
  have sh: "chunk_shape c s" using alloc_invD(1) [OF inv ci] by (simp add: c)
  define b where "b = (a - mem_base c) div PAGE_SIZE"
  define m where "m = (if b + n > total_pages c then total_pages c - b else n)"
  note idx = chunk_page_index [OF sh fr, folded b_def]
  have bT: "unat b < unat (total_pages c)" using fr by (auto simp: idx(1) chunk_frames_def)
  have bn: "unat (b + n) = unat b + unat n" using nw by (intro unat_add64) (simp add: idx(1))
  have m: "unat m = min (unat n) (unat (total_pages c) - unat b)"
    using bT by (auto simp: m_def word_less_nat_alt bn unat_sub64 word_le_nat_alt)
  have "find_chunk_for_address a s = Some ci"
    using find_chunk_for_address_iff [OF inv] ci fr by (simp add: c)
  moreover have "mem_base c \<noteq> 0" "total_pages c \<noteq> 0" "bitmap c \<noteq> 0"
    using sh unfolding chunk_shape_def by blast+
  ultimately have "page_free a n s = fold (bitmap_clear c) (for_range b (b + m)) s"
    using idx(2,3)
    by (simp add: page_free_def page_free_chunk_def Let_def b_def m_def chunk_end_def not_less
        not_le flip: c)
  with idx(1) m bT show thesis by (intro that) auto
qed

lemma page_free_spec:
  assumes inv: "alloc_inv s"
  shows "(\<not> frame_managed s (frame a) \<longrightarrow> page_free a n s = s)
    \<and> (\<forall>ci \<in> inits s. \<forall>c. c = mem_chunks s ! ci \<and> frame a \<in> chunk_frames c
         \<and> frame a - frame (mem_base c) + unat n < 2 ^ 64 \<longrightarrow>
         (\<forall>f. frame_used (page_free a n s) f \<longleftrightarrow>
              frame_used s f \<and> f \<notin> block_frames a n \<inter> chunk_frames c)
         \<and> page_free a n s = s\<lparr>mem := mem (page_free a n s)\<rparr>
         \<and> (\<forall>x. frame x \<notin> bitmap_frames c \<longrightarrow> mem (page_free a n s) x = mem s x)
         \<and> (block_frames a n \<inter> bitmap_frames c = {} \<longrightarrow> alloc_inv (page_free a n s)))"
proof (intro conjI impI ballI allI; (elim conjE)?)
  assume "\<not> frame_managed s (frame a)"
  then have "find_chunk_for_address a s = None"
    using find_chunk_for_address_iff [OF inv, of a] by (cases "find_chunk_for_address a s") (auto simp: frame_managed_def)
  then show "page_free a n s = s" by (simp add: page_free_def)
next
  fix ci c assume ci: "ci \<in> inits s" and c: "c = mem_chunks s ! ci" and fr: "frame a \<in> chunk_frames c"
    and nw: "frame a - frame (mem_base c) + unat n < 2 ^ 64"
  obtain b m where b: "unat b = frame a - frame (mem_base c)"
    and m: "unat m = min (unat n) (unat (total_pages c) - unat b)"
    and le: "unat b + unat m \<le> unat (total_pages c)"
    and eq: "page_free a n s = fold (bitmap_clear c) (for_range b (b + m)) s"
    by (rule page_free_loop [OF inv ci c fr nw])
  have sh: "chunk_shape c s" using alloc_invD(1) [OF inv ci] by (simp add: c)
  have fb: "frame (mem_base c) + unat b = frame a" using fr by (simp add: b chunk_frames_def)
  have bf: "{frame (mem_base c) + unat b ..< frame (mem_base c) + unat b + unat m} = block_frames a n \<inter> chunk_frames c"
    using fr by (auto simp: fb m block_frames_def chunk_frames_def b)
  note un = unmark_pages [OF inv ci c for_range_pages(1) [OF sh le] eq, unfolded for_range_pages(2) [OF sh le] bf]
  show "frame_used (page_free a n s) f \<longleftrightarrow> frame_used s f \<and> f \<notin> block_frames a n \<inter> chunk_frames c" for f
    by (rule un(3))
  show "page_free a n s = s\<lparr>mem := mem (page_free a n s)\<rparr>" by (rule un(1))
  show "frame x \<notin> bitmap_frames c \<Longrightarrow> mem (page_free a n s) x = mem s x" for x by (rule un(4))
  show "alloc_inv (page_free a n s)" if dis: "block_frames a n \<inter> bitmap_frames c = {}"
  proof (rule un(2), rule ccontr)
    fix i assume i: "i \<in> set (for_range b (b + m))" and "\<not> bitmap_page_count c \<le> unat i"
    then have "frame (mem_base c) + unat i \<in> bitmap_frames c" by (simp add: bitmap_frames_def)
    moreover have "frame (mem_base c) + unat i \<in> block_frames a n"
      using i for_range_pages(2) [OF sh le] unfolding bf by blast
    ultimately show False using dis by blast
  qed
qed

text \<open>
  C19. \<^verbatim>\<open>page_free\<close>: an address outside the managed regions is ignored; otherwise the requested
  frames up to the end of the region become free, no other frame changes, memory outside
  the bitmap is untouched, and the invariant is kept unless the caller frees the bitmap's own
  pages. The requested count has to stay below the wrap-around of the page index.
\<close>

theorem page_free_effect:
  assumes inv: "alloc_inv s"
  shows "(\<not> frame_managed s (frame a) \<longrightarrow> page_free a n s = s)
    \<and> (\<forall>ci \<in> inits s. \<forall>c. c = mem_chunks s ! ci \<and> frame a \<in> chunk_frames c
         \<and> frame a - frame (mem_base c) + unat n < 2 ^ 64 \<longrightarrow>
         (\<forall>f. frame_used (page_free a n s) f \<longleftrightarrow>
              frame_used s f \<and> f \<notin> block_frames a n \<inter> chunk_frames c)
         \<and> page_free a n s = s\<lparr>mem := mem (page_free a n s)\<rparr>
         \<and> (\<forall>x. frame x \<notin> bitmap_frames c \<longrightarrow> mem (page_free a n s) x = mem s x)
         \<and> (block_frames a n \<inter> bitmap_frames c = {} \<longrightarrow> alloc_inv (page_free a n s)))"
  by (rule page_free_spec [OF inv])

text \<open>
  An allocation followed by the free of its block restores the whole machine state: the bits
  of every bitmap byte are the tests of eight pages, and each test is restored.
\<close>

lemma bitmap_byte_bits:
  assumes "unat k < 2 ^ 61"
    and "\<And>j. j < 2 ^ 64 \<Longrightarrow> page_used c j s' = page_used c j s" and "va_to_pa s' = va_to_pa s"
  shows "mem s' (va_to_pa s (bitmap c) + k) = mem s (va_to_pa s (bitmap c) + k)"
proof (rule bit_word_eqI)
  fix i assume i: "i < LENGTH(8)"
  have k: "of_nat ((8 * unat k + i) div 8) = k" "(8 * unat k + i) mod 8 = i" using i by simp_all
  have "8 * unat k + i < 2 ^ 64" using i assms(1) by simp
  from assms(2) [OF this] show "bit (mem s' (va_to_pa s (bitmap c) + k)) i
      = bit (mem s (va_to_pa s (bitmap c) + k)) i"
    unfolding page_used_def k assms(3) .
qed

lemma clear_set_restores:
  assumes "\<forall>i \<in> set is. \<not> page_used c (unat i) s"
  shows "fold (bitmap_clear c) is (fold (bitmap_set c) is s) = s"
proof -
  let ?s' = "fold (bitmap_clear c) is (fold (bitmap_set c) is s)"
  have "?s' = (fold (bitmap_set c) is s)\<lparr>mem := mem ?s'\<rparr>" by (rule fold_bitmap_clear_mem)
  also have "\<dots> = s\<lparr>mem := mem ?s'\<rparr>" by (subst fold_bitmap_set_mem) simp
  finally have eq: "?s' = s\<lparr>mem := mem ?s'\<rparr>" .
  have "mem ?s' a = mem s a" for a
  proof (cases "\<exists>i \<in> set is. a = va_to_pa s (bitmap c) + i div 8")
    case True
    then obtain i where a: "a = va_to_pa s (bitmap c) + i div 8" by blast
    have "unat (i div 8) < 2 ^ 61" using unat_lt64 [of i] by (simp add: unat_div8 less_mult_imp_div_less)
    then show ?thesis unfolding a
      by (rule bitmap_byte_bits) (simp_all add: bm.fold_clear_set [OF assms])
  next
    case False
    then show ?thesis by (auto simp: mem_fold_bitmap_clear mem_fold_bitmap_set)
  qed
  then have "mem ?s' = mem s" by blast
  with eq show ?thesis by simp
qed

text \<open>
  C12. Round trip: freeing the block that \<^verbatim>\<open>page_alloc\<close> returned restores the machine state
  exactly as it was before the allocation, every byte of memory included.
\<close>

theorem page_alloc_free_roundtrip:
  assumes inv: "alloc_inv s" and a: "page_alloc n s = (p, s')" and p: "p \<noteq> PHYS_ADDR_NULL"
  shows "page_free p n s' = s"
proof -
  obtain ci c where ci: "ci \<in> inits s" and c: "c = mem_chunks s ! ci" and n: "n \<noteq> 0"
    and sub: "block_frames p n \<subseteq> chunk_frames c" and free: "\<forall>f \<in> block_frames p n. \<not> frame_used s f"
    and inv': "alloc_inv s'" and eq: "s' = s\<lparr>mem := mem s'\<rparr>"
    and s': "s' = fold (bitmap_set c) (for_range ((p - mem_base c) div PAGE_SIZE)
                                 ((p - mem_base c) div PAGE_SIZE + n)) s"
    by (rule page_alloc_success [OF inv a p]) blast
  have sh: "chunk_shape c s" using alloc_invD(1) [OF inv ci] by (simp add: c)
  have chunks: "mem_chunks s' = mem_chunks s" "inits s' = inits s" by (subst eq, simp)+
  have n0: "0 < unat n" using n by (simp add: unat_gt_0)
  then have fp: "frame p \<in> chunk_frames c" using sub by (auto simp: block_frames_def)
  have le: "frame p - frame (mem_base c) + unat n \<le> unat (total_pages c)"
    using sub n0 fp by (auto simp: block_frames_def chunk_frames_def)
  then have nw: "frame p - frame (mem_base c) + unat n < 2 ^ 64"
    using unat_lt64 [of "total_pages c"] by linarith
  obtain b m where b: "unat b = frame p - frame (mem_base c)"
    and m: "unat m = min (unat n) (unat (total_pages c) - unat b)"
    and pf: "page_free p n s' = fold (bitmap_clear c) (for_range b (b + m)) s'"
    by (rule page_free_loop [OF inv', of ci c p n]) (use ci c fp nw in \<open>simp_all add: chunks\<close>)
  have "m = n" using m le b by (simp add: word_eq_iff_unsigned [where 'a = nat])
  moreover have "(p - mem_base c) div PAGE_SIZE = b"
    using chunk_page_index(1) [OF sh fp] b by (simp add: word_eq_iff_unsigned [where 'a = nat])
  ultimately have "page_free p n s' =
      fold (bitmap_clear c) (for_range b (b + n)) (fold (bitmap_set c) (for_range b (b + n)) s)"
    using pf s' by simp
  also have "\<dots> = s"
  proof (rule clear_set_restores, rule ballI)
    fix i assume i: "i \<in> set (for_range b (b + n))"
    have "frame (mem_base c) + unat i \<in> block_frames p n"
      using i for_range_pages(2) [OF sh, of b n] le fp
      by (auto simp: block_frames_def b chunk_frames_def)
    moreover from this have "frame (mem_base c) + unat i \<in> chunk_frames c" using sub by blast
    ultimately show "\<not> page_used c (unat i) s"
      using free frame_used_chunk [OF inv ci, of "frame (mem_base c) + unat i"] by (auto simp: c)
  qed
  finally show ?thesis .
qed

section \<open>Reservation\<close>

lemma for_range_shift:
  assumes "unat b + unat n < 2 ^ 64"
  shows "map (\<lambda>i. b + i) (for_range 0 n) = for_range b (b + n)"
proof -
  have "for_range b (b + n) = map of_nat (map (\<lambda>i. i + unat b) [0 ..< unat n])"
    by (simp only: for_range_def unat_add64 [OF assms] map_add_upt) (simp add: add.commute)
  then show ?thesis by (simp add: for_range_def add.commute)
qed

lemma reserve_page_spec:
  assumes inv: "alloc_inv s" and nw: "unat a + unat n * 4096 < 2 ^ 64"
    and r: "reserve_page a n s = (ok, s')"
  shows "(ok \<longleftrightarrow> (\<exists>ci \<in> inits s. frame a \<in> chunk_frames (mem_chunks s ! ci)
                  \<and> unat a + unat n * 4096 \<le> unat (chunk_end (mem_chunks s ! ci))))
    \<and> (\<not> ok \<longrightarrow> s' = s)
    \<and> (ok \<longrightarrow> (\<forall>f. frame_used s' f \<longleftrightarrow> frame_used s f \<or> f \<in> block_frames a n)
         \<and> alloc_inv s' \<and> s' = s\<lparr>mem := mem s'\<rparr>
         \<and> (\<forall>x. \<not> is_bitmap_frame s (frame x) \<longrightarrow> mem s' x = mem s x))"
proof (cases "find_chunk_for_address a s")
  case None
  then have "\<not> (\<exists>ci \<in> inits s. frame a \<in> chunk_frames (mem_chunks s ! ci))"
    using find_chunk_for_address_iff [OF inv, of a] by auto
  with None r show ?thesis by (auto simp: reserve_page_def)
next
  case (Some ci)
  then have ci: "ci \<in> inits s" and fr: "frame a \<in> chunk_frames (mem_chunks s ! ci)"
    using find_chunk_for_address_iff [OF inv, of a] by simp_all
  define c where c: "c = mem_chunks s ! ci"
  have sh: "chunk_shape c s" using alloc_invD(1) [OF inv ci] by (simp add: c)
  define b where "b = (a - mem_base c) div PAGE_SIZE"
  note idx = chunk_page_index [OF sh fr [folded c], folded b_def]
  have e: "unat (a + n * PAGE_SIZE) = unat a + unat n * 4096"
    using nw by (simp add: unat_add64 unat_mult64)
  have nz: "mem_base c \<noteq> 0" "total_pages c \<noteq> 0" "bitmap c \<noteq> 0"
    using sh unfolding chunk_shape_def by blast+
  have uniq: "(\<exists>ci \<in> inits s. frame a \<in> chunk_frames (mem_chunks s ! ci)
                  \<and> unat a + unat n * 4096 \<le> unat (chunk_end (mem_chunks s ! ci)))
      \<longleftrightarrow> unat a + unat n * 4096 \<le> unat (chunk_end c)"
    using owner_unique [OF inv _ ci _ fr] ci fr c by blast
  show ?thesis
  proof (cases "unat a + unat n * 4096 \<le> unat (chunk_end c)")
    case False
    then have "reserve_page a n s = (False, s)"
      using Some idx(2) nz by (simp add: reserve_page_def reserve_page_chunk_def Let_def c [symmetric]
          chunk_end_def [symmetric] word_less_nat_alt e)
    with r False uniq show ?thesis by simp
  next
    case True
    have fb: "frame (mem_base c) + unat b = frame a" using fr by (simp add: idx(1) c chunk_frames_def)
    have ce: "unat (chunk_end c) = (frame (mem_base c) + unat (total_pages c)) * 4096"
      using chunk_end_unat [OF sh] sh by (simp add: chunk_shape_def page_aligned_unat)
    have le: "unat b + unat n \<le> unat (total_pages c)"
    proof -
      have "frame a * 4096 + unat n * 4096 \<le> (frame (mem_base c) + unat (total_pages c)) * 4096"
        using True ce div_times_less_eq_dividend [of "unat a" 4096] unfolding frame_def by linarith
      then show ?thesis using fb by simp
    qed
    then have lt: "unat b + unat n < 2 ^ 64" using unat_lt64 [of "total_pages c"] by linarith
    have bf: "{frame (mem_base c) + unat b ..< frame (mem_base c) + unat b + unat n} = block_frames a n"
      by (simp add: block_frames_def fb)
    have "reserve_page a n s = (True, fold (\<lambda>i. bitmap_set c (b + i)) (for_range 0 n) s)"
      using Some idx(2) nz True by (simp add: reserve_page_def reserve_page_chunk_def Let_def c [symmetric]
          chunk_end_def [symmetric] word_less_nat_alt word_le_nat_alt e b_def)
    then have ok: ok and s': "s' = fold (bitmap_set c) (for_range b (b + n)) s"
      using r by (simp_all add: for_range_shift [OF lt, symmetric] fold_map comp_def)
    note mark = mark_pages [OF inv ci c for_range_pages(1) [OF sh le] s', unfolded for_range_pages(2) [OF sh le] bf]
    have "mem s' x = mem s x" if "\<not> is_bitmap_frame s (frame x)" for x
      using that ci c by (intro mark(4)) (auto simp: is_bitmap_frame_def)
    with ok mark(1-3) uniq True show ?thesis by blast
  qed
qed

text \<open>
  C20. \<^verbatim>\<open>reserve_page\<close>: it succeeds exactly when the address lies in a managed region and the
  requested pages end inside that region; then exactly those frames become used (already
  used ones stay used), and the invariant is kept. A refused reservation changes nothing.
  The byte size of the request has to stay below the wrap-around of the end address.
\<close>

theorem reserve_page_effect:
  assumes inv: "alloc_inv s" and nw: "unat a + unat n * 4096 < 2 ^ 64"
    and r: "reserve_page a n s = (ok, s')"
  shows "(ok \<longleftrightarrow> (\<exists>ci \<in> inits s. frame a \<in> chunk_frames (mem_chunks s ! ci)
                  \<and> unat a + unat n * 4096 \<le> unat (chunk_end (mem_chunks s ! ci))))
    \<and> (\<not> ok \<longrightarrow> s' = s)
    \<and> (ok \<longrightarrow> (\<forall>f. frame_used s' f \<longleftrightarrow> frame_used s f \<or> f \<in> block_frames a n)
         \<and> alloc_inv s' \<and> s' = s\<lparr>mem := mem s'\<rparr>
         \<and> (\<forall>x. \<not> is_bitmap_frame s (frame x) \<longrightarrow> mem s' x = mem s x))"
  by (rule reserve_page_spec [OF assms])

end
