(* ===== verification/Page_Allocator_Regions.thy ===== *)
theory Page_Allocator_Regions
  imports Page_Allocator_Ops
begin

text \<open>
  The region table of the page allocator: \<^verbatim>\<open>page_allocator_add_region\<close> with the bitmap that it
  builds in the region itself, \<^verbatim>\<open>page_allocator_remove_region\<close>, and the fix-up of the bitmap
  pointers when the kernel moves to its higher-half addresses.
\<close>

section \<open>Building a bitmap\<close>

lemma fold_zero_mem: "fold (\<lambda>i. store_byte (p + i) 0) is s
    = s\<lparr>mem := mem (fold (\<lambda>i. store_byte (p + i) 0) is s)\<rparr>"
  by (rule fold_mem_only) (simp add: store_byte_def)

lemma mem_fold_zero:
  "mem (fold (\<lambda>i. store_byte (p + i) 0) is s) a
     = (if a \<in> (\<lambda>i. va_to_pa s p + i) ` set is then 0 else mem s a)"
  by (induction "is" arbitrary: s) (auto simp: va_to_pa_add)

lemma store_byte_chunks:
  "store_byte p v (s\<lparr>mem_chunks := x\<rparr>) = (store_byte p v s)\<lparr>mem_chunks := x\<rparr>"
  by (simp add: store_byte_def va_to_pa_def)

lemma bitmap_set_chunks:
  "bitmap_set c i (s\<lparr>mem_chunks := x\<rparr>) = (bitmap_set c i s)\<lparr>mem_chunks := x\<rparr>"
  by (simp add: bitmap_set_def store_byte_chunks load_byte_def va_to_pa_def)

lemma address_map_chunks [simp]:
  "va_to_pa (s\<lparr>mem_chunks := x\<rparr>) = va_to_pa s" "pa_to_va (s\<lparr>mem_chunks := x\<rparr>) = pa_to_va s"
  by (simp_all add: va_to_pa_def pa_to_va_def fun_eq_iff)

lemma fold_zero_chunks:
  "fold (\<lambda>i. store_byte (p + i) 0) is (s\<lparr>mem_chunks := x\<rparr>)
     = (fold (\<lambda>i. store_byte (p + i) 0) is s)\<lparr>mem_chunks := x\<rparr>"
  by (induction "is" arbitrary: s) (simp_all add: store_byte_chunks)

lemma fold_bitmap_set_chunks:
  "fold (bitmap_set c) is (s\<lparr>mem_chunks := x\<rparr>) = (fold (bitmap_set c) is s)\<lparr>mem_chunks := x\<rparr>"
  by (induction "is" arbitrary: s) (simp_all add: bitmap_set_chunks)

lemma bitmap_set_chunk_cong: "bitmap c = bitmap c' \<Longrightarrow> bitmap_set c = bitmap_set c'"
  by (simp add: bitmap_set_def fun_eq_iff)

text \<open>The chunk descriptor that \<^verbatim>\<open>page_init_chunk\<close> builds, and the memory it leaves.\<close>

definition region_chunk :: "'a mem_state_scheme \<Rightarrow> phy_addr \<Rightarrow> u64 \<Rightarrow> memory_chunk_t" where
  "region_chunk s base pages =
     \<lparr>bitmap = pa_to_va s base, total_pages = pages, mem_base = base, initialized = True\<rparr>"

definition region_mem :: "'a mem_state_scheme \<Rightarrow> phy_addr \<Rightarrow> u64 \<Rightarrow> memory" where
  "region_mem s base pages =
     mem (fold (bitmap_set (region_chunk s base pages)) (for_range 0 (NUM_PAGES ((pages + 7) div 8)))
       (fold (\<lambda>i. store_byte (pa_to_va s base + i) 0) (for_range 0 ((pages + 7) div 8)) s))"

lemma region_sizes:
  assumes "unat base + unat pages * 4096 < 2 ^ 64"
  shows "unat ((pages + 7) div 8) = (unat pages + 7) div 8"
    and "unat (NUM_PAGES ((pages + 7) div 8)) = bitmap_page_count (region_chunk s base pages)"
proof -
  show *: "unat ((pages + 7) div 8) = (unat pages + 7) div 8"
    using assms by (simp add: unat_div64 unat_add64)
  then show "unat (NUM_PAGES ((pages + 7) div 8)) = bitmap_page_count (region_chunk s base pages)"
    using assms by (simp add: NUM_PAGES_unat bitmap_page_count_def region_chunk_def)
qed

lemma region_bytes:
  assumes "unat base + unat pages * 4096 < 2 ^ 64"
  shows "a \<in> (\<lambda>i. base + i) ` set (for_range 0 ((pages + 7) div 8)) \<longleftrightarrow>
     unat (a - base) < (unat pages + 7) div 8"
proof -
  have "a \<in> (\<lambda>i. base + i) ` {i. i < (pages + 7) div 8} \<longleftrightarrow> a - base < (pages + 7) div 8"
    by (auto simp: image_iff algebra_simps intro: exI [of _ "a - base"])
  then show ?thesis using region_sizes(1) [OF assms] by (simp add: set_for_range word_less_nat_alt)
qed

lemma region_mem_bits:
  assumes b: "unat base + unat pages * 4096 < 2 ^ 64" and j: "j < unat pages"
  shows "page_used (region_chunk s base pages) j (s\<lparr>mem := region_mem s base pages\<rparr>)
    \<longleftrightarrow> j < bitmap_page_count (region_chunk s base pages)"
proof -
  let ?c = "region_chunk s base pages"
  let ?z = "fold (\<lambda>i. store_byte (pa_to_va s base + i) 0) (for_range 0 ((pages + 7) div 8)) s"
  let ?m = "fold (bitmap_set ?c) (for_range 0 (NUM_PAGES ((pages + 7) div 8))) ?z"
  have vz: "va_to_pa ?z = va_to_pa s" by (subst fold_zero_mem) simp
  have "page_used ?c j (s\<lparr>mem := region_mem s base pages\<rparr>) = page_used ?c j ?m"
    by (rule page_used_cong) (simp_all add: region_mem_def vz)
  also have "\<dots> \<longleftrightarrow> j \<in> unat ` set (for_range 0 (NUM_PAGES ((pages + 7) div 8))) \<or> page_used ?c j ?z"
    using j unat_lt64 [of pages] by (intro bm.test_fold_set) linarith
  also have "unat ` set (for_range 0 (NUM_PAGES ((pages + 7) div 8))) = {0 ..< bitmap_page_count ?c}"
    using image_for_range [of 0 "NUM_PAGES ((pages + 7) div 8)" 0]
      unat_lt64 [of "NUM_PAGES ((pages + 7) div 8)"]
    by (simp add: region_sizes(2) [OF b, of s])
  also have "page_used ?c j ?z = False"
  proof -
    have "unat (of_nat (j div 8) :: u64) = j div 8"
      using j unat_lt64 [of pages] by (intro unat_of_nat64) linarith
    then have "base + of_nat (j div 8) \<in> (\<lambda>i. base + i) ` set (for_range 0 ((pages + 7) div 8))"
      using j by (subst region_bytes [OF b]) simp
    then have "mem ?z (base + of_nat (j div 8)) = 0" by (subst mem_fold_zero) simp
    then show ?thesis by (simp add: page_used_def vz region_chunk_def)
  qed
  finally show ?thesis by simp
qed

lemma region_mem_out:
  assumes al: "page_aligned base" and b: "unat base + unat pages * 4096 < 2 ^ 64"
    and sh: "chunk_shape (region_chunk s base pages) s"
    and a: "frame a \<notin> bitmap_frames (region_chunk s base pages)"
  shows "region_mem s base pages a = mem s a"
proof -
  let ?c = "region_chunk s base pages"
  let ?z = "fold (\<lambda>i. store_byte (pa_to_va s base + i) 0) (for_range 0 ((pages + 7) div 8)) s"
  have vz: "va_to_pa ?z = va_to_pa s" by (subst fold_zero_mem) simp
  have le: "\<forall>i \<in> set (for_range 0 (NUM_PAGES ((pages + 7) div 8))). i < total_pages ?c"
    using bitmap_page_count_bounds(2) [OF sh]
    by (auto simp: set_for_range word_less_nat_alt region_sizes(2) [OF b, of s])
  have "region_mem s base pages a = mem ?z a"
    unfolding region_mem_def
    by (rule mem_fold_bitmap_set) (use bitmap_byte_out [OF sh le a] in \<open>simp add: vz\<close>)
  also have "\<not> unat (a - base) < (unat pages + 7) div 8"
  proof
    assume k: "unat (a - base) < (unat pages + 7) div 8"
    have "unat (base + (a - base)) = unat base + unat (a - base)"
      using b k by (intro unat_add64) linarith
    then have "frame a = frame base + unat (a - base) div 4096"
      by (intro frame_offset [OF al]) simp
    moreover have "unat (a - base) div 4096 < bitmap_page_count ?c"
      using k by (simp add: bitmap_page_count_def region_chunk_def)
    ultimately show False using a by (simp add: bitmap_frames_def region_chunk_def)
  qed
  then have "mem ?z a = mem s a" by (simp add: mem_fold_zero region_bytes [OF b])
  finally show ?thesis .
qed

section \<open>Adding a region\<close>

text \<open>The first page boundary at or after an address, and the pages from there to an end.\<close>

definition region_base :: "phy_addr \<Rightarrow> phy_addr" where
  "region_base start = (start + (PAGE_SIZE - 1)) AND NOT (PAGE_SIZE - 1)"

definition region_pages :: "phy_addr \<Rightarrow> u64 \<Rightarrow> u64" where
  "region_pages start sz = (sz - (region_base start - start)) div PAGE_SIZE"

lemma region_base_unat:
  assumes "unat start + 4095 < 2 ^ 64"
  shows "unat (region_base start) = (unat start + 4095) div 4096 * 4096"
proof -
  have "unat (start + 4095) = unat start + 4095" using assms by (subst unat_add64) simp_all
  moreover have "PAGE_SIZE - 1 = 0xFFF" by (simp add: PAGE_SIZE_def)
  ultimately show ?thesis by (simp only: region_base_def unat_and_not_mask12)
qed

text \<open>A region that holds at least one whole page, below the end of the address space.\<close>

definition region_fits :: "phy_addr \<Rightarrow> u64 \<Rightarrow> bool" where
  "region_fits start sz \<longleftrightarrow>
     unat start + unat sz < 2 ^ 64 \<and> (unat start + 4095) div 4096 < (unat start + unat sz) div 4096"

lemma region_fits_facts:
  assumes "region_fits start sz"
  shows "page_aligned (region_base start)" "frame (region_base start) = (unat start + 4095) div 4096"
    "region_base start - start < sz" "region_pages start sz \<noteq> 0"
    "frame (region_base start) + unat (region_pages start sz) = (unat start + unat sz) div 4096"
    "unat (region_base start) + unat (region_pages start sz) * 4096 < 2 ^ 64"
proof -
  define A where "A = region_base start"
  define q where "q = (unat start + 4095) div 4096"
  have le: "Suc q \<le> (unat start + unat sz) div 4096" and nw: "unat start + unat sz < 2 ^ 64"
    using assms by (simp_all add: region_fits_def q_def Suc_le_eq)
  have "Suc q * 4096 \<le> unat start + unat sz" using le by (simp add: less_eq_div_iff_mult_less_eq)
  then have q: "q * 4096 + 4096 \<le> unat start + unat sz" by simp
  have split: "unat start + 4095 = q * 4096 + (unat start + 4095) mod 4096" by (simp add: q_def)
  moreover have "(unat start + 4095) mod 4096 < 4096" by simp
  ultimately have "unat start \<le> q * 4096" by linarith
  have A: "unat A = q * 4096" using region_base_unat [of start] q nw by (simp add: A_def q_def)
  show "page_aligned (region_base start)" using A by (simp add: page_aligned_def A_def)
  show f: "frame (region_base start) = (unat start + 4095) div 4096" using A by (simp add: frame_def A_def q_def)
  have sh: "unat (A - start) = q * 4096 - unat start"
    using \<open>unat start \<le> q * 4096\<close> A by (simp add: unat_sub64 word_le_nat_alt)
  show lt: "region_base start - start < sz"
    using sh q \<open>unat start \<le> q * 4096\<close> by (simp add: word_less_nat_alt A_def)
  have szu: "unat (sz - (A - start)) = unat start + unat sz - q * 4096"
    using lt sh \<open>unat start \<le> q * 4096\<close> by (simp add: unat_sub64 A_def)
  have pg: "unat (region_pages start sz) = (unat start + unat sz) div 4096 - q"
    using szu by (simp add: region_pages_def unat_div64 A_def diff_mult_distrib)
  show "frame (region_base start) + unat (region_pages start sz) = (unat start + unat sz) div 4096"
    using pg le f by (simp add: q_def)
  have "0 < unat (region_pages start sz)" using pg le by simp
  then show "region_pages start sz \<noteq> 0" by auto
  have "unat A + unat (region_pages start sz) * 4096 = (unat start + unat sz) div 4096 * 4096"
    using pg le A by (simp add: diff_mult_distrib)
  also have "\<dots> \<le> unat start + unat sz" by simp
  finally show "unat (region_base start) + unat (region_pages start sz) * 4096 < 2 ^ 64"
    using nw by (simp add: A_def)
qed

text \<open>The path of \<^verbatim>\<open>page_init_chunk\<close> that succeeds.\<close>

lemma page_init_chunk_ok:
  fixes s :: "'a alloc_state_scheme"
  assumes fits: "region_fits start sz" and i: "i < length (mem_chunks s)"
    and nz: "region_base start \<noteq> 0" "pa_to_va s (region_base start) \<noteq> 0"
    and ov: "\<not> (chk \<and> check_kernel_binary_overlap (region_base start)
               (NUM_PAGES ((region_pages start sz + 7) div 8) * PAGE_SIZE) s)"
  shows "page_init_chunk start sz i chk s =
    (True, s\<lparr>mem := region_mem s (region_base start) (region_pages start sz),
             mem_chunks := (mem_chunks s)[i := region_chunk s (region_base start) (region_pages start sz)]\<rparr>)"
proof -
  define A P where "A = region_base start" and "P = region_pages start sz"
  define c where "c = (mem_chunks s ! i)\<lparr>initialized := False, mem_base := A, bitmap := pa_to_va s A, total_pages := P\<rparr>"
  define z where "z = fold (\<lambda>i. store_byte (pa_to_va s A + i) 0) (for_range 0 ((P + 7) div 8)) s"
  note fits' = region_fits_facts [OF fits, folded A_def P_def]
  let ?N = "NUM_PAGES ((P + 7) div 8)"
  have z: "mem_chunks z = mem_chunks s" "va_to_pa z = va_to_pa s"
    unfolding z_def by (subst fold_zero_mem, simp)+
  have sh: "chunk_shape (region_chunk s A P) s"
    using fits'(1,4,6) nz by (simp add: chunk_shape_def region_chunk_def A_def P_def)
  have "unat ?N \<le> unat P"
    using bitmap_page_count_bounds(2) [OF sh] region_sizes(2) [OF fits'(6), of s] by (simp add: region_chunk_def)
  moreover from this have "unat (A + ?N * PAGE_SIZE) = unat A + unat ?N * 4096"
    "unat (A + P * PAGE_SIZE) = unat A + unat P * 4096"
    using fits'(6) by (intro page_aligned_add_pages(1) [OF fits'(1)]; simp)+
  ultimately have le: "A + ?N * PAGE_SIZE \<le> A + P * PAGE_SIZE" by (simp add: word_le_nat_alt)
  have res: "reserve_page_chunk A ?N i (z\<lparr>mem_chunks := (mem_chunks s)[i := c]\<rparr>)
      = (True, (fold (bitmap_set c) (for_range 0 ?N) z)\<lparr>mem_chunks := (mem_chunks s)[i := c]\<rparr>)"
    using i nz le fits'(4)
    by (simp add: reserve_page_chunk_def Let_def c_def A_def P_def not_less fold_bitmap_set_chunks)
  have "bitmap_set c = (bitmap_set (region_chunk s A P) :: u64 \<Rightarrow> 'a alloc_state_scheme \<Rightarrow> _)"
    by (rule bitmap_set_chunk_cong) (simp add: c_def region_chunk_def)
  then have m: "fold (bitmap_set c) (for_range 0 ?N) z = s\<lparr>mem := region_mem s A P\<rparr>"
    unfolding region_mem_def z_def [symmetric]
    by (subst fold_bitmap_set_mem) (simp add: z_def, subst fold_zero_mem, simp)
  have "check_kernel_binary_overlap A k (s\<lparr>mem_chunks := x\<rparr>) = check_kernel_binary_overlap A k s" for k x
    by (simp add: check_kernel_binary_overlap_def sym_addr_def)
  moreover have "(start + (PAGE_SIZE - 1)) AND NOT (PAGE_SIZE - 1) = A"
    and "(sz - (A - start)) div PAGE_SIZE = P"
    by (simp_all add: A_def P_def region_base_def region_pages_def)
  moreover have "c\<lparr>initialized := True\<rparr> = region_chunk s A P" by (simp add: c_def region_chunk_def)
  ultimately show ?thesis
    using ov i fits'(3) res z m
    by (simp add: page_init_chunk_def Let_def upd_chunk_def fold_zero_chunks
        flip: A_def P_def z_def c_def)
qed

section \<open>Replacing the descriptor of one slot\<close>

lemma find_region_slot_from_Some:
  "find_region_slot_from cs k a = Some i \<Longrightarrow>
   k \<le> i \<and> i - k < length cs \<and> (mem_base (cs ! (i - k)) = a \<or> \<not> initialized (cs ! (i - k)))"
proof (induction cs k a rule: find_region_slot_from.induct)
  case (2 c cs k a)
  then show ?case by (fastforce split: if_splits simp: Suc_diff_le nth_Cons' Suc_le_eq)
qed simp

lemma find_region_from_Some:
  "find_region_from cs k a = Some i \<Longrightarrow>
   k \<le> i \<and> i - k < length cs \<and> initialized (cs ! (i - k)) \<and> mem_base (cs ! (i - k)) = a"
proof (induction cs k a rule: find_region_from.induct)
  case (2 c cs k a)
  then show ?case by (fastforce split: if_splits simp: Suc_diff_le nth_Cons' Suc_le_eq)
qed simp

lemma find_region_from_None:
  "find_region_from cs k a = None \<Longrightarrow> c \<in> set cs \<Longrightarrow> \<not> (initialized c \<and> mem_base c = a)"
  by (induction cs k a rule: find_region_from.induct) (auto split: if_splits)

lemma view_chunks [simp]:
  "page_used c k (s\<lparr>mem_chunks := x\<rparr>) = page_used c k s"
  "chunk_shape c (s\<lparr>mem_chunks := x\<rparr>) = chunk_shape c s"
  "bitmap_marked c (s\<lparr>mem_chunks := x\<rparr>) = bitmap_marked c s"
  by (simp_all add: page_used_def chunk_shape_def bitmap_marked_def)

lemma drop_chunk:
  assumes inv: "alloc_inv s" and s': "s' = s\<lparr>mem_chunks := (mem_chunks s)[i := c]\<rparr>" and c: "\<not> initialized c"
  shows "alloc_inv s'" "inits s' = inits s - {i}"
    and "\<And>j. j \<in> inits s' \<Longrightarrow> mem_chunks s' ! j = mem_chunks s ! j"
    and "\<And>f. frame_used s' f \<longleftrightarrow> (\<exists>j \<in> inits s - {i}. f \<in> chunk_frames (mem_chunks s ! j)) \<and> frame_used s f"
proof -
  show in': "inits s' = inits s - {i}" using c
    by (cases "i < length (mem_chunks s)") (auto simp: s' inits_def nth_list_update split: if_splits)
  show nth: "mem_chunks s' ! j = mem_chunks s ! j" if "j \<in> inits s'" for j
    using that in' by (simp add: s')
  show "alloc_inv s'" using inv unfolding alloc_inv_def in' by (auto simp: s')
  show "frame_used s' f \<longleftrightarrow> (\<exists>j \<in> inits s - {i}. f \<in> chunk_frames (mem_chunks s ! j)) \<and> frame_used s f" for f
  proof -
    have "frame_used s' f \<longleftrightarrow> (\<exists>j \<in> inits s - {i}. f \<in> chunk_frames (mem_chunks s ! j)
        \<and> page_used (mem_chunks s ! j) (f - frame (mem_base (mem_chunks s ! j))) s)"
      unfolding frame_used_def in' by (auto simp: s')
    then show ?thesis using frame_used_chunk [OF inv] by (metis DiffD1)
  qed
qed

text \<open>The new descriptor and its bitmap next to the chunks that stay.\<close>

lemma put_chunk:
  assumes inv: "alloc_inv s" and i: "i < length (mem_chunks s)" and sh: "chunk_shape c s"
    and c: "c = region_chunk s base pages"
    and apart: "\<And>j. j \<in> inits s \<Longrightarrow> j \<noteq> i \<Longrightarrow> chunk_frames (mem_chunks s ! j) \<inter> chunk_frames c = {}"
    and s': "s' = s\<lparr>mem := region_mem s base pages, mem_chunks := (mem_chunks s)[i := c]\<rparr>"
  shows "alloc_inv s'" "inits s' = insert i (inits s)" "mem_chunks s' ! i = c"
    and "\<And>f. f \<in> chunk_frames c \<Longrightarrow> frame_used s' f \<longleftrightarrow> f \<in> bitmap_frames c"
    and "\<And>j f. j \<in> inits s \<Longrightarrow> j \<noteq> i \<Longrightarrow> f \<in> chunk_frames (mem_chunks s ! j) \<Longrightarrow> frame_used s' f = frame_used s f"
    and "\<And>a. frame a \<notin> bitmap_frames c \<Longrightarrow> mem s' a = mem s a"
proof -
  let ?m = "region_mem s base pages"
  have b: "unat base + unat pages * 4096 < 2 ^ 64" "page_aligned base" and ini: "initialized c"
    using sh by (simp_all add: c chunk_shape_def region_chunk_def)
  show in': "inits s' = insert i (inits s)" using i ini by (auto simp: s' inits_def nth_list_update)
  show ci: "mem_chunks s' ! i = c" using i by (simp add: s')
  have nth: "mem_chunks s' ! j = mem_chunks s ! j" if "j \<noteq> i" for j using that by (simp add: s')
  show out: "mem s' a = mem s a" if "frame a \<notin> bitmap_frames c" for a
    using region_mem_out [OF b(2,1) sh [unfolded c] that [unfolded c]] by (simp add: s')
  have pu: "page_used d k s' = page_used d k (s\<lparr>mem := ?m\<rparr>)" for d k by (simp add: s' page_used_def)
  have other: "page_used (mem_chunks s ! j) k s' = page_used (mem_chunks s ! j) k s"
    if j: "j \<in> inits s" "j \<noteq> i" and k: "k < unat (total_pages (mem_chunks s ! j))" for j k
    unfolding pu
  proof (rule page_used_upd_cong [OF alloc_invD(1) [OF inv j(1)] k])
    fix a assume "frame a \<in> bitmap_frames (mem_chunks s ! j)"
    then have "frame a \<notin> bitmap_frames c"
      using apart [OF j] bitmap_frames_sub [OF sh] bitmap_frames_sub [OF alloc_invD(1) [OF inv j(1)]] by blast
    from out [OF this] show "?m a = mem s a" by (simp add: s')
  qed
  have new: "page_used c k s' \<longleftrightarrow> k < bitmap_page_count c" if "k < unat (total_pages c)" for k
    using region_mem_bits [OF b(1), of k s] that by (simp add: pu c region_chunk_def)
  have shs: "chunk_shape d s' = chunk_shape d s" for d by (simp add: s' chunk_shape_def)
  have mk: "bitmap_marked (mem_chunks s ! j) s'" if "j \<in> inits s" "j \<noteq> i" for j
    using alloc_invD [OF inv that(1)] other [OF that] bitmap_page_count_bounds(2)
    by (fastforce simp: bitmap_marked_def)
  have mkc: "bitmap_marked c s'" using new bitmap_page_count_bounds(2) [OF sh] by (simp add: bitmap_marked_def)
  have "chunk_shape (mem_chunks s' ! j) s' \<and> bitmap_marked (mem_chunks s' ! j) s'" if "j \<in> inits s'" for j
    using that mk mkc sh alloc_invD(1) [OF inv] by (cases "j = i") (auto simp: in' ci nth shs)
  moreover have "chunk_frames (mem_chunks s' ! j) \<inter> chunk_frames (mem_chunks s' ! k) = {}"
    if "j \<in> inits s'" "k \<in> inits s'" "j \<noteq> k" for j k
    using that apart inv by (cases "j = i"; cases "k = i") (auto simp: in' ci nth alloc_inv_def)
  ultimately show inv': "alloc_inv s'" using inv by (simp add: alloc_inv_def s')
  show "frame_used s' f \<longleftrightarrow> f \<in> bitmap_frames c" if "f \<in> chunk_frames c" for f
    using frame_used_chunk [OF inv', of i f] that new by (auto simp: in' ci chunk_frames_def bitmap_frames_def)
  show "frame_used s' f = frame_used s f"
    if j: "j \<in> inits s" "j \<noteq> i" and f: "f \<in> chunk_frames (mem_chunks s ! j)" for j f
    using frame_used_chunk [OF inv', of j f] frame_used_chunk [OF inv j(1) f] j f other [OF j]
    by (auto simp: in' nth chunk_frames_def)
qed

section \<open>The region operations\<close>

text \<open>Adding a region, with everything it leaves alone.\<close>

lemma add_region_effect:
  assumes inv: "alloc_inv s" and slot: "find_region_slot_from (mem_chunks s) 0 start = Some i"
    and fits: "region_fits start sz"
    and nz: "region_base start \<noteq> 0" "pa_to_va s (region_base start) \<noteq> 0"
    and ov: "\<not> (chk \<and> check_kernel_binary_overlap (region_base start)
               (NUM_PAGES ((region_pages start sz + 7) div 8) * PAGE_SIZE) s)"
    and apart: "\<forall>j \<in> inits s - {i}. chunk_frames (mem_chunks s ! j)
                  \<inter> {(unat start + 4095) div 4096 ..< (unat start + unat sz) div 4096} = {}"
  shows "\<exists>s'. page_allocator_add_region start sz chk s = (True, s')
    \<and> alloc_inv s' \<and> inits s' = insert i (inits s)
    \<and> chunk_frames (mem_chunks s' ! i) = {(unat start + 4095) div 4096 ..< (unat start + unat sz) div 4096}
    \<and> (\<forall>f \<in> chunk_frames (mem_chunks s' ! i). frame_used s' f \<longleftrightarrow> f \<in> bitmap_frames (mem_chunks s' ! i))
    \<and> (\<forall>j \<in> inits s - {i}. \<forall>f \<in> chunk_frames (mem_chunks s ! j). frame_used s' f = frame_used s f)
    \<and> (\<forall>a. frame a \<notin> bitmap_frames (mem_chunks s' ! i) \<longrightarrow> mem s' a = mem s a)
    \<and> (\<forall>j. j \<noteq> i \<longrightarrow> mem_chunks s' ! j = mem_chunks s ! j)
    \<and> s' = s\<lparr>mem := mem s', mem_chunks := mem_chunks s'\<rparr>"
proof -
  let ?A = "region_base start" and ?P = "region_pages start sz"
  define c where "c = region_chunk s ?A ?P"
  define s' where "s' = s\<lparr>mem := region_mem s ?A ?P, mem_chunks := (mem_chunks s)[i := c]\<rparr>"
  note facts = region_fits_facts [OF fits]
  have i: "i < length (mem_chunks s)" using find_region_slot_from_Some [OF slot] by simp
  have sh: "chunk_shape c s" using facts(1,4,6) nz by (simp add: c_def chunk_shape_def region_chunk_def)
  have cf: "chunk_frames c = {(unat start + 4095) div 4096 ..< (unat start + unat sz) div 4096}"
    using facts(2,5) by (simp add: c_def chunk_frames_def region_chunk_def)
  have "page_allocator_add_region start sz chk s = (True, s')"
    using page_init_chunk_ok [OF fits i nz ov] slot by (simp add: page_allocator_add_region_def s'_def c_def)
  moreover note put_chunk [OF inv i sh c_def _ s'_def] apart cf
  moreover have "mem_chunks s' ! j = mem_chunks s ! j" if "j \<noteq> i" for j using that by (simp add: s'_def)
  moreover have "s' = s\<lparr>mem := mem s', mem_chunks := mem_chunks s'\<rparr>" by (simp add: s'_def)
  ultimately show ?thesis by (intro exI [of _ s']) auto
qed

text \<open>
  C13. \<^verbatim>\<open>page_allocator_add_region\<close>: when a slot is available, the region holds at least one whole
  page, and the bitmap pages do not lie on the kernel image (where that check is asked for),
  the call succeeds; the new region covers exactly the whole pages inside the given byte range,
  all of them are free except the pages of the bitmap itself, the other regions keep their
  pages, and the invariant holds provided the caller passed memory not managed yet. The check
  concerns the bitmap only: a region that contains the kernel image behind its bitmap is accepted,
  although \<^verbatim>\<open>page_allocator.h\<close> and the comment of \<^verbatim>\<open>page_init_chunk\<close> say that a region overlapping the
  image is rejected. (\<^verbatim>\<open>setup_page_allocator\<close> depends on this: it reserves the image afterwards.)
\<close>

theorem page_allocator_add_region_ok:
  assumes inv: "alloc_inv s" and slot: "find_region_slot_from (mem_chunks s) 0 start = Some i"
    and fits: "region_fits start sz"
    and nz: "region_base start \<noteq> 0" "pa_to_va s (region_base start) \<noteq> 0"
    and ov: "\<not> (chk \<and> check_kernel_binary_overlap (region_base start)
               (NUM_PAGES ((region_pages start sz + 7) div 8) * PAGE_SIZE) s)"
    and apart: "\<forall>j \<in> inits s - {i}. chunk_frames (mem_chunks s ! j)
                  \<inter> {(unat start + 4095) div 4096 ..< (unat start + unat sz) div 4096} = {}"
  shows "\<exists>s'. page_allocator_add_region start sz chk s = (True, s')
    \<and> alloc_inv s' \<and> inits s' = insert i (inits s)
    \<and> chunk_frames (mem_chunks s' ! i) = {(unat start + 4095) div 4096 ..< (unat start + unat sz) div 4096}
    \<and> (\<forall>f \<in> chunk_frames (mem_chunks s' ! i). frame_used s' f \<longleftrightarrow> f \<in> bitmap_frames (mem_chunks s' ! i))
    \<and> (\<forall>j \<in> inits s - {i}. \<forall>f \<in> chunk_frames (mem_chunks s ! j). frame_used s' f = frame_used s f)
    \<and> (\<forall>a. frame a \<notin> bitmap_frames (mem_chunks s' ! i) \<longrightarrow> mem s' a = mem s a)"
  using add_region_effect [OF assms] by blast

lemma region_fits_if_pages:
  assumes nw: "unat start + unat sz < 2 ^ 64" and nz: "region_base start \<noteq> 0"
    and lt: "region_base start - start < sz" and pg: "region_pages start sz \<noteq> 0"
  shows "region_fits start sz"
proof -
  define q where "q = (unat start + 4095) div 4096"
  have "unat start + 4095 < 2 ^ 64"
  proof (rule ccontr)
    assume big: "\<not> unat start + 4095 < 2 ^ 64"
    then have "unat (start + 4095) < 4096" using unat_lt64 [of start] by (auto simp: unat_word_ariths mod_if)
    moreover have "PAGE_SIZE - 1 = 0xFFF" by (simp add: PAGE_SIZE_def)
    ultimately have "unat (region_base start) = 0" by (simp only: region_base_def unat_and_not_mask12) simp
    then show False using nz by (simp add: unat_eq_0)
  qed
  then have A: "unat (region_base start) = q * 4096" by (simp add: region_base_unat q_def)
  have split: "unat start + 4095 = q * 4096 + (unat start + 4095) mod 4096" by (simp add: q_def)
  moreover have "(unat start + 4095) mod 4096 < 4096" by simp
  ultimately have le: "unat start \<le> q * 4096" by linarith
  have sh: "unat (region_base start - start) = q * 4096 - unat start"
    using le A by (simp add: unat_sub64 word_le_nat_alt)
  then have "unat (sz - (region_base start - start)) = unat start + unat sz - q * 4096"
    using lt le by (simp add: unat_sub64 less_imp_le)
  then have "unat (region_pages start sz) = (unat start + unat sz - q * 4096) div 4096"
    by (simp add: region_pages_def unat_div64)
  moreover have "unat (region_pages start sz) \<noteq> 0" using pg by (simp add: unat_eq_0)
  ultimately have "4096 \<le> unat start + unat sz - q * 4096" by (metis div_less not_le)
  then have "Suc q * 4096 \<le> unat start + unat sz" by simp
  then have "Suc q \<le> (unat start + unat sz) div 4096" by (simp add: less_eq_div_iff_mult_less_eq)
  then show ?thesis using nw by (simp add: region_fits_def q_def)
qed

text \<open>The paths of \<^verbatim>\<open>page_init_chunk\<close> that fail leave memory alone and the slot unused.\<close>

lemma page_init_chunk_refused:
  assumes nw: "unat start + unat sz < 2 ^ 64" and nz: "region_base start \<noteq> 0"
    and i: "i < length (mem_chunks s)"
    and no: "\<not> (region_fits start sz \<and> \<not> (chk \<and> check_kernel_binary_overlap (region_base start)
               (NUM_PAGES ((region_pages start sz + 7) div 8) * PAGE_SIZE) s))"
  obtains c where "page_init_chunk start sz i chk s = (False, s\<lparr>mem_chunks := (mem_chunks s)[i := c]\<rparr>)"
    "\<not> initialized c"
proof -
  define A P where "A = region_base start" and "P = region_pages start sz"
  have eqs: "(start + (PAGE_SIZE - 1)) AND NOT (PAGE_SIZE - 1) = A" "(sz - (A - start)) div PAGE_SIZE = P"
    by (simp_all add: A_def P_def region_base_def region_pages_def)
  have ck: "check_kernel_binary_overlap A k (s\<lparr>mem_chunks := x\<rparr>) = check_kernel_binary_overlap A k s" for k x
    by (simp add: check_kernel_binary_overlap_def sym_addr_def)
  let ?ov = "chk \<and> check_kernel_binary_overlap A (NUM_PAGES ((P + 7) div 8) * PAGE_SIZE) s"
  consider "sz \<le> A - start" | "A - start < sz" ?ov | "A - start < sz" "\<not> ?ov" "P = 0"
    using no region_fits_if_pages [OF nw nz] unfolding A_def P_def by force
  then show thesis
  proof cases
    case 1
    then show ?thesis using i
      by (intro that [of "(mem_chunks s ! i)\<lparr>initialized := False\<rparr>"])
        (simp_all add: page_init_chunk_def eqs Let_def upd_chunk_def)
  next
    case 2
    then show ?thesis using i
      by (intro that [of "(mem_chunks s ! i)\<lparr>initialized := False, mem_base := A\<rparr>"])
        (simp_all add: page_init_chunk_def eqs Let_def upd_chunk_def ck not_le)
  next
    case 3
    have "for_range 0 ((P + 7) div 8) = []" by (simp add: 3 for_range_def)
    with 3 show ?thesis using i
      by (intro that [of "(mem_chunks s ! i)\<lparr>initialized := False, mem_base := A,
              bitmap := pa_to_va s A, total_pages := 0\<rparr>"])
        (auto simp: page_init_chunk_def eqs Let_def upd_chunk_def ck reserve_page_chunk_def)
  qed
qed

text \<open>
  The region is refused late when \<^verbatim>\<open>page_init_chunk\<close> has already zeroed the bytes for its bitmap: these bytes,
  or none when it is refused before.
\<close>

definition zeroed_bytes :: "phy_addr \<Rightarrow> u64 \<Rightarrow> bool \<Rightarrow> 'a alloc_state_scheme \<Rightarrow> phy_addr set" where
  "zeroed_bytes start sz chk s =
     (if find_region_slot_from (mem_chunks s) 0 start \<noteq> None \<and> region_base start - start < sz
         \<and> \<not> (chk \<and> check_kernel_binary_overlap (region_base start)
               (NUM_PAGES ((region_pages start sz + 7) div 8) * PAGE_SIZE) s)
      then {a. unat (a - region_base start) < (unat (region_pages start sz) + 7) div 8} else {})"

lemma region_bitmap_bytes:
  "a \<in> (\<lambda>i. base + i) ` set (for_range 0 ((region_pages start sz + 7) div 8)) \<longleftrightarrow>
     unat (a - base) < (unat (region_pages start sz) + 7) div 8"
proof -
  have "unat (region_pages start sz) < 2 ^ 52"
    using unat_lt64 [of "sz - (region_base start - start)"]
    by (simp add: region_pages_def unat_div64 div_less_iff_less_mult)
  then have "unat ((region_pages start sz + 7) div 8) = (unat (region_pages start sz) + 7) div 8"
    by (simp add: unat_div64 unat_add64)
  moreover have "a \<in> (\<lambda>i. base + i) ` {i. i < (region_pages start sz + 7) div 8} \<longleftrightarrow>
      a - base < (region_pages start sz + 7) div 8"
    by (auto simp: image_iff algebra_simps intro: exI [of _ "a - base"])
  ultimately show ?thesis by (simp add: set_for_range word_less_nat_alt)
qed

lemma reserve_page_chunk_refused: "reserve_page_chunk a n i s = (False, s') \<Longrightarrow> s' = s"
  by (simp add: reserve_page_chunk_def Let_def split: if_splits)

text \<open>Every refusal of \<^verbatim>\<open>page_init_chunk\<close> leaves the slot unused and has zeroed exactly those bytes.\<close>

lemma page_init_chunk_refusal:
  fixes s :: "'a alloc_state_scheme"
  assumes slot: "find_region_slot_from (mem_chunks s) 0 start = Some i"
    and r: "page_init_chunk start sz i chk s = (False, s')"
  obtains c where "\<not> initialized c" "s' = s\<lparr>mem := mem s', mem_chunks := (mem_chunks s)[i := c]\<rparr>"
    "\<And>a. mem s' a = (if a \<in> zeroed_bytes start sz chk s then 0 else mem s a)"
proof -
  define A P where "A = region_base start" and "P = region_pages start sz"
  have i: "i < length (mem_chunks s)" using find_region_slot_from_Some [OF slot] by simp
  have eqs: "(start + (PAGE_SIZE - 1)) AND NOT (PAGE_SIZE - 1) = A" "(sz - (A - start)) div PAGE_SIZE = P"
    by (simp_all add: A_def P_def region_base_def region_pages_def)
  have ck: "check_kernel_binary_overlap A k (s\<lparr>mem_chunks := x\<rparr>) = check_kernel_binary_overlap A k s" for k x
    by (simp add: check_kernel_binary_overlap_def sym_addr_def)
  let ?ov = "chk \<and> check_kernel_binary_overlap A (NUM_PAGES ((P + 7) div 8) * PAGE_SIZE) s"
  consider "sz \<le> A - start" | "A - start < sz" ?ov | "A - start < sz" "\<not> ?ov" by force
  then show thesis
  proof cases
    case 1
    then have "page_init_chunk start sz i chk s
        = (False, s\<lparr>mem_chunks := (mem_chunks s)[i := (mem_chunks s ! i)\<lparr>initialized := False\<rparr>]\<rparr>)"
      using i by (simp add: page_init_chunk_def eqs Let_def upd_chunk_def)
    moreover have "zeroed_bytes start sz chk s = {}" using leD [OF 1] by (simp add: zeroed_bytes_def A_def)
    ultimately show ?thesis using r by (intro that [of "(mem_chunks s ! i)\<lparr>initialized := False\<rparr>"]) auto
  next
    case 2
    then have "page_init_chunk start sz i chk s
        = (False, s\<lparr>mem_chunks := (mem_chunks s)[i := (mem_chunks s ! i)\<lparr>initialized := False, mem_base := A\<rparr>]\<rparr>)"
      using i by (simp add: page_init_chunk_def eqs Let_def upd_chunk_def ck not_le)
    moreover have "zeroed_bytes start sz chk s = {}" using 2 by (simp add: zeroed_bytes_def A_def P_def)
    ultimately show ?thesis using r by (intro that [of "(mem_chunks s ! i)\<lparr>initialized := False, mem_base := A\<rparr>"]) auto
  next
    case 3
    define c where "c = (mem_chunks s ! i)\<lparr>initialized := False, mem_base := A, bitmap := pa_to_va s A, total_pages := P\<rparr>"
    define z where "z = fold (\<lambda>i. store_byte (pa_to_va s A + i) 0) (for_range 0 ((P + 7) div 8)) s"
    have z: "z = s\<lparr>mem := mem z\<rparr>" unfolding z_def by (rule fold_zero_mem)
    have zm: "mem_chunks z = mem_chunks s" by (subst z) simp
    let ?t = "z\<lparr>mem_chunks := (mem_chunks s)[i := c]\<rparr>"
    have "page_init_chunk start sz i chk s =
        (case reserve_page_chunk (va_to_pa ?t (pa_to_va s A)) (NUM_PAGES ((P + 7) div 8)) i ?t of
           (ok, s6) \<Rightarrow> if \<not> ok then (False, s6) else (True, upd_chunk i (\<lambda>c. c\<lparr>initialized := True\<rparr>) s6))"
      using 3 i by (auto simp add: page_init_chunk_def eqs Let_def upd_chunk_def ck not_le fold_zero_chunks zm
          z_def [symmetric] c_def)
    then have "s' = ?t" using r reserve_page_chunk_refused by (auto split: prod.splits if_splits)
    moreover have "z\<lparr>mem_chunks := x\<rparr> = s\<lparr>mem := mem z, mem_chunks := x\<rparr>" for x by (subst z) simp
    ultimately have s': "s' = s\<lparr>mem := mem z, mem_chunks := (mem_chunks s)[i := c]\<rparr>" by simp
    have "mem s' a = (if a \<in> zeroed_bytes start sz chk s then 0 else mem s a)" for a
      using 3 slot region_bitmap_bytes [of a A start sz]
      by (simp add: s' z_def mem_fold_zero zeroed_bytes_def A_def [symmetric] P_def [symmetric])
    then show ?thesis using s' by (intro that [of c]) (simp_all add: c_def)
  qed
qed

lemma zeroed_refusal:
  assumes r: "page_allocator_add_region start sz chk s = (False, s')" and z: "zeroed_bytes start sz chk s \<noteq> {}"
  shows "region_base start = 0 \<or> pa_to_va s (region_base start) = 0 \<or> 2 ^ 64 \<le> unat start + unat sz"
proof (rule ccontr)
  assume no: "\<not> ?thesis"
  obtain a i where slot: "find_region_slot_from (mem_chunks s) 0 start = Some i" and lt: "region_base start - start < sz"
    and ov: "\<not> (chk \<and> check_kernel_binary_overlap (region_base start)
               (NUM_PAGES ((region_pages start sz + 7) div 8) * PAGE_SIZE) s)"
    and a: "unat (a - region_base start) < (unat (region_pages start sz) + 7) div 8"
    using z by (auto simp: zeroed_bytes_def split: if_splits)
  have "region_pages start sz \<noteq> 0" using a by auto
  then have "region_fits start sz" using region_fits_if_pages [of start sz] no lt by simp
  moreover have "i < length (mem_chunks s)" using find_region_slot_from_Some [OF slot] by simp
  ultimately show False using page_init_chunk_ok [of start sz i s chk] no ov r slot by (simp add: page_allocator_add_region_def)
qed

lemma refusal_causes:
  assumes nw: "unat start + unat sz < 2 ^ 64" and nz: "region_base start \<noteq> 0" "pa_to_va s (region_base start) \<noteq> 0"
    and r: "page_allocator_add_region start sz chk s = (ok, s')"
  shows "ok \<longleftrightarrow> find_region_slot_from (mem_chunks s) 0 start \<noteq> None \<and> region_fits start sz
    \<and> \<not> (chk \<and> check_kernel_binary_overlap (region_base start)
               (NUM_PAGES ((region_pages start sz + 7) div 8) * PAGE_SIZE) s)"
proof (cases "find_region_slot_from (mem_chunks s) 0 start")
  case None
  then show ?thesis using r by (simp add: page_allocator_add_region_def)
next
  case (Some i)
  have i: "i < length (mem_chunks s)" using find_region_slot_from_Some [OF Some] by simp
  show ?thesis
    using page_init_chunk_ok [of start sz i s chk] page_init_chunk_refused [OF nw nz(1) i, of chk] i nz r Some
    by (auto simp: page_allocator_add_region_def)
qed

lemma add_region_refusal:
  assumes r: "page_allocator_add_region start sz chk s = (False, s')"
  obtains i c where "\<not> initialized c" "s' = s\<lparr>mem := mem s', mem_chunks := (mem_chunks s)[i := c]\<rparr>"
    "\<And>a. mem s' a = (if a \<in> zeroed_bytes start sz chk s then 0 else mem s a)"
    "inits s - {i} = {j \<in> inits s. find_region_slot_from (mem_chunks s) 0 start \<noteq> Some j}"
proof (cases "find_region_slot_from (mem_chunks s) 0 start")
  case None
  then have "s' = s" "zeroed_bytes start sz chk s = {}"
    using r by (simp_all add: page_allocator_add_region_def zeroed_bytes_def)
  moreover have "inits s - {length (mem_chunks s)} = inits s" by (auto simp: inits_def)
  ultimately show ?thesis
    using that [of "undefined\<lparr>initialized := False\<rparr>" "length (mem_chunks s)"] None by (simp add: list_update_beyond)
next
  case (Some k)
  then have *: "page_init_chunk start sz k chk s = (False, s')" using r by (simp add: page_allocator_add_region_def)
  have k: "inits s - {k} = {j \<in> inits s. find_region_slot_from (mem_chunks s) 0 start \<noteq> Some j}" using Some by auto
  show ?thesis by (rule page_init_chunk_refusal [OF Some *]) (rule that [OF _ _ _ k])
qed

text \<open>
  C22. \<^verbatim>\<open>page_allocator_add_region\<close> on every refusal. The slot that was chosen is unused afterwards, the
  other regions keep their descriptors, and nothing else of the state but memory can change. Memory
  changes only in a late refusal: then exactly the bytes for the bitmap of the refused region are
  zeroed. That happens only for a region whose first page is at physical address 0 or mapped to the null
  pointer, or that wraps around the address space. If no byte of a remaining bitmap is hit, the
  invariant is kept and no page becomes used; in particular when memory did not change. Apart from
  those special regions, a region is refused exactly when there is no slot, when it holds no whole
  page, or when its bitmap would lie on the kernel image.
\<close>

theorem page_allocator_add_region_refused:
  assumes inv: "alloc_inv s" and r: "page_allocator_add_region start sz chk s = (ok, s')"
  shows "(unat start + unat sz < 2 ^ 64 \<and> region_base start \<noteq> 0 \<and> pa_to_va s (region_base start) \<noteq> 0 \<longrightarrow>
       (\<not> ok \<longleftrightarrow> find_region_slot_from (mem_chunks s) 0 start = None \<or> \<not> region_fits start sz
          \<or> chk \<and> check_kernel_binary_overlap (region_base start)
               (NUM_PAGES ((region_pages start sz + 7) div 8) * PAGE_SIZE) s))
    \<and> (\<not> ok \<longrightarrow>
         inits s' = {j \<in> inits s. find_region_slot_from (mem_chunks s) 0 start \<noteq> Some j}
       \<and> (\<forall>j \<in> inits s'. mem_chunks s' ! j = mem_chunks s ! j)
       \<and> s' = s\<lparr>mem := mem s', mem_chunks := mem_chunks s'\<rparr>
       \<and> (\<forall>a. mem s' a = (if a \<in> zeroed_bytes start sz chk s then 0 else mem s a))
       \<and> (zeroed_bytes start sz chk s \<noteq> {} \<longrightarrow>
            region_base start = 0 \<or> pa_to_va s (region_base start) = 0 \<or> 2 ^ 64 \<le> unat start + unat sz)
       \<and> ((\<forall>a. is_bitmap_frame s' (frame a) \<longrightarrow> mem s' a = mem s a) \<longrightarrow>
            alloc_inv s' \<and> (\<forall>f. frame_used s' f \<longrightarrow> frame_used s f)))"
proof (intro conjI [OF impI impI])
  let ?slot = "find_region_slot_from (mem_chunks s) 0 start"
  show "\<not> ok \<longleftrightarrow> ?slot = None \<or> \<not> region_fits start sz
          \<or> chk \<and> check_kernel_binary_overlap (region_base start)
               (NUM_PAGES ((region_pages start sz + 7) div 8) * PAGE_SIZE) s"
    if "unat start + unat sz < 2 ^ 64 \<and> region_base start \<noteq> 0 \<and> pa_to_va s (region_base start) \<noteq> 0"
    using refusal_causes [OF _ _ _ r] that by blast
  assume "\<not> ok"
  then have r': "page_allocator_add_region start sz chk s = (False, s')" using r by simp
  obtain i c where c: "\<not> initialized c" and s': "s' = s\<lparr>mem := mem s', mem_chunks := (mem_chunks s)[i := c]\<rparr>"
    and m: "\<And>a. mem s' a = (if a \<in> zeroed_bytes start sz chk s then 0 else mem s a)"
    and i: "inits s - {i} = {j \<in> inits s. ?slot \<noteq> Some j}"
    by (rule add_region_refusal [OF r']) (rule that)
  define t where "t = s\<lparr>mem_chunks := (mem_chunks s)[i := c]\<rparr>"
  note drop = drop_chunk [OF inv t_def c]
  have st: "s' = t\<lparr>mem := mem s'\<rparr>" by (subst s') (simp add: t_def)
  have view: "inits s' = inits t" "mem_chunks s' = mem_chunks t" "is_bitmap_frame s' = is_bitmap_frame t"
    by (subst st, simp add: is_bitmap_frame_def fun_eq_iff inits_def)+
  have "inits s' = {j \<in> inits s. ?slot \<noteq> Some j}" using drop(2) view(1) i by simp
  moreover have "\<forall>j \<in> inits s'. mem_chunks s' ! j = mem_chunks s ! j" using drop(3) view by simp
  moreover have "s' = s\<lparr>mem := mem s', mem_chunks := mem_chunks s'\<rparr>" using s' by (simp add: view(2) t_def)
  moreover have "alloc_inv s' \<and> (\<forall>f. frame_used s' f \<longrightarrow> frame_used s f)"
    if keep: "\<forall>a. is_bitmap_frame s' (frame a) \<longrightarrow> mem s' a = mem s a"
  proof -
    have "mem s' a = mem t a" if "is_bitmap_frame t (frame a)" for a using keep that view(3) by (simp add: t_def)
    note same = alloc_view_mem_upd [OF drop(1) this]
    show ?thesis using same drop(4) by (subst (1 2) st) simp
  qed
  ultimately show "inits s' = {j \<in> inits s. ?slot \<noteq> Some j}
       \<and> (\<forall>j \<in> inits s'. mem_chunks s' ! j = mem_chunks s ! j)
       \<and> s' = s\<lparr>mem := mem s', mem_chunks := mem_chunks s'\<rparr>
       \<and> (\<forall>a. mem s' a = (if a \<in> zeroed_bytes start sz chk s then 0 else mem s a))
       \<and> (zeroed_bytes start sz chk s \<noteq> {} \<longrightarrow>
            region_base start = 0 \<or> pa_to_va s (region_base start) = 0 \<or> 2 ^ 64 \<le> unat start + unat sz)
       \<and> ((\<forall>a. is_bitmap_frame s' (frame a) \<longrightarrow> mem s' a = mem s a) \<longrightarrow>
            alloc_inv s' \<and> (\<forall>f. frame_used s' f \<longrightarrow> frame_used s f))"
    using m zeroed_refusal [OF r'] by blast
qed

lemma remove_region_spec:
  assumes inv: "alloc_inv s" and r: "page_allocator_remove_region start s = (ok, s')"
  shows "(ok \<longleftrightarrow> (\<exists>i \<in> inits s. mem_base (mem_chunks s ! i) = start)) \<and> mem s' = mem s \<and> alloc_inv s'
    \<and> (\<not> ok \<longrightarrow> s' = s)
    \<and> (ok \<longrightarrow> inits s' = {i \<in> inits s. mem_base (mem_chunks s ! i) \<noteq> start})
    \<and> (\<forall>f. frame_managed s' f \<longleftrightarrow>
          (\<exists>i \<in> inits s. mem_base (mem_chunks s ! i) \<noteq> start \<and> f \<in> chunk_frames (mem_chunks s ! i)))
    \<and> (\<forall>f. frame_managed s' f \<longrightarrow> frame_used s' f = frame_used s f)"
proof (cases "find_region_from (mem_chunks s) 0 start")
  case None
  then have "mem_base (mem_chunks s ! i) \<noteq> start" if "i \<in> inits s" for i
    using find_region_from_None [OF None] that by (auto simp: inits_def)
  with None r inv show ?thesis by (auto simp: page_allocator_remove_region_def frame_managed_def)
next
  case (Some i)
  define c where "c = mem_chunks s ! i"
  from find_region_from_Some [OF Some] have i: "i \<in> inits s" and st: "mem_base c = start"
    by (simp_all add: inits_def c_def)
  have s': "s' = s\<lparr>mem_chunks := (mem_chunks s)[i := c\<lparr>initialized := False\<rparr>]\<rparr>" and ok: ok
    using Some r by (simp_all add: page_allocator_remove_region_def upd_chunk_def c_def)
  have "\<not> initialized (c\<lparr>initialized := False\<rparr>)" by simp
  note drop = drop_chunk [OF inv s' this]
  have base: "j = i" if "j \<in> inits s" "mem_base (mem_chunks s ! j) = start" for j
  proof (rule owner_unique [OF inv that(1) i])
    have "unat (total_pages (mem_chunks s ! k)) \<noteq> 0" if "k \<in> inits s" for k
      using alloc_invD(1) [OF inv that] by (simp add: chunk_shape_def unat_eq_0)
    then show "frame start \<in> chunk_frames (mem_chunks s ! j)" "frame start \<in> chunk_frames (mem_chunks s ! i)"
      using that i st by (auto simp: chunk_frames_def c_def)
  qed
  have in': "inits s' = {j \<in> inits s. mem_base (mem_chunks s ! j) \<noteq> start}"
    unfolding drop(2) using base st [unfolded c_def] i by blast
  have fm: "frame_managed s' f \<longleftrightarrow> (\<exists>j \<in> inits s. mem_base (mem_chunks s ! j) \<noteq> start \<and> f \<in> chunk_frames (mem_chunks s ! j))" for f
    unfolding frame_managed_def using drop(3) in' by auto
  have fu: "frame_used s' f = frame_used s f" if "frame_managed s' f" for f
    using that unfolding drop(4) frame_managed_def drop(2) by (metis drop(2,3))
  have "\<exists>i \<in> inits s. mem_base (mem_chunks s ! i) = start" using i st c_def by blast
  moreover have "alloc_inv s'" by (rule drop(1))
  moreover have "mem s' = mem s" by (simp add: s')
  ultimately show ?thesis using ok in' fm fu by simp
qed

text \<open>
  \<^verbatim>\<open>page_allocator_remove_region\<close>: it succeeds exactly when an initialised region starts at the
  given address; then precisely that region's frames stop being managed, every other region
  keeps its frames and their status, memory is untouched and the invariant is kept.
\<close>

theorem page_allocator_remove_region_effect:
  assumes inv: "alloc_inv s" and r: "page_allocator_remove_region start s = (ok, s')"
  shows "(ok \<longleftrightarrow> (\<exists>i \<in> inits s. mem_base (mem_chunks s ! i) = start)) \<and> mem s' = mem s \<and> alloc_inv s'
    \<and> (\<not> ok \<longrightarrow> s' = s)
    \<and> (ok \<longrightarrow> inits s' = {i \<in> inits s. mem_base (mem_chunks s ! i) \<noteq> start})
    \<and> (\<forall>f. frame_managed s' f \<longleftrightarrow>
          (\<exists>i \<in> inits s. mem_base (mem_chunks s ! i) \<noteq> start \<and> f \<in> chunk_frames (mem_chunks s ! i)))
    \<and> (\<forall>f. frame_managed s' f \<longrightarrow> frame_used s' f = frame_used s f)"
  by (rule remove_region_spec [OF assms])

end
