(* ===== verification/Page_Allocator_Client.thy ===== *)
theory Page_Allocator_Client
  imports Page_Allocator_Regions
begin

text \<open>
  The page allocator as its clients see it: the interpretation of the contract
  \<open>page_provider\<close> on \<^verbatim>\<open>page_alloc\<close> and \<^verbatim>\<open>page_free\<close>, the move to the higher half, and the
  behaviour of the two entry points whose size arithmetic can wrap around.
\<close>

section \<open>The allocator is a page provider\<close>

text \<open>A block that lies in one region and outside the pages of its bitmap.\<close>

definition owns_block :: "'a alloc_state_scheme \<Rightarrow> phy_addr \<Rightarrow> u64 \<Rightarrow> bool" where
  "owns_block s p n \<longleftrightarrow> n \<noteq> 0 \<and> (\<exists>ci \<in> inits s. block_frames p n \<subseteq> chunk_frames (mem_chunks s ! ci)
                          \<and> block_frames p n \<inter> bitmap_frames (mem_chunks s ! ci) = {})"

definition used_frames :: "'a alloc_state_scheme \<Rightarrow> nat set" where
  "used_frames s = {f. frame_used s f}"

lemma owns_block_mem [simp]: "owns_block (s\<lparr>mem := m\<rparr>) = owns_block s"
  by (simp add: owns_block_def fun_eq_iff)

lemma free_owned_block:
  assumes inv: "alloc_inv s" and o: "owns_block s p n"
  shows "alloc_inv (page_free p n s)" "used_frames (page_free p n s) = used_frames s - block_frames p n"
    "page_free p n s = s\<lparr>mem := mem (page_free p n s)\<rparr>"
    "\<not> is_bitmap_frame s (frame x) \<Longrightarrow> mem (page_free p n s) x = mem s x"
proof -
  obtain ci where n: "0 < unat n" and ci: "ci \<in> inits s"
    and sub: "block_frames p n \<subseteq> chunk_frames (mem_chunks s ! ci)"
    and dis: "block_frames p n \<inter> bitmap_frames (mem_chunks s ! ci) = {}"
    using o by (auto simp: owns_block_def unat_gt_0)
  let ?c = "mem_chunks s ! ci"
  have fp: "frame p \<in> chunk_frames ?c" using sub n by (auto simp: block_frames_def)
  have "frame p - frame (mem_base ?c) + unat n \<le> unat (total_pages ?c)"
    using sub n fp by (auto simp: block_frames_def chunk_frames_def)
  then have nw: "frame p - frame (mem_base ?c) + unat n < 2 ^ 64"
    using unat_lt64 [of "total_pages ?c"] by linarith
  note eff = conjunct2 [OF page_free_spec [OF inv], rule_format, OF ci, OF conjI [OF refl conjI [OF fp nw]]]
  show "alloc_inv (page_free p n s)" using eff dis by blast
  show "page_free p n s = s\<lparr>mem := mem (page_free p n s)\<rparr>" using eff by blast
  show "\<not> is_bitmap_frame s (frame x) \<Longrightarrow> mem (page_free p n s) x = mem s x"
    using eff ci by (auto simp: is_bitmap_frame_def)
  show "used_frames (page_free p n s) = used_frames s - block_frames p n"
    using eff sub by (auto simp: used_frames_def)
qed

lemma page_alloc_owned:
  assumes inv: "alloc_inv s" and a: "page_alloc n s = (p, s')" and p: "p \<noteq> PHYS_ADDR_NULL"
  shows "alloc_inv s'" "owns_block s p n" "block_frames p n \<inter> used_frames s = {}"
    "used_frames s' = used_frames s \<union> block_frames p n" "s' = s\<lparr>mem := mem s'\<rparr>"
proof -
  obtain ci c where *: "ci \<in> inits s" "c = mem_chunks s ! ci" "n \<noteq> 0"
    "block_frames p n \<subseteq> chunk_frames c" "\<forall>f \<in> block_frames p n. \<not> frame_used s f"
    "\<And>f. frame_used s' f \<longleftrightarrow> frame_used s f \<or> f \<in> block_frames p n" "alloc_inv s'"
    "s' = s\<lparr>mem := mem s'\<rparr>"
    by (rule page_alloc_success [OF inv a p]) blast
  show "alloc_inv s'" "s' = s\<lparr>mem := mem s'\<rparr>" by fact+
  show "block_frames p n \<inter> used_frames s = {}" "used_frames s' = used_frames s \<union> block_frames p n"
    using *(5,6) by (auto simp: used_frames_def)
  have "block_frames p n \<inter> bitmap_frames c = {}"
    using *(1,2,5) bitmap_frames_used [OF inv] by (auto simp: is_bitmap_frame_def)
  with * show "owns_block s p n" unfolding owns_block_def by blast
qed

interpretation pa: page_provider page_alloc page_free alloc_inv used_frames owns_block
proof (unfold_locales, goal_cases)
  case (1 s n p s')
  then show ?case using page_alloc_owned [of s n p s'] by (simp add: PHYS_ADDR_NULL_def)
next
  case (2 s n s')
  then show ?case using page_alloc_fail(1) [of s n s'] by (simp add: PHYS_ADDR_NULL_def)
next
  case (3 s p n)
  then show ?case using free_owned_block by blast
next
  case (4 s n p s')
  show ?case
  proof (cases "p = PHYS_ADDR_NULL")
    case True
    then show ?thesis using 4 page_alloc_fail(1) [of s n s'] by simp
  next
    case False
    from page_alloc_owned(5) [OF 4 False] show ?thesis by (metis owns_block_mem)
  qed
next
  case (5 s p n)
  from free_owned_block(3) [OF this] show ?case by (metis owns_block_mem)
qed

text \<open>
  C4. No page is ever handed out twice: in any interleaving of allocations and frees by a
  client, the blocks it holds are pairwise disjoint, disjoint from everything used before,
  and the used frames are exactly the initially used ones plus the blocks still held, so
  nothing leaks.
\<close>

theorem page_allocator_no_double_allocation:
  assumes "alloc_inv s" and "client_run page_alloc page_free reqs s = (s', live)"
  shows "alloc_inv s' \<and> pairwise_apart live \<and> used_frames s \<inter> live_frames live = {}
    \<and> used_frames s' = used_frames s \<union> live_frames live"
  using pa.run_no_overlap [OF assms] by blast

section \<open>Wrap-around\<close>

text \<open>
  C23. The bounds check of \<^verbatim>\<open>reserve_page_chunk\<close> multiplies the page count by the page size in 64
  bits: a request for \<open>2 ^ 52\<close> pages has byte size 0 and is accepted for every managed address,
  although no region has that many pages.
\<close>

theorem reserve_page_wraps:
  assumes inv: "alloc_inv s" and m: "frame_managed s (frame a)"
  shows "fst (reserve_page a (2 ^ 52) s)
    \<and> (\<forall>ci \<in> inits s. unat (total_pages (mem_chunks s ! ci)) < 2 ^ 52)"
proof
  obtain ci where ci: "ci \<in> inits s" "frame a \<in> chunk_frames (mem_chunks s ! ci)"
    using m by (auto simp: frame_managed_def)
  define c where "c = mem_chunks s ! ci"
  have sh: "chunk_shape c s" using alloc_invD(1) [OF inv ci(1)] by (simp add: c_def)
  note b = chunk_page_index(2,3) [OF sh ci(2) [folded c_def]]
  have nz: "mem_base c \<noteq> 0" "total_pages c \<noteq> 0" "bitmap c \<noteq> 0" using sh unfolding chunk_shape_def by blast+
  have "find_chunk_for_address a s = Some ci" using find_chunk_for_address_iff [OF inv] ci by blast
  moreover have "(2 ^ 52 :: u64) * PAGE_SIZE = 0" by (simp add: PAGE_SIZE_def)
  ultimately show "fst (reserve_page a (2 ^ 52) s)"
    using b nz by (simp add: reserve_page_def reserve_page_chunk_def Let_def not_less flip: c_def)
      (simp add: chunk_end_def)
  show "\<forall>ci \<in> inits s. unat (total_pages (mem_chunks s ! ci)) < 2 ^ 52"
    using alloc_invD(1) [OF inv] by (fastforce simp: chunk_shape_def)
qed

text \<open>
  The truncation in \<^verbatim>\<open>page_free_chunk\<close> adds the page index and the requested count in 64 bits:
  when the sum wraps around, the count is not cut off and the loop bound lies before its start,
  so nothing is freed at all.
\<close>

theorem page_free_wraps:
  assumes inv: "alloc_inv s" and ci: "ci \<in> inits s" "frame a \<in> chunk_frames (mem_chunks s ! ci)"
    and wrap: "2 ^ 64 \<le> frame a - frame (mem_base (mem_chunks s ! ci)) + unat n"
  shows "page_free a n s = s"
proof -
  define c where "c = mem_chunks s ! ci"
  have sh: "chunk_shape c s" using alloc_invD(1) [OF inv ci(1)] by (simp add: c_def)
  define b where "b = (a - mem_base c) div PAGE_SIZE"
  note idx = chunk_page_index [OF sh ci(2) [folded c_def], folded b_def]
  have bT: "unat b < unat (total_pages c)" using ci(2) by (auto simp: idx(1) chunk_frames_def c_def)
  have "unat b + unat n - 2 ^ 64 < unat b" using unat_lt64 [of n] wrap idx(1) by (simp add: c_def)
  moreover have "unat (b + n) = unat b + unat n - 2 ^ 64"
    using wrap idx(1) unat_lt64 [of n] unat_lt64 [of b]
    by (simp add: unat_word_ariths c_def mod_if)
  ultimately have bn: "unat (b + n) < unat b" by simp
  then have "\<not> b + n > total_pages c" using bT by (simp add: word_less_nat_alt)
  moreover have "for_range b (b + n) = []" using bn by (simp add: for_range_def)
  moreover have "find_chunk_for_address a s = Some ci" using find_chunk_for_address_iff [OF inv] ci by blast
  ultimately show ?thesis
    by (simp add: page_free_def page_free_chunk_def Let_def flip: c_def b_def)
qed

section \<open>The move to the higher half\<close>

lemma fixup_high_half:
  assumes inv: "alloc_inv s" and low: "kernel_base_va s = 0"
    and pa: "\<forall>i \<in> inits s. unat (mem_base (mem_chunks s ! i)) < 2 ^ 48"
    and s': "s' = fixup_page_allocator (update_kernel_base_va s)"
  shows "alloc_inv s' \<and> inits s' = inits s \<and> mem s' = mem s
    \<and> (\<forall>i \<in> inits s. chunk_frames (mem_chunks s' ! i) = chunk_frames (mem_chunks s ! i)
         \<and> bitmap (mem_chunks s' ! i) = KERNEL_BASE + bitmap (mem_chunks s ! i))
    \<and> (\<forall>f. frame_used s' f = frame_used s f)
    \<and> (\<forall>f. frame_managed s' f = frame_managed s f) \<and> (\<forall>f. is_bitmap_frame s' f = is_bitmap_frame s f)"
proof -
  have nth: "mem_chunks s' ! i = (mem_chunks s ! i)\<lparr>bitmap := KERNEL_BASE + bitmap (mem_chunks s ! i)\<rparr>"
    if "i \<in> inits s" for i
    using that by (simp add: s' fixup_page_allocator_def update_kernel_base_va_def inits_def pa_to_va_def)
  have in': "inits s' = inits s"
    by (auto simp: s' fixup_page_allocator_def update_kernel_base_va_def inits_def split: if_splits)
  have kb: "kernel_base_va s' = KERNEL_BASE" "mem s' = mem s" "length (mem_chunks s') = length (mem_chunks s)"
    by (simp_all add: s' fixup_page_allocator_def update_kernel_base_va_def)
  have pu: "page_used (mem_chunks s' ! i) k s' = page_used (mem_chunks s ! i) k s" if "i \<in> inits s" for i k
    using nth [OF that] kb by (simp add: page_used_def va_to_pa_def low)
  have cnt: "bitmap_page_count (mem_chunks s' ! i) = bitmap_page_count (mem_chunks s ! i)"
    "chunk_frames (mem_chunks s' ! i) = chunk_frames (mem_chunks s ! i)" if "i \<in> inits s" for i
    using nth [OF that] by (simp_all add: bitmap_page_count_def chunk_frames_def)
  have "KERNEL_BASE + mem_base (mem_chunks s ! i) \<noteq> 0" if "i \<in> inits s" for i
  proof -
    have "unat (KERNEL_BASE + mem_base (mem_chunks s ! i)) = unat KERNEL_BASE + unat (mem_base (mem_chunks s ! i))"
      using pa that by (intro unat_add64) (auto simp: KERNEL_BASE_def)
    then show ?thesis by (auto simp: KERNEL_BASE_def simp flip: unat_eq_0)
  qed
  then have sh: "chunk_shape (mem_chunks s' ! i) s'" if "i \<in> inits s" for i
    using alloc_invD(1) [OF inv that] nth [OF that] that kb
    by (simp add: chunk_shape_def pa_to_va_def low)
  have mk: "bitmap_marked (mem_chunks s' ! i) s'" if "i \<in> inits s" for i
    using alloc_invD(2) [OF inv that] pu [OF that] cnt [OF that] by (simp add: bitmap_marked_def)
  have "alloc_inv s'" using inv sh mk cnt kb(3) by (simp add: alloc_inv_def in')
  moreover have "frame_used s' f = frame_used s f" for f
  proof -
    have "mem_base (mem_chunks s' ! i) = mem_base (mem_chunks s ! i)" if "i \<in> inits s" for i
      using nth [OF that] by simp
    then show ?thesis unfolding frame_used_def in' by (simp add: cnt pu)
  qed
  moreover have "is_bitmap_frame s' f = is_bitmap_frame s f" for f
    using nth cnt by (simp add: is_bitmap_frame_def bitmap_frames_def in')
  moreover have "frame_managed s' f = frame_managed s f" for f using cnt by (simp add: frame_managed_def in')
  ultimately show ?thesis using in' kb cnt nth by simp
qed

text \<open>
  After \<^verbatim>\<open>update_kernel_base_va\<close> and \<^verbatim>\<open>fixup_page_allocator\<close> the allocator, whose bitmap pointers were
  physical addresses, works on the same memory through higher-half pointers: the same frames
  are managed and used, memory is unchanged and the invariant holds. Regions have to lie
  below the 48-bit physical address limit.
\<close>

theorem fixup_page_allocator_high_half:
  assumes inv: "alloc_inv s" and low: "kernel_base_va s = 0"
    and pa: "\<forall>i \<in> inits s. unat (mem_base (mem_chunks s ! i)) < 2 ^ 48"
    and s': "s' = fixup_page_allocator (update_kernel_base_va s)"
  shows "alloc_inv s' \<and> inits s' = inits s \<and> mem s' = mem s
    \<and> (\<forall>i \<in> inits s. chunk_frames (mem_chunks s' ! i) = chunk_frames (mem_chunks s ! i)
         \<and> bitmap (mem_chunks s' ! i) = KERNEL_BASE + bitmap (mem_chunks s ! i))
    \<and> (\<forall>f. frame_used s' f = frame_used s f)"
  using fixup_high_half [OF assms] by blast

end
