(* ===== verification/Page_Table_Correct.thy ===== *)
theory Page_Table_Correct
  imports Page_Table_Tree Page_Allocator_Client
begin

text \<open>
  Correctness of the page-table construction against the table walk of the architecture:
  \<^verbatim>\<open>map_page\<close> makes the walk of the given address find exactly the descriptor for the requested
  frame and permissions, leaves the walk of every other page alone, keeps the allocator and
  the tree consistent, and touches no memory that is in use for anything else.
\<close>

section \<open>Clearing a table\<close>

lemma store64_zero_apply: "store64 m a 0 b = (if unat (b - a) < 8 then 0 else m b)"
  by (simp add: store64_apply)

lemma fold_store_zero:
  "mem (fold (\<lambda>i. store_u64 (entry_ptr (pa_to_va s t) i) 0) is s') b =
     (if \<exists>i \<in> set is. unat (b - (va_to_pa s' (pa_to_va s t) + 8 * i)) < 8 then 0 else mem s' b)"
  by (induction "is" arbitrary: s') (auto simp: store64_zero_apply entry_ptr_def va_to_pa_add)

lemma table_bytes:
  assumes t: "page_aligned t"
  shows "(\<exists>i \<in> set (for_range 0 PTRS_PER_TABLE). unat (b - (t + 8 * i)) < 8) \<longleftrightarrow> frame b = frame t"
proof
  assume "\<exists>i \<in> set (for_range 0 PTRS_PER_TABLE). unat (b - (t + 8 * i)) < 8"
  then obtain i where i: "i < 512" and k: "unat (b - (t + 8 * i)) < 8"
    by (auto simp: set_for_range PTRS_PER_TABLE_def)
  define k where "k = unat (b - (t + 8 * i))"
  have "b = t + 8 * i + of_nat k" by (simp add: k_def)
  moreover have "unat (t + 8 * i + of_nat k) = unat t + (8 * unat i + k)"
    using aligned8_add [OF entry_offset(3) [OF t i], of k] entry_offset(1) [OF t i] k by (simp add: k_def)
  ultimately have "frame b = frame t + (8 * unat i + k) div 4096" by (metis frame_offset [OF t])
  then show "frame b = frame t" using i k by (simp add: k_def word_less_nat_alt)
next
  assume fr: "frame b = frame t"
  define off where "off = unat b - unat t"
  have tb: "unat t \<le> unat b" "off < 4096"
    using fr page_aligned_unat [OF t] mod_less_divisor [of 4096 "unat b"] div_mult_mod_eq [of "unat b" 4096]
    unfolding off_def frame_def by linarith+
  define i :: u64 where "i = of_nat (off div 8)"
  have i: "unat i = off div 8" using tb(2) unfolding i_def by (intro unat_of_nat64) simp
  then have lt: "i < 512" using tb(2) by (simp add: word_less_nat_alt)
  have "unat (t + 8 * i) = unat t + 8 * (off div 8)" using entry_offset(1) [OF t lt] i by simp
  then have "t + 8 * i \<le> b" and "unat b - unat (t + 8 * i) = off mod 8"
    using tb(1) by (simp_all add: word_le_nat_alt off_def minus_div_mult_eq_mod [symmetric] algebra_simps)
  then have "unat (b - (t + 8 * i)) < 8" by (simp add: unat_sub64)
  then show "\<exists>i \<in> set (for_range 0 PTRS_PER_TABLE). unat (b - (t + 8 * i)) < 8"
    using lt by (auto simp: set_for_range PTRS_PER_TABLE_def)
qed

lemma page_table_init_mem:
  assumes "page_aligned t"
  shows "page_table_init (pa_to_va s t) s = s\<lparr>mem := \<lambda>a. if frame a = frame t then 0 else mem s a\<rparr>"
proof -
  have "page_table_init (pa_to_va s t) s = s\<lparr>mem := mem (page_table_init (pa_to_va s t) s)\<rparr>"
    unfolding page_table_init_def by (rule fold_mem_only) (simp add: store_u64_def)
  moreover have "mem (page_table_init (pa_to_va s t) s) = (\<lambda>a. if frame a = frame t then 0 else mem s a)"
    by (rule ext) (simp add: page_table_init_def fold_store_zero table_bytes [OF assms])
  ultimately show ?thesis by simp
qed

lemma load64_zero: "(\<And>i. i < 8 \<Longrightarrow> m (a + of_nat i) = 0) \<Longrightarrow> load64 m a = 0"
  using load64_cong [of m a "\<lambda>_. 0"] by (simp add: load64_def eval_nat_numeral)

section \<open>The invariant of the system\<close>

definition pt_ok :: "'a alloc_state_scheme \<Rightarrow> phy_addr \<Rightarrow> bool" where
  "pt_ok s root \<longleftrightarrow>
     alloc_inv s \<and> pt_tree (mem s) root
     \<and> (\<forall>f \<in> table_frames (mem s) root. \<not> is_bitmap_frame s f \<and> (frame_managed s f \<longrightarrow> frame_used s f))
     \<and> (\<forall>i \<in> inits s. \<forall>f \<in> chunk_frames (mem_chunks s ! i). f < 2 ^ 36)
     \<and> (kernel_base_va s = 0 \<or> kernel_base_va s = KERNEL_BASE)"

text \<open>Addresses whose contents belong to somebody else: not a bitmap, not a free page, not a table.\<close>

definition foreign :: "'a alloc_state_scheme \<Rightarrow> phy_addr \<Rightarrow> phy_addr \<Rightarrow> bool" where
  "foreign s root a \<longleftrightarrow>
     \<not> is_bitmap_frame s (frame a) \<and> (frame_managed s (frame a) \<longrightarrow> frame_used s (frame a))
     \<and> frame a \<notin> table_frames (mem s) root"

text \<open>\<open>s'\<close> extends the tables of \<open>s\<close> without changing a translation.\<close>

definition pt_extends :: "phy_addr \<Rightarrow> 'a alloc_state_scheme \<Rightarrow> 'a alloc_state_scheme \<Rightarrow> bool" where
  "pt_extends root s s' \<longleftrightarrow>
     pt_ok s' root \<and> s' = s\<lparr>mem := mem s'\<rparr>
     \<and> (\<forall>p t. is_path p \<and> table_at (mem s) root p = Some t \<longrightarrow> table_at (mem s') root p = Some t)
     \<and> (\<forall>p j. is_path p \<and> length p = 3 \<and> j < 512 \<longrightarrow> leaf_at (mem s') root p j = leaf_at (mem s) root p j)
     \<and> (\<forall>a. foreign s root a \<longrightarrow> foreign s' root a \<and> mem s' a = mem s a)
     \<and> (\<forall>f. frame_used s f \<longrightarrow> frame_used s' f)"

lemma pt_extends_refl: "pt_ok s root \<Longrightarrow> pt_extends root s s"
  by (simp add: pt_extends_def)

lemma pt_extends_trans:
  assumes "pt_extends root s s'" "pt_extends root s' s''"
  shows "pt_extends root s s''"
proof -
  have "s'' = s\<lparr>mem := mem s''\<rparr>"
  proof -
    have "s'' = s'\<lparr>mem := mem s''\<rparr>" "s' = s\<lparr>mem := mem s'\<rparr>" using assms by (simp_all add: pt_extends_def)
    then show ?thesis by (metis mem_state.fold_congs(1) mem_state.update_convs(1) mem_state.surjective)
  qed
  with assms show ?thesis unfolding pt_extends_def by simp
qed

section \<open>Tables on demand\<close>

lemma store_entry_frame:
  assumes "page_aligned t" "i < (512 :: u64)" "frame b \<noteq> frame t"
  shows "store64 m (t + 8 * i) v b = m b"
  using table_bytes [OF assms(1), of b] assms(2,3) by (auto simp: store64_apply set_for_range PTRS_PER_TABLE_def)

lemma pt_okD:
  assumes "pt_ok s root"
  shows "alloc_inv s" "pt_tree (mem s) root"
    and "f \<in> table_frames (mem s) root \<Longrightarrow> \<not> is_bitmap_frame s f"
    and "f \<in> table_frames (mem s) root \<Longrightarrow> frame_managed s f \<Longrightarrow> frame_used s f"
    and "i \<in> inits s \<Longrightarrow> f \<in> chunk_frames (mem_chunks s ! i) \<Longrightarrow> f < 2 ^ 36"
    and "kernel_base_va s = 0 \<or> kernel_base_va s = KERNEL_BASE"
  using assms unfolding pt_ok_def by blast+

lemma table_in_frames: "is_path p \<Longrightarrow> table_at m root p = Some t \<Longrightarrow> frame t \<in> table_frames m root"
  by (auto simp: table_frames_def)

lemma mem_upd_view [simp]:
  "is_bitmap_frame (s\<lparr>mem := m\<rparr>) = is_bitmap_frame s" "frame_managed (s\<lparr>mem := m\<rparr>) = frame_managed s"
  by (simp_all add: is_bitmap_frame_def frame_managed_def fun_eq_iff)

text \<open>The page that \<^verbatim>\<open>page_alloc(1)\<close> returns can become a table.\<close>

lemma page_alloc_fresh_table:
  assumes ok: "pt_ok s root" and a: "page_alloc 1 s = (n, s1)" and n: "n \<noteq> PHYS_ADDR_NULL"
  shows "table_ok n" "frame n \<notin> table_frames (mem s) root" "\<not> is_bitmap_frame s (frame n)"
    "frame_managed s (frame n)" "\<not> frame_used s (frame n)"
    "alloc_inv s1" "s1 = s\<lparr>mem := mem s1\<rparr>" "\<And>f. frame_used s1 f \<longleftrightarrow> frame_used s f \<or> f = frame n"
    "\<And>x. \<not> is_bitmap_frame s (frame x) \<Longrightarrow> mem s1 x = mem s x"
proof -
  obtain ci c where ci: "ci \<in> inits s" and c: "c = mem_chunks s ! ci" and al: "page_aligned n"
    and sub: "block_frames n 1 \<subseteq> chunk_frames c" and free: "\<forall>f \<in> block_frames n 1. \<not> frame_used s f"
    and used: "\<And>f. frame_used s1 f \<longleftrightarrow> frame_used s f \<or> f \<in> block_frames n 1"
    and inv: "alloc_inv s1" "s1 = s\<lparr>mem := mem s1\<rparr>" and out: "\<And>a. frame a \<notin> bitmap_frames c \<Longrightarrow> mem s1 a = mem s a"
    by (rule page_alloc_success [OF pt_okD(1) [OF ok] a n]) blast
  have bf: "block_frames n 1 = {frame n}" by (simp add: block_frames_def)
  have fc: "frame n \<in> chunk_frames c" using sub by (simp add: bf)
  show mg: "frame_managed s (frame n)" using fc ci c by (auto simp: frame_managed_def)
  show un: "\<not> frame_used s (frame n)" using free by (simp add: bf)
  show "\<not> is_bitmap_frame s (frame n)" using un bitmap_frames_used [OF pt_okD(1) [OF ok]] by blast
  show "frame n \<notin> table_frames (mem s) root" using pt_okD(4) [OF ok _ mg] un by blast
  have "frame n < 2 ^ 36" using pt_okD(5) [OF ok ci] fc c by blast
  then have "unat n < 2 ^ 48" using page_aligned_unat [OF al] by simp
  then show "table_ok n" using al n by (simp add: table_ok_def PHYS_ADDR_NULL_def)
  show "\<And>f. frame_used s1 f \<longleftrightarrow> frame_used s f \<or> f = frame n" using used by (simp add: bf)
  show "mem s1 x = mem s x" if "\<not> is_bitmap_frame s (frame x)" for x
    using that ci c by (intro out) (auto simp: is_bitmap_frame_def)
  show "alloc_inv s1" "s1 = s\<lparr>mem := mem s1\<rparr>" by fact+
qed

lemma allocate_new_table_ok:
  assumes ok: "pt_ok s root" and p: "is_path p" "length p < 3" "table_at (mem s) root p = Some t" and i: "i < 512"
    and inval: "\<not> bit (load64 (mem s) (t + 8 * i)) 0"
    and r: "allocate_new_table (entry_ptr (pa_to_va s t) i) s = (True, s')"
  obtains n where "pt_extends root s s'" "table_at (mem s') root (p @ [i]) = Some n" "table_ok n"
    "load_u64 s' (entry_ptr (pa_to_va s t) i) = set_next_level_table n"
    "\<And>f. frame_used s' f \<longleftrightarrow> frame_used s f \<or> f = frame n"
proof -
  obtain n s1 where a: "page_alloc 1 s = (n, s1)" by (cases "page_alloc 1 s")
  have n: "n \<noteq> PHYS_ADDR_NULL" using r a by (auto simp: allocate_new_table_def)
  note new = page_alloc_fresh_table [OF ok a n]
  note tree = pt_okD(2) [OF ok]
  define m2 where "m2 = (\<lambda>x. if frame x = frame n then 0 else mem s1 x)"
  define m3 where "m3 = store64 m2 (t + 8 * i) (set_next_level_table n)"
  have va: "va_to_pa s1 = va_to_pa s" "pa_to_va s1 = pa_to_va s" by (subst new(7), simp)+
  have tok: "table_ok t" by (rule pt_tree_ok [OF tree p(1,3)])
  have ft: "frame t \<in> table_frames (mem s) root" by (rule table_in_frames [OF p(1,3)])
  have s1: "s' = s1\<lparr>mem := m3\<rparr>"
  proof -
    have "page_table_init (pa_to_va s n) s1 = s1\<lparr>mem := m2\<rparr>"
      using page_table_init_mem [of n s1] new(1) by (simp add: va table_ok_def m2_def)
    then show ?thesis
      using r a n by (simp add: allocate_new_table_def va store_u64_def entry_ptr_def va_to_pa_add m3_def)
  qed
  then have s': "s' = s\<lparr>mem := m3\<rparr>" by (subst (asm) new(7)) simp
  have m2s: "m2 x = mem s x" if "frame x \<in> table_frames (mem s) root" for x
    using that new(2,9) pt_okD(3) [OF ok] by (auto simp: m2_def)
  have t2: "pt_tree m2 root" "table_frames m2 root = table_frames (mem s) root"
    "\<And>q j. is_path q \<Longrightarrow> j < 512 \<Longrightarrow> leaf_at m2 root q j = leaf_at (mem s) root q j"
    "\<And>q. is_path q \<Longrightarrow> table_at m2 root q = table_at (mem s) root q"
    using tree_frames [OF tree, of m2] table_at_frames [OF tree, of _ m2] m2s by blast+
  have inval2: "\<not> bit (load64 m2 (t + 8 * i)) 0"
    using inval load_entry_cong [of t i m2 "mem s"] tok i ft m2s by (simp add: table_ok_def)
  have zero: "load64 m2 (n + 8 * j) = 0" if "j < 512" for j
  proof -
    have "load64 m2 (n + 8 * j) = load64 (\<lambda>_. 0) (n + 8 * j)"
      by (rule load_entry_cong) (use new(1) that in \<open>simp_all add: table_ok_def m2_def\<close>)
    then show ?thesis by (simp add: load64_zero)
  qed
  have pt: "table_at m2 root p = Some t" using t2(4) [OF p(1)] p(3) by simp
  have fresh2: "frame n \<notin> table_frames m2 root" using new(2) t2(2) by simp
  have t3: "pt_tree m3 root" "table_frames m3 root = insert (frame n) (table_frames m2 root)"
    "\<And>q. is_path q \<Longrightarrow> table_at m3 root q = (if q = p @ [i] then Some n else table_at m2 root q)"
    "\<And>q j. is_path q \<Longrightarrow> length q = 3 \<Longrightarrow> j < 512 \<Longrightarrow> leaf_at m3 root q j = leaf_at m2 root q j"
    using tree_grow [OF t2(1) p(1,2) pt i inval2 new(1) fresh2 _ m3_def] zero by blast+
  have out3: "m3 x = mem s1 x" if "frame x \<noteq> frame n" "frame x \<noteq> frame t" for x
    using store_entry_frame [of t i x m2] tok i that by (simp add: m3_def table_ok_def m2_def)
  have view: "frame_used s' = frame_used s1" "alloc_inv s'"
  proof -
    have "is_bitmap_frame s1 = is_bitmap_frame s" by (subst new(7)) simp
    then have "m3 x = mem s1 x" if "is_bitmap_frame s1 (frame x)" for x
      using that new(3) pt_okD(3) [OF ok ft] by (intro out3) auto
    from alloc_view_mem_upd [OF new(6) this] show "frame_used s' = frame_used s1" "alloc_inv s'"
      unfolding s1 by blast+
  qed
  have fr3: "table_frames m3 root = insert (frame n) (table_frames (mem s) root)" using t3(2) t2(2) by simp
  have ok': "pt_ok s' root"
    using view t3(1) fr3 pt_okD [OF ok] new(3,8) unfolding pt_ok_def by (auto simp: s')
  have "foreign s' root x \<and> mem s' x = mem s x" if fx: "foreign s root x" for x
  proof -
    have ne: "frame x \<noteq> frame n" "frame x \<noteq> frame t" "\<not> is_bitmap_frame s (frame x)"
      using fx new(4,5) ft by (auto simp: foreign_def)
    then have "mem s' x = mem s x" using out3 [OF ne(1,2)] new(9) [OF ne(3)] by (simp add: s')
    moreover have "foreign s' root x" using fx fr3 ne view(1) new(8) by (simp add: foreign_def s')
    ultimately show ?thesis by blast
  qed
  moreover have "table_at m3 root q = Some u" if "is_path q" "table_at (mem s) root q = Some u" for q u
  proof -
    have "q \<noteq> p @ [i]" using inval p(3) that(2) by (auto simp: table_at_append Let_def)
    then show ?thesis using t3(3) [OF that(1)] t2(4) [OF that(1)] that(2) by simp
  qed
  moreover have "leaf_at m3 root q j = leaf_at (mem s) root q j" if "is_path q" "length q = 3" "j < 512" for q j
    using t3(4) [OF that] t2(3) [OF that(1,3)] by simp
  ultimately have "pt_extends root s s'"
    using ok' view(1) new(8) unfolding pt_extends_def by (auto simp: s')
  moreover have "table_at (mem s') root (p @ [i]) = Some n"
    using t3(3) [of "p @ [i]"] p i by (simp add: s' is_path_def)
  moreover have "load_u64 s' (entry_ptr (pa_to_va s t) i) = set_next_level_table n"
    by (simp add: s' load_u64_def entry_ptr_def va_to_pa_add m3_def)
  moreover have "\<And>f. frame_used s' f \<longleftrightarrow> frame_used s f \<or> f = frame n" using view(1) new(8) by simp
  ultimately show thesis using that new(1) by blast
qed

text \<open>A pointer into RAM is not null.\<close>

lemma pa_to_va_nonzero:
  assumes "pt_ok s root" "table_ok t" "i < (512 :: u64)"
  shows "entry_ptr (pa_to_va s t) i \<noteq> 0" "pa_to_va s t \<noteq> 0"
proof -
  have i: "unat i < 512" using assms(3) by (simp add: word_less_nat_alt)
  have kb: "unat (kernel_base_va s) \<le> 2 ^ 64 - 2 ^ 48" using pt_okD(6) [OF assms(1)] by (auto simp: KERNEL_BASE_def)
  have t: "unat t \<noteq> 0" "unat t < 2 ^ 48" "page_aligned t" using assms(2) by (simp_all add: table_ok_def unat_eq_0)
  have "unat t + 4096 \<le> 2 ^ 48" using t page_aligned_unat [OF t(3)] by simp
  then have "unat (kernel_base_va s) + unat (t + 8 * i) < 2 ^ 64" "unat (kernel_base_va s) + unat t < 2 ^ 64"
    using entry_offset(1) [OF t(3) assms(3)] i kb by simp_all
  note u = unat_add64 [OF this(1)] unat_add64 [OF this(2)]
  have "unat (entry_ptr (pa_to_va s t) i) \<noteq> 0" "unat (pa_to_va s t) \<noteq> 0"
    using u entry_offset(1) [OF t(3) assms(3)] t(1) by (simp_all add: entry_ptr_def pa_to_va_def add.assoc)
  then show "entry_ptr (pa_to_va s t) i \<noteq> 0" "pa_to_va s t \<noteq> 0" by auto
qed

lemma get_next_level_table_ok:
  assumes ok: "pt_ok s root" and p: "is_path p" "length p < 3" "table_at (mem s) root p = Some t" and i: "i < 512"
    and r: "get_next_level_table (entry_ptr (pa_to_va s t) i) perms s = (v, s')"
  shows "pt_extends root s s'"
    and "v \<noteq> 0 \<Longrightarrow> \<exists>u. v = pa_to_va s' u \<and> table_at (mem s') root (p @ [i]) = Some u"
    and "v = 0 \<Longrightarrow> s' = s"
proof -
  let ?e = "entry_ptr (pa_to_va s t) i"
  have tok: "table_ok t" by (rule pt_tree_ok [OF pt_okD(2) [OF ok] p(1,3)])
  note nz = pa_to_va_nonzero [OF ok tok i]
  have ld: "load_u64 s ?e = load64 (mem s) (t + 8 * i)" by (simp add: load_u64_def entry_ptr_def va_to_pa_add)
  have rt: "get_page_table_entry_address (set_next_level_table n) = n" "check_table_permissions (set_next_level_table n) perms"
    if "table_ok n" for n
    using table_desc_roundtrip [of n perms] that by (simp_all add: table_ok_def)
  have "pt_extends root s s' \<and> (v \<noteq> 0 \<longrightarrow> (\<exists>u. v = pa_to_va s' u \<and> table_at (mem s') root (p @ [i]) = Some u)) \<and> (v = 0 \<longrightarrow> s' = s)"
  proof (cases "bit (load64 (mem s) (t + 8 * i)) 0")
    case True
    then obtain n where n: "table_ok n" "load64 (mem s) (t + 8 * i) = set_next_level_table n"
      using pt_tree_entry [OF pt_okD(2) [OF ok] p i] by blast
    then have "(v, s') = (pa_to_va s n, s)"
      using r nz True rt [OF n(1)] by (auto simp: get_next_level_table_def ld td_valid_bit)
    moreover have "table_at (mem s) root (p @ [i]) = Some n"
      using p(3) n next_table_set [OF n(1)] by (simp add: table_at_append Let_def bit_set_next_level_table)
    ultimately show ?thesis using pt_extends_refl [OF ok] pa_to_va_nonzero(2) [OF ok n(1) i] by simp
  next
    case False
    obtain b s1 where al: "allocate_new_table ?e s = (b, s1)" by (cases "allocate_new_table ?e s")
    show ?thesis
    proof (cases b)
      case True
      obtain n where n: "pt_extends root s s1" "table_at (mem s1) root (p @ [i]) = Some n" "table_ok n"
        "load_u64 s1 ?e = set_next_level_table n"
        by (rule allocate_new_table_ok [OF ok p i False, of s1]) (use al True in auto)
      then have "(v, s') = (pa_to_va s1 n, s1)"
        using r nz False al True rt(1) [OF n(3)] by (auto simp: get_next_level_table_def ld td_valid_bit)
      moreover have "pa_to_va s1 n \<noteq> 0" using pa_to_va_nonzero(2) [of s1 root n i] n i by (simp add: pt_extends_def)
      ultimately show ?thesis using n by simp
    next
      case b: False
      have "s1 = s"
        using al b page_alloc_fail(1) [OF pt_okD(1) [OF ok], of 1]
        by (auto simp: allocate_new_table_def Let_def split: prod.splits if_splits)
      then have "(v, s') = (0, s)" using r nz False al b by (simp add: get_next_level_table_def ld td_valid_bit)
      then show ?thesis using pt_extends_refl [OF ok] by simp
    qed
  qed
  then show "pt_extends root s s'" and "v \<noteq> 0 \<Longrightarrow> \<exists>u. v = pa_to_va s' u \<and> table_at (mem s') root (p @ [i]) = Some u"
    and "v = 0 \<Longrightarrow> s' = s" by blast+
qed

text \<open>With a free page left the descent does not fail, and it takes at most one page per level.\<close>

definition free_frames :: "'a alloc_state_scheme \<Rightarrow> nat set" where
  "free_frames s = {f. frame_managed s f \<and> \<not> frame_used s f}"

lemma finite_free_frames: "finite (free_frames s)"
proof -
  have "free_frames s \<subseteq> (\<Union>i \<in> {..< length (mem_chunks s)}. chunk_frames (mem_chunks s ! i))"
    by (auto simp: free_frames_def frame_managed_def inits_def)
  then show ?thesis by (rule finite_subset) (simp add: chunk_frames_def)
qed

lemma page_alloc_one:
  assumes "alloc_inv s" "free_frames s \<noteq> {}"
  shows "fst (page_alloc 1 s) \<noteq> PHYS_ADDR_NULL"
proof -
  obtain f ci where "ci \<in> inits s" "f \<in> chunk_frames (mem_chunks s ! ci)" "\<not> frame_used s f"
    using assms(2) by (auto simp: free_frames_def frame_managed_def)
  then show ?thesis using page_alloc_iff [OF assms(1), of 1] by auto
qed

lemma get_next_level_table_budget:
  assumes ok: "pt_ok s root" and p: "is_path p" "length p < 3" "table_at (mem s) root p = Some t" and i: "i < 512"
    and r: "get_next_level_table (entry_ptr (pa_to_va s t) i) perms s = (v, s')" 
    and fr: "table_at (mem s) root (p @ [i]) \<noteq> None \<or> free_frames s \<noteq> {}"
  shows "v \<noteq> 0"
    "card (free_frames s) \<le> card (free_frames s') + (if table_at (mem s) root (p @ [i]) = None then 1 else 0)"
proof -
  let ?e = "entry_ptr (pa_to_va s t) i"
  have tok: "table_ok t" by (rule pt_tree_ok [OF pt_okD(2) [OF ok] p(1,3)])
  note nz = pa_to_va_nonzero [OF ok tok i]
  have ld: "load_u64 s ?e = load64 (mem s) (t + 8 * i)" by (simp add: load_u64_def entry_ptr_def va_to_pa_add)
  have rt: "get_page_table_entry_address (set_next_level_table n) = n" "check_table_permissions (set_next_level_table n) perms"
    if "table_ok n" for n
    using table_desc_roundtrip [of n perms] that by (simp_all add: table_ok_def)
  have "v \<noteq> 0 \<and> card (free_frames s) \<le> card (free_frames s') + (if table_at (mem s) root (p @ [i]) = None then 1 else 0)"
  proof (cases "bit (load64 (mem s) (t + 8 * i)) 0")
    case True
    then obtain n where n: "table_ok n" "load64 (mem s) (t + 8 * i) = set_next_level_table n"
      using pt_tree_entry [OF pt_okD(2) [OF ok] p i] by blast
    then have "v = pa_to_va s n" "s' = s"
      using r nz True rt [OF n(1)] by (auto simp: get_next_level_table_def ld td_valid_bit)
    then show ?thesis using pa_to_va_nonzero(2) [OF ok n(1) i] by simp
  next
    case False
    then have none: "table_at (mem s) root (p @ [i]) = None" using p(3) by (simp add: table_at_append Let_def)
    with fr have fr: "free_frames s \<noteq> {}" by simp
    obtain s1 where al: "allocate_new_table ?e s = (True, s1)"
      using page_alloc_one [OF pt_okD(1) [OF ok] fr]
      by (cases "page_alloc 1 s") (simp add: allocate_new_table_def Let_def)
    obtain n where n: "pt_extends root s s1" "table_ok n" "load_u64 s1 ?e = set_next_level_table n"
      "\<And>f. frame_used s1 f \<longleftrightarrow> frame_used s f \<or> f = frame n"
      by (rule allocate_new_table_ok [OF ok p i False al]) blast
    have "v = pa_to_va s1 n" "s' = s1"
      using r nz False al rt(1) [OF n(2)] n(3) by (auto simp: get_next_level_table_def ld td_valid_bit)
    moreover have "pa_to_va s1 n \<noteq> 0" using pa_to_va_nonzero(2) [of s1 root n i] n i by (simp add: pt_extends_def)
    moreover have "card (free_frames s) \<le> Suc (card (free_frames s1))"
    proof -
      have "s1 = s\<lparr>mem := mem s1\<rparr>" using n(1) by (simp add: pt_extends_def)
      from arg_cong [OF this, of frame_managed] have "frame_managed s1 = frame_managed s" by simp
      then have "free_frames s1 = free_frames s - {frame n}" using n(4) by (auto simp: free_frames_def)
      then show ?thesis using finite_free_frames [of s] by (simp add: card_Diff_singleton_if) arith
    qed
    ultimately show ?thesis by (simp add: none)
  qed
  then show "v \<noteq> 0"
    "card (free_frames s) \<le> card (free_frames s') + (if table_at (mem s) root (p @ [i]) = None then 1 else 0)" by blast+
qed

section \<open>Mapping a page\<close>

lemma idx_bound: "x AND 0x1FF < (512 :: u64)"
proof -
  have "x AND 0x1FF = take_bit 9 x" by (simp add: take_bit_eq_mask mask_eq_exp_minus_1)
  moreover have "unat (take_bit 9 x) < 512"
    by (simp only: unsigned_take_bit_eq) (simp add: take_bit_eq_mod)
  ultimately show ?thesis by (simp add: word_less_nat_alt)
qed

lemma va_path_ok: "is_path (va_path va)" "length (va_path va) = 3" "va_index va < 512"
  by (simp_all add: va_path_def va_index_def is_path_def idx_bound)

lemma table_at_root: "table_at m root [] = Some root" by simp

text \<open>The descent of \<^verbatim>\<open>map_page\<close> to the level 3 table.\<close>

lemma map_page_descent:
  assumes ok: "pt_ok s root" and al: "page_aligned pa" "page_aligned va"
    and r: "map_page (pa_to_va s root) va pa perms mt s = (b, s')"
  obtains s3 where "pt_extends root s s3" "\<not> b \<Longrightarrow> s' = s3"
    "b \<Longrightarrow> \<exists>t. table_at (mem s3) root (va_path va) = Some t
       \<and> s' = s3\<lparr>mem := store64 (mem s3) (t + 8 * va_index va) (leaf_desc pa perms mt)\<rparr>"
proof -
  define i0 i1 i2 i3 where "i0 = drop_bit 39 va AND 0x1FF" and "i1 = drop_bit 30 va AND 0x1FF"
    and "i2 = drop_bit 21 va AND 0x1FF" and "i3 = drop_bit 12 va AND 0x1FF"
  have lt: "i0 < 512" "i1 < 512" "i2 < 512" "i3 < 512" by (simp_all add: i0_def i1_def i2_def i3_def idx_bound)
  have path: "va_path va = [i0, i1, i2]" "va_index va = i3"
    by (simp_all add: va_path_def va_index_def i0_def i1_def i2_def i3_def)
  have paths: "is_path []" "is_path [i0]" "is_path [i0, i1]" "is_path [i0, i1, i2]" using lt by (simp_all add: is_path_def)
  obtain l1 s1 where g1: "get_next_level_table (entry_ptr (pa_to_va s root) i0) perms s = (l1, s1)" by fastforce
  obtain l2 s2 where g2: "get_next_level_table (entry_ptr l1 i1) perms s1 = (l2, s2)" by fastforce
  obtain l3 s3 where g3: "get_next_level_table (entry_ptr l2 i2) perms s2 = (l3, s3)" by fastforce
  have rootok: "table_ok root" by (rule pt_tree_ok [OF pt_okD(2) [OF ok] paths(1)]) simp
  have nz: "pa_to_va s root \<noteq> 0" by (rule pa_to_va_nonzero(2) [OF ok rootok lt(1)])
  have low: "pa AND 0xFFF = 0" "va AND 0xFFF = 0" using al by (simp_all add: and_mask12_eq_0)
  have m: "map_page (pa_to_va s root) va pa perms mt s =
      (if l1 = 0 then (False, s1) else if l2 = 0 then (False, s2) else if l3 = 0 then (False, s3)
       else (True, write_page_desc (entry_ptr l3 i3) pa perms mt s3))"
    unfolding map_page_def Let_def i0_def [symmetric] i1_def [symmetric] i2_def [symmetric] i3_def [symmetric]
    using nz low by (simp add: g1 g2 g3)
  have lens: "length ([] :: u64 list) < 3" "length [i0] < 3" "length [i0, i1] < 3" by simp_all
  note n1 = get_next_level_table_ok [OF ok paths(1) lens(1) table_at_root lt(1) g1, unfolded append_Nil]
  have ok1: "pt_ok s1 root" using n1(1) by (simp add: pt_extends_def)
  show thesis
  proof (cases "l1 = 0")
    case True
    then show thesis using n1(1) m r by (intro that [of s1]) simp_all
  next
    case z1: False
    then obtain t1 where t1: "l1 = pa_to_va s1 t1" "table_at (mem s1) root [i0] = Some t1" using n1(2) by blast
    note n2 = get_next_level_table_ok [OF ok1 paths(2) lens(2) t1(2) lt(2) g2 [unfolded t1(1)], unfolded append_Cons append_Nil]
    have e2: "pt_extends root s s2" by (rule pt_extends_trans [OF n1(1) n2(1)])
    then have ok2: "pt_ok s2 root" by (simp add: pt_extends_def)
    show thesis
    proof (cases "l2 = 0")
      case True
      then show thesis using e2 m r z1 by (intro that [of s2]) simp_all
    next
      case z2: False
      then obtain t2 where t2: "l2 = pa_to_va s2 t2" "table_at (mem s2) root [i0, i1] = Some t2" using n2(2) by blast
      note n3 = get_next_level_table_ok [OF ok2 paths(3) lens(3) t2(2) lt(3) g3 [unfolded t2(1)], unfolded append_Cons append_Nil]
      have e3: "pt_extends root s s3" by (rule pt_extends_trans [OF e2 n3(1)])
      then have ok3: "pt_ok s3 root" by (simp add: pt_extends_def)
      show thesis
      proof (cases "l3 = 0")
        case True
        then show thesis using e3 m r z1 z2 by (intro that [of s3]) simp_all
      next
        case z3: False
        then obtain t3 where t3: "l3 = pa_to_va s3 t3" "table_at (mem s3) root [i0, i1, i2] = Some t3" using n3(2) by blast
        have "table_ok t3" by (rule pt_tree_ok [OF pt_okD(2) [OF ok3] paths(4) t3(2)])
        then have "entry_ptr l3 i3 \<noteq> 0" using pa_to_va_nonzero(1) [OF ok3 _ lt(4)] t3(1) by simp
        then have "s' = s3\<lparr>mem := store64 (mem s3) (t3 + 8 * i3) (leaf_desc pa perms mt)\<rparr>" "b"
          using m r z1 z2 z3 by (simp_all add: write_page_desc_eq t3(1) store_u64_def entry_ptr_def va_to_pa_add)
        then show thesis using e3 t3(2) by (intro that [of s3]) (simp_all add: path)
      qed
    qed
  qed
qed

text \<open>Two addresses take the same path exactly when they lie on the same page.\<close>

definition va_page :: "virt_addr \<Rightarrow> u64" where
  "va_page va = drop_bit 12 (take_bit 48 va)"

lemma idx_take_bit: "x AND 0x1FF = take_bit 9 (x :: u64)"
  by (simp add: take_bit_eq_mask mask_eq_exp_minus_1)

lemma va_page_eq:
  "va_page va = va_page va' \<longleftrightarrow> va_path va = va_path va' \<and> va_index va = va_index va'"
proof
  assume "va_page va = va_page va'"
  then have eq: "bit va n = bit va' n" if "12 \<le> n" "n < 48" for n
  proof -
    have "bit (va_page va) (n - 12) = bit (va_page va') (n - 12)" by (simp add: \<open>va_page va = va_page va'\<close>)
    then show ?thesis using that by (simp add: va_page_def bit_drop_bit_eq bit_take_bit_iff)
  qed
  have "take_bit 9 (drop_bit k va) = take_bit 9 (drop_bit k va')" if "12 \<le> k" "k \<le> 39" for k
    using that eq by (intro bit_word_eqI) (auto simp: bit_take_bit_iff bit_drop_bit_eq)
  then show "va_path va = va_path va' \<and> va_index va = va_index va'"
    by (simp add: va_path_def va_index_def idx_take_bit)
next
  assume idx: "va_path va = va_path va' \<and> va_index va = va_index va'"
  show "va_page va = va_page va'"
  proof (rule bit_word_eqI)
    fix n assume "n < LENGTH(64)"
    have same: "bit va (k + j) = bit va' (k + j)"
      if "take_bit 9 (drop_bit k va) = take_bit 9 (drop_bit k va')" "j < 9" for k j
    proof -
      have "bit (take_bit 9 (drop_bit k va)) j = bit (take_bit 9 (drop_bit k va')) j" by (simp only: that(1))
      then show ?thesis using that(2) by (simp add: bit_take_bit_iff bit_drop_bit_eq)
    qed
    have s: "take_bit 9 (drop_bit 39 va) = take_bit 9 (drop_bit 39 va')"
      "take_bit 9 (drop_bit 30 va) = take_bit 9 (drop_bit 30 va')"
      "take_bit 9 (drop_bit 21 va) = take_bit 9 (drop_bit 21 va')"
      "take_bit 9 (drop_bit 12 va) = take_bit 9 (drop_bit 12 va')"
      using idx by (simp_all add: va_path_def va_index_def idx_take_bit)
    consider "n < 9" | "9 \<le> n" "n < 18" | "18 \<le> n" "n < 27" | "27 \<le> n" "n < 36" | "36 \<le> n" by linarith
    then have "n < 36 \<longrightarrow> bit va (12 + n) = bit va' (12 + n)"
      using same [OF s(4), of n] same [OF s(3), of "n - 9"] same [OF s(2), of "n - 18"] same [OF s(1), of "n - 27"]
      by cases simp_all
    then show "bit (va_page va) n = bit (va_page va') n" by (auto simp: va_page_def bit_drop_bit_eq bit_take_bit_iff)
  qed
qed

lemma translate_leaf:
  assumes "pt_tree m root"
  shows "translate m root va = (case leaf_at m root (va_path va) (va_index va) of None \<Rightarrow> Fault | Some d \<Rightarrow> Leaf 3 d)"
  unfolding translate_def by (rule hw_walk_leaf_at [OF assms va_path_ok])

lemma pt_extends_translate:
  assumes "pt_ok s root" "pt_extends root s s'"
  shows "translate (mem s') root va = translate (mem s) root va"
  using assms pt_okD(2) [of s root] pt_okD(2) [of s' root] va_path_ok [of va]
  by (simp add: translate_leaf pt_extends_def)

lemma leaf_desc_bits: "bit (leaf_desc pa perms mt) 0 \<longleftrightarrow> read perms" "bit (leaf_desc pa perms mt) 1"
proof -
  have "bit (bf_get page_desc_t PD_valid (leaf_desc pa perms mt)) 0 \<longleftrightarrow> read perms"
    "bit (bf_get page_desc_t PD_is_page (leaf_desc pa perms mt)) 0"
    by (simp_all add: leaf_desc_fields)
  then show "bit (leaf_desc pa perms mt) 0 \<longleftrightarrow> read perms" "bit (leaf_desc pa perms mt) 1"
    by (simp_all add: bit_bf_get page_desc_t_def)
qed

lemma map_page_aligned:
  "map_page r va pa perms mt s = (True, s') \<Longrightarrow> page_aligned pa \<and> page_aligned va"
  by (auto simp: map_page_def and_mask12_eq_0 split: if_splits)

text \<open>The effect of a successful \<^verbatim>\<open>map_page\<close>.\<close>

lemma map_page_effect:
  assumes ok: "pt_ok s root" and r: "map_page (pa_to_va s root) va pa perms mt s = (True, s')"
  shows "pt_ok s' root" "s' = s\<lparr>mem := mem s'\<rparr>"
    "translate (mem s') root va = (if read perms then Leaf 3 (leaf_desc pa perms mt) else Fault)"
    "va_page va' \<noteq> va_page va \<Longrightarrow> translate (mem s') root va' = translate (mem s) root va'"
    "foreign s root a \<Longrightarrow> foreign s' root a \<and> mem s' a = mem s a"
    "frame_used s f \<Longrightarrow> frame_used s' f"
proof -
  obtain s3 t where e: "pt_extends root s s3" and t: "table_at (mem s3) root (va_path va) = Some t"
    and s': "s' = s3\<lparr>mem := store64 (mem s3) (t + 8 * va_index va) (leaf_desc pa perms mt)\<rparr>"
    using map_page_descent [OF ok _ _ r] map_page_aligned [OF r] by metis
  let ?m = "store64 (mem s3) (t + 8 * va_index va) (leaf_desc pa perms mt)"
  have ok3: "pt_ok s3 root" using e by (simp add: pt_extends_def)
  note tree = pt_okD(2) [OF ok3]
  note put = tree_put_leaf [where d = "leaf_desc pa perms mt", OF tree va_path_ok(1,2) t va_path_ok(3) refl]
  have tok: "page_aligned t" using pt_tree_ok [OF tree va_path_ok(1) t] by (simp add: table_ok_def)
  have ft: "frame t \<in> table_frames (mem s3) root" by (rule table_in_frames [OF va_path_ok(1) t])
  have out: "?m x = mem s3 x" if "frame x \<noteq> frame t" for x by (rule store_entry_frame [OF tok va_path_ok(3) that])
  have "?m x = mem s3 x" if "is_bitmap_frame s3 (frame x)" for x
    using that pt_okD(3) [OF ok3 ft] by (intro out) auto
  note view = alloc_view_mem_upd [OF pt_okD(1) [OF ok3] this]
  show ok': "pt_ok s' root"
    using ok3 view put(1,2) unfolding pt_ok_def by (simp add: s')
  have s3: "s3 = s\<lparr>mem := mem s3\<rparr>" using e by (simp add: pt_extends_def)
  show "s' = s\<lparr>mem := mem s'\<rparr>" using s' by (subst (asm) s3) simp
  have "mem s' = ?m" by (simp add: s')
  note walk = translate_leaf [OF pt_okD(2) [OF ok'], unfolded this]
  show "translate (mem s') root va = (if read perms then Leaf 3 (leaf_desc pa perms mt) else Fault)"
    unfolding \<open>mem s' = ?m\<close> walk put(4) [OF va_path_ok] using leaf_desc_bits [of pa perms mt] by simp
  show "translate (mem s') root va' = translate (mem s) root va'" if "va_page va' \<noteq> va_page va"
  proof -
    have "translate (mem s') root va' = translate (mem s3) root va'"
      unfolding \<open>mem s' = ?m\<close> walk put(4) [OF va_path_ok] translate_leaf [OF tree]
      using that va_page_eq [of va' va] by auto
    then show ?thesis using pt_extends_translate [OF ok e] by simp
  qed
  show "foreign s' root a \<and> mem s' a = mem s a" if f: "foreign s root a"
  proof -
    have f3: "foreign s3 root a" "mem s3 a = mem s a" using e f by (auto simp: pt_extends_def)
    then have "frame a \<noteq> frame t" using ft by (auto simp: foreign_def)
    then show ?thesis using out f3 view(1) put(2) by (simp add: s' foreign_def)
  qed
  show "frame_used s' f" if "frame_used s f" using e that view(1) by (simp add: pt_extends_def s')
qed

text \<open>Writing the leaf descriptor does not touch the allocator.\<close>

lemma leaf_store_view:
  assumes ok: "pt_ok s root" and t: "is_path p" "table_at (mem s) root p = Some t" and j: "j < 512"
  shows "frame_used (s\<lparr>mem := store64 (mem s) (t + 8 * j) d\<rparr>) = frame_used s"
proof -
  have tok: "page_aligned t" using pt_tree_ok [OF pt_okD(2) [OF ok] t] by (simp add: table_ok_def)
  have "store64 (mem s) (t + 8 * j) d x = mem s x" if "is_bitmap_frame s (frame x)" for x
    using that pt_okD(3) [OF ok table_in_frames [OF t]] by (intro store_entry_frame [OF tok j]) auto
  from alloc_view_mem_upd [OF pt_okD(1) [OF ok] this] show ?thesis by blast
qed

text \<open>
  A mapping succeeds when there is a free page for every table that is missing on its path, and
  takes no more pages than that.
\<close>

lemma map_page_budget:
  assumes ok: "pt_ok s root" and al: "page_aligned pa" "page_aligned va"
    and d: "d \<le> 3" "table_at (mem s) root (take d (va_path va)) \<noteq> None" and fr: "3 - d \<le> card (free_frames s)"
  shows "\<exists>s'. map_page (pa_to_va s root) va pa perms mt s = (True, s')
    \<and> card (free_frames s) \<le> card (free_frames s') + (3 - d) \<and> table_at (mem s') root (va_path va) \<noteq> None"
proof -
  define i0 i1 i2 i3 where "i0 = drop_bit 39 va AND 0x1FF" and "i1 = drop_bit 30 va AND 0x1FF"
    and "i2 = drop_bit 21 va AND 0x1FF" and "i3 = drop_bit 12 va AND 0x1FF"
  have path: "va_path va = [i0, i1, i2]" by (simp add: va_path_def i0_def i1_def i2_def)
  have lt: "i0 < 512" "i1 < 512" "i2 < 512" "i3 < 512" by (simp_all add: i0_def i1_def i2_def i3_def idx_bound)
  have paths: "is_path []" "is_path [i0]" "is_path [i0, i1]" "is_path [i0, i1, i2]" using lt by (simp_all add: is_path_def)
  have lens: "length ([] :: u64 list) < 3" "length [i0] < 3" "length [i0, i1] < 3" by simp_all
  obtain l1 s1 where g1: "get_next_level_table (entry_ptr (pa_to_va s root) i0) perms s = (l1, s1)" by fastforce
  obtain l2 s2 where g2: "get_next_level_table (entry_ptr l1 i1) perms s1 = (l2, s2)" by fastforce
  obtain l3 s3 where g3: "get_next_level_table (entry_ptr l2 i2) perms s2 = (l3, s3)" by fastforce
  define c where "c m q = (if table_at m root q = None then 1 else 0 :: nat)" for m q
  have mono: "c (mem t) q \<le> c (mem u) q" if "pt_extends root u t" "is_path q" for t u q
  proof -
    have "table_at (mem t) root q \<noteq> None" if "table_at (mem u) root q \<noteq> None"
      using that \<open>pt_extends root u t\<close> \<open>is_path q\<close> unfolding pt_extends_def by blast
    then show ?thesis by (cases "table_at (mem u) root q") (simp_all add: c_def)
  qed
  have sum: "c (mem s) [i0] + c (mem s) [i0, i1] + c (mem s) [i0, i1, i2] \<le> 3 - d"
  proof -
    have pre: "table_at (mem s) root (take n (va_path va)) \<noteq> None" if "n \<le> d" for n
    proof -
      have "take d (va_path va) = take n (va_path va) @ drop n (take d (va_path va))"
        using append_take_drop_id [of n "take d (va_path va)"] that by (simp add: min_absorb1)
      then have "table_at (mem s) root (take n (va_path va) @ drop n (take d (va_path va))) \<noteq> None" using d(2) by simp
      then show ?thesis unfolding table_at_append by (cases "table_at (mem s) root (take n (va_path va))") simp_all
    qed
    have "d = 0 \<or> d = 1 \<or> d = 2 \<or> d = 3" using d(1) by auto
    then show ?thesis using pre [of 1] pre [of 2] pre [of 3] by (auto simp: path c_def)
  qed
  have avail: "table_at (mem t) root q \<noteq> None \<or> free_frames t \<noteq> {}" if "c (mem t) q \<le> card (free_frames t)" for t q
    using that by (auto simp: c_def split: if_splits)
  note n1 = get_next_level_table_ok [OF ok paths(1) lens(1) table_at_root lt(1) g1, unfolded append_Nil]
  note p1 = get_next_level_table_budget [OF ok paths(1) lens(1) table_at_root lt(1) g1, unfolded append_Nil, folded c_def]
  have p1: "l1 \<noteq> 0" "card (free_frames s) \<le> card (free_frames s1) + c (mem s) [i0]"
    using p1 [OF avail] sum fr by simp_all
  obtain t1 where t1: "l1 = pa_to_va s1 t1" "table_at (mem s1) root [i0] = Some t1" using n1(2) p1(1) by blast
  have ok1: "pt_ok s1 root" using n1(1) by (simp add: pt_extends_def)
  note g2' = g2 [unfolded t1(1)]
  note n2 = get_next_level_table_ok [OF ok1 paths(2) lens(2) t1(2) lt(2) g2', unfolded append_Cons append_Nil]
  note p2 = get_next_level_table_budget [OF ok1 paths(2) lens(2) t1(2) lt(2) g2', unfolded append_Cons append_Nil, folded c_def]
  have c1: "c (mem s1) [i0, i1] \<le> c (mem s) [i0, i1]" "c (mem s1) [i0, i1, i2] \<le> c (mem s) [i0, i1, i2]"
    using mono [OF n1(1)] paths by simp_all
  have p2: "l2 \<noteq> 0" "card (free_frames s1) \<le> card (free_frames s2) + c (mem s1) [i0, i1]"
    using p2 [OF avail] sum fr p1(2) c1 by simp_all
  obtain t2 where t2: "l2 = pa_to_va s2 t2" "table_at (mem s2) root [i0, i1] = Some t2" using n2(2) p2(1) by blast
  have ok2: "pt_ok s2 root" using n2(1) by (simp add: pt_extends_def)
  note g3' = g3 [unfolded t2(1)]
  note n3 = get_next_level_table_ok [OF ok2 paths(3) lens(3) t2(2) lt(3) g3', unfolded append_Cons append_Nil]
  note p3 = get_next_level_table_budget [OF ok2 paths(3) lens(3) t2(2) lt(3) g3', unfolded append_Cons append_Nil, folded c_def]
  have c2: "c (mem s2) [i0, i1, i2] \<le> c (mem s1) [i0, i1, i2]" using mono [OF n2(1)] paths by simp
  have p3: "l3 \<noteq> 0" "card (free_frames s2) \<le> card (free_frames s3) + c (mem s2) [i0, i1, i2]"
    using p3 [OF avail] sum fr p1(2) p2(2) c1 c2 by simp_all
  obtain t3 where t3: "l3 = pa_to_va s3 t3" "table_at (mem s3) root [i0, i1, i2] = Some t3" using n3(2) p3(1) by blast
  have ok3: "pt_ok s3 root" using n3(1) by (simp add: pt_extends_def)
  have "table_ok root" by (rule pt_tree_ok [OF pt_okD(2) [OF ok] paths(1)]) simp
  then have nz: "pa_to_va s root \<noteq> 0" by (rule pa_to_va_nonzero(2) [OF ok _ lt(1)])
  have low: "pa AND 0xFFF = 0" "va AND 0xFFF = 0" using al by (simp_all add: and_mask12_eq_0)
  have tok: "table_ok t3" by (rule pt_tree_ok [OF pt_okD(2) [OF ok3] paths(4) t3(2)])
  define s' where "s' = s3\<lparr>mem := store64 (mem s3) (t3 + 8 * i3) (leaf_desc pa perms mt)\<rparr>"
  have "entry_ptr l3 i3 \<noteq> 0" using pa_to_va_nonzero(1) [OF ok3 tok lt(4)] t3(1) by simp
  then have w: "write_page_desc (entry_ptr l3 i3) pa perms mt s3 = s'"
    by (simp add: write_page_desc_eq t3(1) store_u64_def entry_ptr_def va_to_pa_add s'_def)
  have "map_page (pa_to_va s root) va pa perms mt s = (True, s')"
    unfolding map_page_def Let_def i0_def [symmetric] i1_def [symmetric] i2_def [symmetric] i3_def [symmetric]
    using nz low p1(1) p2(1) p3(1) by (simp add: g1 g2 g3 w)
  moreover have "free_frames s' = free_frames s3"
    using leaf_store_view [OF ok3 paths(4) t3(2) lt(4)] by (simp add: free_frames_def s'_def)
  moreover have "table_at (mem s') root (va_path va) = Some t3"
    using tree_put_leaf(3) [OF pt_okD(2) [OF ok3] paths(4) _ t3(2) lt(4) refl paths(4)] t3(2) by (simp add: s'_def path)
  ultimately show ?thesis using sum p1(2) p2(2) p3(2) c1 c2 by (intro exI [of _ s']) simp
qed

text \<open>Three free pages are enough for any mapping.\<close>

lemma map_page_succeeds:
  assumes ok: "pt_ok s root" and al: "page_aligned pa" "page_aligned va" and fr: "3 \<le> card (free_frames s)"
  shows "fst (map_page (pa_to_va s root) va pa perms mt s)"
  using map_page_budget [OF ok al, of 0 perms mt] fr by auto

end
