(* ===== verification/Page_Table_Maps.thy ===== *)
theory Page_Table_Maps
  imports Page_Table_Correct
begin

text \<open>
  What the mapping functions of the kernel achieve: single pages, whole regions and the
  higher-half kernel map, and that their loops return.
\<close>

section \<open>Single pages\<close>

text \<open>
  C1. \<^verbatim>\<open>map_page\<close> on success: the hardware walk of the virtual address ends at level 3 in exactly the
  descriptor for the requested frame, permissions and memory type (or faults, when no read
  permission was requested); the walk of every address on another page is what it was; the
  allocator and the tables stay consistent; and no byte changes that belongs to anything
  but the allocator's bitmaps, free pages or the tables themselves.
\<close>

theorem map_page_correct:
  assumes "pt_ok s root" and "map_page (pa_to_va s root) va pa perms mt s = (True, s')"
  shows "translate (mem s') root va = (if read perms then Leaf 3 (leaf_desc pa perms mt) else Fault)
    \<and> (\<forall>va'. va_page va' \<noteq> va_page va \<longrightarrow> translate (mem s') root va' = translate (mem s) root va')
    \<and> pt_ok s' root \<and> s' = s\<lparr>mem := mem s'\<rparr>
    \<and> (\<forall>a. foreign s root a \<longrightarrow> mem s' a = mem s a)"
  using map_page_effect [OF assms] by blast

lemma map_page_unaligned:
  "\<not> (page_aligned pa \<and> page_aligned va) \<Longrightarrow> map_page r va pa perms mt s = (False, s)"
  by (auto simp: map_page_def and_mask12_eq_0)

text \<open>
  C18. \<^verbatim>\<open>map_page\<close> on failure: no translation changes, consistency is kept and nobody's memory is
  touched; it fails only for unaligned addresses or when fewer than three pages are free,
  and unaligned requests change nothing at all.
\<close>

theorem map_page_failure:
  assumes ok: "pt_ok s root" and r: "map_page (pa_to_va s root) va pa perms mt s = (False, s')"
  shows "(\<forall>va'. translate (mem s') root va' = translate (mem s) root va')
    \<and> pt_ok s' root \<and> (\<forall>a. foreign s root a \<longrightarrow> mem s' a = mem s a)
    \<and> (page_aligned pa \<and> page_aligned va \<longrightarrow> card (free_frames s) < 3)
    \<and> (\<not> (page_aligned pa \<and> page_aligned va) \<longrightarrow> s' = s)"
proof (cases "page_aligned pa \<and> page_aligned va")
  case True
  then obtain s3 where e: "pt_extends root s s3" "s' = s3"
    using map_page_descent [OF ok _ _ r] by metis
  have "card (free_frames s) < 3"
    using map_page_succeeds [OF ok, of pa va perms mt] True r by (metis fst_conv not_le)
  with True e pt_extends_translate [OF ok e(1)] show ?thesis by (simp add: pt_extends_def)
next
  case False
  then have "s' = s" using r by (simp add: map_page_unaligned)
  with False ok show ?thesis by auto
qed

text \<open>A mapping of aligned addresses that fails has run out of pages.\<close>

definition out_of_pages :: "'a alloc_state_scheme \<Rightarrow> 'a alloc_state_scheme \<Rightarrow> bool" where
  "out_of_pages s s' \<longleftrightarrow> card (free_frames s') < 3 \<and> s' = s\<lparr>mem := mem s'\<rparr>"

lemma map_page_out_of_pages:
  assumes ok: "pt_ok s root" and al: "page_aligned pa" "page_aligned va"
    and r: "map_page (pa_to_va s root) va pa perms mt s = (False, s')"
  shows "out_of_pages s s'"
proof -
  obtain s3 where "pt_extends root s s3" "s' = s3" using map_page_descent [OF ok al r] by metis
  then have e: "s' = s\<lparr>mem := mem s'\<rparr>" "\<forall>f. frame_used s f \<longrightarrow> frame_used s' f" by (simp_all add: pt_extends_def)
  have "frame_managed s' = frame_managed s" by (subst e(1)) simp
  then have "card (free_frames s') \<le> card (free_frames s)"
    using e(2) by (intro card_mono finite_free_frames) (auto simp: free_frames_def)
  moreover have "card (free_frames s) < 3"
    using map_page_succeeds [OF ok al, of perms mt] r by (metis fst_conv not_le)
  ultimately show ?thesis using e(1) by (simp add: out_of_pages_def)
qed

lemma out_of_pages_after:
  assumes "out_of_pages s' s''" "s' = s\<lparr>mem := mem s'\<rparr>"
  shows "out_of_pages s s''"
proof -
  have "s'\<lparr>mem := m\<rparr> = s\<lparr>mem := m\<rparr>" for m by (subst assms(2)) simp
  with assms(1) show ?thesis by (simp add: out_of_pages_def)
qed

section \<open>Loops over pages\<close>

fun run_steps :: "('a \<Rightarrow> 's \<Rightarrow> bool \<times> 's) \<Rightarrow> 'a list \<Rightarrow> 's \<Rightarrow> bool \<times> 's" where
  "run_steps step [] s = (True, s)"
| "run_steps step (x # xs) s = (let (ok, s') = step x s in if \<not> ok then (False, s') else run_steps step xs s')"

text \<open>The addresses a loop from \<open>a\<close> to \<open>b\<close> in steps of a page visits.\<close>

definition page_addrs :: "phy_addr \<Rightarrow> phy_addr \<Rightarrow> phy_addr list" where
  "page_addrs a b = map (\<lambda>k. a + of_nat k * PAGE_SIZE) [0 ..< (unat b - unat a + 4095) div 4096]"

lemma page_addrs_step:
  assumes "a < b" "unat b + 4096 \<le> 2 ^ 64"
  shows "page_addrs a b = a # page_addrs (a + PAGE_SIZE) b" "unat (a + PAGE_SIZE) = unat a + 4096"
proof -
  have lt: "unat a < unat b" using assms(1) by (simp add: word_less_nat_alt)
  show u: "unat (a + PAGE_SIZE) = unat a + 4096" using lt assms(2) by (subst unat_add64) simp_all
  obtain n where n: "(unat b - unat a + 4095) div 4096 = Suc n"
    using lt by (cases "(unat b - unat a + 4095) div 4096") auto
  have "unat b - unat (a + PAGE_SIZE) = unat b - unat a - 4096" using u by simp
  then have "(unat b - unat (a + PAGE_SIZE) + 4095) div 4096 = n"
    using n lt by (cases "unat b - unat a \<le> 4096") (auto simp: le_div_geq)
  then show "page_addrs a b = a # page_addrs (a + PAGE_SIZE) b"
    unfolding page_addrs_def n by (simp add: upt_conv_Cons map_Suc_upt [symmetric] algebra_simps del: upt_Suc)
qed

lemma page_addrs_done: "\<not> a < b \<Longrightarrow> page_addrs a b = []"
  by (simp add: page_addrs_def word_less_nat_alt)

text \<open>Below the last page of the address space the loop returns, after one step per page.\<close>

lemma page_loop_runs:
  assumes "unat b + 4096 \<le> 2 ^ 64"
  shows "page_loop step a b s = Some (run_steps step (page_addrs a b) s)"
proof (induction "unat b - unat a" arbitrary: a s rule: less_induct)
  case less
  show ?case
  proof (cases "a < b")
    case True
    have "unat b - unat (a + PAGE_SIZE) < unat b - unat a"
      using True page_addrs_step(2) [OF True assms] by (simp add: word_less_nat_alt)
    from less [OF this] True page_addrs_step(1) [OF True assms] show ?thesis
      by (subst page_loop.simps) (auto split: prod.split)
  next
    case False
    then show ?thesis by (subst page_loop.simps) (simp add: page_addrs_done)
  qed
qed

lemma set_page_addrs:
  assumes "page_aligned a" "unat b + 4096 \<le> 2 ^ 64"
  shows "x \<in> set (page_addrs a b) \<longleftrightarrow> page_aligned x \<and> a \<le> x \<and> x < b"
  using assms
proof (induction "unat b - unat a" arbitrary: a rule: less_induct)
  case less
  show ?case
  proof (cases "a < b")
    case True
    note st = page_addrs_step [OF True less.prems(2)]
    have al: "page_aligned (a + PAGE_SIZE)" using less.prems(1) st(2) by (simp add: page_aligned_def)
    have "unat b - unat (a + PAGE_SIZE) < unat b - unat a" using True st(2) by (simp add: word_less_nat_alt)
    from less.hyps [OF this al less.prems(2)]
    have "x \<in> set (page_addrs a b) \<longleftrightarrow> x = a \<or> page_aligned x \<and> a + PAGE_SIZE \<le> x \<and> x < b" by (simp add: st(1))
    also have "\<dots> \<longleftrightarrow> page_aligned x \<and> a \<le> x \<and> x < b"
    proof -
      have "a = x \<or> a + PAGE_SIZE \<le> x" if "page_aligned x" "a \<le> x"
      proof -
        define k l where "k = frame a" and "l = frame x"
        have kl: "unat a = k * 4096" "unat x = l * 4096"
          using that(1) less.prems(1) by (simp_all only: k_def l_def page_aligned_unat)
        then have "k = l \<or> Suc k \<le> l" using that(2) by (auto simp: word_le_nat_alt)
        then show ?thesis
        proof
          assume "k = l"
          then have "unat a = unat x" by (simp add: kl)
          then show ?thesis by (simp add: word_unat_eq_iff)
        next
          assume "Suc k \<le> l"
          then have "unat a + 4096 \<le> unat x" by (simp add: kl)
          then show ?thesis using st(2) by (simp add: word_le_nat_alt)
        qed
      qed
      moreover have "a \<le> x" if "a + PAGE_SIZE \<le> x" using that st(2) by (simp add: word_le_nat_alt)
      ultimately show ?thesis using less.prems(1) True by auto
    qed
    finally show ?thesis .
  next
    case False
    then show ?thesis by (auto simp: page_addrs_done)
  qed
qed

lemma distinct_page_addrs: 
  assumes "unat b + 4096 \<le> 2 ^ 64"
  shows "distinct (page_addrs a b) \<and> (\<forall>x \<in> set (page_addrs a b). a \<le> x)"
proof (induction "unat b - unat a" arbitrary: a rule: less_induct)
  case less
  show ?case
  proof (cases "a < b")
    case True
    note st = page_addrs_step [OF True assms]
    have "unat b - unat (a + PAGE_SIZE) < unat b - unat a" using True st(2) by (simp add: word_less_nat_alt)
    from less [OF this] st show ?thesis by (fastforce simp: word_le_nat_alt)
  qed (simp add: page_addrs_done)
qed

section \<open>Regions\<close>

text \<open>A sequence of mappings of distinct pages establishes all of them and no others.\<close>

lemma run_map_pages:
  assumes "pt_ok s root" "run_steps step xs s = (True, s')"
    and "\<And>x t. x \<in> set xs \<Longrightarrow> t = s\<lparr>mem := mem t\<rparr> \<Longrightarrow> step x t = map_page (pa_to_va s root) (va x) x (pr x) mt t"
    and "\<And>x. x \<in> set xs \<Longrightarrow> read (pr x)" "distinct (map (\<lambda>x. va_page (va x)) xs)"
  shows "pt_ok s' root \<and> s' = s\<lparr>mem := mem s'\<rparr>
    \<and> (\<forall>x \<in> set xs. translate (mem s') root (va x) = Leaf 3 (leaf_desc x (pr x) mt))
    \<and> (\<forall>w. va_page w \<notin> (\<lambda>x. va_page (va x)) ` set xs \<longrightarrow> translate (mem s') root w = translate (mem s) root w)
    \<and> (\<forall>a. foreign s root a \<longrightarrow> foreign s' root a \<and> mem s' a = mem s a)"
  using assms
proof (induction xs arbitrary: s)
  case (Cons x xs)
  obtain b s1 where st: "step x s = (b, s1)" by fastforce
  with Cons.prems(2) have b: b and rest: "run_steps step xs s1 = (True, s')" by (auto split: if_splits)
  have "step x s = map_page (pa_to_va s root) (va x) x (pr x) mt s" using Cons.prems(3) [of x s] by simp
  with st b have mp: "map_page (pa_to_va s root) (va x) x (pr x) mt s = (True, s1)" by simp
  note eff = map_page_effect [OF Cons.prems(1) mp]
  have s1: "s\<lparr>mem := m\<rparr> = s1\<lparr>mem := m\<rparr>" for m by (subst eff(2)) simp
  have pv: "pa_to_va s1 = pa_to_va s" by (subst eff(2)) simp
  have st': "step y t = map_page (pa_to_va s1 root) (va y) y (pr y) mt t"
    if "y \<in> set xs" "t = s1\<lparr>mem := mem t\<rparr>" for y t
    using that Cons.prems(3) [of y t] by (simp add: pv s1)
  have IH: "pt_ok s' root \<and> s' = s1\<lparr>mem := mem s'\<rparr>
    \<and> (\<forall>x \<in> set xs. translate (mem s') root (va x) = Leaf 3 (leaf_desc x (pr x) mt))
    \<and> (\<forall>w. va_page w \<notin> (\<lambda>x. va_page (va x)) ` set xs \<longrightarrow> translate (mem s') root w = translate (mem s1) root w)
    \<and> (\<forall>a. foreign s1 root a \<longrightarrow> foreign s' root a \<and> mem s' a = mem s1 a)"
    by (rule Cons.IH [OF eff(1) rest st']) (use Cons.prems(4,5) in auto)
  have "translate (mem s') root (va x) = Leaf 3 (leaf_desc x (pr x) mt)"
    using IH Cons.prems(4,5) eff(3) by simp
  moreover have "translate (mem s') root w = translate (mem s) root w"
    if "va_page w \<notin> (\<lambda>x. va_page (va x)) ` set (x # xs)" for w
    using IH eff(4) [of w] that by simp
  moreover have "foreign s' root a \<and> mem s' a = mem s a" if "foreign s root a" for a using IH eff(5) [OF that] by simp
  ultimately show ?case using IH s1 by simp
qed simp

lemma run_map_pages_fail:
  assumes "pt_ok s root" "run_steps step xs s = (False, s')"
    and "\<And>x t. x \<in> set xs \<Longrightarrow> t = s\<lparr>mem := mem t\<rparr> \<Longrightarrow> step x t = map_page (pa_to_va s root) (va x) x (pr x) mt t"
    and "\<And>x. x \<in> set xs \<Longrightarrow> page_aligned x \<and> page_aligned (va x)"
  shows "out_of_pages s s'"
  using assms
proof (induction xs arbitrary: s)
  case (Cons x xs)
  obtain b s1 where st: "step x s = (b, s1)" by fastforce
  have "step x s = map_page (pa_to_va s root) (va x) x (pr x) mt s" using Cons.prems(3) [of x s] by simp
  with st have mp: "map_page (pa_to_va s root) (va x) x (pr x) mt s = (b, s1)" by simp
  show ?case
  proof (cases b)
    case False
    then show ?thesis using map_page_out_of_pages [OF Cons.prems(1), of x "va x"] mp st Cons.prems(2,4) by auto
  next
    case True
    note eff = map_page_effect [OF Cons.prems(1) mp [unfolded eqTrueI [OF True]]]
    have rest: "run_steps step xs s1 = (False, s')" using Cons.prems(2) st True by simp
    have s1: "s\<lparr>mem := m\<rparr> = s1\<lparr>mem := m\<rparr>" for m by (subst eff(2)) simp
    have pv: "pa_to_va s1 = pa_to_va s" by (subst eff(2)) simp
    have "out_of_pages s1 s'"
      using Cons.prems(3,4) by (intro Cons.IH [OF eff(1) rest]) (simp_all add: pv s1)
    then show ?thesis by (rule out_of_pages_after [OF _ eff(2)])
  qed
qed simp

text \<open>The higher-half address of a physical page.\<close>

lemma va_page_high:
  assumes "unat pa < 2 ^ 48"
  shows "va_page (pa + KERNEL_BASE) = drop_bit 12 pa"
proof -
  have "unat (pa + KERNEL_BASE) = unat pa + unat KERNEL_BASE"
    using assms by (intro unat_add64) (simp add: KERNEL_BASE_def)
  moreover have "unat (take_bit 48 x) = unat x mod 2 ^ 48" for x :: u64
    by (simp only: unsigned_take_bit_eq) (simp add: take_bit_eq_mod)
  ultimately have "unat (take_bit 48 (pa + KERNEL_BASE)) = (unat pa + unat KERNEL_BASE) mod 2 ^ 48" by (simp only:)
  also have "\<dots> = unat pa" using assms by (simp add: KERNEL_BASE_def mod_add_eq [symmetric])
  finally have "take_bit 48 (pa + KERNEL_BASE) = pa" by (simp add: word_unat_eq_iff)
  then show ?thesis by (simp only: va_page_def)
qed

lemma drop_bit12_inj:
  assumes "page_aligned x" "page_aligned y" "drop_bit 12 x = drop_bit 12 y"
  shows "x = y"
proof -
  have "unat x div 4096 = unat y div 4096"
    using arg_cong [OF assms(3), of unat] by (simp add: drop_bit_eq_div unat_div64)
  then show ?thesis using page_aligned_inj [OF assms(1,2)] by (simp add: frame_def)
qed

definition region_perms :: "'a mem_state_scheme \<Rightarrow> phy_addr \<Rightarrow> page_permissions_t" where
  "region_perms s pa =
     (if sym_addr s image_start \<le> pa \<and> pa < sym_addr s image_end then rwx_perms else rw_perms)"

definition in_region :: "memory_region_t \<Rightarrow> phy_addr \<Rightarrow> bool" where
  "in_region r x \<longleftrightarrow> page_aligned x \<and> base r \<le> x \<and> x < base r + memory_region_t.size r"

definition region_ok :: "memory_region_t \<Rightarrow> bool" where
  "region_ok r \<longleftrightarrow> page_aligned (base r) \<and> unat (base r) + unat (memory_region_t.size r) \<le> 2 ^ 48"

lemma in_region_bound: "region_ok r \<Longrightarrow> in_region r x \<Longrightarrow> unat x < 2 ^ 48"
proof -
  assume r: "region_ok r" and x: "in_region r x"
  have "unat (base r + memory_region_t.size r) = unat (base r) + unat (memory_region_t.size r)"
    using r by (intro unat_add64) (simp add: region_ok_def)
  then show ?thesis using r x by (simp add: region_ok_def in_region_def word_less_nat_alt)
qed

lemma aligned_high:
  assumes "page_aligned x" "unat x < 2 ^ 48"
  shows "page_aligned (x + KERNEL_BASE)"
proof -
  have "unat (x + KERNEL_BASE) = unat x + unat KERNEL_BASE"
    using assms(2) by (intro unat_add64) (simp add: KERNEL_BASE_def)
  then show ?thesis using assms(1) by (simp add: page_aligned_def KERNEL_BASE_def mod_add_eq [symmetric])
qed

lemma map_mem_region_effect:
  assumes ok: "pt_ok s root" and rok: "region_ok r"
  shows "\<exists>b s'. map_mem_region r (pa_to_va s root) s = Some (b, s')
    \<and> (b \<longrightarrow> pt_ok s' root \<and> s' = s\<lparr>mem := mem s'\<rparr>
         \<and> (\<forall>x. in_region r x \<longrightarrow>
              translate (mem s') root (x + KERNEL_BASE) = Leaf 3 (leaf_desc x (region_perms s x) NORMAL))
         \<and> (\<forall>w. (\<forall>x. in_region r x \<longrightarrow> va_page w \<noteq> drop_bit 12 x) \<longrightarrow>
              translate (mem s') root w = translate (mem s) root w)
         \<and> (\<forall>a. foreign s root a \<longrightarrow> foreign s' root a \<and> mem s' a = mem s a))
    \<and> (\<not> b \<longrightarrow> out_of_pages s s')"
proof -
  have al: "page_aligned (base r)" and lim: "unat (base r) + unat (memory_region_t.size r) \<le> 2 ^ 48"
    using rok by (simp_all add: region_ok_def)
  define e where "e = base r + memory_region_t.size r"
  have eu: "unat e = unat (base r) + unat (memory_region_t.size r)" unfolding e_def using lim by (intro unat_add64) simp
  have e64: "unat e + 4096 \<le> 2 ^ 64" using eu lim by simp
  let ?xs = "page_addrs (base r) e"
  have xs: "x \<in> set ?xs \<longleftrightarrow> in_region r x" for x
    using set_page_addrs [OF al e64, of x] by (simp add: in_region_def e_def)
  have rootok: "table_ok root" by (rule pt_tree_ok [OF pt_okD(2) [OF ok], of "[]"]) (simp_all add: is_path_def)
  have nz: "pa_to_va s root \<noteq> 0" by (rule pa_to_va_nonzero(2) [OF ok rootok, of 0]) simp
  have low: "unat x < 2 ^ 48" if "x \<in> set ?xs" for x using that eu lim by (auto simp: xs in_region_def word_less_nat_alt simp flip: e_def)
  let ?step = "\<lambda>cur. map_mem_region_step cur (pa_to_va s root)"
  have run: "map_mem_region r (pa_to_va s root) s = Some (run_steps ?step ?xs s)"
    using nz page_loop_runs [OF e64] by (simp add: map_mem_region_def e_def)
  obtain b s' where res: "run_steps ?step ?xs s = (b, s')" by fastforce
  have stp: "?step x t = map_page (pa_to_va s root) (x + KERNEL_BASE) x (region_perms s x) NORMAL t"
    if "t = s\<lparr>mem := mem t\<rparr>" for x t
    by (subst (1 2) that) (simp add: map_mem_region_step_def region_perms_def Let_def)
  have dist: "distinct (map (\<lambda>x. va_page (x + KERNEL_BASE)) ?xs)"
    using distinct_page_addrs [OF e64, of "base r"] xs low
    by (auto simp: distinct_map inj_on_def va_page_high in_region_def intro: drop_bit12_inj)
  have eff: "pt_ok s' root \<and> s' = s\<lparr>mem := mem s'\<rparr>
    \<and> (\<forall>x \<in> set ?xs. translate (mem s') root (x + KERNEL_BASE) = Leaf 3 (leaf_desc x (region_perms s x) NORMAL))
    \<and> (\<forall>w. va_page w \<notin> (\<lambda>x. va_page (x + KERNEL_BASE)) ` set ?xs \<longrightarrow> translate (mem s') root w = translate (mem s) root w)
    \<and> (\<forall>a. foreign s root a \<longrightarrow> foreign s' root a \<and> mem s' a = mem s a)" if b
    using that res dist
    by (intro run_map_pages [where step = ?step and pr = "region_perms s"] ok stp)
      (auto simp: region_perms_def rwx_perms_def rw_perms_def)
  have others: "translate (mem s') root w = translate (mem s) root w"
    if b "\<forall>x. in_region r x \<longrightarrow> va_page w \<noteq> drop_bit 12 x" for w
  proof -
    have "va_page w \<notin> (\<lambda>x. va_page (x + KERNEL_BASE)) ` set ?xs" using that(2) xs low va_page_high by force
    with eff [OF that(1)] show ?thesis by blast
  qed
  have no: "out_of_pages s s'" if "\<not> b"
  proof (rule run_map_pages_fail [OF ok _ stp])
    show "run_steps ?step ?xs s = (False, s')" using res that by simp
    show "page_aligned x \<and> page_aligned (x + KERNEL_BASE)" if "x \<in> set ?xs" for x
    proof -
      have "page_aligned x" using that unfolding xs in_region_def by (elim conjE)
      then show ?thesis using aligned_high [OF _ low [OF that]] by blast
    qed
  qed
  show ?thesis
  proof (intro exI conjI impI)
    show "map_mem_region r (pa_to_va s root) s = Some (b, s')" using run res by (simp only:)
    show "pt_ok s' root" if b using eff [OF that] by (elim conjE)
    show "s' = s\<lparr>mem := mem s'\<rparr>" if b using eff [OF that] by (elim conjE)
    show "\<forall>x. in_region r x \<longrightarrow>
        translate (mem s') root (x + KERNEL_BASE) = Leaf 3 (leaf_desc x (region_perms s x) NORMAL)" if b
      using eff [OF that] unfolding Ball_def xs by (elim conjE)
    show "\<forall>w. (\<forall>x. in_region r x \<longrightarrow> va_page w \<noteq> drop_bit 12 x) \<longrightarrow>
        translate (mem s') root w = translate (mem s) root w" if b using others [OF that] by blast
    show "\<forall>a. foreign s root a \<longrightarrow> foreign s' root a \<and> mem s' a = mem s a" if b using eff [OF that] by (elim conjE)
  qed (rule no)
qed

text \<open>
  \<^verbatim>\<open>map_mem_region\<close> for a region with a page-aligned base below the 48-bit limit: the loop returns,
  and when it reports success every page of the region is mapped at its higher-half address,
  executable exactly inside the kernel image, every page outside the region translates as
  before, and nobody's memory is touched.
\<close>

theorem map_mem_region_correct:
  assumes "pt_ok s root" and "region_ok r"
  shows "\<exists>b s'. map_mem_region r (pa_to_va s root) s = Some (b, s')
    \<and> (b \<longrightarrow> pt_ok s' root \<and> s' = s\<lparr>mem := mem s'\<rparr>
         \<and> (\<forall>x. in_region r x \<longrightarrow>
              translate (mem s') root (x + KERNEL_BASE) = Leaf 3 (leaf_desc x (region_perms s x) NORMAL))
         \<and> (\<forall>w. (\<forall>x. in_region r x \<longrightarrow> va_page w \<noteq> drop_bit 12 x) \<longrightarrow>
              translate (mem s') root w = translate (mem s) root w)
         \<and> (\<forall>a. foreign s root a \<longrightarrow> mem s' a = mem s a))"
  using map_mem_region_effect [OF assms] by blast

section \<open>The kernel map\<close>

lemma region_perms_mem [simp]: "region_perms (s\<lparr>mem := m\<rparr>) = region_perms s"
  by (simp add: region_perms_def fun_eq_iff)

lemma map_regions_effect:
  assumes "pt_ok s root" "\<forall>r \<in> set rs. region_ok r"
  shows "\<exists>b s'. map_regions rs (pa_to_va s root) s = Some (b, s')
    \<and> (b \<longrightarrow> pt_ok s' root \<and> s' = s\<lparr>mem := mem s'\<rparr>
         \<and> (\<forall>r \<in> set rs. \<forall>x. in_region r x \<longrightarrow>
              translate (mem s') root (x + KERNEL_BASE) = Leaf 3 (leaf_desc x (region_perms s x) NORMAL))
         \<and> (\<forall>w. (\<forall>r \<in> set rs. \<forall>x. in_region r x \<longrightarrow> va_page w \<noteq> drop_bit 12 x) \<longrightarrow>
              translate (mem s') root w = translate (mem s) root w)
         \<and> (\<forall>a. foreign s root a \<longrightarrow> foreign s' root a \<and> mem s' a = mem s a))
    \<and> (\<not> b \<longrightarrow> out_of_pages s s')"
  using assms
proof (induction rs arbitrary: s)
  case (Cons r rs)
  obtain b s1 where r: "map_mem_region r (pa_to_va s root) s = Some (b, s1)"
    and eff: "b \<Longrightarrow> pt_ok s1 root" "b \<Longrightarrow> s1 = s\<lparr>mem := mem s1\<rparr>"
      "\<And>x. b \<Longrightarrow> in_region r x \<Longrightarrow> translate (mem s1) root (x + KERNEL_BASE) = Leaf 3 (leaf_desc x (region_perms s x) NORMAL)"
      "\<And>w. b \<Longrightarrow> (\<And>x. in_region r x \<Longrightarrow> va_page w \<noteq> drop_bit 12 x) \<Longrightarrow> translate (mem s1) root w = translate (mem s) root w"
      "\<And>a. b \<Longrightarrow> foreign s root a \<Longrightarrow> foreign s1 root a \<and> mem s1 a = mem s a"
      "\<not> b \<Longrightarrow> out_of_pages s s1"
    using map_mem_region_effect [OF Cons.prems(1), of r] Cons.prems(2) by auto
  show ?case
  proof (cases b)
    case True
    have pv: "pa_to_va s1 = pa_to_va s" by (subst eff(2) [OF True]) simp
    have pr: "region_perms s1 = region_perms s" by (subst eff(2) [OF True]) simp
    from Cons.IH [OF eff(1) [OF True]] Cons.prems(2) obtain b' s' where
      r': "map_regions rs (pa_to_va s root) s1 = Some (b', s')"
      and eff': "b' \<Longrightarrow> pt_ok s' root" "b' \<Longrightarrow> s' = s1\<lparr>mem := mem s'\<rparr>"
      "\<And>r x. b' \<Longrightarrow> r \<in> set rs \<Longrightarrow> in_region r x \<Longrightarrow>
         translate (mem s') root (x + KERNEL_BASE) = Leaf 3 (leaf_desc x (region_perms s x) NORMAL)"
      "\<And>w. b' \<Longrightarrow> (\<And>r x. r \<in> set rs \<Longrightarrow> in_region r x \<Longrightarrow> va_page w \<noteq> drop_bit 12 x) \<Longrightarrow>
         translate (mem s') root w = translate (mem s1) root w"
      "\<And>a. b' \<Longrightarrow> foreign s1 root a \<Longrightarrow> foreign s' root a \<and> mem s' a = mem s1 a"
      "\<not> b' \<Longrightarrow> out_of_pages s1 s'"
      by (auto simp: pv pr)
    have "s' = s\<lparr>mem := mem s'\<rparr>" if b' using eff'(2) [OF that] by (subst (asm) eff(2) [OF True]) simp
    moreover have "translate (mem s') root (x + KERNEL_BASE) = Leaf 3 (leaf_desc x (region_perms s x) NORMAL)"
      if b' "in_region r x" for x
    proof (cases "\<exists>q y. q \<in> set rs \<and> in_region q y \<and> va_page (x + KERNEL_BASE) = drop_bit 12 y")
      case False
      then show ?thesis using eff'(4) [OF that(1), of "x + KERNEL_BASE"] eff(3) [OF True that(2)] by metis
    next
      case True
      then obtain q y where q: "q \<in> set rs" "in_region q y" "va_page (x + KERNEL_BASE) = drop_bit 12 y" by blast
      have "unat x < 2 ^ 48" using that(2) Cons.prems(2) in_region_bound by (metis list.set_intros(1))
      then have "x = y" using q(2,3) that(2) by (auto simp: va_page_high in_region_def intro: drop_bit12_inj)
      with eff'(3) [OF that(1) q(1,2)] show ?thesis by simp
    qed
    moreover have "translate (mem s') root w = translate (mem s) root w"
      if b' "\<forall>r \<in> set (r # rs). \<forall>x. in_region r x \<longrightarrow> va_page w \<noteq> drop_bit 12 x" for w
      using eff(4) [OF True, of w] eff'(4) [OF that(1), of w] that(2) by simp
    moreover have "foreign s' root a \<and> mem s' a = mem s a" if b' "foreign s root a" for a
      using eff(5) [OF True that(2)] eff'(5) [OF that(1)] by simp
    moreover have "out_of_pages s s'" if "\<not> b'" by (rule out_of_pages_after [OF eff'(6) [OF that] eff(2) [OF True]])
    ultimately show ?thesis using r r' True eff'(1,3) by auto
  next
    case False
    with r have "map_regions (r # rs) (pa_to_va s root) s = Some (False, s1)" by simp
    with eff(6) [OF False] show ?thesis by blast
  qed
qed auto

text \<open>A table of zeros is a tree of its own, in which every walk faults.\<close>

lemma pt_ok_zero_root:
  assumes inv: "alloc_inv s" and root: "table_ok root" and nb: "\<not> is_bitmap_frame s (frame root)"
    and us: "frame_managed s (frame root) \<longrightarrow> frame_used s (frame root)"
    and lim: "\<forall>i \<in> inits s. \<forall>f \<in> chunk_frames (mem_chunks s ! i). f < 2 ^ 36"
    and kb: "kernel_base_va s = 0 \<or> kernel_base_va s = KERNEL_BASE"
    and z: "\<And>x. frame x = frame root \<Longrightarrow> mem s x = 0"
  shows "pt_ok s root" "translate (mem s) root w = Fault" "table_frames (mem s) root = {frame root}"
proof -
  have zero: "load64 (mem s) (root + 8 * j) = 0" if "j < 512" for j
  proof -
    have "load64 (mem s) (root + 8 * j) = load64 (\<lambda>_. 0) (root + 8 * j)"
      by (rule load_entry_cong) (use root that z in \<open>simp_all add: table_ok_def\<close>)
    then show ?thesis by (simp add: load64_zero)
  qed
  have only: "p = [] \<and> t = root" if "is_path p" "table_at (mem s) root p = Some t" for p t
    using that zero by (cases p) (auto simp: is_path_def Let_def)
  have tree: "pt_tree (mem s) root"
    using only zero root by (intro pt_treeI) (blast, blast, force)
  show frs: "table_frames (mem s) root = {frame root}"
    using only by (auto simp: table_frames_def is_path_def intro!: exI [of _ "[]"])
  show "pt_ok s root" using tree nb us lim kb inv frs by (simp add: pt_ok_def)
  show "translate (mem s) root w = Fault"
  proof (cases "table_at (mem s) root (va_path w)")
    case None
    then show ?thesis using translate_leaf [OF tree, of w] by (simp add: leaf_at_def)
  next
    case (Some t)
    then show ?thesis using only [OF va_path_ok(1) Some] va_path_ok(2) [of w] by simp
  qed
qed

lemma pt_ok_cleared_root:
  assumes inv: "alloc_inv s" and root: "table_ok root" and nb: "\<not> is_bitmap_frame s (frame root)"
    and us: "frame_managed s (frame root) \<longrightarrow> frame_used s (frame root)"
    and lim: "\<forall>i \<in> inits s. \<forall>f \<in> chunk_frames (mem_chunks s ! i). f < 2 ^ 36"
    and kb: "kernel_base_va s = 0 \<or> kernel_base_va s = KERNEL_BASE"
    and s': "s' = page_table_init (pa_to_va s root) s"
  shows "pt_ok s' root" "translate (mem s') root w = Fault" "s' = s\<lparr>mem := mem s'\<rparr>"
    "frame_used s' = frame_used s" "table_frames (mem s') root = {frame root}"
    "\<And>x. frame x \<noteq> frame root \<Longrightarrow> mem s' x = mem s x"
proof -
  define m where "m = (\<lambda>a. if frame a = frame root then 0 else mem s a)"
  have m: "s' = s\<lparr>mem := m\<rparr>" using page_table_init_mem [of root s] root by (simp add: s' m_def table_ok_def)
  then show "s' = s\<lparr>mem := mem s'\<rparr>" by simp
  have "m x = mem s x" if "is_bitmap_frame s (frame x)" for x using that nb by (auto simp: m_def)
  note view = alloc_view_mem_upd [OF inv this]
  show u: "frame_used s' = frame_used s" using view(1) by (simp add: m)
  have "alloc_inv s'" "\<not> is_bitmap_frame s' (frame root)" "frame_managed s' (frame root) \<longrightarrow> frame_used s' (frame root)"
    "\<forall>i \<in> inits s'. \<forall>f \<in> chunk_frames (mem_chunks s' ! i). f < 2 ^ 36"
    "kernel_base_va s' = 0 \<or> kernel_base_va s' = KERNEL_BASE"
    using view nb us lim kb u by (simp_all add: m)
  note zr = pt_ok_zero_root [OF this(1) root this(2-5)]
  show "pt_ok s' root" "translate (mem s') root w = Fault" "table_frames (mem s') root = {frame root}"
    by (rule zr, simp add: m m_def)+
  show "mem s' x = mem s x" if "frame x \<noteq> frame root" for x using that by (simp add: m m_def)
qed

lemma setup_kernel_map_run:
  assumes inv: "alloc_inv s" and low: "kernel_base_va s = 0" "pc_base s = 0"
    and root: "root = kernel_pg_dir_root_start (syms s)" "table_ok root" "\<not> is_bitmap_frame s (frame root)"
      "frame_managed s (frame root) \<longrightarrow> frame_used s (frame root)"
    and lim: "\<forall>i \<in> inits s. \<forall>f \<in> chunk_frames (mem_chunks s ! i). f < 2 ^ 36"
    and mm: "count mm = int (length (regions mm))" "regions mm \<noteq> []" "\<forall>r \<in> set (regions mm). region_ok r"
  shows "\<exists>b s'. setup_kernel_map (Some mm) s = Some (b, s')
    \<and> (b \<longrightarrow> pt_ok s' root
         \<and> (\<forall>r \<in> set (regions mm). \<forall>x. in_region r x \<longrightarrow>
              translate (mem s') root (x + KERNEL_BASE) = Leaf 3 (leaf_desc x (region_perms s x) NORMAL))
         \<and> (\<forall>w. (\<forall>r \<in> set (regions mm). \<forall>x. in_region r x \<longrightarrow> va_page w \<noteq> drop_bit 12 x) \<longrightarrow>
              translate (mem s') root w = Fault)
         \<and> s' = s\<lparr>mem := mem s'\<rparr>
         \<and> (\<forall>a. frame a \<noteq> frame root \<and> \<not> is_bitmap_frame s (frame a) \<and> (frame_managed s (frame a) \<longrightarrow> frame_used s (frame a)) \<longrightarrow>
              mem s' a = mem s a \<and> foreign s' root a))
    \<and> (\<not> b \<longrightarrow> out_of_pages s s')"
proof -
  have rt: "get_kernel_map_root s = pa_to_va s root"
    using low root(1) by (simp add: get_kernel_map_root_def sym_addr_def pa_to_va_def)
  define s1 where "s1 = page_table_init (pa_to_va s root) s"
  have kb: "kernel_base_va s = 0 \<or> kernel_base_va s = KERNEL_BASE" using low by simp
  note cl = pt_ok_cleared_root [OF inv root(2-4) lim kb s1_def]
  have pv: "pa_to_va s1 = pa_to_va s" "region_perms s1 = region_perms s" by (subst cl(3), simp)+
  have run: "setup_kernel_map (Some mm) s = map_regions (regions mm) (pa_to_va s root) s1"
    using mm(1,2) by (simp add: setup_kernel_map_def rt s1_def Let_def)
  obtain b s' where r: "map_regions (regions mm) (pa_to_va s root) s1 = Some (b, s')"
    and ok: "b \<Longrightarrow> pt_ok s' root \<and> s' = s1\<lparr>mem := mem s'\<rparr>
       \<and> (\<forall>r \<in> set (regions mm). \<forall>x. in_region r x \<longrightarrow>
            translate (mem s') root (x + KERNEL_BASE) = Leaf 3 (leaf_desc x (region_perms s x) NORMAL))
       \<and> (\<forall>w. (\<forall>r \<in> set (regions mm). \<forall>x. in_region r x \<longrightarrow> va_page w \<noteq> drop_bit 12 x) \<longrightarrow>
            translate (mem s') root w = translate (mem s1) root w)
       \<and> (\<forall>a. foreign s1 root a \<longrightarrow> foreign s' root a \<and> mem s' a = mem s1 a)"
    and no: "\<not> b \<Longrightarrow> out_of_pages s1 s'"
    using map_regions_effect [OF cl(1) mm(3)] unfolding pv by blast
  have frame: "mem s' a = mem s a \<and> foreign s' root a"
    if b "frame a \<noteq> frame root" "\<not> is_bitmap_frame s (frame a)" "frame_managed s (frame a) \<longrightarrow> frame_used s (frame a)" for a
  proof -
    have "is_bitmap_frame s1 = is_bitmap_frame s" "frame_managed s1 = frame_managed s" by (subst cl(3), simp)+
    then have "foreign s1 root a" using that cl(4,5) by (simp add: foreign_def)
    then show ?thesis using ok [OF that(1)] cl(6) [OF that(2)] by auto
  qed
  have upd: "s' = s\<lparr>mem := mem s'\<rparr>" if b
  proof -
    have "s1\<lparr>mem := m\<rparr> = s\<lparr>mem := m\<rparr>" for m by (subst cl(3)) simp
    with ok [OF that] show ?thesis by simp
  qed
  show ?thesis
  proof (intro exI conjI impI)
    show "setup_kernel_map (Some mm) s = Some (b, s')" using run r by (simp only:)
    show "pt_ok s' root" if b using ok [OF that] by (elim conjE)
    show "\<forall>r \<in> set (regions mm). \<forall>x. in_region r x \<longrightarrow>
        translate (mem s') root (x + KERNEL_BASE) = Leaf 3 (leaf_desc x (region_perms s x) NORMAL)" if b
      using ok [OF that] by (elim conjE)
    show "\<forall>w. (\<forall>r \<in> set (regions mm). \<forall>x. in_region r x \<longrightarrow> va_page w \<noteq> drop_bit 12 x) \<longrightarrow>
        translate (mem s') root w = Fault" if b
      using ok [OF that] unfolding cl(2) by (elim conjE)
    show "s' = s\<lparr>mem := mem s'\<rparr>" if b by (rule upd [OF that])
    show "\<forall>a. frame a \<noteq> frame root \<and> \<not> is_bitmap_frame s (frame a)
        \<and> (frame_managed s (frame a) \<longrightarrow> frame_used s (frame a)) \<longrightarrow> mem s' a = mem s a \<and> foreign s' root a" if b
      using frame [OF that] by blast
  qed (rule out_of_pages_after [OF no cl(3)])
qed

text \<open>
  C11. \<^verbatim>\<open>setup_kernel_map\<close> at boot (before the switch to high addresses): it returns, and when it
  reports success exactly the pages of the given memory map are mapped, each at its
  higher-half address to its own frame, executable exactly inside the kernel image; every
  other address faults, and allocator and tables are consistent.
\<close>

theorem setup_kernel_map_correct:
  assumes inv: "alloc_inv s" and low: "kernel_base_va s = 0" "pc_base s = 0"
    and root: "root = kernel_pg_dir_root_start (syms s)" "table_ok root" "\<not> is_bitmap_frame s (frame root)"
      "frame_managed s (frame root) \<longrightarrow> frame_used s (frame root)"
    and lim: "\<forall>i \<in> inits s. \<forall>f \<in> chunk_frames (mem_chunks s ! i). f < 2 ^ 36"
    and mm: "count mm = int (length (regions mm))" "regions mm \<noteq> []" "\<forall>r \<in> set (regions mm). region_ok r"
  shows "\<exists>b s'. setup_kernel_map (Some mm) s = Some (b, s')
    \<and> (b \<longrightarrow> pt_ok s' root
         \<and> (\<forall>r \<in> set (regions mm). \<forall>x. in_region r x \<longrightarrow>
              translate (mem s') root (x + KERNEL_BASE) = Leaf 3 (leaf_desc x (region_perms s x) NORMAL))
         \<and> (\<forall>w. (\<forall>r \<in> set (regions mm). \<forall>x. in_region r x \<longrightarrow> va_page w \<noteq> drop_bit 12 x) \<longrightarrow>
              translate (mem s') root w = Fault))"
  using setup_kernel_map_run [OF assms] by blast

end
