(* ===== verification/Page_Allocator_Demo.thy ===== *)
theory Page_Allocator_Demo
  imports Page_Allocator_Client
begin

text \<open>
  A concrete allocator state, four pages of RAM at \<open>0x40000000\<close> with the bitmap in the first
  one, on which the theorems about the page allocator are applied.
\<close>

definition demo_syms :: linker_symbols where
  "demo_syms = \<lparr>image_start = 0x40080000, image_end = 0x40100000,
     idmap_pg_dir_bitmap_start = 0x40200000, idmap_pg_dir_start = 0x40201000,
     kernel_pg_dir_root_start = 0x40202000\<rparr>"

definition no_chunk :: memory_chunk_t where
  "no_chunk = \<lparr>bitmap = 0, total_pages = 0, mem_base = 0, initialized = False\<rparr>"

definition demo_chunk :: memory_chunk_t where
  "demo_chunk = \<lparr>bitmap = 0x40000000, total_pages = 4, mem_base = 0x40000000, initialized = True\<rparr>"

definition demo_state :: alloc_state where
  "demo_state = \<lparr>mem = (\<lambda>_. 0)(0x40000000 := 1), kernel_base_va = 0, pc_base = 0, syms = demo_syms,
     mem_chunks = demo_chunk # replicate 9 no_chunk\<rparr>"

lemma demo_inits: "inits demo_state = {0}"
  by (auto simp: inits_def demo_state_def demo_chunk_def no_chunk_def nth_Cons' split: if_splits)

lemma demo_nth: "mem_chunks demo_state ! 0 = demo_chunk"
  by (simp add: demo_state_def)

lemma demo_frames: "chunk_frames demo_chunk = {0x40000 ..< 0x40004}"
  and demo_bitmap_frames: "bitmap_frames demo_chunk = {0x40000 ..< 0x40001}"
  by (simp_all add: chunk_frames_def bitmap_frames_def bitmap_page_count_def demo_chunk_def frame_def)

lemma demo_used: "k < 8 \<Longrightarrow> page_used demo_chunk k demo_state \<longleftrightarrow> k = 0"
  by (simp add: page_used_def demo_chunk_def demo_state_def va_to_pa_def bit_1_iff)

lemma demo_inv: "alloc_inv demo_state"
proof -
  have "chunk_shape demo_chunk demo_state"
    by (simp add: chunk_shape_def demo_chunk_def demo_state_def page_aligned_def pa_to_va_def)
  moreover have "bitmap_marked demo_chunk demo_state"
    using demo_used [of 0] by (simp add: bitmap_marked_def bitmap_page_count_def demo_chunk_def)
  ultimately show ?thesis
    by (simp add: alloc_inv_def demo_inits demo_nth) (simp add: demo_state_def MAX_MEM_CHUNKS_def)
qed

lemma demo_alloc: "page_alloc 2 demo_state = (0x40001000, snd (page_alloc 2 demo_state))"
proof -
  have "fst (page_alloc 2 demo_state) = 0x40001000" by code_simp
  then show ?thesis by (metis prod.collapse)
qed

theorem page_alloc_sound_witness:
  "alloc_inv (snd (page_alloc 2 demo_state)) \<and> page_aligned 0x40001000
    \<and> \<not> frame_used demo_state 0x40002 \<and> frame_used (snd (page_alloc 2 demo_state)) 0x40002"
proof -
  have "0x40002 \<in> block_frames 0x40001000 2" by (simp add: block_frames_def frame_def)
  with page_alloc_sound [OF demo_inv demo_alloc] show ?thesis by (simp add: PHYS_ADDR_NULL_def)
qed

theorem page_alloc_complete_witness: "fst (page_alloc 4 demo_state) = PHYS_ADDR_NULL
    \<and> snd (page_alloc 4 demo_state) = demo_state"
proof -
  have "fst (page_alloc 4 demo_state) = PHYS_ADDR_NULL" by code_simp
  with page_alloc_complete [OF demo_inv, of 4] show ?thesis by simp
qed

theorem page_free_effect_witness:
  "\<not> frame_used (page_free 0x40002000 8 demo_state) 0x40003
    \<and> page_free 0x50000000 1 demo_state = demo_state"
proof
  have "frame 0x40002000 = 0x40002" "frame 0x50000000 = 0x50000" by (simp_all add: frame_def)
  then show "\<not> frame_used (page_free 0x40002000 8 demo_state) 0x40003"
    and "page_free 0x50000000 1 demo_state = demo_state"
    using page_free_effect [OF demo_inv, of "0x40002000" 8] page_free_effect [OF demo_inv, of "0x50000000" 1]
    by (simp_all add: demo_inits demo_nth demo_frames frame_managed_def block_frames_def)
qed

theorem page_alloc_free_roundtrip_witness:
  "page_free 0x40001000 2 (snd (page_alloc 2 demo_state)) = demo_state"
  by (rule page_alloc_free_roundtrip [OF demo_inv demo_alloc]) (simp add: PHYS_ADDR_NULL_def)

theorem reserve_page_effect_witness:
  "fst (reserve_page 0x40002000 2 demo_state) \<and> frame_used (snd (reserve_page 0x40002000 2 demo_state)) 0x40003"
proof -
  have ok: "fst (reserve_page 0x40002000 2 demo_state)" by code_simp
  have "reserve_page 0x40002000 2 demo_state = (True, snd (reserve_page 0x40002000 2 demo_state))"
    using ok by (metis (full_types) prod.collapse)
  from reserve_page_effect [OF demo_inv _ this] ok show ?thesis by (simp add: block_frames_def frame_def)
qed

theorem no_double_allocation_witness:
  "pairwise_apart (snd (client_run page_alloc page_free [Take 1, Take 1, Give 0, Take 2] demo_state))"
proof -
  obtain s' live where r: "client_run page_alloc page_free [Take 1, Take 1, Give 0, Take 2] demo_state = (s', live)"
    by (cases "client_run page_alloc page_free [Take 1, Take 1, Give 0, Take 2] demo_state")
  from page_allocator_no_double_allocation [OF demo_inv r] r show ?thesis by simp
qed

theorem reserve_page_wraps_witness: "fst (reserve_page 0x40002000 (2 ^ 52) demo_state)"
proof -
  have "frame_managed demo_state (frame 0x40002000)"
    by (simp add: frame_managed_def demo_inits demo_nth demo_frames frame_def)
  from reserve_page_wraps [OF demo_inv this] show ?thesis by blast
qed

theorem page_free_wraps_witness:
  "page_free 0x40002000 0xFFFFFFFFFFFFFFFF demo_state = demo_state"
  by (rule page_free_wraps [OF demo_inv, of 0])
    (simp_all add: demo_inits demo_nth demo_frames frame_def, simp add: demo_chunk_def)

theorem fixup_page_allocator_high_half_witness:
  "alloc_inv (fixup_page_allocator (update_kernel_base_va demo_state))"
proof -
  have "kernel_base_va demo_state = 0" by (simp add: demo_state_def)
  moreover have "\<forall>i \<in> inits demo_state. unat (mem_base (mem_chunks demo_state ! i)) < 2 ^ 48"
    by (simp add: demo_inits demo_nth) (simp add: demo_chunk_def)
  ultimately show ?thesis using fixup_page_allocator_high_half [OF demo_inv _ _ refl] by blast
qed

section \<open>Regions\<close>

text \<open>Nine free slots remain; the region \<open>0x50000800 .. 0x50005000\<close> has four whole pages.\<close>

lemma demo_slot: "find_region_slot_from (mem_chunks demo_state) 0 0x50000800 = Some 1"
  by code_simp

lemma demo_region_base: "region_base 0x50000800 = 0x50001000"
  by (simp add: region_base_def PAGE_SIZE_def)

theorem page_allocator_add_region_ok_witness:
  "alloc_inv (snd (page_allocator_add_region 0x50000800 0x4800 False demo_state))
    \<and> inits (snd (page_allocator_add_region 0x50000800 0x4800 False demo_state)) = {0, 1}"
proof -
  have "region_fits 0x50000800 0x4800" by (simp add: region_fits_def)
  from page_allocator_add_region_ok [OF demo_inv demo_slot this, of False] show ?thesis
    by (auto simp: demo_region_base demo_inits demo_nth demo_frames)
      (auto simp: demo_state_def pa_to_va_def)
qed

theorem page_allocator_add_region_refused_witness:
  "\<exists>s'. page_allocator_add_region 0x50000800 0x900 False demo_state = (False, s') \<and> alloc_inv s' \<and> mem s' = mem demo_state"
proof -
  obtain ok s' where r: "page_allocator_add_region 0x50000800 0x900 False demo_state = (ok, s')" by fastforce
  note t = page_allocator_add_region_refused [OF demo_inv r]
  have "\<not> region_fits 0x50000800 0x900" by (simp add: region_fits_def)
  moreover have b: "region_base 0x50000800 \<noteq> 0" "pa_to_va demo_state (region_base 0x50000800) \<noteq> 0"
    by (simp_all add: demo_region_base demo_state_def pa_to_va_def)
  ultimately have "\<not> ok" using t by simp
  moreover from this have "zeroed_bytes 0x50000800 0x900 False demo_state = {}" using t b by auto
  moreover from calculation have "mem s' = mem demo_state" using t by auto
  ultimately show ?thesis using r t by auto
qed

text \<open>A refusal that zeroes memory: a region at physical address 0.\<close>

lemma refused_at_zero:
  "\<not> fst (page_allocator_add_region 0 0x2000 False demo_state)" "0 \<in> zeroed_bytes 0 0x2000 False demo_state"
proof -
  show "\<not> fst (page_allocator_add_region 0 0x2000 False demo_state)" by code_simp
  have "find_region_slot_from (mem_chunks demo_state) 0 0 = Some 1" by code_simp
  moreover have "region_base 0 = 0" "region_pages 0 0x2000 = 2" by code_simp+
  ultimately show "0 \<in> zeroed_bytes 0 0x2000 False demo_state" by (simp add: zeroed_bytes_def)
qed

theorem page_allocator_remove_region_effect_witness:
  "inits (snd (page_allocator_remove_region 0x40000000 demo_state)) = {}"
proof -
  have ok: "fst (page_allocator_remove_region 0x40000000 demo_state)" by code_simp
  then have "page_allocator_remove_region 0x40000000 demo_state
      = (True, snd (page_allocator_remove_region 0x40000000 demo_state))"
    by (metis (full_types) prod.collapse)
  from page_allocator_remove_region_effect [OF demo_inv this]
  have "inits (snd (page_allocator_remove_region 0x40000000 demo_state))
      = {i \<in> {0}. mem_base (mem_chunks demo_state ! i) \<noteq> 0x40000000}" by (simp only: demo_inits)
  moreover have "mem_base (mem_chunks demo_state ! 0) = 0x40000000" by (simp add: demo_nth) (simp add: demo_chunk_def)
  then have "{i \<in> {0}. mem_base (mem_chunks demo_state ! i) \<noteq> 0x40000000} = {}" by blast
  ultimately show ?thesis by (simp only:)
qed

end
