(* ===== verification/Page_Table_Demo.thy ===== *)
theory Page_Table_Demo
  imports Page_Table_Maps Page_Allocator_Demo
begin

text \<open>
  The page-table theorems at work: the kernel's root table at \<open>0x40202000\<close>, cleared in the
  state of \<^verbatim>\<open>Page_Allocator_Demo\<close>, whose three free pages hold the tables of one mapping.
\<close>

definition demo_root :: phy_addr where
  "demo_root = 0x40202000"

definition demo_pt :: alloc_state where
  "demo_pt = page_table_init (pa_to_va demo_state demo_root) demo_state"

lemma demo_kernel_base: "kernel_base_va demo_state = 0" "pc_base demo_state = 0"
    "kernel_pg_dir_root_start (syms demo_state) = demo_root"
  by (simp_all add: demo_state_def demo_syms_def demo_root_def)

lemma demo_root_ok: "table_ok demo_root" "\<not> is_bitmap_frame demo_state (frame demo_root)"
    "\<not> frame_managed demo_state (frame demo_root)"
  by (simp_all add: demo_root_def table_ok_def page_aligned_def is_bitmap_frame_def frame_managed_def
      demo_inits demo_nth demo_frames demo_bitmap_frames frame_def)

lemma demo_limit: "\<forall>i \<in> inits demo_state. \<forall>f \<in> chunk_frames (mem_chunks demo_state ! i). f < 2 ^ 36"
  by (simp add: demo_inits demo_nth demo_frames)

lemma demo_pt_ok: "pt_ok demo_pt demo_root" "frame_used demo_pt = frame_used demo_state"
    "demo_pt = demo_state\<lparr>mem := mem demo_pt\<rparr>"
  using pt_ok_cleared_root [OF demo_inv demo_root_ok(1,2) _ demo_limit _ demo_pt_def] demo_root_ok(3) demo_kernel_base(1)
  by simp_all

lemma demo_free: "free_frames demo_pt = {0x40001, 0x40002, 0x40003}"
proof -
  have m1: "frame_managed demo_pt = frame_managed demo_state" by (subst demo_pt_ok(3)) simp
  have us: "frame_used demo_state f \<longleftrightarrow> f = 0x40000" if "f \<in> {0x40000 ..< 0x40004}" for f
    using frame_used_chunk [OF demo_inv, of 0 f] that demo_used [of "f - 0x40000"]
    by (auto simp: demo_inits demo_nth demo_frames) (auto simp: demo_chunk_def frame_def)
  have m2: "frame_managed demo_state f \<longleftrightarrow> f \<in> {0x40000 ..< 0x40004}" for f
    by (simp add: frame_managed_def demo_inits demo_nth demo_frames)
  have "f \<in> free_frames demo_pt \<longleftrightarrow> f \<in> {0x40001, 0x40002, 0x40003}" for f
  proof -
    have "f \<in> free_frames demo_pt \<longleftrightarrow> f \<in> {0x40000 ..< 0x40004} \<and> \<not> frame_used demo_state f"
      by (simp only: free_frames_def demo_pt_ok(2) m1 m2 mem_Collect_eq)
    also have "\<dots> \<longleftrightarrow> f \<in> {0x40000 ..< 0x40004} \<and> f \<noteq> 0x40000" using us [of f] by metis
    also have "\<dots> \<longleftrightarrow> f \<in> {0x40001, 0x40002, 0x40003}" by simp presburger
    finally show ?thesis .
  qed
  then show ?thesis by (rule set_eqI)
qed

theorem map_page_correct_witness:
  "\<exists>s'. map_page (pa_to_va demo_pt demo_root) 0x7000 0x40000000 rw_perms NORMAL demo_pt = (True, s')
    \<and> translate (mem s') demo_root 0x7000 = Leaf 3 (leaf_desc 0x40000000 rw_perms NORMAL)"
proof -
  have "fst (map_page (pa_to_va demo_pt demo_root) 0x7000 0x40000000 rw_perms NORMAL demo_pt)"
    by (rule map_page_succeeds [OF demo_pt_ok(1)]) (simp_all add: page_aligned_def demo_free)
  then obtain s' where r: "map_page (pa_to_va demo_pt demo_root) 0x7000 0x40000000 rw_perms NORMAL demo_pt = (True, s')"
    by (metis (full_types) prod.collapse)
  from map_page_correct [OF demo_pt_ok(1) r] r show ?thesis by (simp add: rw_perms_def)
qed

theorem map_page_failure_witness:
  "fst (map_page (pa_to_va demo_pt demo_root) 0x7008 0x40000000 rw_perms NORMAL demo_pt) = False
    \<and> snd (map_page (pa_to_va demo_pt demo_root) 0x7008 0x40000000 rw_perms NORMAL demo_pt) = demo_pt"
proof -
  have "\<not> page_aligned 0x7008" by (simp add: page_aligned_def)
  then have r: "map_page (pa_to_va demo_pt demo_root) 0x7008 0x40000000 rw_perms NORMAL demo_pt = (False, demo_pt)"
    by (simp add: map_page_unaligned)
  from map_page_failure [OF demo_pt_ok(1) r] r show ?thesis by simp
qed

definition demo_region :: memory_region_t where
  "demo_region = \<lparr>base = 0x40000000, size = 0x2000\<rparr>"

lemma demo_region_ok: "region_ok demo_region"
  by (simp add: region_ok_def demo_region_def page_aligned_def)

theorem map_mem_region_correct_witness:
  "\<exists>b s'. map_mem_region demo_region (pa_to_va demo_pt demo_root) demo_pt = Some (b, s')"
  using map_mem_region_correct [OF demo_pt_ok(1) demo_region_ok] by blast

theorem setup_kernel_map_correct_witness:
  "\<exists>b s'. setup_kernel_map (Some \<lparr>regions = [demo_region], count = 1\<rparr>) demo_state = Some (b, s')"
  using setup_kernel_map_correct [OF demo_inv demo_kernel_base(1,2) demo_kernel_base(3) [symmetric] demo_root_ok(1,2) _ demo_limit,
      of "\<lparr>regions = [demo_region], count = 1\<rparr>"] demo_root_ok(3) demo_region_ok by auto

theorem table_descriptor_roundtrip_witness:
  "get_page_table_entry_address (set_next_level_table 0x40003000) = 0x40003000"
  using table_descriptor_roundtrip [of "0x40003000" rw_perms] by (simp add: page_aligned_def)

theorem write_page_desc_rights_witness:
  "leaf_output (load_u64 (write_page_desc 0x40002000 0x40003000 rwx_perms NORMAL demo_state) 0x40002000) = 0x40003000
    \<and> el0_can_execute (load_u64 (write_page_desc 0x40002000 0x40003000 rwx_perms NORMAL demo_state) 0x40002000)"
  using write_page_desc_rights [OF _ _ _ refl, of "0x40002000" "0x40003000" rwx_perms NORMAL demo_state]
  by (simp add: page_aligned_def rwx_perms_def)

end
