(* ===== verification/Kstring.thy ===== *)
theory Kstring
  imports Mem_Layout
begin

text \<open>
  \<^verbatim>\<open>utils/string.c\<close>: the freestanding memory and string routines, on the byte memory that the
  kernel reaches through its pointers. A loop \<^verbatim>\<open>while (size--)\<close> is a recursion on the count; the
  loops that search for a terminator may run forever on a memory without one and are
  \<open>partial_function (option)\<close>, \<open>None\<close> standing for not returning. Characters are bytes;
  \<^verbatim>\<open>int\<close> results of comparisons are \<open>int\<close>.
\<close>

section \<open>Byte access\<close>

lemma load_store_byte [simp]: "load_byte (store_byte p v s) q = (if q = p then v else load_byte s q)"
  by (simp add: load_byte_def store_byte_def va_to_pa_def)

section \<open>Memory blocks\<close>

fun copy_forward :: "nat \<Rightarrow> virt_addr \<Rightarrow> virt_addr \<Rightarrow> 'a mem_state_scheme \<Rightarrow> 'a mem_state_scheme" where
  "copy_forward 0 d_ptr s_ptr s = s"
| "copy_forward (Suc n) d_ptr s_ptr s =
     copy_forward n (d_ptr + 1) (s_ptr + 1) (store_byte d_ptr (load_byte s s_ptr) s)"

fun copy_backward :: "nat \<Rightarrow> virt_addr \<Rightarrow> virt_addr \<Rightarrow> 'a mem_state_scheme \<Rightarrow> 'a mem_state_scheme" where
  "copy_backward 0 d_ptr s_ptr s = s"
| "copy_backward (Suc n) d_ptr s_ptr s =
     copy_backward n (d_ptr - 1) (s_ptr - 1) (store_byte (d_ptr - 1) (load_byte s (s_ptr - 1)) s)"

definition memcpy ::
  "virt_addr \<Rightarrow> virt_addr \<Rightarrow> u64 \<Rightarrow> 'a mem_state_scheme \<Rightarrow> virt_addr \<times> 'a mem_state_scheme" where
  "memcpy dest src sz s = (dest, copy_forward (unat sz) dest src s)"

fun memcmp_loop :: "nat \<Rightarrow> virt_addr \<Rightarrow> virt_addr \<Rightarrow> 'a mem_state_scheme \<Rightarrow> int" where
  "memcmp_loop 0 ptr1 ptr2 s = 0"
| "memcmp_loop (Suc n) ptr1 ptr2 s =
     (if load_byte s ptr1 \<noteq> load_byte s ptr2 then uint (load_byte s ptr1) - uint (load_byte s ptr2)
      else memcmp_loop n (ptr1 + 1) (ptr2 + 1) s)"

definition memcmp :: "virt_addr \<Rightarrow> virt_addr \<Rightarrow> u64 \<Rightarrow> 'a mem_state_scheme \<Rightarrow> int" where
  "memcmp str1 str2 sz s = memcmp_loop (unat sz) str1 str2 s"

text \<open>\<open>0\<close> is \<^verbatim>\<open>NULL\<close>; \<^verbatim>\<open>(unsigned char)chr\<close> is the low byte of the \<^verbatim>\<open>int\<close>.\<close>

fun memchr_loop :: "nat \<Rightarrow> virt_addr \<Rightarrow> u8 \<Rightarrow> 'a mem_state_scheme \<Rightarrow> virt_addr" where
  "memchr_loop 0 p c s = 0"
| "memchr_loop (Suc n) p c s = (if load_byte s p = c then p else memchr_loop n (p + 1) c s)"

definition memchr :: "virt_addr \<Rightarrow> u32 \<Rightarrow> u64 \<Rightarrow> 'a mem_state_scheme \<Rightarrow> virt_addr" where
  "memchr str chr sz s = memchr_loop (unat sz) str (ucast chr) s"

definition memmove ::
  "virt_addr \<Rightarrow> virt_addr \<Rightarrow> u64 \<Rightarrow> 'a mem_state_scheme \<Rightarrow> virt_addr \<times> 'a mem_state_scheme" where
  "memmove dest src sz s =
     (dest,
      if dest < src then copy_forward (unat sz) dest src s
      else if dest > src then copy_backward (unat sz) (dest + sz) (src + sz) s
      else s)"

fun fill :: "nat \<Rightarrow> virt_addr \<Rightarrow> u8 \<Rightarrow> 'a mem_state_scheme \<Rightarrow> 'a mem_state_scheme" where
  "fill 0 p v s = s"
| "fill (Suc n) p v s = fill n (p + 1) v (store_byte p v s)"

definition memset :: "virt_addr \<Rightarrow> u32 \<Rightarrow> u64 \<Rightarrow> 'a mem_state_scheme \<Rightarrow> virt_addr \<times> 'a mem_state_scheme" where
  "memset p val sz s = (p, fill (unat sz) p (ucast val) s)"

definition memset_s ::
  "virt_addr \<Rightarrow> u64 \<Rightarrow> u32 \<Rightarrow> u64 \<Rightarrow> 'a mem_state_scheme \<Rightarrow> int \<times> 'a mem_state_scheme" where
  "memset_s dest destsz byte cnt s =
     (if dest = 0 \<or> destsz = 0 \<or> cnt > destsz then (-1, s)
      else (0, snd (memset dest byte cnt s)))"

section \<open>Strings\<close>

partial_function (option) strchr :: "virt_addr \<Rightarrow> u8 \<Rightarrow> 'a mem_state_scheme \<Rightarrow> virt_addr option" where
  "strchr str chr s =
     (if load_byte s str = chr then Some str
      else if load_byte s str = 0 then Some 0
      else strchr (str + 1) chr s)"

partial_function (option) strrchr_loop ::
  "virt_addr \<Rightarrow> u8 \<Rightarrow> virt_addr \<Rightarrow> 'a mem_state_scheme \<Rightarrow> virt_addr option" where
  "strrchr_loop str chr found s =
     (let found' = (if load_byte s str = chr then str else found)
      in if load_byte s str = 0 then Some found' else strrchr_loop (str + 1) chr found' s)"

definition strrchr :: "virt_addr \<Rightarrow> u8 \<Rightarrow> 'a mem_state_scheme \<Rightarrow> virt_addr option" where
  "strrchr str chr s = strrchr_loop str chr 0 s"

partial_function (option) strlen_loop :: "virt_addr \<Rightarrow> u64 \<Rightarrow> 'a mem_state_scheme \<Rightarrow> u64 option" where
  "strlen_loop str len s =
     (if load_byte s (str + len) \<noteq> 0 then strlen_loop str (len + 1) s else Some len)"

definition strlen :: "virt_addr \<Rightarrow> 'a mem_state_scheme \<Rightarrow> u64 option" where
  "strlen str s = strlen_loop str 0 s"

text \<open>The counter of \<^verbatim>\<open>strnlen\<close> stays below \<^verbatim>\<open>maxlen\<close>: a recursion on what remains.\<close>

fun strnlen_loop :: "nat \<Rightarrow> virt_addr \<Rightarrow> u64 \<Rightarrow> 'a mem_state_scheme \<Rightarrow> u64" where
  "strnlen_loop 0 str len s = len"
| "strnlen_loop (Suc n) str len s =
     (if load_byte s (str + len) \<noteq> 0 then strnlen_loop n str (len + 1) s else len)"

definition strnlen :: "virt_addr \<Rightarrow> u64 \<Rightarrow> 'a mem_state_scheme \<Rightarrow> u64" where
  "strnlen str maxlen s = strnlen_loop (unat maxlen) str 0 s"

text \<open>The value of a digit character, \<open>None\<close> for any other character.\<close>

definition digit_value :: "u8 \<Rightarrow> int option" where
  "digit_value chr =
     (if 0x30 \<le> chr \<and> chr \<le> 0x39 then Some (uint chr - 0x30)
      else if 0x61 \<le> chr \<and> chr \<le> 0x66 then Some (uint chr - 0x61 + 10)
      else if 0x41 \<le> chr \<and> chr \<le> 0x46 then Some (uint chr - 0x41 + 10)
      else None)"

partial_function (option) strtoul_loop ::
  "virt_addr \<Rightarrow> int \<Rightarrow> u64 \<Rightarrow> 'a mem_state_scheme \<Rightarrow> (u64 \<times> virt_addr) option" where
  "strtoul_loop nptr base res s =
     (if load_byte s nptr = 0 then Some (res, nptr)
      else case digit_value (load_byte s nptr) of
             None \<Rightarrow> Some (res, nptr)
           | Some v \<Rightarrow>
               if v \<ge> base then Some (res, nptr)
               else strtoul_loop (nptr + 1) base (res * of_int base + of_int v) s)"

definition strtoul ::
  "virt_addr \<Rightarrow> virt_addr \<Rightarrow> int \<Rightarrow> 'a mem_state_scheme \<Rightarrow> (u64 \<times> 'a mem_state_scheme) option" where
  "strtoul nptr endptr base s =
     (let (nptr', base') =
            (if (base = 0 \<or> base = 16) \<and> load_byte s nptr = 0x30
                \<and> (load_byte s (nptr + 1) = 0x78 \<or> load_byte s (nptr + 1) = 0x58)
             then (nptr + 2, 16)
             else if base = 0 then (nptr, 10) else (nptr, base))
      in case strtoul_loop nptr' base' 0 s of
           None \<Rightarrow> None
         | Some (res, fin) \<Rightarrow> Some (res, if endptr \<noteq> 0 then store_u64 endptr fin s else s))"

partial_function (option) strcmp :: "virt_addr \<Rightarrow> virt_addr \<Rightarrow> 'a mem_state_scheme \<Rightarrow> int option" where
  "strcmp lhs rhs s =
     (if load_byte s lhs \<noteq> 0 \<and> load_byte s lhs = load_byte s rhs then strcmp (lhs + 1) (rhs + 1) s
      else Some (uint (load_byte s lhs) - uint (load_byte s rhs)))"

section \<open>Copying and filling\<close>

lemma unat_diff_succ: "q \<noteq> (d :: u64) \<Longrightarrow> unat (q - d) = Suc (unat (q - (d + 1)))"
  using unatSuc [of "q - (d + 1)"] by (simp add: algebra_simps)

lemma unat_minus_one64: "unat (d - (d + 1) :: u64) = 2 ^ 64 - 1"
  by (simp add: unsigned_minus_1_eq_mask mask_eq_exp_minus_1)

text \<open>
  Copying forward is a copy of the original bytes unless the destination starts strictly
  inside the source, copying backward unless the source starts strictly inside the
  destination.
\<close>

lemma copy_forward_byte:
  assumes "n < 2 ^ 64" "unat (d - p) \<ge> n \<or> d = p"
  shows "load_byte (copy_forward n d p s) q =
    (if unat (q - d) < n then load_byte s (p + (q - d)) else load_byte s q)"
  using assms
proof (induction n arbitrary: d p s)
  case (Suc n)
  have "load_byte (copy_forward (Suc n) d p s) q =
      (if unat (q - (d + 1)) < n then load_byte (store_byte d (load_byte s p) s) (p + 1 + (q - (d + 1)))
       else load_byte (store_byte d (load_byte s p) s) q)"
    unfolding copy_forward.simps by (rule Suc.IH) (use Suc.prems in auto)
  also have "p + 1 + (q - (d + 1)) = p + (q - d)" by simp
  finally have eq: "load_byte (copy_forward (Suc n) d p s) q =
      (if unat (q - (d + 1)) < n then load_byte (store_byte d (load_byte s p) s) (p + (q - d))
       else load_byte (store_byte d (load_byte s p) s) q)" .
  show ?case
  proof (cases "q = d")
    case True
    then show ?thesis using eq Suc.prems(1) unat_minus_one64 [of d] by simp
  next
    case False
    have "p + (q - d) \<noteq> d" if "unat (q - d) < Suc n"
    proof
      assume "p + (q - d) = d"
      then have "q - d = d - p" by (simp add: algebra_simps)
      then show False using that Suc.prems(2) False by auto
    qed
    then show ?thesis using eq False unat_diff_succ [OF False] by auto
  qed
qed simp

lemma copy_backward_byte:
  assumes "n < 2 ^ 64" "unat (p - d) \<ge> n \<or> d = p"
  shows "load_byte (copy_backward n (d + of_nat n) (p + of_nat n) s) q =
    (if unat (q - d) < n then load_byte s (p + (q - d)) else load_byte s q)"
  using assms
proof (induction n arbitrary: s)
  case (Suc n)
  let ?s = "store_byte (d + of_nat n) (load_byte s (p + of_nat n)) s"
  have k: "d + of_nat (Suc n) - 1 = d + of_nat n" "p + of_nat (Suc n) - 1 = p + of_nat n" by simp_all
  have n64: "unat (of_nat n :: u64) = n" using Suc.prems(1) by (intro unat_of_nat64) simp
  have "load_byte (copy_backward (Suc n) (d + of_nat (Suc n)) (p + of_nat (Suc n)) s) q =
      load_byte (copy_backward n (d + of_nat n) (p + of_nat n) ?s) q"
    by (simp only: copy_backward.simps k)
  also have "\<dots> = (if unat (q - d) < n then load_byte ?s (p + (q - d)) else load_byte ?s q)"
    using Suc.prems by (intro Suc.IH) auto
  finally have eq: "load_byte (copy_backward (Suc n) (d + of_nat (Suc n)) (p + of_nat (Suc n)) s) q =
      (if unat (q - d) < n then load_byte ?s (p + (q - d)) else load_byte ?s q)" .
  have "q = d + of_nat n \<longleftrightarrow> unat (q - d) = n"
  proof
    assume "unat (q - d) = n"
    then have "q - d = of_nat n" by auto
    then show "q = d + of_nat n" by (simp add: algebra_simps)
  qed (simp add: n64)
  moreover have "p + (q - d) \<noteq> d + of_nat n" if "unat (q - d) < n"
  proof
    assume "p + (q - d) = d + of_nat n"
    then have e: "of_nat n - (q - d) = p - d" by (simp add: algebra_simps)
    have "q - d \<le> of_nat n" using that n64 by (simp add: word_le_nat_alt)
    then have "unat (p - d) = n - unat (q - d)" using e n64 by (metis unat_sub64)
    then show False using Suc.prems(2) that by auto
  qed
  moreover have "p + (q - d) = p + of_nat n" if "unat (q - d) = n" using that by auto
  ultimately show ?case using eq by auto
qed simp

lemma fill_byte:
  assumes "n < 2 ^ 64"
  shows "load_byte (fill n p v s) q = (if unat (q - p) < n then v else load_byte s q)"
  using assms
proof (induction n arbitrary: p s)
  case (Suc n)
  then show ?case using unat_diff_succ [of q p] unat_minus_one64 [of p] by (cases "q = p") auto
qed simp

text \<open>
  C32. \<^verbatim>\<open>memmove\<close> copies correctly for overlapping blocks: when neither block wraps around the end of
  the address space, every destination byte afterwards is the byte that was at the
  corresponding source position before the call, and every other byte is unchanged.
\<close>

theorem memmove_correct:
  assumes "unat dest + unat sz \<le> 2 ^ 64" and "unat src + unat sz \<le> 2 ^ 64"
  shows "fst (memmove dest src sz s) = dest
    \<and> (\<forall>q. load_byte (snd (memmove dest src sz s)) q =
          (if unat (q - dest) < unat sz then load_byte s (src + (q - dest)) else load_byte s q))"
proof -
  consider "dest < src" | "src < dest" | "src = dest" by force
  then show ?thesis
  proof cases
    case 1
    have "unat (dest - src) = 2 ^ 64 - (unat src - unat dest)"
      using 1 unat_lt64 [of src] by (simp add: unat_sub_if' word_less_nat_alt)
    then have "unat sz \<le> unat (dest - src)" using assms 1 by (simp add: word_less_nat_alt)
    with 1 show ?thesis using copy_forward_byte [OF unat_lt64, of sz dest src s] by (simp add: memmove_def)
  next
    case 2
    have "unat (src - dest) = 2 ^ 64 - (unat dest - unat src)"
      using 2 unat_lt64 [of dest] by (simp add: unat_sub_if' word_less_nat_alt)
    then have "unat sz \<le> unat (src - dest)" using assms 2 by (simp add: word_less_nat_alt)
    moreover have "\<not> dest < src" using 2 by auto
    ultimately show ?thesis
      using 2 copy_backward_byte [OF unat_lt64, of sz src dest s] by (simp add: memmove_def)
  next
    case 3
    then show ?thesis by (simp add: memmove_def)
  qed
qed

text \<open>
  \<^verbatim>\<open>memset_s\<close>: a null destination, a zero size or a count beyond the size is refused with \<open>-1\<close> and
  writes nothing; otherwise exactly the first \<^verbatim>\<open>count\<close> bytes become the low byte of the value.
\<close>

theorem memset_s_correct:
  "memset_s dest destsz byte cnt s =
     (if dest = 0 \<or> destsz = 0 \<or> destsz < cnt then (-1, s) else (0, fill (unat cnt) dest (ucast byte) s))
   \<and> load_byte (fill (unat cnt) dest (ucast byte) s) q =
     (if unat (q - dest) < unat cnt then ucast byte else load_byte s q)"
  by (intro conjI fill_byte [OF unat_lt64]) (simp add: memset_s_def memset_def)

section \<open>Comparing and searching\<close>

text \<open>The bytes of a block, and the text of a terminated string.\<close>

definition bytes :: "'a mem_state_scheme \<Rightarrow> virt_addr \<Rightarrow> nat \<Rightarrow> u8 list" where
  "bytes s p n = map (\<lambda>i. load_byte s (p + of_nat i)) [0 ..< n]"

definition cstring :: "'a mem_state_scheme \<Rightarrow> virt_addr \<Rightarrow> u8 list \<Rightarrow> bool" where
  "cstring s p cs \<longleftrightarrow> bytes s p (length cs) = cs \<and> 0 \<notin> set cs \<and> load_byte s (p + of_nat (length cs)) = 0"

lemma bytes_Suc: "bytes s p (Suc n) = load_byte s p # bytes s (p + 1) n"
  by (simp add: bytes_def upt_conv_Cons map_Suc_upt [symmetric] algebra_simps del: upt_Suc)

lemma bytes_0 [simp]: "bytes s p 0 = []" by (simp add: bytes_def)

lemma cstring_Nil [simp]: "cstring s p [] \<longleftrightarrow> load_byte s p = 0"
  and cstring_Cons [simp]: "cstring s p (c # cs) \<longleftrightarrow> load_byte s p = c \<and> c \<noteq> 0 \<and> cstring s (p + 1) cs"
  by (auto simp: cstring_def bytes_Suc algebra_simps)

fun byte_order :: "u8 list \<Rightarrow> u8 list \<Rightarrow> int" where
  "byte_order (a # as) (b # bs) = (if a \<noteq> b then uint a - uint b else byte_order as bs)"
| "byte_order [] [] = 0"
| "byte_order (a # as) [] = uint a"
| "byte_order [] (b # bs) = - uint b"

lemma byte_order_eq: "0 \<notin> set as \<Longrightarrow> 0 \<notin> set bs \<Longrightarrow> byte_order as bs = 0 \<longleftrightarrow> as = bs"
  by (induction as bs rule: byte_order.induct) (auto simp: uint_0_iff dest: unsigned_word_eqI)

lemma byte_order_blocks: "length as = length bs \<Longrightarrow> byte_order as bs = 0 \<longleftrightarrow> as = bs"
  by (induction as bs rule: list_induct2) (auto dest: unsigned_word_eqI)

lemma memcmp_loop_bytes: "memcmp_loop n p q s = byte_order (bytes s p n) (bytes s q n)"
  by (induction n arbitrary: p q) (simp_all add: bytes_Suc)

text \<open>
  \<^verbatim>\<open>memcmp\<close> is the lexicographic comparison of the two blocks as unsigned bytes; in particular it
  is zero exactly for equal blocks.
\<close>

theorem memcmp_correct:
  "memcmp p q sz s = byte_order (bytes s p (unat sz)) (bytes s q (unat sz))
   \<and> (memcmp p q sz s = 0 \<longleftrightarrow> bytes s p (unat sz) = bytes s q (unat sz))"
  using byte_order_blocks [of "bytes s p (unat sz)" "bytes s q (unat sz)"]
  by (simp add: memcmp_def memcmp_loop_bytes bytes_def)

lemma strlen_loop_run: "cstring s (p + k) cs \<Longrightarrow> strlen_loop p k s = Some (k + of_nat (length cs))"
  by (induction cs arbitrary: k) (subst strlen_loop.simps, simp add: algebra_simps)+

text \<open>
  On terminated strings the string routines return: \<^verbatim>\<open>strlen\<close> the length, \<^verbatim>\<open>strcmp\<close> the sign of the
  lexicographic comparison, zero exactly for equal strings.
\<close>

theorem strlen_strcmp_correct:
  assumes "cstring s p as" and "cstring s q bs"
  shows "strlen p s = Some (of_nat (length as)) \<and> strcmp p q s = Some (byte_order as bs)
    \<and> (strcmp p q s = Some 0 \<longleftrightarrow> as = bs)"
proof -
  have "strcmp p q s = Some (byte_order as bs)"
    using assms by (induction as bs arbitrary: p q rule: byte_order.induct) (subst strcmp.simps, auto)+
  moreover have "0 \<notin> set as" "0 \<notin> set bs" using assms by (simp_all add: cstring_def)
  ultimately show ?thesis using strlen_loop_run [of s p 0 as] assms(1) byte_order_eq by (simp add: strlen_def)
qed

section \<open>Numbers\<close>

text \<open>The value of a digit string, in unbounded arithmetic.\<close>

fun digits_value :: "int \<Rightarrow> int \<Rightarrow> u8 list \<Rightarrow> int" where
  "digits_value base acc [] = acc"
| "digits_value base acc (c # cs) =
     (case digit_value c of None \<Rightarrow> acc | Some v \<Rightarrow> if v \<ge> base then acc else digits_value base (acc * base + v) cs)"

definition is_number :: "int \<Rightarrow> u8 list \<Rightarrow> bool" where
  "is_number base cs \<longleftrightarrow> (\<forall>c \<in> set cs. \<exists>v. digit_value c = Some v \<and> v < base)"

lemma strtoul_loop_run:
  assumes "cstring s p cs" "is_number base cs"
  shows "strtoul_loop p base (of_int acc) s = Some (of_int (digits_value base acc cs), p + of_nat (length cs))"
  using assms
proof (induction cs arbitrary: p acc)
  case (Cons c cs)
  then obtain v where v: "digit_value c = Some v" "v < base" by (auto simp: is_number_def)
  have rest: "cstring s (p + 1) cs" "is_number base cs" using Cons.prems by (auto simp: is_number_def)
  have "strtoul_loop p base (of_int acc) s = strtoul_loop (p + 1) base (of_int (acc * base + v)) s"
    using Cons.prems v by (subst strtoul_loop.simps) simp
  then show ?case using Cons.IH [OF rest, of "acc * base + v"] v by (simp add: algebra_simps)
qed (subst strtoul_loop.simps, simp)

text \<open>
  \<^verbatim>\<open>strtoul\<close> on a terminated string of digits of an explicit base: it returns the value of the
  digits modulo \<open>2 ^ 64\<close> and stores the end of the string through a non-null \<^verbatim>\<open>endptr\<close>.
\<close>

theorem strtoul_correct:
  assumes "cstring s p cs" and "is_number base cs" and "base \<noteq> 0" and "base \<noteq> 16"
  shows "strtoul p endptr base s =
    Some (of_int (digits_value base 0 cs), if endptr \<noteq> 0 then store_u64 endptr (p + of_nat (length cs)) s else s)"
  using strtoul_loop_run [OF assms(1,2), of 0] assms(3,4) by (simp add: strtoul_def)

end
