(* ===== verification/Kprintf.thy ===== *)
theory Kprintf
  imports Kstring
begin

text \<open>
  \<^verbatim>\<open>utils/kprintf.c\<close>: number formatting and the variadic printer. Characters are bytes. The
  buffer of \<^verbatim>\<open>itoa\<close> is the list of characters written so far; the in-place reversal works on it
  by index. The printer's output is the list of characters handed to the console, and its
  variable arguments are a list. What the C standard leaves undefined (a missing argument, an
  argument of the wrong type, a format that ends in \<^verbatim>\<open>%\<close> so that the loop runs past the
  terminator) is the value \<open>None\<close>.
\<close>

section \<open>itoa\<close>

definition digit_char :: "u64 \<Rightarrow> u8" where
  "digit_char digit = (if digit < 10 then ucast (digit + 0x30) else ucast (digit - 10 + 0x61))"

text \<open>
  The do-while loop that appends the digits, least significant first. For a base of at least
  two, as all callers pass, the quotient decreases and the second test is true; it makes the
  function total for the bases on which the C loop would not end.
\<close>

function itoa_digits :: "u64 \<Rightarrow> u64 \<Rightarrow> u8 list \<Rightarrow> u8 list" where
  "itoa_digits num base buf =
     (let buf' = buf @ [digit_char (num mod base)];
          num' = num div base
      in if 0 < num' \<and> num' < num then itoa_digits num' base buf' else buf')"
  by pat_completeness auto
termination
  by (relation "measure (\<lambda>(num, _, _). unat num)") (auto simp: word_less_nat_alt)

text \<open>The two-pointer reversal of \<^verbatim>\<open>buf\<close> between the indices \<open>i\<close> and \<open>j\<close>.\<close>

function reverse_in_place :: "nat \<Rightarrow> nat \<Rightarrow> u8 list \<Rightarrow> u8 list" where
  "reverse_in_place i j buf =
     (if i < j then reverse_in_place (Suc i) (j - 1) (buf[i := buf ! j, j := buf ! i]) else buf)"
  by pat_completeness auto
termination
  by (relation "measure (\<lambda>(i, j, _). j - i)") auto

declare itoa_digits.simps [simp del] reverse_in_place.simps [simp del]

definition itoa :: "u64 \<Rightarrow> u64 \<Rightarrow> u8 list" where
  "itoa num base =
     (let buf = itoa_digits num base [] in reverse_in_place 0 (length buf - 1) buf)"

section \<open>vprintf\<close>

datatype va_arg = Num u64 | Str "u8 list option"

text \<open>Putting the characters of a string, one by one, and counting them.\<close>

fun put_string :: "u8 list \<Rightarrow> u8 list \<times> nat \<Rightarrow> u8 list \<times> nat" where
  "put_string [] acc = acc"
| "put_string (c # cs) (out, printed) = put_string cs (out @ [c], printed + 1)"

text \<open>The switch on the conversion character: new output, count and remaining arguments.\<close>

definition conversion ::
  "u8 \<Rightarrow> va_arg list \<Rightarrow> u8 list \<times> nat \<Rightarrow> ((u8 list \<times> nat) \<times> va_arg list) option" where
  "conversion c args acc =
     (if c = 0x78 \<or> c = 0x70 then
        (case args of
           Num num # args' \<Rightarrow>
             let acc' = (if c = 0x70 then (fst acc @ [0x30, 0x78], snd acc + 2) else acc)
             in Some (put_string (itoa num 16) acc', args')
         | _ \<Rightarrow> None)
      else if c = 0x63 then
        (case args of Num num # args' \<Rightarrow> Some ((fst acc @ [ucast num], snd acc + 1), args') | _ \<Rightarrow> None)
      else if c = 0x73 then
        (case args of
           Str str # args' \<Rightarrow>
             Some (put_string (case str of None \<Rightarrow> [0x28, 0x6E, 0x75, 0x6C, 0x6C, 0x29] | Some t \<Rightarrow> t) acc, args')
         | _ \<Rightarrow> None)
      else if c = 0x64 then
        (case args of
           Num num # args' \<Rightarrow>
             Some (if bit num 63 then put_string (itoa (- num) 10) (fst acc @ [0x2D], snd acc + 1)
                   else put_string (itoa num 10) acc, args')
         | _ \<Rightarrow> None)
      else if c = 0x75 then
        (case args of Num num # args' \<Rightarrow> Some (put_string (itoa num 10) acc, args') | _ \<Rightarrow> None)
      else if c = 0x25 then Some ((fst acc @ [0x25], snd acc + 1), args)
      else Some ((fst acc @ [0x25, c], snd acc + 2), args))"

text \<open>After \<^verbatim>\<open>%\<close>: an optional \<^verbatim>\<open>l\<close> is skipped.\<close>

definition skip_length :: "u8 list \<Rightarrow> u8 list" where
  "skip_length cs = (case cs of [] \<Rightarrow> [] | d # ds \<Rightarrow> if d = 0x6C then ds else cs)"

lemma skip_length_shorter: "length (skip_length cs) \<le> length cs"
  by (simp add: skip_length_def split: list.split)

function vprintf_loop :: "u8 list \<Rightarrow> va_arg list \<Rightarrow> u8 list \<times> nat \<Rightarrow> (u8 list \<times> nat) option" where
  "vprintf_loop [] args acc = Some acc"
| "vprintf_loop (c # cs) args acc =
     (if c \<noteq> 0x25 then
        let acc' = (if c = 0x0A then (fst acc @ [0x0D], snd acc + 1) else acc)
        in vprintf_loop cs args (fst acc' @ [c], snd acc' + 1)
      else
        case skip_length cs of
          [] \<Rightarrow> None
        | d # ds \<Rightarrow>
            (case conversion d args acc of
               None \<Rightarrow> None
             | Some (acc', args') \<Rightarrow> vprintf_loop ds args' acc'))"
  by pat_completeness auto
termination
proof (relation "measure (\<lambda>(cs, _, _). length cs)"; simp)
  show "length ds < Suc (length cs)" if "skip_length cs = d # ds" for cs ds :: "u8 list" and d
    using skip_length_shorter [of cs] that by simp
qed

text \<open>
  \<^verbatim>\<open>vprintf\<close>: the characters put on the console and the returned count. Without a console nothing
  is printed.
\<close>

definition vprintf :: "bool \<Rightarrow> u8 list \<Rightarrow> va_arg list \<Rightarrow> (u8 list \<times> nat) option" where
  "vprintf has_console format args =
     (if \<not> has_console then Some ([], 0) else vprintf_loop format args ([], 0))"

section \<open>Correctness of itoa\<close>

lemma reverse_in_place_inv:
  assumes "i + j + 1 = length xs" "length buf = length xs"
    and "\<And>k. k < length xs \<Longrightarrow> buf ! k = (if i \<le> k \<and> k \<le> j then xs ! k else rev xs ! k)"
  shows "reverse_in_place i j buf = rev xs"
  using assms
proof (induction i j buf rule: reverse_in_place.induct)
  case (1 i j buf)
  show ?case
  proof (cases "i < j")
    case False
    have "buf ! k = rev xs ! k" if "k < length xs" for k
    proof (cases "i \<le> k \<and> k \<le> j")
      case True
      then have "length xs - Suc k = k" using False 1(2) by linarith
      then show ?thesis using 1(4) [OF that] True that by (simp add: rev_nth)
    next
      case False
      then show ?thesis using 1(4) [OF that] by auto
    qed
    then have "buf = rev xs" using 1(3) by (intro nth_equalityI) auto
    then show ?thesis using False by (subst reverse_in_place.simps) simp
  next
    case True
    let ?b = "buf[i := buf ! j, j := buf ! i]"
    have "length xs - Suc i = j" "length xs - Suc j = i" using 1(2) by linarith+
    then have ij: "i < length xs" "j < length xs" "rev xs ! i = xs ! j" "rev xs ! j = xs ! i"
      using True 1(2) by (auto simp: rev_nth)
    have "?b ! k = (if Suc i \<le> k \<and> k \<le> j - 1 then xs ! k else rev xs ! k)" if "k < length xs" for k
      using 1(4) [OF that] 1(4) [OF ij(1)] 1(4) [OF ij(2)] ij that True 1(3)
      by (cases "k = i"; cases "k = j") (auto simp: nth_list_update)
    then have "reverse_in_place (Suc i) (j - 1) ?b = rev xs"
      using True 1(2,3) by (intro 1(1)) auto
    then show ?thesis using True by (subst reverse_in_place.simps) simp
  qed
qed

lemma reverse_in_place_rev: "reverse_in_place 0 (length xs - 1) xs = rev xs"
proof (cases xs)
  case Nil
  then show ?thesis by (simp add: reverse_in_place.simps)
next
  case (Cons a list)
  then show ?thesis by (intro reverse_in_place_inv) auto
qed

text \<open>The digits of a number, most significant first.\<close>

fun number_chars :: "nat \<Rightarrow> nat \<Rightarrow> u8 list" where
  "number_chars base n =
     (if 1 < base \<and> base \<le> n then number_chars base (n div base) else []) @ [digit_char (of_nat (n mod base))]"

declare number_chars.simps [simp del]

lemma itoa_digits_rev:
  assumes "1 < unat base"
  shows "itoa_digits num base buf = buf @ rev (number_chars (unat base) (unat num))"
  using assms
proof (induction num base buf rule: itoa_digits.induct)
  case (1 num base buf)
  have d: "digit_char (num mod base) = digit_char (of_nat (unat num mod unat base))"
    by (simp add: unat_mod64 [symmetric])
  have c: "0 < num div base \<and> num div base < num \<longleftrightarrow> unat base \<le> unat num"
  proof -
    have "unat num div unat base < unat num" if "unat base \<le> unat num"
      using that 1(2) by (intro div_less_dividend) auto
    moreover have "0 < unat num div unat base \<longleftrightarrow> unat base \<le> unat num" using 1(2) by (simp add: div_greater_zero_iff)
    ultimately show ?thesis by (auto simp: word_less_nat_alt unat_div64)
  qed
  show ?case
  proof (cases "unat base \<le> unat num")
    case True
    have "itoa_digits num base buf = itoa_digits (num div base) base (buf @ [digit_char (num mod base)])"
      using c True by (subst itoa_digits.simps) (simp add: Let_def)
    also have "\<dots> = (buf @ [digit_char (num mod base)]) @ rev (number_chars (unat base) (unat (num div base)))"
      using c True by (intro 1(1) [OF refl refl]) (use 1(2) in simp_all)
    finally show ?thesis
      using True 1(2) by (subst number_chars.simps) (simp add: d unat_div64)
  next
    case False
    then have "\<not> (0 < num div base \<and> num div base < num)" using c by blast
    then show ?thesis using False by (subst itoa_digits.simps, subst number_chars.simps) (auto simp: d Let_def)
  qed
qed

lemma itoa_number_chars:
  assumes "1 < unat base"
  shows "itoa num base = number_chars (unat base) (unat num)"
  using reverse_in_place_rev [of "rev (number_chars (unat base) (unat num))"]
  by (simp add: itoa_def Let_def itoa_digits_rev [OF assms])

lemma digit_char_values:
  "\<forall>d \<in> set [0 ..< 16]. digit_value (digit_char (of_nat d)) = Some (int d) \<and> digit_char (of_nat d) \<noteq> 0"
  by code_simp

lemma digit_char_value:
  assumes "d < 16"
  shows "digit_value (digit_char (of_nat d)) = Some (int d)" "digit_char (of_nat d) \<noteq> 0"
  using digit_char_values assms by (simp_all add: atLeast0LessThan)

lemma digits_value_append:
  "is_number base xs \<Longrightarrow> digits_value base acc (xs @ ys) = digits_value base (digits_value base acc xs) ys"
  by (induction xs arbitrary: acc) (auto simp: is_number_def)

lemma number_chars_value:
  assumes "1 < base" "base \<le> 16"
  shows "is_number (int base) (number_chars base n)" "digits_value (int base) 0 (number_chars base n) = int n"
    "0 \<notin> set (number_chars base n)"
proof -
  have "is_number (int base) (number_chars base n) \<and> digits_value (int base) 0 (number_chars base n) = int n
    \<and> 0 \<notin> set (number_chars base n)"
    using assms
  proof (induction base n rule: number_chars.induct)
    case (1 base n)
    have m: "n mod base < 16" "n mod base < base" using 1(2,3) by (auto intro: less_le_trans [OF mod_less_divisor])
    note dv = digit_char_value [OF m(1)]
    show ?case
    proof (cases "base \<le> n")
      case True
      then have IH: "is_number (int base) (number_chars base (n div base))"
        "digits_value (int base) 0 (number_chars base (n div base)) = int (n div base)"
        "0 \<notin> set (number_chars base (n div base))" using 1 by blast+
      have eq: "number_chars base n = number_chars base (n div base) @ [digit_char (of_nat (n mod base))]"
        using True 1(2) by (subst number_chars.simps) simp
      have "int (n div base) * int base + int (n mod base) = int n"
        by (simp flip: of_nat_mult of_nat_add)
      then show ?thesis using IH dv m(2) by (auto simp: eq digits_value_append is_number_def)
    next
      case False
      then have "number_chars base n = [digit_char (of_nat (n mod base))]" by (subst number_chars.simps) simp
      then show ?thesis using dv m(2) False by (auto simp: is_number_def)
    qed
  qed
  then show "is_number (int base) (number_chars base n)" "digits_value (int base) 0 (number_chars base n) = int n"
    "0 \<notin> set (number_chars base n)" by blast+
qed

lemma number_chars_length:
  assumes "1 < base" "n < base ^ Suc k"
  shows "length (number_chars base n) \<le> Suc k"
  using assms
proof (induction k arbitrary: n)
  case 0
  then show ?case by (subst number_chars.simps) simp
next
  case (Suc k)
  show ?case
  proof (cases "base \<le> n")
    case True
    have "n div base < base ^ Suc k" using Suc.prems by (simp add: less_mult_imp_div_less mult.commute)
    then show ?thesis using Suc.IH [OF Suc.prems(1)] True by (subst number_chars.simps) simp
  next
    case False
    then show ?thesis by (subst number_chars.simps) simp
  qed
qed

text \<open>
  C26. Printing and parsing numbers are inverse: for base 10 and 16 the string \<^verbatim>\<open>itoa\<close> produces, stored
  as a terminated string, is parsed by \<^verbatim>\<open>strtoul\<close> back to the same number; it contains no
  terminator and with it fits the 64-byte buffer of \<^verbatim>\<open>vprintf\<close>.
\<close>

theorem itoa_strtoul_roundtrip:
  assumes "base = 10 \<or> base = 16" and "cstring s p (itoa num base)"
  shows "strtoul p 0 (uint base) s = Some (num, s) \<and> 0 \<notin> set (itoa num base) \<and> length (itoa num base) < 64"
proof -
  have b: "1 < unat base" "unat base \<le> 16" "int (unat base) = uint base" using assms(1) by auto
  note eq = itoa_number_chars [OF b(1), of num]
  note nc = number_chars_value [OF b(1,2), of "unat num"]
  have run: "strtoul_loop p (uint base) 0 s = Some (num, p + of_nat (length (itoa num base)))"
    using strtoul_loop_run [OF assms(2), of "uint base" 0] nc by (simp add: eq b(3))
  have "\<not> (load_byte s p = 0x30 \<and> (load_byte s (p + 1) = 0x78 \<or> load_byte s (p + 1) = 0x58))"
  proof (cases "itoa num base")
    case (Cons c cs)
    have "load_byte s (p + 1) = 0 \<or> digit_value (load_byte s (p + 1)) \<noteq> None"
      using assms(2) nc(1) Cons by (cases cs) (auto simp: is_number_def simp flip: eq)
    then show ?thesis by (auto simp: digit_value_def)
  qed (use assms(2) in simp)
  then have "strtoul p 0 (uint base) s = Some (num, s)" using run assms(1) by (auto simp: strtoul_def)
  moreover have "length (itoa num base) \<le> Suc 20"
  proof -
    have "unat num < unat base ^ Suc 20" using assms(1) unat_lt64 [of num] by auto
    then show ?thesis unfolding eq by (rule number_chars_length [OF b(1)])
  qed
  ultimately show ?thesis using nc(3) by (simp add: eq)
qed

section \<open>Correctness of vprintf\<close>

lemma put_string_append: "put_string cs acc = (fst acc @ cs, snd acc + length cs)"
  by (induction cs acc rule: put_string.induct) auto

lemma conversion_count:
  assumes "conversion c args acc = Some (acc', args')" "snd acc = length (fst acc)"
  shows "snd acc' = length (fst acc')"
  using assms by (auto simp: conversion_def put_string_append Let_def split: if_splits list.splits va_arg.splits)

text \<open>
  The count \<^verbatim>\<open>vprintf\<close> returns is the number of characters it put on the console.
\<close>

theorem vprintf_count:
  assumes "vprintf has_console format args = Some (out, printed)"
  shows "printed = length out"
proof -
  have "vprintf_loop cs args acc = Some (out, printed) \<Longrightarrow> snd acc = length (fst acc) \<Longrightarrow> printed = length out"
    for cs acc
  proof (induction "length cs" arbitrary: cs args acc rule: less_induct)
    case less
    show ?case
    proof (cases cs)
      case Nil
      then show ?thesis using less.prems by simp
    next
      case (Cons c cs')
      show ?thesis
      proof (cases "c = 0x25")
        case False
        then show ?thesis
          using less.prems less.hyps [of cs'] by (auto simp: Cons Let_def split: if_splits)
      next
        case True
        then obtain d ds acc' args' where sk: "skip_length cs' = d # ds"
          and cv: "conversion d args acc = Some (acc', args')" and r: "vprintf_loop ds args' acc' = Some (out, printed)"
          using less.prems(1) by (auto simp: Cons split: list.splits option.splits)
        have "length ds < length cs" using skip_length_shorter [of cs'] sk by (simp add: Cons)
        from less.hyps [OF this r] conversion_count [OF cv less.prems(2)] show ?thesis by blast
      qed
    qed
  qed
  with assms show ?thesis by (auto simp: vprintf_def split: if_splits)
qed

text \<open>
  The upper-case conversions with width and length (\<^verbatim>\<open>%016llX\<close>, as the descriptor printers of
  \<^verbatim>\<open>page_table.c\<close> use them) are not understood: the specifier is printed literally and the
  argument stays for the next conversion. A format ending in \<^verbatim>\<open>%\<close> makes the loop read past the
  terminator.
\<close>

theorem vprintf_unsupported:
  "vprintf True ([0x25, 0x30, 0x31, 0x36, 0x6C, 0x6C, 0x58] @ cs) args
     = vprintf_loop cs args ([0x25, 0x30, 0x31, 0x36, 0x6C, 0x6C, 0x58], Suc (Suc (Suc (Suc (Suc (Suc (Suc 0)))))))
   \<and> vprintf True [0x25] args = None"
  by (simp add: vprintf_def skip_length_def conversion_def)

end
