(* ===== verification/Text_Demo.thy ===== *)
theory Text_Demo
  imports Kprintf
begin

text \<open>
  A memory with two short strings, \<^verbatim>\<open>"12"\<close> at 0x100 and \<^verbatim>\<open>"13"\<close> at 0x200, on which the theorems about
  the string routines and the formatting are applied.
\<close>

definition text_state :: mem_state where
  "text_state = \<lparr>mem = (\<lambda>_. 0)(0x100 := 0x31, 0x101 := 0x32, 0x200 := 0x31, 0x201 := 0x33),
     kernel_base_va = 0, pc_base = 0,
     syms = \<lparr>image_start = 0, image_end = 0, idmap_pg_dir_bitmap_start = 0, idmap_pg_dir_start = 0,
             kernel_pg_dir_root_start = 0\<rparr>\<rparr>"

lemma text_bytes [simp]: "load_byte text_state a =
    (if a = 0x100 \<or> a = 0x200 then 0x31 else if a = 0x101 then 0x32 else if a = 0x201 then 0x33 else 0)"
  by (simp add: load_byte_def text_state_def va_to_pa_def)

theorem memmove_correct_witness:
  "load_byte (snd (memmove 0x101 0x100 2 text_state)) 0x102 = 0x32
    \<and> load_byte (snd (memmove 0x101 0x100 2 text_state)) 0x103 = 0"
  using memmove_correct [of "0x101" 2 "0x100" text_state] by simp

theorem strlen_strcmp_correct_witness:
  "strlen 0x100 text_state = Some 2 \<and> strcmp 0x100 0x200 text_state = Some (- 1)"
  using strlen_strcmp_correct [of text_state "0x100" "[0x31, 0x32]" "0x200" "[0x31, 0x33]"] by simp

theorem strtoul_correct_witness:
  "strtoul 0x100 0 10 text_state = Some (12, text_state)"
  using strtoul_correct [of text_state "0x100" "[0x31, 0x32]" 10 0]
  by (simp add: is_number_def digit_value_def)

lemma itoa_12: "itoa 12 10 = [0x31, 0x32]"
  by code_simp

theorem itoa_strtoul_roundtrip_witness:
  "strtoul 0x100 0 10 text_state = Some (12, text_state) \<and> length (itoa 12 10) < 64"
  using itoa_strtoul_roundtrip [of 10 text_state "0x100" 12] by (simp add: itoa_12)

lemma vprintf_demo: "vprintf True [0x61, 0x25, 0x75] [Num 12] = Some ([0x61, 0x31, 0x32], Suc (Suc (Suc 0)))"
  by (simp add: vprintf_def skip_length_def conversion_def itoa_12)

theorem vprintf_count_witness:
  "Suc (Suc (Suc 0)) = length [0x61 :: u8, 0x31, 0x32]"
  by (rule vprintf_count [OF vprintf_demo])

end
