(* ===== verification/Kalloc.thy ===== *)
theory Kalloc
  imports Page_Allocator Kstring
begin

text \<open>
  \<^verbatim>\<open>allocator/kalloc.c\<close>: the kernel heap. Its bookkeeping is linked lists in pages of the page
  allocator: a chain of management pages, each with 127 block descriptors and the pointer
  to the next page, and the list of live descriptors. The descriptors are C structs in
  memory with the layout of the AArch64 ABI (\<^verbatim>\<open>ptr\<close> at 0, \<^verbatim>\<open>size\<close> at 8, \<^verbatim>\<open>is_used\<close> at 16,
  \<^verbatim>\<open>next\<close> at 24, 32 bytes in all; \<^verbatim>\<open>next_page\<close> at 4064). The loops follow pointers and may run
  forever on a cyclic structure: they are \<open>partial_function (option)\<close>, \<open>None\<close> standing for not
  returning. Console messages are not part of the state.
\<close>

section \<open>State and layout\<close>

record kalloc_state = alloc_state +
  allocated :: virt_addr
  kalloc_page_head :: virt_addr

definition MAX_MANAGEMENT_BLOCKS_PER_PAGE :: u64 where
  "MAX_MANAGEMENT_BLOCKS_PER_PAGE = (PAGE_SIZE - 8) div 32"

text \<open>Fields of \<^verbatim>\<open>allocated_block_desc_t\<close> at \<open>d\<close> and of \<^verbatim>\<open>kalloc_management_pages_t\<close> at \<open>page\<close>.\<close>

definition desc_ptr :: "virt_addr \<Rightarrow> virt_addr" where "desc_ptr d = d"
definition desc_size :: "virt_addr \<Rightarrow> virt_addr" where "desc_size d = d + 8"
definition desc_is_used :: "virt_addr \<Rightarrow> virt_addr" where "desc_is_used d = d + 16"
definition desc_next :: "virt_addr \<Rightarrow> virt_addr" where "desc_next d = d + 24"

definition page_slot :: "virt_addr \<Rightarrow> u64 \<Rightarrow> virt_addr" where
  "page_slot page i = page + 32 * i"

definition next_page :: "virt_addr \<Rightarrow> virt_addr" where
  "next_page page = page + 32 * MAX_MANAGEMENT_BLOCKS_PER_PAGE"

definition is_used :: "'a mem_state_scheme \<Rightarrow> virt_addr \<Rightarrow> bool" where
  "is_used s d \<longleftrightarrow> load_byte s (desc_is_used d) \<noteq> 0"

definition set_is_used :: "virt_addr \<Rightarrow> bool \<Rightarrow> 'a mem_state_scheme \<Rightarrow> 'a mem_state_scheme" where
  "set_is_used d b s = store_byte (desc_is_used d) (if b then 1 else 0) s"

section \<open>Management pages\<close>

definition alloc_management_page ::
  "'a kalloc_state_scheme \<Rightarrow> virt_addr \<times> 'a kalloc_state_scheme" where
  "alloc_management_page s =
     (let (p_addr, s1) = page_alloc 1 s
      in if p_addr = PHYS_ADDR_NULL then (0, s1)
         else
           let v_addr = pa_to_va s1 p_addr
           in if v_addr = 0 then (0, s1)
              else
                let (ret, s2) = memset_s v_addr PAGE_SIZE 0 PAGE_SIZE s1
                in if ret \<noteq> 0 then (0, page_free p_addr 1 s2) else (v_addr, s2))"

text \<open>The first unused descriptor of one page.\<close>

fun find_unused :: "virt_addr \<Rightarrow> u64 list \<Rightarrow> 'a mem_state_scheme \<Rightarrow> virt_addr option" where
  "find_unused page [] s = None"
| "find_unused page (i # is) s =
     (if \<not> is_used s (page_slot page i) then Some (page_slot page i) else find_unused page is s)"

text \<open>The walk over the page chain: the descriptor found, and the last page otherwise.\<close>

partial_function (option) scan_pages ::
  "virt_addr \<Rightarrow> virt_addr \<Rightarrow> 'a mem_state_scheme \<Rightarrow> (virt_addr option \<times> virt_addr) option" where
  "scan_pages current prev s =
     (if current = 0 then Some (None, prev)
      else case find_unused current (for_range 0 MAX_MANAGEMENT_BLOCKS_PER_PAGE) s of
             Some d \<Rightarrow> Some (Some d, prev)
           | None \<Rightarrow> scan_pages (load_u64 s (next_page current)) current s)"

definition find_in_pages ::
  "'a kalloc_state_scheme \<Rightarrow> (virt_addr \<times> 'a kalloc_state_scheme) option" where
  "find_in_pages s =
     (case scan_pages (kalloc_page_head s) 0 s of
        None \<Rightarrow> None
      | Some (Some d, _) \<Rightarrow> Some (d, set_is_used d True s)
      | Some (None, prev) \<Rightarrow>
          if prev \<noteq> 0 then
            let (new_page, s1) = alloc_management_page s
            in if new_page = 0 then Some (0, s1)
               else
                 let s2 = store_u64 (next_page prev) new_page s1;
                     s3 = store_u64 (next_page new_page) 0 s2
                 in Some (page_slot new_page 0, set_is_used (page_slot new_page 0) True s3)
          else Some (0, s))"

definition find_free_management_block ::
  "'a kalloc_state_scheme \<Rightarrow> (virt_addr \<times> 'a kalloc_state_scheme) option" where
  "find_free_management_block s =
     (if kalloc_page_head s = 0 then
        let (page, s1) = alloc_management_page s
        in if page = 0 then Some (0, s1)
           else find_in_pages (store_u64 (next_page page) 0 (s1\<lparr>kalloc_page_head := page\<rparr>))
      else find_in_pages s)"

text \<open>The search for the page of a descriptor, with the page before it in the chain.\<close>

partial_function (option) find_page ::
  "virt_addr \<Rightarrow> virt_addr \<Rightarrow> virt_addr \<Rightarrow> 'a mem_state_scheme \<Rightarrow> (virt_addr \<times> virt_addr) option" where
  "find_page current prev page_addr s =
     (if current = 0 then Some (current, prev)
      else if current \<noteq> page_addr then find_page (load_u64 s (next_page current)) current page_addr s
      else Some (current, prev))"

definition free_management_page_if_empty ::
  "virt_addr \<Rightarrow> 'a kalloc_state_scheme \<Rightarrow> 'a kalloc_state_scheme option" where
  "free_management_page_if_empty removed s =
     (if removed = 0 then Some s
      else
        let page_addr = removed AND NOT (PAGE_SIZE - 1)
        in case find_page (kalloc_page_head s) (kalloc_page_head s) page_addr s of
             None \<Rightarrow> None
           | Some (current, prev) \<Rightarrow>
               if current = 0 then Some s
               else if \<exists>i \<in> set (for_range 0 MAX_MANAGEMENT_BLOCKS_PER_PAGE). is_used s (page_slot current i)
               then Some s
               else
                 let s1 = (if prev = current
                           then s\<lparr>kalloc_page_head := load_u64 s (next_page current)\<rparr>
                           else store_u64 (next_page prev) (load_u64 s (next_page current)) s)
                 in Some (page_free (va_to_pa s1 current) 1 s1))"

section \<open>The list of live blocks\<close>

partial_function (option) last_block :: "virt_addr \<Rightarrow> 'a mem_state_scheme \<Rightarrow> virt_addr option" where
  "last_block current s =
     (if load_u64 s (desc_next current) \<noteq> 0 then last_block (load_u64 s (desc_next current)) s
      else Some current)"

definition add_to_allocated_list ::
  "virt_addr \<Rightarrow> 'a kalloc_state_scheme \<Rightarrow> 'a kalloc_state_scheme option" where
  "add_to_allocated_list block s =
     (if block = 0 then Some s
      else
        let s1 = store_u64 (desc_next block) 0 s
        in if allocated s1 = 0 then Some (s1\<lparr>allocated := block\<rparr>)
           else case last_block (allocated s1) s1 of
                  None \<Rightarrow> None
                | Some current \<Rightarrow> Some (store_u64 (desc_next current) block s1))"

partial_function (option) find_block ::
  "virt_addr \<Rightarrow> virt_addr \<Rightarrow> virt_addr \<Rightarrow> 'a mem_state_scheme \<Rightarrow> (virt_addr \<times> virt_addr) option" where
  "find_block current prev ptr s =
     (if current = 0 then Some (current, prev)
      else if load_u64 s (desc_ptr current) = ptr then Some (current, prev)
      else find_block (load_u64 s (desc_next current)) current ptr s)"

definition remove_from_allocated_list ::
  "virt_addr \<Rightarrow> 'a kalloc_state_scheme \<Rightarrow> (virt_addr \<times> 'a kalloc_state_scheme) option" where
  "remove_from_allocated_list ptr s =
     (if ptr = 0 \<or> allocated s = 0 then Some (0, s)
      else if load_u64 s (desc_ptr (allocated s)) = ptr then
        let removed = allocated s;
            s1 = s\<lparr>allocated := load_u64 s (desc_next (allocated s))\<rparr>
        in Some (removed, set_is_used removed False s1)
      else
        case find_block (allocated s) 0 ptr s of
          None \<Rightarrow> None
        | Some (current, prev) \<Rightarrow>
            if current = 0 then Some (0, s)
            else
              let s1 = (if prev = 0 then s\<lparr>allocated := load_u64 s (desc_next current)\<rparr>
                        else store_u64 (desc_next prev) (load_u64 s (desc_next current)) s)
              in Some (current, set_is_used current False s1))"

section \<open>The interface\<close>

definition kmalloc :: "u64 \<Rightarrow> 'a kalloc_state_scheme \<Rightarrow> (virt_addr \<times> 'a kalloc_state_scheme) option" where
  "kmalloc sz s =
     (if sz = 0 then Some (0, s)
      else if sz > - 1 - (PAGE_SIZE - 1) then Some (0, s)
      else
        case find_free_management_block s of
          None \<Rightarrow> None
        | Some (block, s1) \<Rightarrow>
            if block = 0 then Some (0, s1)
            else
              let num_pages = NUM_PAGES sz;
                  (p_addr, s2) = page_alloc num_pages s1
              in if p_addr = PHYS_ADDR_NULL then Some (0, set_is_used block False s2)
                 else
                   let s3 = store_u64 (desc_ptr block) (pa_to_va s2 p_addr) s2;
                       s4 = store_u64 (desc_size block) sz s3
                   in case add_to_allocated_list block s4 of
                        None \<Rightarrow> None
                      | Some s5 \<Rightarrow> Some (load_u64 s5 (desc_ptr block), s5))"

definition kfree :: "virt_addr \<Rightarrow> 'a kalloc_state_scheme \<Rightarrow> 'a kalloc_state_scheme option" where
  "kfree ptr s =
     (case remove_from_allocated_list ptr s of
        None \<Rightarrow> None
      | Some (block, s1) \<Rightarrow>
          if block \<noteq> 0 then
            let p_addr = va_to_pa s1 (load_u64 s1 (desc_ptr block));
                num_pages = NUM_PAGES (load_u64 s1 (desc_size block))
            in free_management_page_if_empty block (page_free p_addr num_pages s1)
          else Some s1)"

definition invalidate_kalloc_state :: "'a kalloc_state_scheme \<Rightarrow> 'a kalloc_state_scheme" where
  "invalidate_kalloc_state s = s\<lparr>allocated := 0, kalloc_page_head := 0\<rparr>"

end
