(* ===== verification/Kalloc_Fields.thy ===== *)
theory Kalloc_Fields
  imports Kalloc Page_Allocator_Client
begin

text \<open>
  The bookkeeping structures of \<^verbatim>\<open>kalloc.c\<close> as they lie in memory: which words the fields of
  descriptors and management pages occupy, that different fields do not overlap, and linked
  lists as paths through memory. The four pointer-chasing loops of the file return on every
  linked list, with the result that the list determines.
\<close>

section \<open>Aligned words through pointers\<close>

text \<open>The linear map shifts addresses by whole pages.\<close>

definition base_aligned :: "'a mem_state_scheme \<Rightarrow> bool" where
  "base_aligned s \<longleftrightarrow> page_aligned (kernel_base_va s)"

lemma unat_minus_mod:
  assumes "unat (k :: u64) mod n = 0" "n dvd 2 ^ 64"
  shows "unat (a - k) mod n = unat a mod n"
proof -
  have "unat ((a - k) + k) = (unat (a - k) + unat k) mod 2 ^ 64" by (simp only: unat_word_ariths) simp
  then have "unat a = (unat (a - k) + unat k) mod 2 ^ 64" by simp
  then have "unat a mod n = (unat (a - k) + unat k) mod n" using assms(2) by (simp only: mod_mod_cancel)
  also have "\<dots> = (unat (a - k) + unat k mod n) mod n" by (simp only: mod_add_right_eq)
  finally show ?thesis by (simp add: assms(1))
qed

lemma mod_4096_8: "(x :: nat) mod 4096 = 0 \<Longrightarrow> x mod 8 = 0"
  using dvd_trans [of 8 4096 x] by (simp add: mod_eq_0_iff_dvd)

lemma va_to_pa_aligned:
  assumes "base_aligned s"
  shows "page_aligned (va_to_pa s p) = page_aligned p" "aligned8 (va_to_pa s p) = aligned8 p"
proof -
  have k: "unat (kernel_base_va s) mod 4096 = 0" using assms by (simp add: base_aligned_def page_aligned_def)
  then have k8: "unat (kernel_base_va s) mod 8 = 0" by (rule mod_4096_8)
  show "page_aligned (va_to_pa s p) = page_aligned p"
    using unat_minus_mod [OF k, of p] by (simp add: page_aligned_def va_to_pa_def)
  show "aligned8 (va_to_pa s p) = aligned8 p"
    using unat_minus_mod [OF k8, of p] by (simp add: aligned8_def va_to_pa_def)
qed

lemma va_to_pa_inj [simp]: "va_to_pa s p = va_to_pa s q \<longleftrightarrow> p = q"
  by (simp add: va_to_pa_def)

lemma load_store_u64:
  assumes "base_aligned s" "aligned8 p" "aligned8 q"
  shows "load_u64 (store_u64 p v s) q = (if q = p then v else load_u64 s q)"
  using load_store64_other [of "va_to_pa s q" "va_to_pa s p" "mem s" v] assms
  by (simp add: load_u64_def va_to_pa_aligned)

lemma load_byte_store_u64:
  assumes "base_aligned s" "aligned8 p" "aligned8 q" "q \<noteq> p"
  shows "load_byte (store_u64 p v s) q = load_byte s q"
  using aligned8_far [of "va_to_pa s q" "va_to_pa s p" 0] assms
  by (simp add: load_byte_def va_to_pa_aligned store64_apply)

lemma load_u64_store_byte:
  assumes "base_aligned s" "aligned8 p" "aligned8 q" "q \<noteq> p"
  shows "load_u64 (store_byte p v s) q = load_u64 s q"
proof -
  have "va_to_pa s q + of_nat i \<noteq> va_to_pa s p" if "i < 8" for i
    using aligned8_far [of "va_to_pa s q" "va_to_pa s p" i] assms that by (auto simp: va_to_pa_aligned)
  then show ?thesis unfolding load_u64_def by (auto intro: load64_cong)
qed

lemma load64_frame_cong:
  assumes "aligned8 a" "\<And>x. frame x = frame a \<Longrightarrow> m x = m' x"
  shows "load64 m a = load64 m' a"
proof (rule load64_cong)
  fix i :: nat assume "i < 8"
  moreover obtain q where q: "unat a = 8 * q" using assms(1) by (auto simp: aligned8_def elim: dvdE)
  ultimately have "unat (a + of_nat i) div 8 = unat a div 8" using aligned8_add [OF assms(1), of i] by simp
  then have "frame (a + of_nat i) = frame a"
    using div_mult2_eq [of "unat (a + of_nat i)" 8 512] div_mult2_eq [of "unat a" 8 512] by (simp add: frame_def)
  then show "m (a + of_nat i) = m' (a + of_nat i)" by (rule assms(2))
qed

lemma base_aligned_store [simp]:
  "base_aligned (store_byte p v s) = base_aligned s" "base_aligned (store_u64 p w s) = base_aligned s"
  "base_aligned (s\<lparr>mem := m\<rparr>) = base_aligned s"
  by (simp_all add: base_aligned_def)

section \<open>Slots and fields\<close>

lemma MAX_MANAGEMENT_BLOCKS_PER_PAGE_eq: "MAX_MANAGEMENT_BLOCKS_PER_PAGE = 127"
  by (simp add: MAX_MANAGEMENT_BLOCKS_PER_PAGE_def PAGE_SIZE_def)

text \<open>\<open>d\<close> is a descriptor slot of the management page at \<open>p\<close>.\<close>

definition slot_of :: "virt_addr \<Rightarrow> virt_addr \<Rightarrow> bool" where
  "slot_of p d \<longleftrightarrow> (\<exists>i < 127. d = page_slot p i)"

lemma page_word:
  assumes "page_aligned p" "w < (512 :: u64)"
  shows "unat (p + 8 * w) = unat p + 8 * unat w" "frame (p + 8 * w) = frame p" "aligned8 (p + 8 * w)"
proof -
  have w: "unat w < 512" using assms(2) by (simp add: word_less_nat_alt)
  have u: "unat (8 * w) = 8 * unat w" using w by (subst unat_mult64) simp_all
  show *: "unat (p + 8 * w) = unat p + 8 * unat w" "frame (p + 8 * w) = frame p"
    using frame_add [OF assms(1), of "8 * w"] u w by simp_all
  show "aligned8 (p + 8 * w)" using page_aligned_unat [OF assms(1)] by (simp add: aligned8_def *)
qed

lemma page_word_inj:
  assumes "page_aligned p" "page_aligned q" "w < (512 :: u64)" "v < 512" "p + 8 * w = q + 8 * v"
  shows "p = q" "w = v"
proof -
  have "frame p = frame q" using page_word(2) assms by metis
  then show eq: "p = q" by (rule page_aligned_inj [OF assms(1,2)])
  have "unat w = unat v"
    using page_word(1) [OF assms(1,3)] page_word(1) [OF assms(2,4)] assms(5) eq by simp
  then show "w = v" by (simp add: word_eq_iff_unsigned [where 'a = nat])
qed

lemma slot_word:
  assumes "i < (127 :: u64)" "k < 4"
  shows "unat (4 * i + k) = 4 * unat i + unat k" "4 * i + k < 512" "4 * i + k \<noteq> 508"
proof -
  have "unat i < 127" "unat k < 4" using assms by (simp_all add: word_less_nat_alt)
  moreover from this have "unat (4 * i) = 4 * unat i" by (subst unat_mult64) simp_all
  ultimately show *: "unat (4 * i + k) = 4 * unat i + unat k" by (subst unat_add64) simp_all
  show "4 * i + k < 512" "4 * i + k \<noteq> 508"
    using * \<open>unat i < 127\<close> \<open>unat k < 4\<close> by (auto simp: word_less_nat_alt)
qed

lemma slot_field_eq: "page_slot p i + 8 * k = p + 8 * (4 * i + k)"
  by (simp add: page_slot_def algebra_simps)

lemma next_page_eq: "next_page p = p + 8 * 508"
  by (simp add: next_page_def MAX_MANAGEMENT_BLOCKS_PER_PAGE_eq)

lemma slot_field:
  assumes "page_aligned p" "slot_of p d" "k < 4"
  shows "aligned8 (d + 8 * k)" "frame (d + 8 * k) = frame p"
proof -
  obtain i where i: "i < 127" "d = page_slot p i" using assms(2) by (auto simp: slot_of_def)
  show "aligned8 (d + 8 * k)" "frame (d + 8 * k) = frame p"
    unfolding i(2) slot_field_eq using page_word [OF assms(1) slot_word(2) [OF i(1) assms(3)]] by blast+
qed

lemma slot_field_inj:
  assumes "page_aligned p" "slot_of p d" "k < 4" "page_aligned q" "slot_of q e" "l < 4"
  shows "d + 8 * k = e + 8 * l \<longleftrightarrow> d = e \<and> k = l"
proof
  obtain i j where i: "i < 127" "d = page_slot p i" and j: "j < 127" "e = page_slot q j"
    using assms(2,5) by (auto simp: slot_of_def)
  assume "d + 8 * k = e + 8 * l"
  then have eq: "p + 8 * (4 * i + k) = q + 8 * (4 * j + l)" unfolding i j slot_field_eq .
  have pq: "p = q" and w: "4 * i + k = 4 * j + l"
    using page_word_inj [OF assms(1,4) slot_word(2) [OF i(1) assms(3)] slot_word(2) [OF j(1) assms(6)] eq] .
  have nat_eq: "4 * unat i + unat k = 4 * unat j + unat l"
    using w slot_word(1) [OF i(1) assms(3)] slot_word(1) [OF j(1) assms(6)] by metis
  moreover have "unat k < 4" "unat l < 4" using assms(3,6) by (simp_all add: word_less_nat_alt)
  ultimately have "unat i = unat j" by linarith
  with nat_eq have "unat k = unat l" "unat i = unat j" by linarith+
  then have "i = j" "k = l" by (simp_all only: word_eq_iff_unsigned [where 'a = nat])
  then show "d = e \<and> k = l" using pq by (simp add: i j)
qed simp

lemma slot_not_next_page:
  assumes "page_aligned p" "slot_of p d" "k < 4" "page_aligned q"
  shows "d + 8 * k \<noteq> next_page q"
proof
  obtain i where i: "i < 127" "d = page_slot p i" using assms(2) by (auto simp: slot_of_def)
  assume "d + 8 * k = next_page q"
  then have "p + 8 * (4 * i + k) = q + 8 * 508" unfolding i slot_field_eq next_page_eq .
  from page_word_inj(2) [OF assms(1,4) slot_word(2) [OF i(1) assms(3)] _ this] slot_word(3) [OF i(1) assms(3)]
  show False by simp
qed

lemma next_page_word:
  assumes "page_aligned p"
  shows "aligned8 (next_page p)" "frame (next_page p) = frame p"
  using page_word [OF assms, of 508] by (simp_all add: next_page_eq)

lemma next_page_inj: "next_page p = next_page q \<longleftrightarrow> p = q"
  by (simp add: next_page_eq)

lemma slot_of_page:
  assumes "page_aligned p" "slot_of p d"
  shows "d AND NOT (PAGE_SIZE - 1) = p" "frame d = frame p" "unat p \<le> unat d"
proof -
  obtain i where i: "i < 127" "d = p + 8 * (4 * i + 0)"
    using assms(2) slot_field_eq [of p _ 0] by (auto simp: slot_of_def)
  note w = page_word [OF assms(1) slot_word(2) [OF i(1), of 0], folded i(2)]
  show fr: "frame d = frame p" using w(2) by simp
  show "unat p \<le> unat d" using w(1) by simp
  have "unat (d AND NOT 0xFFF) = unat p"
    unfolding unat_and_not_mask12 frame_def [symmetric] fr by (rule page_aligned_unat [OF assms(1), symmetric])
  then have "d AND NOT 0xFFF = p" by (simp only: word_eq_iff_unsigned [where 'a = nat])
  then show "d AND NOT (PAGE_SIZE - 1) = p" by (simp add: PAGE_SIZE_def)
qed

lemma slot_nonnull: "page_aligned p \<Longrightarrow> p \<noteq> 0 \<Longrightarrow> slot_of p d \<Longrightarrow> d \<noteq> 0"
  using slot_of_page(3) [of p d] by (auto simp: unat_gt_0 [symmetric] simp del: unat_gt_0)

section \<open>Linked lists\<close>

text \<open>\<open>xs\<close> is the null-terminated list that starts at \<open>a\<close> and follows \<open>nxt\<close>.\<close>

fun linked :: "(virt_addr \<Rightarrow> virt_addr) \<Rightarrow> virt_addr \<Rightarrow> virt_addr list \<Rightarrow> bool" where
  "linked nxt a [] = (a = 0)"
| "linked nxt a (x # xs) = (a = x \<and> x \<noteq> 0 \<and> linked nxt (nxt x) xs)"

lemma linked_fun: "linked nxt a xs \<Longrightarrow> linked nxt a ys \<Longrightarrow> xs = ys"
  by (induction nxt a xs arbitrary: ys rule: linked.induct) (case_tac ys; auto)+

lemma linked_nonnull: "linked nxt a xs \<Longrightarrow> 0 \<notin> set xs"
  by (induction nxt a xs rule: linked.induct) auto

lemma linked_suffix: "linked nxt a (xs @ x # ys) \<Longrightarrow> linked nxt x (x # ys)"
  by (induction nxt a xs rule: linked.induct) auto

lemma linked_distinct: "linked nxt a xs \<Longrightarrow> distinct xs"
proof (induction nxt a xs rule: linked.induct)
  case (2 nxt a x xs)
  have "x \<notin> set xs"
  proof
    assume "x \<in> set xs"
    then obtain us vs where xs: "xs = us @ x # vs" by (auto simp: in_set_conv_decomp)
    from 2(2) have "linked nxt x (x # xs)" by simp
    moreover have "linked nxt x (x # vs)" using 2(2) linked_suffix [of nxt a "x # us" x vs] by (simp add: xs)
    ultimately have "x # xs = x # vs" by (rule linked_fun)
    then show False by (simp add: xs)
  qed
  with 2 show ?case by simp
qed simp

lemma linked_cong: "linked nxt a xs \<Longrightarrow> (\<And>x. x \<in> set xs \<Longrightarrow> nxt' x = nxt x) \<Longrightarrow> linked nxt' a xs"
  by (induction nxt a xs rule: linked.induct) auto

lemma linked_append:
  assumes "linked nxt a (xs @ [y])" "nxt' y = z" "z \<noteq> 0" "nxt' z = 0"
    and "\<And>x. x \<in> set xs \<Longrightarrow> nxt' x = nxt x"
  shows "linked nxt' a (xs @ [y, z])"
  using assms by (induction nxt a xs rule: linked.induct) auto

lemma linked_remove:
  assumes "linked nxt a (xs @ [y, z] @ ys)" "nxt' y = nxt z"
    and "\<And>x. x \<in> set (xs @ ys) \<Longrightarrow> nxt' x = nxt x"
  shows "linked nxt' a (xs @ y # ys)"
  using assms(1,3)
proof (induction xs arbitrary: a)
  case Nil
  have "linked nxt (nxt z) ys" using Nil(1) by simp
  then have "linked nxt' (nxt z) ys" by (rule linked_cong) (use Nil(2) in simp)
  with Nil show ?case using assms(2) by simp
qed auto

section \<open>The loops\<close>

lemma last_block_linked:
  "linked (\<lambda>d. load_u64 s (desc_next d)) a (xs @ [y]) \<Longrightarrow> last_block a s = Some y"
proof (induction xs arbitrary: a)
  case (Cons x xs)
  then have "load_u64 s (desc_next x) \<noteq> 0" by (cases xs) auto
  with Cons show ?case by (subst last_block.simps) auto
qed (subst last_block.simps, simp)

lemma find_block_linked:
  assumes "linked (\<lambda>d. load_u64 s (desc_next d)) a (xs @ y # ys)"
    and "\<forall>x \<in> set xs. load_u64 s (desc_ptr x) \<noteq> ptr" "load_u64 s (desc_ptr y) = ptr"
  shows "find_block a prev ptr s = Some (y, last (prev # xs))"
  using assms by (induction xs arbitrary: a prev) (subst find_block.simps; auto)+

lemma find_block_none:
  assumes "linked (\<lambda>d. load_u64 s (desc_next d)) a xs" "\<forall>x \<in> set xs. load_u64 s (desc_ptr x) \<noteq> ptr"
  shows "find_block a prev ptr s = Some (0, last (prev # xs))"
  using assms by (induction xs arbitrary: a prev) (subst find_block.simps; auto)+

lemma find_page_linked:
  assumes "linked (\<lambda>p. load_u64 s (next_page p)) a (xs @ y # ys)" "y \<notin> set xs"
  shows "find_page a prev y s = Some (y, last (prev # xs))"
  using assms by (induction xs arbitrary: a prev) (subst find_page.simps; auto)+

lemma find_unused_Some:
  "find_unused p is s = Some d \<Longrightarrow> \<exists>i \<in> set is. d = page_slot p i \<and> \<not> is_used s d"
  by (induction p "is" s rule: find_unused.induct) (auto split: if_splits)

lemma find_unused_None: "find_unused p is s = None \<longleftrightarrow> (\<forall>i \<in> set is. is_used s (page_slot p i))"
  by (induction p "is" s rule: find_unused.induct) auto

lemma scan_pages_linked:
  assumes "linked (\<lambda>p. load_u64 s (next_page p)) a pages"
  shows "(\<exists>d p prev'. scan_pages a prev s = Some (Some d, prev') \<and> p \<in> set pages \<and> slot_of p d \<and> \<not> is_used s d)
    \<or> scan_pages a prev s = Some (None, last (prev # pages))
      \<and> (\<forall>p \<in> set pages. \<forall>d. slot_of p d \<longrightarrow> is_used s d)"
  using assms
proof (induction pages arbitrary: a prev)
  case Nil
  then show ?case by (simp add: scan_pages.simps)
next
  case (Cons p pages)
  show ?case
  proof (cases "find_unused p (for_range 0 MAX_MANAGEMENT_BLOCKS_PER_PAGE) s")
    case None
    then have "is_used s d" if "slot_of p d" for d
      using that by (auto simp: find_unused_None set_for_range MAX_MANAGEMENT_BLOCKS_PER_PAGE_eq slot_of_def)
    moreover have "scan_pages a prev s = scan_pages (load_u64 s (next_page p)) p s"
      using Cons.prems None by (subst scan_pages.simps) simp
    ultimately show ?thesis using Cons.IH [of "load_u64 s (next_page p)" p] Cons.prems
      by (simp only: linked.simps) force
  next
    case (Some d)
    then have "slot_of p d" "\<not> is_used s d"
      using find_unused_Some [OF Some] by (auto simp: set_for_range MAX_MANAGEMENT_BLOCKS_PER_PAGE_eq slot_of_def)
    moreover have "scan_pages a prev s = Some (Some d, prev)"
      using Cons.prems Some by (subst scan_pages.simps) simp
    ultimately show ?thesis by force
  qed
qed

end
