(* ===== verification/Kalloc_Inv.thy ===== *)
theory Kalloc_Inv
  imports Kalloc_Fields
begin

text \<open>
  The invariant of the kernel heap. A heap state is described by the list of its management
  pages and the list of its live blocks (descriptor, pointer, size). \<open>heap_links\<close> says that the
  linked structures in memory are exactly these lists; it depends on the management pages and
  the two list heads only. \<open>heap_owned\<close> says that the pages the heap holds belong to it: they
  are pairwise disjoint blocks of the page allocator, and the used frames are exactly the
  heap's plus the frames \<open>base\<close> that others hold.
\<close>

section \<open>Invariant\<close>

type_synonym heap_block = "virt_addr \<times> virt_addr \<times> u64"

definition size_ok :: "u64 \<Rightarrow> bool" where
  "size_ok sz \<longleftrightarrow> sz \<noteq> 0 \<and> unat sz + 4095 < 2 ^ 64"

text \<open>The frames of a management page, and the pages and blocks as blocks of the page allocator.\<close>

definition page_blocks :: "'a mem_state_scheme \<Rightarrow> virt_addr list \<Rightarrow> (phy_addr \<times> u64) list" where
  "page_blocks s pages = map (\<lambda>p. (va_to_pa s p, 1)) pages"

definition user_blocks :: "'a mem_state_scheme \<Rightarrow> heap_block list \<Rightarrow> (phy_addr \<times> u64) list" where
  "user_blocks s bs = map (\<lambda>(d, ptr, sz). (va_to_pa s ptr, NUM_PAGES sz)) bs"

definition page_frames :: "'a mem_state_scheme \<Rightarrow> virt_addr list \<Rightarrow> nat set" where
  "page_frames s pages = (\<lambda>p. frame (va_to_pa s p)) ` set pages"

definition linear_map_ok :: "'a alloc_state_scheme \<Rightarrow> bool" where
  "linear_map_ok s \<longleftrightarrow>
     (kernel_base_va s = 0 \<or> kernel_base_va s = KERNEL_BASE)
     \<and> (\<forall>i \<in> inits s. \<forall>f \<in> chunk_frames (mem_chunks s ! i). f < 2 ^ 36)"

definition heap_links :: "'a kalloc_state_scheme \<Rightarrow> virt_addr list \<Rightarrow> heap_block list \<Rightarrow> bool" where
  "heap_links s pages bs \<longleftrightarrow>
     linked (\<lambda>p. load_u64 s (next_page p)) (kalloc_page_head s) pages
     \<and> linked (\<lambda>d. load_u64 s (desc_next d)) (allocated s) (map fst bs)
     \<and> (\<forall>p \<in> set pages. page_aligned p)
     \<and> (\<forall>(d, ptr, sz) \<in> set bs. load_u64 s (desc_ptr d) = ptr \<and> load_u64 s (desc_size d) = sz)
     \<and> (\<forall>d \<in> fst ` set bs. \<exists>p \<in> set pages. slot_of p d)
     \<and> (\<forall>p \<in> set pages. \<forall>d. slot_of p d \<longrightarrow> (is_used s d \<longleftrightarrow> d \<in> fst ` set bs))"

definition heap_owned :: "nat set \<Rightarrow> 'a alloc_state_scheme \<Rightarrow> virt_addr list \<Rightarrow> heap_block list \<Rightarrow> bool" where
  "heap_owned base s pages bs \<longleftrightarrow>
     alloc_inv s \<and> linear_map_ok s
     \<and> (\<forall>(d, ptr, sz) \<in> set bs. size_ok sz \<and> ptr \<noteq> 0 \<and> page_aligned ptr)
     \<and> (\<forall>(p, n) \<in> set (page_blocks s pages @ user_blocks s bs). owns_block s p n)
     \<and> pairwise_apart (page_blocks s pages @ user_blocks s bs)
     \<and> used_frames s = base \<union> live_frames (page_blocks s pages @ user_blocks s bs)
     \<and> base \<inter> live_frames (page_blocks s pages @ user_blocks s bs) = {}"

definition heap_rep :: "nat set \<Rightarrow> 'a kalloc_state_scheme \<Rightarrow> virt_addr list \<Rightarrow> heap_block list \<Rightarrow> bool" where
  "heap_rep base s pages bs \<longleftrightarrow> heap_links s pages bs \<and> heap_owned base s pages bs"

section \<open>The bookkeeping pages\<close>

lemma base_aligned: "linear_map_ok s \<Longrightarrow> base_aligned s"
  by (auto simp: linear_map_ok_def base_aligned_def page_aligned_def KERNEL_BASE_def)

text \<open>Every managed page but page 0 has a non-null pointer.\<close>

lemma managed_nonnull:
  assumes "linear_map_ok s" "i \<in> inits s" "frame p \<in> chunk_frames (mem_chunks s ! i)" "p \<noteq> 0"
  shows "pa_to_va s p \<noteq> 0"
proof -
  have "frame p < 2 ^ 36" using assms by (auto simp: linear_map_ok_def)
  then have "unat p < 2 ^ 48" unfolding frame_def by (simp add: div_less_iff_less_mult)
  then have "unat (KERNEL_BASE + p) = unat KERNEL_BASE + unat p"
    by (intro unat_add64) (simp add: KERNEL_BASE_def)
  then have "KERNEL_BASE + p \<noteq> 0" by (auto simp: KERNEL_BASE_def simp flip: unat_eq_0)
  then show ?thesis using assms(1,4) by (auto simp: linear_map_ok_def pa_to_va_def)
qed

lemma heap_linksD:
  assumes "heap_links s pages bs"
  shows "linked (\<lambda>p. load_u64 s (next_page p)) (kalloc_page_head s) pages"
    and "linked (\<lambda>d. load_u64 s (desc_next d)) (allocated s) (map fst bs)"
    and "p \<in> set pages \<Longrightarrow> page_aligned p"
    and "p \<in> set pages \<Longrightarrow> p \<noteq> 0"
    and "(d, ptr, sz) \<in> set bs \<Longrightarrow> load_u64 s (desc_ptr d) = ptr \<and> load_u64 s (desc_size d) = sz"
    and "d \<in> fst ` set bs \<Longrightarrow> \<exists>p \<in> set pages. slot_of p d"
    and "p \<in> set pages \<Longrightarrow> slot_of p d \<Longrightarrow> is_used s d \<longleftrightarrow> d \<in> fst ` set bs"
proof -
  note h = assms [unfolded heap_links_def]
  show "linked (\<lambda>p. load_u64 s (next_page p)) (kalloc_page_head s) pages"
    and "linked (\<lambda>d. load_u64 s (desc_next d)) (allocated s) (map fst bs)"
    and "p \<in> set pages \<Longrightarrow> page_aligned p"
    and "d \<in> fst ` set bs \<Longrightarrow> \<exists>p \<in> set pages. slot_of p d"
    and "p \<in> set pages \<Longrightarrow> slot_of p d \<Longrightarrow> is_used s d \<longleftrightarrow> d \<in> fst ` set bs"
    using h by blast+
  show "(d, ptr, sz) \<in> set bs \<Longrightarrow> load_u64 s (desc_ptr d) = ptr \<and> load_u64 s (desc_size d) = sz"
    using h by fast
  show "p \<in> set pages \<Longrightarrow> p \<noteq> 0" using h linked_nonnull by metis
qed

text \<open>A field of a descriptor or page is an aligned word of a management page.\<close>

lemma desc_fields: "desc_ptr d = d + 8 * 0" "desc_size d = d + 8 * 1" "desc_is_used d = d + 8 * 2"
  "desc_next d = d + 8 * 3"
  by (simp_all add: desc_ptr_def desc_size_def desc_is_used_def desc_next_def)

lemma slot_fields_aligned:
  assumes "page_aligned p" "slot_of p d"
  shows "aligned8 (desc_ptr d)" "aligned8 (desc_size d)" "aligned8 (desc_is_used d)" "aligned8 (desc_next d)"
  unfolding desc_fields by (rule slot_field(1) [OF assms], simp)+

lemma slot_fields_distinct:
  assumes "page_aligned p" "slot_of p d" "page_aligned q" "slot_of q e"
  shows "desc_ptr d = desc_ptr e \<longleftrightarrow> d = e" "desc_size d = desc_size e \<longleftrightarrow> d = e"
    "desc_is_used d = desc_is_used e \<longleftrightarrow> d = e" "desc_next d = desc_next e \<longleftrightarrow> d = e"
    "desc_ptr d \<noteq> desc_size e" "desc_ptr d \<noteq> desc_is_used e" "desc_ptr d \<noteq> desc_next e"
    "desc_size d \<noteq> desc_ptr e" "desc_size d \<noteq> desc_is_used e" "desc_size d \<noteq> desc_next e"
    "desc_is_used d \<noteq> desc_ptr e" "desc_is_used d \<noteq> desc_size e" "desc_is_used d \<noteq> desc_next e"
    "desc_next d \<noteq> desc_ptr e" "desc_next d \<noteq> desc_size e" "desc_next d \<noteq> desc_is_used e"
  unfolding desc_fields by (subst slot_field_inj [OF assms(1,2) _ assms(3,4)]; simp)+

lemma slot_fields_next_page:
  assumes "page_aligned p" "slot_of p d" "page_aligned q"
  shows "desc_ptr d \<noteq> next_page q" "desc_size d \<noteq> next_page q" "desc_is_used d \<noteq> next_page q"
    "desc_next d \<noteq> next_page q"
  unfolding desc_fields by (rule slot_not_next_page [OF assms(1,2) _ assms(3)], simp)+

section \<open>What the invariants depend on\<close>

text \<open>The links depend on the contents of the management pages and on the list heads.\<close>

lemma page_word_frame:
  assumes "base_aligned s" "page_aligned p" "frame (a :: virt_addr) = frame p"
  shows "frame (va_to_pa s a) = frame (va_to_pa s p)"
proof -
  define k where "k = unat a - unat p"
  have le: "unat p \<le> unat a" "k < 4096"
    using assms(3) page_aligned_unat [OF assms(2)] mod_less_divisor [of 4096 "unat a"]
      div_mult_mod_eq [of "unat a" 4096] unfolding k_def frame_def by linarith+
  then have "a = p + of_nat k"
    by (simp add: k_def of_nat_diff)
  then have "va_to_pa s a = va_to_pa s p + of_nat k" by (simp add: va_to_pa_add)
  moreover have "page_aligned (va_to_pa s p)" using assms(1,2) by (simp add: va_to_pa_aligned)
  ultimately show ?thesis using frame_add(2) [of "va_to_pa s p" "of_nat k"] le(2) by (simp add: unat_of_nat64)
qed

lemma field_frames:
  assumes "base_aligned s" "page_aligned p" "slot_of p d"
  shows "frame (va_to_pa s (desc_ptr d)) = frame (va_to_pa s p)" "frame (va_to_pa s (desc_size d)) = frame (va_to_pa s p)"
    "frame (va_to_pa s (desc_is_used d)) = frame (va_to_pa s p)" "frame (va_to_pa s (desc_next d)) = frame (va_to_pa s p)"
    "frame (va_to_pa s (next_page p)) = frame (va_to_pa s p)"
  unfolding desc_fields
  by (rule page_word_frame [OF assms(1,2)], rule slot_field(2) [OF assms(2,3)] next_page_word(2) [OF assms(2)], simp?)+

lemma heap_links_cong:
  assumes h: "heap_links s pages bs" and al: "base_aligned s"
    and heads: "kalloc_page_head s' = kalloc_page_head s" "allocated s' = allocated s"
      "kernel_base_va s' = kernel_base_va s"
    and m: "\<And>a. frame a \<in> page_frames s pages \<Longrightarrow> mem s' a = mem s a"
  shows "heap_links s' pages bs"
proof -
  have va: "va_to_pa s' = va_to_pa s" by (rule va_to_pa_cong [OF heads(3)])
  have ld: "load_u64 s' a = load_u64 s a" if "p \<in> set pages" "aligned8 a" "frame (va_to_pa s a) = frame (va_to_pa s p)" for a p
    unfolding load_u64_def va
    by (rule load64_frame_cong) (use that m al in \<open>auto simp: va_to_pa_aligned page_frames_def\<close>)
  have lp: "load_u64 s' (next_page p) = load_u64 s (next_page p)" if "p \<in> set pages" for p
    using heap_linksD(3) [OF h that] that next_page_word [of p] page_word_frame [OF al, of p "next_page p"] by (intro ld) auto
  have lf: "load_u64 s' (desc_ptr d) = load_u64 s (desc_ptr d)" "load_u64 s' (desc_size d) = load_u64 s (desc_size d)"
    "load_u64 s' (desc_next d) = load_u64 s (desc_next d)" "is_used s' d = is_used s d"
    if "p \<in> set pages" "slot_of p d" for p d
  proof -
    note pa = heap_linksD(3) [OF h that(1)]
    note f = field_frames [OF al pa that(2)] slot_fields_aligned [OF pa that(2)]
    show "load_u64 s' (desc_ptr d) = load_u64 s (desc_ptr d)" "load_u64 s' (desc_size d) = load_u64 s (desc_size d)"
      "load_u64 s' (desc_next d) = load_u64 s (desc_next d)"
      by (rule ld [OF that(1)]; simp add: f)+
    show "is_used s' d = is_used s d"
      using m [of "va_to_pa s (desc_is_used d)"] f(3) that(1) by (simp add: is_used_def load_byte_def va page_frames_def)
  qed
  have "linked (\<lambda>p. load_u64 s' (next_page p)) (kalloc_page_head s') pages"
    using heap_linksD(1) [OF h] lp by (simp add: heads linked_cong)
  moreover have "linked (\<lambda>d. load_u64 s' (desc_next d)) (allocated s') (map fst bs)"
    unfolding heads by (rule linked_cong [OF heap_linksD(2) [OF h]]) (use heap_linksD(6) [OF h] lf(3) in force)
  moreover have "load_u64 s' (desc_ptr d) = ptr \<and> load_u64 s' (desc_size d) = sz" if "(d, ptr, sz) \<in> set bs" for d ptr sz
    using heap_linksD(5) [OF h that] heap_linksD(6) [OF h, of d] lf(1,2) that by force
  ultimately show ?thesis
    unfolding heap_links_def using heap_linksD(3,6,7) [OF h] lf(4) by blast
qed

text \<open>Ownership depends on the bitmaps only.\<close>

lemma used_frames_upd:
  assumes "alloc_inv s" "\<And>a. is_bitmap_frame s (frame a) \<Longrightarrow> m a = mem s a"
  shows "used_frames (s\<lparr>mem := m\<rparr>) = used_frames s" "alloc_inv (s\<lparr>mem := m\<rparr>)"
  using alloc_view_mem_upd [OF assms] by (simp_all add: used_frames_def)

lemma blocks_upd [simp]:
  "page_blocks (s\<lparr>mem := m\<rparr>) = page_blocks s" "user_blocks (s\<lparr>mem := m\<rparr>) = user_blocks s"
  "page_frames (s\<lparr>mem := m\<rparr>) = page_frames s"
  by (simp_all add: page_blocks_def user_blocks_def page_frames_def va_to_pa_def fun_eq_iff)

lemma linear_map_ok_upd [simp]: "linear_map_ok (s\<lparr>mem := m\<rparr>) = linear_map_ok s"
  by (simp add: linear_map_ok_def)

lemma live_page_blocks: "live_frames (page_blocks s pages) = page_frames s pages"
  by (auto simp: live_frames_def page_blocks_def page_frames_def block_frames_def)

lemma owned_not_bitmap:
  assumes "alloc_inv s" "owns_block s p n" "f \<in> block_frames p n"
  shows "\<not> is_bitmap_frame s f"
proof
  assume "is_bitmap_frame s f"
  then obtain j where j: "j \<in> inits s" "f \<in> bitmap_frames (mem_chunks s ! j)" by (auto simp: is_bitmap_frame_def)
  obtain i where i: "i \<in> inits s" "f \<in> chunk_frames (mem_chunks s ! i)" "f \<notin> bitmap_frames (mem_chunks s ! i)"
    using assms(2,3) by (auto simp: owns_block_def)
  have "f \<in> chunk_frames (mem_chunks s ! j)"
    using bitmap_frames_sub [OF alloc_invD(1) [OF assms(1) j(1)]] j(2) by blast
  with owner_unique [OF assms(1) i(1) j(1) i(2)] have "i = j" by blast
  with i(3) j(2) show False by simp
qed

lemma heap_ownedD:
  assumes "heap_owned base s pages bs"
  shows "alloc_inv s" "linear_map_ok s" "base_aligned s"
    and "(d, ptr, sz) \<in> set bs \<Longrightarrow> size_ok sz \<and> ptr \<noteq> 0 \<and> page_aligned ptr \<and> owns_block s (va_to_pa s ptr) (NUM_PAGES sz)"
    and "p \<in> set pages \<Longrightarrow> owns_block s (va_to_pa s p) 1"
    and "f \<in> page_frames s pages \<Longrightarrow> \<not> is_bitmap_frame s f"
proof -
  note h = assms [unfolded heap_owned_def]
  show inv: "alloc_inv s" "linear_map_ok s" "base_aligned s" using h base_aligned by blast+
  show own: "p \<in> set pages \<Longrightarrow> owns_block s (va_to_pa s p) 1" for p
    using h by (auto simp: page_blocks_def)
  show "size_ok sz \<and> ptr \<noteq> 0 \<and> page_aligned ptr \<and> owns_block s (va_to_pa s ptr) (NUM_PAGES sz)"
    if "(d, ptr, sz) \<in> set bs"
  proof -
    have "(va_to_pa s ptr, NUM_PAGES sz) \<in> set (user_blocks s bs)"
      using imageI [OF that, of "\<lambda>(d, ptr, sz). (va_to_pa s ptr, NUM_PAGES sz)"] by (simp add: user_blocks_def)
    moreover have "\<forall>(p, n) \<in> set (user_blocks s bs). owns_block s p n" using h by auto
    moreover have "\<forall>(d, ptr, sz) \<in> set bs. size_ok sz \<and> ptr \<noteq> 0 \<and> page_aligned ptr" using h by blast
    ultimately show ?thesis using that by auto
  qed
  show "\<not> is_bitmap_frame s f" if f: "f \<in> page_frames s pages"
  proof -
    obtain p where "p \<in> set pages" "f = frame (va_to_pa s p)" using f by (auto simp: page_frames_def)
    then show ?thesis using owned_not_bitmap [OF inv(1) own] by (simp add: block_frames_def)
  qed
qed

text \<open>Memory changes outside the bitmaps keep the ownership.\<close>

lemma heap_owned_upd:
  assumes h: "heap_owned base s pages bs" and m: "\<And>a. is_bitmap_frame s (frame a) \<Longrightarrow> m a = mem s a"
  shows "heap_owned base (s\<lparr>mem := m\<rparr>) pages bs"
  using h used_frames_upd [OF heap_ownedD(1) [OF h] m]
  by (simp add: heap_owned_def case_prod_beta)

lemma heap_owned_heads [simp]:
  "heap_owned base (s\<lparr>kalloc_page_head := x\<rparr>) pages bs = heap_owned base s pages bs"
  "heap_owned base (s\<lparr>allocated := x\<rparr>) pages bs = heap_owned base s pages bs"
  by (simp_all add: heap_owned_def linear_map_ok_def alloc_inv_def inits_def chunk_shape_def pa_to_va_def
      bitmap_marked_def page_used_def va_to_pa_def used_frames_def frame_used_def page_blocks_def user_blocks_def
      owns_block_def)

end
