(* ===== verification/Kalloc_Pages.thy ===== *)
theory Kalloc_Pages
  imports Kalloc_Inv
begin

text \<open>
  The management pages of the heap: \<^verbatim>\<open>alloc_management_page\<close> delivers a cleared page that nobody
  else uses, the heap may append it to its chain, and \<^verbatim>\<open>find_free_management_block\<close> always
  returns, with an unused descriptor or with null when there is none and no page is free.
\<close>

section \<open>Field updates\<close>

text \<open>
  What the fields of a descriptor \<open>e\<close> and of a page \<open>q\<close> read after a store to a field of a
  descriptor \<open>d\<close> or to the link of a page \<open>p\<close>.
\<close>

lemma store_slot:
  assumes "base_aligned s" "page_aligned p" "slot_of p d" "page_aligned q" "slot_of q e"
  shows "load_u64 (store_u64 (desc_next d) x s) (desc_next e) = (if e = d then x else load_u64 s (desc_next e))"
    "load_u64 (store_u64 (desc_next d) x s) (desc_ptr e) = load_u64 s (desc_ptr e)"
    "load_u64 (store_u64 (desc_next d) x s) (desc_size e) = load_u64 s (desc_size e)"
    "is_used (store_u64 (desc_next d) x s) e = is_used s e"
    "load_u64 (store_u64 (desc_ptr d) x s) (desc_next e) = load_u64 s (desc_next e)"
    "load_u64 (store_u64 (desc_ptr d) x s) (desc_ptr e) = (if e = d then x else load_u64 s (desc_ptr e))"
    "load_u64 (store_u64 (desc_ptr d) x s) (desc_size e) = load_u64 s (desc_size e)"
    "is_used (store_u64 (desc_ptr d) x s) e = is_used s e"
    "load_u64 (store_u64 (desc_size d) x s) (desc_next e) = load_u64 s (desc_next e)"
    "load_u64 (store_u64 (desc_size d) x s) (desc_ptr e) = load_u64 s (desc_ptr e)"
    "load_u64 (store_u64 (desc_size d) x s) (desc_size e) = (if e = d then x else load_u64 s (desc_size e))"
    "is_used (store_u64 (desc_size d) x s) e = is_used s e"
    "load_u64 (set_is_used d b s) (desc_next e) = load_u64 s (desc_next e)"
    "load_u64 (set_is_used d b s) (desc_ptr e) = load_u64 s (desc_ptr e)"
    "load_u64 (set_is_used d b s) (desc_size e) = load_u64 s (desc_size e)"
    "is_used (set_is_used d b s) e = (if e = d then b else is_used s e)"
  using slot_fields_distinct [OF assms(4,5,2,3)]
  by (simp_all add: load_store_u64 load_byte_store_u64 load_u64_store_byte is_used_def set_is_used_def
      slot_fields_aligned [OF assms(2,3)] slot_fields_aligned [OF assms(4,5)] assms(1))

lemma store_slot_page:
  assumes "base_aligned s" "page_aligned p" "slot_of p d" "page_aligned q"
  shows "load_u64 (store_u64 (desc_next d) x s) (next_page q) = load_u64 s (next_page q)"
    "load_u64 (store_u64 (desc_ptr d) x s) (next_page q) = load_u64 s (next_page q)"
    "load_u64 (store_u64 (desc_size d) x s) (next_page q) = load_u64 s (next_page q)"
    "load_u64 (set_is_used d b s) (next_page q) = load_u64 s (next_page q)"
  using slot_fields_next_page [OF assms(2,3,4)]
  by (simp_all add: load_store_u64 load_u64_store_byte set_is_used_def
      slot_fields_aligned [OF assms(2,3)] next_page_word(1) [OF assms(4)] assms(1) not_sym)

lemma store_page_slot:
  assumes "base_aligned s" "page_aligned p" "page_aligned q" "slot_of q e"
  shows "load_u64 (store_u64 (next_page p) x s) (desc_next e) = load_u64 s (desc_next e)"
    "load_u64 (store_u64 (next_page p) x s) (desc_ptr e) = load_u64 s (desc_ptr e)"
    "load_u64 (store_u64 (next_page p) x s) (desc_size e) = load_u64 s (desc_size e)"
    "is_used (store_u64 (next_page p) x s) e = is_used s e"
  using slot_fields_next_page [OF assms(3,4,2)]
  by (simp_all add: load_store_u64 load_byte_store_u64 is_used_def
      slot_fields_aligned [OF assms(3,4)] next_page_word(1) [OF assms(2)] assms(1))

lemma store_page_page:
  assumes "base_aligned s" "page_aligned p" "page_aligned q"
  shows "load_u64 (store_u64 (next_page p) x s) (next_page q) = (if q = p then x else load_u64 s (next_page q))"
  using assms by (simp add: load_store_u64 next_page_word(1) next_page_inj)

lemmas field_stores = store_slot store_slot_page store_page_slot store_page_page

lemma store_heads [simp]:
  "kalloc_page_head (store_u64 p x s) = kalloc_page_head s" "allocated (store_u64 p x s) = allocated s"
  "kalloc_page_head (set_is_used d b s) = kalloc_page_head s" "allocated (set_is_used d b s) = allocated s"
  "mem_chunks (store_u64 p x s) = mem_chunks s" "mem_chunks (set_is_used d b s) = mem_chunks s"
  "kernel_base_va (set_is_used d b s) = kernel_base_va s" "base_aligned (set_is_used d b s) = base_aligned s"
  "va_to_pa (set_is_used d b s) = va_to_pa s" "pa_to_va (set_is_used d b s) = pa_to_va s"
  by (simp_all add: store_u64_def store_byte_def set_is_used_def base_aligned_def va_to_pa_def pa_to_va_def fun_eq_iff)

section \<open>Clearing a page\<close>

lemma fill_mem_only: "fill n p v s = s\<lparr>mem := mem (fill n p v s)\<rparr>"
proof (induction n arbitrary: p s)
  case (Suc n)
  have "fill n (p + 1) v (store_byte p v s) = (store_byte p v s)\<lparr>mem := mem (fill n (p + 1) v (store_byte p v s))\<rparr>"
    by (rule Suc.IH)
  then show ?case by (simp add: store_byte_def)
qed simp

lemma page_span:
  assumes "page_aligned p"
  shows "unat (a - p) < 4096 \<longleftrightarrow> frame a = frame p"
proof
  assume lt: "unat (a - p) < 4096"
  have "a = p + (a - p)" by simp
  then show "frame a = frame p" using frame_add(2) [OF assms lt] by metis
next
  assume fr: "frame a = frame p"
  have "unat p \<le> unat a" "unat a - unat p < 4096"
    using fr page_aligned_unat [OF assms] mod_less_divisor [of 4096 "unat a"]
      div_mult_mod_eq [of "unat a" 4096] unfolding frame_def by linarith+
  then show "unat (a - p) < 4096" by (simp add: unat_sub64 word_le_nat_alt)
qed

lemma fill_page:
  assumes "page_aligned (va_to_pa s p)"
  shows "fill 4096 p v s = s\<lparr>mem := \<lambda>a. if frame a = frame (va_to_pa s p) then v else mem s a\<rparr>"
proof -
  define s' where "s' = fill 4096 p v s"
  have eq: "s' = s\<lparr>mem := mem s'\<rparr>" unfolding s'_def by (rule fill_mem_only)
  have "mem s' a = (if frame a = frame (va_to_pa s p) then v else mem s a)" for a
  proof -
    have "load_byte s' (pa_to_va s a) = (if unat (pa_to_va s a - p) < 4096 then v else load_byte s (pa_to_va s a))"
      unfolding s'_def by (rule fill_byte) simp
    moreover have "load_byte s' (pa_to_va s a) = mem s' a"
      by (subst eq) (simp add: load_byte_def va_to_pa_def pa_to_va_def)
    moreover have "pa_to_va s a - p = a - va_to_pa s p" by (simp add: pa_to_va_def va_to_pa_def)
    moreover have "load_byte s (pa_to_va s a) = mem s a" by (simp add: load_byte_def)
    ultimately show ?thesis using page_span [OF assms, of a] by simp
  qed
  then have "mem s' = (\<lambda>a. if frame a = frame (va_to_pa s p) then v else mem s a)" by (rule ext)
  then show ?thesis using eq by (simp add: s'_def)
qed

section \<open>New management pages\<close>

lemma page_alloc_frame:
  assumes "alloc_inv s" "page_alloc n s = (p, s')" "p \<noteq> PHYS_ADDR_NULL"
  shows "page_aligned p" "\<And>a. \<not> is_bitmap_frame s (frame a) \<Longrightarrow> mem s' a = mem s a"
proof -
  obtain ci c where "ci \<in> inits s" "c = mem_chunks s ! ci" and al: "page_aligned p"
    and out: "\<And>a. frame a \<notin> bitmap_frames c \<Longrightarrow> mem s' a = mem s a"
    by (rule page_alloc_success [OF assms]) blast
  then show "page_aligned p" "\<And>a. \<not> is_bitmap_frame s (frame a) \<Longrightarrow> mem s' a = mem s a"
    by (auto simp: is_bitmap_frame_def)
qed

lemma owned_nonnull:
  assumes "alloc_inv s" "linear_map_ok s" "owns_block s p n" "p \<noteq> 0"
  shows "pa_to_va s p \<noteq> 0"
proof -
  obtain i where i: "i \<in> inits s" "block_frames p n \<subseteq> chunk_frames (mem_chunks s ! i)" "n \<noteq> 0"
    using assms(3) by (auto simp: owns_block_def)
  then have "frame p \<in> chunk_frames (mem_chunks s ! i)" by (auto simp: block_frames_def unat_gt_0)
  from managed_nonnull [OF assms(2) i(1) this assms(4)] show ?thesis .
qed

lemma alloc_management_page_null:
  assumes "alloc_inv s" "linear_map_ok s" "alloc_management_page s = (0, s')"
  shows "s' = s \<and> fst (page_alloc 1 s) = PHYS_ADDR_NULL"
proof -
  obtain p s1 where a: "page_alloc 1 s = (p, s1)" by (cases "page_alloc 1 s")
  have "p = PHYS_ADDR_NULL"
  proof (rule ccontr)
    assume p: "p \<noteq> PHYS_ADDR_NULL"
    note own = page_alloc_owned [OF assms(1) a p]
    have "kernel_base_va s1 = kernel_base_va s" by (subst own(5)) simp
    then have "pa_to_va s1 p \<noteq> 0"
      using owned_nonnull [OF assms(1,2) own(2)] p pa_to_va_cong [of s1 s] by (simp add: PHYS_ADDR_NULL_def)
    then show False using assms(3) p
      by (simp add: alloc_management_page_def a memset_s_def memset_def PAGE_SIZE_def Let_def)
  qed
  then show ?thesis using assms(3) a page_alloc_fail(1) [OF assms(1), of 1 s1]
    by (simp add: alloc_management_page_def)
qed

lemma alloc_management_page_ok:
  assumes inv: "alloc_inv s" and lin: "linear_map_ok s" and r: "alloc_management_page s = (v, s')" "v \<noteq> 0"
  defines "P \<equiv> va_to_pa s v"
  shows "page_aligned v" "owns_block s P 1" "frame P \<notin> used_frames s"
    "used_frames s' = insert (frame P) (used_frames s)" "alloc_inv s'" "s' = s\<lparr>mem := mem s'\<rparr>"
    "\<And>a. \<not> is_bitmap_frame s (frame a) \<Longrightarrow> frame a \<noteq> frame P \<Longrightarrow> mem s' a = mem s a"
    "\<And>a. frame a = frame P \<Longrightarrow> mem s' a = 0"
proof -
  obtain p s1 where a: "page_alloc 1 s = (p, s1)" by (cases "page_alloc 1 s")
  have p: "p \<noteq> PHYS_ADDR_NULL" using r a by (auto simp: alloc_management_page_def)
  note own = page_alloc_owned [OF inv a p] and fr = page_alloc_frame [OF inv a p]
  have kb: "kernel_base_va s1 = kernel_base_va s" by (subst own(5)) simp
  note va = va_to_pa_cong [OF kb] pa_to_va_cong [OF kb]
  have nz: "pa_to_va s p \<noteq> 0" using owned_nonnull [OF inv lin own(2)] p by (simp add: PHYS_ADDR_NULL_def)
  have v: "v = pa_to_va s p" and s': "s' = fill 4096 (pa_to_va s p) 0 s1"
    using r a p nz by (auto simp: alloc_management_page_def memset_s_def memset_def PAGE_SIZE_def Let_def va)
  have P: "P = p" by (simp add: P_def v)
  have al: "base_aligned s" by (rule base_aligned [OF lin])
  show "page_aligned v" using fr(1) va_to_pa_aligned(1) [OF al, of v] by (simp add: v)
  show "owns_block s P 1" using own(2) by (simp add: P)
  have bf: "block_frames p 1 = {frame P}" by (simp add: block_frames_def P)
  have s'eq: "s' = s1\<lparr>mem := \<lambda>a. if frame a = frame P then 0 else mem s1 a\<rparr>"
    unfolding s' using fill_page [of s1 "pa_to_va s p" 0] fr(1) by (simp add: va P)
  have nb: "\<not> is_bitmap_frame s1 (frame P)"
  proof -
    have "\<not> is_bitmap_frame s (frame P)" using owned_not_bitmap [OF inv own(2)] bf by simp
    then show ?thesis by (subst own(5)) (simp add: is_bitmap_frame_def)
  qed
  have us: "used_frames s' = used_frames s1" "alloc_inv s'"
    unfolding s'eq by (rule used_frames_upd [OF own(1)]; use nb in auto)+
  show "frame P \<notin> used_frames s" "used_frames s' = insert (frame P) (used_frames s)" "alloc_inv s'"
    using own(3,4) us bf by auto
  show "s' = s\<lparr>mem := mem s'\<rparr>" unfolding s'eq by (subst own(5)) simp
  show "mem s' a = mem s a" if "\<not> is_bitmap_frame s (frame a)" "frame a \<noteq> frame P" for a
    using that fr(2) by (simp add: s'eq)
  show "mem s' a = 0" if "frame a = frame P" for a using that by (simp add: s'eq)
qed

section \<open>Growing the chain\<close>

definition link_page :: "virt_addr list \<Rightarrow> virt_addr \<Rightarrow> 'a kalloc_state_scheme \<Rightarrow> 'a kalloc_state_scheme" where
  "link_page pages v s =
     store_u64 (next_page v) 0
       (if pages = [] then s\<lparr>kalloc_page_head := v\<rparr> else store_u64 (next_page (last pages)) v s)"

lemma load_head_upd [simp]:
  "load_u64 (s\<lparr>kalloc_page_head := v\<rparr>) = load_u64 s" "is_used (s\<lparr>kalloc_page_head := v\<rparr>) = is_used s"
  "base_aligned (s\<lparr>kalloc_page_head := v\<rparr>) = base_aligned s"
  "load_u64 (s\<lparr>allocated := v\<rparr>) = load_u64 s" "is_used (s\<lparr>allocated := v\<rparr>) = is_used s"
  "base_aligned (s\<lparr>allocated := v\<rparr>) = base_aligned s"
  "va_to_pa (s\<lparr>kalloc_page_head := v\<rparr>) = va_to_pa s" "va_to_pa (s\<lparr>allocated := v\<rparr>) = va_to_pa s"
  by (simp_all add: load_u64_def is_used_def load_byte_def va_to_pa_def base_aligned_def fun_eq_iff)

lemma link_page_fields:
  assumes al: "base_aligned s" and pages: "\<forall>p \<in> set pages. page_aligned p" and v: "page_aligned v" "v \<notin> set pages"
    and q: "page_aligned q"
  shows "load_u64 (link_page pages v s) (next_page q) =
      (if q = v then 0 else if pages \<noteq> [] \<and> q = last pages then v else load_u64 s (next_page q))"
    and "slot_of q e \<Longrightarrow> load_u64 (link_page pages v s) (desc_next e) = load_u64 s (desc_next e)"
    and "slot_of q e \<Longrightarrow> load_u64 (link_page pages v s) (desc_ptr e) = load_u64 s (desc_ptr e)"
    and "slot_of q e \<Longrightarrow> load_u64 (link_page pages v s) (desc_size e) = load_u64 s (desc_size e)"
    and "slot_of q e \<Longrightarrow> is_used (link_page pages v s) e = is_used s e"
    and "kalloc_page_head (link_page pages v s) = (if pages = [] then v else kalloc_page_head s)"
    and "allocated (link_page pages v s) = allocated s" "base_aligned (link_page pages v s)"
proof -
  have l: "pages \<noteq> [] \<Longrightarrow> page_aligned (last pages)" using pages by simp
  show "load_u64 (link_page pages v s) (next_page q) =
      (if q = v then 0 else if pages \<noteq> [] \<and> q = last pages then v else load_u64 s (next_page q))"
    and "slot_of q e \<Longrightarrow> load_u64 (link_page pages v s) (desc_next e) = load_u64 s (desc_next e)"
    and "slot_of q e \<Longrightarrow> load_u64 (link_page pages v s) (desc_ptr e) = load_u64 s (desc_ptr e)"
    and "slot_of q e \<Longrightarrow> load_u64 (link_page pages v s) (desc_size e) = load_u64 s (desc_size e)"
    and "slot_of q e \<Longrightarrow> is_used (link_page pages v s) e = is_used s e"
    using al v(1) q l by (simp_all add: link_page_def field_stores)
  show "kalloc_page_head (link_page pages v s) = (if pages = [] then v else kalloc_page_head s)"
    "allocated (link_page pages v s) = allocated s" "base_aligned (link_page pages v s)"
    using al by (simp_all add: link_page_def)
qed

lemma slot_unique:
  "page_aligned p \<Longrightarrow> page_aligned q \<Longrightarrow> slot_of p d \<Longrightarrow> slot_of q d \<Longrightarrow> p = q"
  using slot_of_page(1) by metis

lemma links_append_page:
  assumes h: "heap_links s pages bs" and al: "base_aligned s" and v: "page_aligned v" "v \<noteq> 0" "v \<notin> set pages"
    and free: "\<forall>d. slot_of v d \<longrightarrow> \<not> is_used s d"
  shows "heap_links (link_page pages v s) (pages @ [v]) bs"
proof -
  define s' where "s' = link_page pages v s"
  have pal: "\<forall>p \<in> set pages. page_aligned p" using heap_linksD(3) [OF h] by blast
  note f = link_page_fields [OF al pal v(1,3), folded s'_def]
  have bs: "\<exists>p \<in> set pages. page_aligned p \<and> slot_of p d" if "d \<in> fst ` set bs" for d
    using heap_linksD(3,6) [OF h] that by blast
  have "linked (\<lambda>p. load_u64 s' (next_page p)) (kalloc_page_head s') (pages @ [v])"
  proof (cases pages rule: rev_cases)
    case Nil
    then show ?thesis using v f(1) [OF v(1)] f(6) [OF v(1)] by simp
  next
    case (snoc us p)
    have d: "p \<notin> set us" using linked_distinct [OF heap_linksD(1) [OF h]] by (simp add: snoc)
    have "linked (\<lambda>p. load_u64 s' (next_page p)) (kalloc_page_head s) (us @ [p, v])"
      by (rule linked_append [OF heap_linksD(1) [OF h, unfolded snoc]])
        (use pal v d in \<open>auto simp: f(1) snoc\<close>)
    then show ?thesis using f(6) [OF v(1)] by (simp add: snoc)
  qed
  moreover have "linked (\<lambda>d. load_u64 s' (desc_next d)) (allocated s') (map fst bs)"
    unfolding f(7) [OF v(1)] by (rule linked_cong [OF heap_linksD(2) [OF h]]) (use bs f(2) in force)
  moreover have "load_u64 s' (desc_ptr d) = ptr \<and> load_u64 s' (desc_size d) = sz" if "(d, ptr, sz) \<in> set bs" for d ptr sz
    using heap_linksD(5) [OF h that] bs [of d] f(3,4) that by force
  moreover have "is_used s' d \<longleftrightarrow> d \<in> fst ` set bs" if "p \<in> set (pages @ [v])" "slot_of p d" for p d
  proof (cases "p = v")
    case True
    have "d \<notin> fst ` set bs" using bs slot_unique [OF _ v(1) _ that(2) [unfolded True]] v(3) by blast
    then show ?thesis using f(5) [OF v(1)] that free True by blast
  next
    case False
    then have pp: "p \<in> set pages" using that(1) by simp
    then show ?thesis using f(5) [OF heap_linksD(3) [OF h pp] that(2)] heap_linksD(7) [OF h pp that(2)] by simp
  qed
  ultimately show ?thesis
    unfolding s'_def [symmetric] heap_links_def using pal v(1) heap_linksD(6) [OF h] by auto
qed

lemma store64_frame:
  assumes "aligned8 a" "frame x \<noteq> frame a"
  shows "store64 m a v x = m x"
proof -
  have "\<not> unat (x - a) < 8"
  proof
    assume lt: "unat (x - a) < 8"
    define k where "k = unat (x - a)"
    have "x = a + of_nat k" by (simp add: k_def)
    then have "unat x = unat a + k" using aligned8_add [OF assms(1), of k] lt by (simp add: k_def)
    moreover obtain q where "unat a = 8 * q" using assms(1) by (auto simp: aligned8_def elim: dvdE)
    ultimately have "unat x div 8 = unat a div 8" using lt by (simp add: k_def)
    then show False using assms(2) div_mult2_eq [of "unat x" 8 512] div_mult2_eq [of "unat a" 8 512]
      by (simp add: frame_def)
  qed
  then show ?thesis by (simp add: store64_apply)
qed

lemma field_store_mem:
  assumes "base_aligned s" "page_aligned p" "frame a \<noteq> frame (va_to_pa s p)"
  shows "mem (store_u64 (next_page p) x s) a = mem s a"
    and "slot_of p d \<Longrightarrow> mem (store_u64 (desc_next d) x s) a = mem s a"
    and "slot_of p d \<Longrightarrow> mem (store_u64 (desc_ptr d) x s) a = mem s a"
    and "slot_of p d \<Longrightarrow> mem (store_u64 (desc_size d) x s) a = mem s a"
    and "slot_of p d \<Longrightarrow> mem (set_is_used d b s) a = mem s a"
proof -
  show "mem (store_u64 (next_page p) x s) a = mem s a"
    using next_page_word [OF assms(2)] page_word_frame [OF assms(1,2) next_page_word(2) [OF assms(2)]] assms(1,3)
    by (simp add: store64_frame va_to_pa_aligned)
  assume sl: "slot_of p d"
  note f = field_frames [OF assms(1,2) sl] slot_fields_aligned [OF assms(2) sl]
  show "mem (store_u64 (desc_next d) x s) a = mem s a" "mem (store_u64 (desc_ptr d) x s) a = mem s a"
    "mem (store_u64 (desc_size d) x s) a = mem s a"
    using f assms(1,3) by (simp_all add: store64_frame va_to_pa_aligned)
  show "mem (set_is_used d b s) a = mem s a"
    using f(3) assms(3) by (auto simp: set_is_used_def)
qed

section \<open>Ownership\<close>

lemma page_blocks_append [simp]: "page_blocks s (xs @ ys) = page_blocks s xs @ page_blocks s ys"
  "page_blocks s [v] = [(va_to_pa s v, 1)]" "page_blocks s [] = []"
  by (simp_all add: page_blocks_def)

lemma user_blocks_append [simp]: "user_blocks s (xs @ ys) = user_blocks s xs @ user_blocks s ys"
  "user_blocks s ((d, ptr, sz) # ys) = (va_to_pa s ptr, NUM_PAGES sz) # user_blocks s ys" "user_blocks s [] = []"
  by (simp_all add: user_blocks_def)

lemma page_frames_append [simp]: "page_frames s (xs @ ys) = page_frames s xs \<union> page_frames s ys"
  "page_frames s (v # ys) = insert (frame (va_to_pa s v)) (page_frames s ys)" "page_frames s [] = {}"
  by (auto simp: page_frames_def)

lemma owned_take:
  assumes h: "heap_owned base s pages bs" and inv: "alloc_inv s1" and s1: "s1 = s\<lparr>mem := mem s1\<rparr>"
    and fresh: "block_frames p n \<inter> used_frames s = {}" and used: "used_frames s1 = used_frames s \<union> block_frames p n"
    and own: "owns_block s p n"
  shows "p = va_to_pa s v \<Longrightarrow> n = 1 \<Longrightarrow> heap_owned base s1 (pages @ [v]) bs"
    and "p = va_to_pa s ptr \<Longrightarrow> n = NUM_PAGES sz \<Longrightarrow> size_ok sz \<Longrightarrow> ptr \<noteq> 0 \<Longrightarrow> page_aligned ptr \<Longrightarrow>
      heap_owned base s1 pages (bs @ [(d, ptr, sz)])"
proof -
  have same: "linear_map_ok s1 = linear_map_ok s" "page_blocks s1 = page_blocks s" "user_blocks s1 = user_blocks s"
    "owns_block s1 = owns_block s"
    by (subst s1, simp)+
  note h' = h [unfolded heap_owned_def]
  have dis: "block_frames p n \<inter> base = {}" "block_frames p n \<inter> live_frames (page_blocks s pages) = {}"
    "block_frames p n \<inter> live_frames (user_blocks s bs) = {}"
    using h' fresh by auto
  show "p = va_to_pa s v \<Longrightarrow> n = 1 \<Longrightarrow> heap_owned base s1 (pages @ [v]) bs"
    using h' inv used own dis unfolding heap_owned_def same by (auto simp: pairwise_apart_append)
  show "heap_owned base s1 pages (bs @ [(d, ptr, sz)])"
    if "p = va_to_pa s ptr" "n = NUM_PAGES sz" "size_ok sz" "ptr \<noteq> 0" "page_aligned ptr"
    using that h' inv used own dis unfolding heap_owned_def same by (auto simp: pairwise_apart_append)
qed

lemma owned_give:
  assumes h: "heap_owned base s pages bs" and inv: "alloc_inv s1" and s1: "s1 = s\<lparr>mem := mem s1\<rparr>"
    and used: "used_frames s1 = used_frames s - block_frames p n"
  shows "pages = us @ v # vs \<Longrightarrow> p = va_to_pa s v \<Longrightarrow> n = 1 \<Longrightarrow> heap_owned base s1 (us @ vs) bs"
    and "bs = xs @ (d, ptr, sz) # ys \<Longrightarrow> p = va_to_pa s ptr \<Longrightarrow> n = NUM_PAGES sz \<Longrightarrow>
      heap_owned base s1 pages (xs @ ys)"
proof -
  have same: "linear_map_ok s1 = linear_map_ok s" "page_blocks s1 = page_blocks s" "user_blocks s1 = user_blocks s"
    "owns_block s1 = owns_block s"
    by (subst s1, simp)+
  note h' = h [unfolded heap_owned_def]
  show "heap_owned base s1 (us @ vs) bs" if "pages = us @ v # vs" "p = va_to_pa s v" "n = 1"
  proof -
    have eq: "page_blocks s pages = page_blocks s us @ (p, n) # page_blocks s vs" by (simp add: that page_blocks_def)
    show ?thesis using h' inv used unfolding heap_owned_def same eq
      by (auto simp: pairwise_apart_append)
  qed
  show "heap_owned base s1 pages (xs @ ys)" if "bs = xs @ (d, ptr, sz) # ys" "p = va_to_pa s ptr" "n = NUM_PAGES sz"
  proof -
    have eq: "user_blocks s bs = user_blocks s xs @ (p, n) # user_blocks s ys" by (simp add: that)
    show ?thesis using h' inv used unfolding heap_owned_def same eq
      by (auto simp: pairwise_apart_append that(1))
  qed
qed

section \<open>Finding a descriptor\<close>

text \<open>
  \<open>s'\<close> differs from \<open>s\<close> in the list heads, the bitmaps of the page allocator and the contents of
  the given management pages only.
\<close>

definition heap_keeps :: "virt_addr list \<Rightarrow> 'a kalloc_state_scheme \<Rightarrow> 'a kalloc_state_scheme \<Rightarrow> bool" where
  "heap_keeps pages s s' \<longleftrightarrow>
     s' = s\<lparr>mem := mem s', allocated := allocated s', kalloc_page_head := kalloc_page_head s'\<rparr>
     \<and> (\<forall>a. \<not> is_bitmap_frame s (frame a) \<and> frame a \<notin> page_frames s pages \<longrightarrow> mem s' a = mem s a)"

lemma heap_keeps_refl: "heap_keeps pages s s"
  by (simp add: heap_keeps_def)

lemma heap_keepsI:
  assumes s': "s' = s\<lparr>mem := mem s'\<rparr>"
    and "\<And>a. \<not> is_bitmap_frame s (frame a) \<Longrightarrow> frame a \<notin> page_frames s pages \<Longrightarrow> mem s' a = mem s a"
  shows "heap_keeps pages s s'"
proof -
  have "allocated s' = allocated s" "kalloc_page_head s' = kalloc_page_head s" by (subst s', simp)+
  then have "s\<lparr>mem := mem s', allocated := allocated s', kalloc_page_head := kalloc_page_head s'\<rparr> = s\<lparr>mem := mem s'\<rparr>"
    by (cases s) simp
  with assms show ?thesis by (simp add: heap_keeps_def)
qed

lemma heap_keepsD:
  assumes "heap_keeps pages s s'"
  shows "va_to_pa s' = va_to_pa s" "pa_to_va s' = pa_to_va s" "is_bitmap_frame s' = is_bitmap_frame s"
    "page_frames s' = page_frames s" "base_aligned s' = base_aligned s" "owns_block s' = owns_block s"
proof -
  have s': "s' = s\<lparr>mem := mem s', allocated := allocated s', kalloc_page_head := kalloc_page_head s'\<rparr>"
    using assms by (simp add: heap_keeps_def)
  show "va_to_pa s' = va_to_pa s" "pa_to_va s' = pa_to_va s" "is_bitmap_frame s' = is_bitmap_frame s"
    "page_frames s' = page_frames s" "base_aligned s' = base_aligned s" "owns_block s' = owns_block s"
    by (subst s', simp add: va_to_pa_def pa_to_va_def is_bitmap_frame_def inits_def page_frames_def base_aligned_def
        owns_block_def fun_eq_iff)+
qed

lemma heap_keeps_trans:
  assumes "heap_keeps pages s s'" "heap_keeps pages' s' s''" "set pages \<subseteq> set pages'"
  shows "heap_keeps pages' s s''"
proof -
  have s': "s' = s\<lparr>mem := mem s', allocated := allocated s', kalloc_page_head := kalloc_page_head s'\<rparr>"
    using assms(1) by (simp add: heap_keeps_def)
  have "s'' = s'\<lparr>mem := mem s'', allocated := allocated s'', kalloc_page_head := kalloc_page_head s''\<rparr>"
    using assms(2) by (simp add: heap_keeps_def)
  then have "s'' = s\<lparr>mem := mem s'', allocated := allocated s'', kalloc_page_head := kalloc_page_head s''\<rparr>"
    by (subst (asm) s') simp
  moreover have "page_frames s pages \<subseteq> page_frames s pages'" using assms(3) by (auto simp: page_frames_def)
  ultimately show ?thesis using assms(1,2) heap_keepsD(3,4) [OF assms(1)] unfolding heap_keeps_def by auto
qed

lemma heap_repD:
  assumes "heap_rep base s pages bs"
  shows "heap_links s pages bs" "heap_owned base s pages bs"
  using assms by (simp_all add: heap_rep_def)

lemma page_frames_used: "heap_owned base s pages bs \<Longrightarrow> page_frames s pages \<subseteq> used_frames s"
  unfolding heap_owned_def using live_page_blocks [of s pages] by auto

lemma heap_grow:
  assumes h: "heap_rep base s pages bs" and r: "alloc_management_page s = (v, s1)" "v \<noteq> 0"
  shows "heap_rep base (link_page pages v s1) (pages @ [v]) bs" "v \<notin> set pages" "page_aligned v"
    "\<And>d. slot_of v d \<Longrightarrow> \<not> is_used (link_page pages v s1) d"
    "heap_keeps (pages @ [v]) s (link_page pages v s1)"
proof -
  note hl = heap_repD(1) [OF h] and ho = heap_repD(2) [OF h]
  note inv = heap_ownedD(1,2,3) [OF ho]
  note new = alloc_management_page_ok [OF inv(1,2) r]
  define P where "P = va_to_pa s v"
  define s' where "s' = link_page pages v s1"
  have va: "va_to_pa s1 = va_to_pa s" by (subst new(6)) (simp add: va_to_pa_def fun_eq_iff)
  have al1: "base_aligned s1" using inv(3) by (subst new(6)) simp
  have pf: "frame P \<notin> page_frames s pages" using page_frames_used [OF ho] new(3) by (auto simp: P_def)
  then show nin: "v \<notin> set pages" by (auto simp: page_frames_def P_def)
  show va': "page_aligned v" by (rule new(1))
  have hl1: "heap_links s1 pages bs"
  proof (rule heap_links_cong [OF hl inv(3)])
    show "kalloc_page_head s1 = kalloc_page_head s" "allocated s1 = allocated s" "kernel_base_va s1 = kernel_base_va s"
      by (subst new(6), simp)+
    show "mem s1 a = mem s a" if "frame a \<in> page_frames s pages" for a
      using that new(7) pf heap_ownedD(6) [OF ho] by (metis P_def)
  qed
  have free1: "\<not> is_used s1 d" if "slot_of v d" for d
    using field_frames(3) [OF al1 new(1) that] new(8) by (simp add: is_used_def load_byte_def va)
  note f = link_page_fields [OF al1 _ new(1) nin, folded s'_def]
  have pal: "\<forall>p \<in> set pages. page_aligned p" using heap_linksD(3) [OF hl] by blast
  show "\<not> is_used (link_page pages v s1) d" if "slot_of v d" for d
    using f(5) [OF pal new(1) that] free1 [OF that] by (simp add: s'_def)
  have keep1: "mem s' a = mem s1 a" if "frame a \<notin> page_frames s (pages @ [v])" for a
  proof -
    have "frame a \<noteq> frame (va_to_pa s1 v)" "pages \<noteq> [] \<Longrightarrow> frame a \<noteq> frame (va_to_pa s1 (last pages))"
      using that by (auto simp: va page_frames_def)
    then show ?thesis using al1 pal new(1) by (simp add: s'_def link_page_def field_store_mem del: mem_store)
  qed
  have s'1: "s' = s1\<lparr>mem := mem s', kalloc_page_head := kalloc_page_head s'\<rparr>"
    by (simp add: s'_def link_page_def store_u64_def)
  show "heap_keeps (pages @ [v]) s (link_page pages v s1)"
  proof -
    have "s' = s\<lparr>mem := mem s', kalloc_page_head := kalloc_page_head s'\<rparr>"
      by (subst s'1, subst new(6)) simp
    then have "s' = s\<lparr>mem := mem s', allocated := allocated s', kalloc_page_head := kalloc_page_head s'\<rparr>"
      by (metis kalloc_state.surjective kalloc_state.update_convs(1,2) mem_state.update_convs(1) alloc_state.update_convs(1))
    then show ?thesis unfolding s'_def [symmetric] heap_keeps_def
      using keep1 new(7) by (auto simp: P_def)
  qed
  have "heap_owned base s1 (pages @ [v]) bs"
    by (rule owned_take(1) [OF ho new(5,6), of P 1]) (use new in \<open>simp_all add: P_def block_frames_def\<close>)
  then have "heap_owned base (s1\<lparr>mem := mem s'\<rparr>) (pages @ [v]) bs"
  proof (rule heap_owned_upd)
    fix a assume "is_bitmap_frame s1 (frame a)"
    then have "is_bitmap_frame s (frame a)" by (subst (asm) new(6)) (simp add: is_bitmap_frame_def)
    then have "frame a \<notin> page_frames s (pages @ [v])"
      using heap_ownedD(6) [OF ho] owned_not_bitmap [OF inv(1) new(2)] by (auto simp: block_frames_def)
    then show "mem s' a = mem s1 a" by (rule keep1)
  qed
  then have "heap_owned base s' (pages @ [v]) bs" by (subst s'1) simp
  moreover have "heap_links s' (pages @ [v]) bs"
    unfolding s'_def by (rule links_append_page [OF hl1 al1 new(1) r(2) nin]) (use free1 in blast)
  ultimately show "heap_rep base (link_page pages v s1) (pages @ [v]) bs" by (simp add: heap_rep_def s'_def)
qed

text \<open>The outcome of the search: an unused descriptor of a consistent heap, or null with no free page.\<close>

definition found_slot :: "nat set \<Rightarrow> heap_block list \<Rightarrow> 'a kalloc_state_scheme \<Rightarrow> virt_addr list \<Rightarrow>
    virt_addr \<Rightarrow> 'a kalloc_state_scheme \<Rightarrow> bool" where
  "found_slot base bs s pages d s1 \<longleftrightarrow>
     (\<exists>s0 pages' p. heap_rep base s0 pages' bs \<and> p \<in> set pages' \<and> slot_of p d \<and> d \<notin> fst ` set bs \<and> d \<noteq> 0
        \<and> s1 = set_is_used d True s0 \<and> heap_keeps pages' s s0
        \<and> (\<exists>vs. pages' = pages @ vs \<and> length vs \<le> 1 \<and> (\<forall>v \<in> set vs. slot_of v d)))"

lemma found_slotI:
  assumes "heap_rep base s0 pages' bs" "p \<in> set pages'" "slot_of p d" "\<not> is_used s0 d"
    "heap_keeps pages' s s0" "pages' = pages @ vs" "\<forall>v \<in> set vs. slot_of v d" "length vs \<le> 1"
  shows "found_slot base bs s pages d (set_is_used d True s0)"
proof -
  note hl = heap_repD(1) [OF assms(1)]
  have "d \<notin> fst ` set bs" using heap_linksD(7) [OF hl assms(2,3)] assms(4) by simp
  moreover have "d \<noteq> 0" by (rule slot_nonnull [OF heap_linksD(3,4) [OF hl assms(2)] assms(3)])
  ultimately show ?thesis unfolding found_slot_def using assms by blast
qed

lemma page_slot_0: "slot_of p (page_slot p 0)"
  by (auto simp: slot_of_def intro: exI [of _ 0])

lemma find_in_pages_spec:
  assumes h: "heap_rep base s pages bs" and ne: "pages \<noteq> []"
  shows "\<exists>d s1. find_in_pages s = Some (d, s1)
    \<and> (d = 0 \<and> s1 = s \<and> fst (page_alloc 1 s) = PHYS_ADDR_NULL \<or> found_slot base bs s pages d s1)"
proof -
  note hl = heap_repD(1) [OF h] and inv = heap_ownedD(1,2) [OF heap_repD(2) [OF h]]
  from scan_pages_linked [OF heap_linksD(1) [OF hl], of 0] show ?thesis
  proof (elim disjE exE conjE)
    fix d p prev' assume sc: "scan_pages (kalloc_page_head s) 0 s = Some (Some d, prev')"
      and d: "p \<in> set pages" "slot_of p d" "\<not> is_used s d"
    have "found_slot base bs s pages d (set_is_used d True s)"
      by (rule found_slotI [OF h d heap_keeps_refl, of _ "[]"]) simp_all
    then show ?thesis using sc by (simp add: find_in_pages_def)
  next
    assume sc: "scan_pages (kalloc_page_head s) 0 s = Some (None, last (0 # pages))"
    have lp: "last (0 # pages) = last pages" "last pages \<noteq> 0" using ne heap_linksD(4) [OF hl] by auto
    obtain v s1 where a: "alloc_management_page s = (v, s1)" by (cases "alloc_management_page s")
    show ?thesis
    proof (cases "v = 0")
      case True
      then show ?thesis using alloc_management_page_null [OF inv] a sc lp by (simp add: find_in_pages_def)
    next
      case False
      note g = heap_grow [OF h a False]
      have "found_slot base bs s pages (page_slot v 0) (set_is_used (page_slot v 0) True (link_page pages v s1))"
        by (rule found_slotI [OF g(1) _ page_slot_0 g(4) [OF page_slot_0] g(5) refl]) (simp_all add: page_slot_0)
      moreover have "find_in_pages s = Some (page_slot v 0, set_is_used (page_slot v 0) True (link_page pages v s1))"
        using sc lp a False ne by (simp add: find_in_pages_def link_page_def Let_def)
      ultimately show ?thesis by simp
    qed
  qed
qed

lemma find_free_management_block_spec:
  assumes h: "heap_rep base s pages bs"
  shows "\<exists>d s1. find_free_management_block s = Some (d, s1)
    \<and> (d = 0 \<and> s1 = s \<and> fst (page_alloc 1 s) = PHYS_ADDR_NULL \<or> found_slot base bs s pages d s1)"
proof (cases "pages = []")
  case False
  then have "kalloc_page_head s \<noteq> 0" using heap_linksD(1) [OF heap_repD(1) [OF h]] by (cases pages) auto
  then show ?thesis using find_in_pages_spec [OF h False] by (simp add: find_free_management_block_def)
next
  case True
  then have hd: "kalloc_page_head s = 0" using heap_linksD(1) [OF heap_repD(1) [OF h]] by simp
  obtain v s1 where a: "alloc_management_page s = (v, s1)" by (cases "alloc_management_page s")
  show ?thesis
  proof (cases "v = 0")
    case True
    then show ?thesis using alloc_management_page_null [OF heap_ownedD(1,2) [OF heap_repD(2) [OF h]]] a hd
      by (simp add: find_free_management_block_def)
  next
    case False
    note g = heap_grow [OF h a False, unfolded \<open>pages = []\<close>, simplified]
    note hl = heap_repD(1) [OF g(1)]
    have eq: "find_free_management_block s = find_in_pages (link_page [] v s1)"
      using a False hd by (simp add: find_free_management_block_def link_page_def)
    let ?s = "link_page [] v s1"
    from scan_pages_linked [OF heap_linksD(1) [OF hl], of 0] g(4) [OF page_slot_0] page_slot_0 [of v]
    obtain d prev where sc: "scan_pages (kalloc_page_head ?s) 0 ?s = Some (Some d, prev)"
      and d: "slot_of v d" "\<not> is_used ?s d" by auto
    have "found_slot base bs s pages d (set_is_used d True ?s)"
      by (rule found_slotI [OF g(1) _ d g(5), of _ "[v]"]) (simp_all add: True d)
    then show ?thesis using sc by (simp add: eq find_in_pages_def)
  qed
qed

end
