(* ===== verification/Kalloc_Blocks.thy ===== *)
theory Kalloc_Blocks
  imports Kalloc_Pages
begin

text \<open>
  The list of live blocks: \<^verbatim>\<open>add_to_allocated_list\<close> appends a descriptor at the end,
  \<^verbatim>\<open>remove_from_allocated_list\<close> takes the descriptor of the given pointer out, and
  \<^verbatim>\<open>free_management_page_if_empty\<close> unlinks the page of a freed descriptor exactly when it has no
  live descriptor left.
\<close>

section \<open>Appending a block\<close>

lemma links_slot:
  assumes "heap_links s pages bs" "d \<in> fst ` set bs"
  obtains p where "p \<in> set pages" "page_aligned p" "slot_of p d"
  using heap_linksD(3,6) [OF assms(1)] assms(2) by blast

definition fill_desc :: "virt_addr \<Rightarrow> virt_addr \<Rightarrow> u64 \<Rightarrow> 'a kalloc_state_scheme \<Rightarrow> 'a kalloc_state_scheme" where
  "fill_desc d ptr sz s =
     store_u64 (desc_next d) 0 (store_u64 (desc_size d) sz (store_u64 (desc_ptr d) ptr (set_is_used d True s)))"

definition link_block :: "heap_block list \<Rightarrow> virt_addr \<Rightarrow> 'a kalloc_state_scheme \<Rightarrow> 'a kalloc_state_scheme" where
  "link_block bs d s =
     (if bs = [] then s\<lparr>allocated := d\<rparr> else store_u64 (desc_next (fst (last bs))) d s)"

lemma fill_desc_fields:
  assumes al: "base_aligned s" and p: "page_aligned p" "slot_of p d" and q: "page_aligned q"
  shows "load_u64 (fill_desc d ptr sz s) (next_page q) = load_u64 s (next_page q)"
    and "slot_of q e \<Longrightarrow> load_u64 (fill_desc d ptr sz s) (desc_next e) = (if e = d then 0 else load_u64 s (desc_next e))"
    and "slot_of q e \<Longrightarrow> load_u64 (fill_desc d ptr sz s) (desc_ptr e) = (if e = d then ptr else load_u64 s (desc_ptr e))"
    and "slot_of q e \<Longrightarrow> load_u64 (fill_desc d ptr sz s) (desc_size e) = (if e = d then sz else load_u64 s (desc_size e))"
    and "slot_of q e \<Longrightarrow> is_used (fill_desc d ptr sz s) e = (e = d \<or> is_used s e)"
  using assms by (simp_all add: fill_desc_def field_stores)

lemma fill_desc_mem:
  assumes "base_aligned s" "page_aligned p" "slot_of p d" "frame a \<noteq> frame (va_to_pa s p)"
  shows "mem (fill_desc d ptr sz s) a = mem s a"
proof -
  have "va_to_pa (set_is_used d True s) = va_to_pa s" by (simp add: set_is_used_def)
  then show ?thesis using assms by (simp add: fill_desc_def field_store_mem del: mem_store)
qed

lemma fill_desc_same:
  "fill_desc d ptr sz s = s\<lparr>mem := mem (fill_desc d ptr sz s)\<rparr>"
  by (simp add: fill_desc_def store_u64_def set_is_used_def store_byte_def)

lemma fill_desc_heads [simp]:
  "kalloc_page_head (fill_desc d ptr sz s) = kalloc_page_head s" "allocated (fill_desc d ptr sz s) = allocated s"
  "base_aligned (fill_desc d ptr sz s) = base_aligned s" "va_to_pa (fill_desc d ptr sz s) = va_to_pa s"
  by (subst fill_desc_same, simp)+

lemma link_block_same:
  "link_block bs d s = s\<lparr>mem := mem (link_block bs d s), allocated := allocated (link_block bs d s)\<rparr>"
  by (cases s) (simp add: link_block_def store_u64_def)

lemma link_block_fields:
  assumes al: "base_aligned s" and l: "bs \<noteq> [] \<Longrightarrow> page_aligned p \<and> slot_of p (fst (last bs))" and q: "page_aligned q"
  shows "load_u64 (link_block bs d s) (next_page q) = load_u64 s (next_page q)"
    and "slot_of q e \<Longrightarrow> load_u64 (link_block bs d s) (desc_next e) =
           (if bs \<noteq> [] \<and> e = fst (last bs) then d else load_u64 s (desc_next e))"
    and "slot_of q e \<Longrightarrow> load_u64 (link_block bs d s) (desc_ptr e) = load_u64 s (desc_ptr e)"
    and "slot_of q e \<Longrightarrow> load_u64 (link_block bs d s) (desc_size e) = load_u64 s (desc_size e)"
    and "slot_of q e \<Longrightarrow> is_used (link_block bs d s) e = is_used s e"
    and "kalloc_page_head (link_block bs d s) = kalloc_page_head s"
    and "allocated (link_block bs d s) = (if bs = [] then d else allocated s)"
proof -
  have "load_u64 (link_block bs d s) (next_page q) = load_u64 s (next_page q)
    \<and> (slot_of q e \<longrightarrow> load_u64 (link_block bs d s) (desc_next e) =
           (if bs \<noteq> [] \<and> e = fst (last bs) then d else load_u64 s (desc_next e))
        \<and> load_u64 (link_block bs d s) (desc_ptr e) = load_u64 s (desc_ptr e)
        \<and> load_u64 (link_block bs d s) (desc_size e) = load_u64 s (desc_size e)
        \<and> is_used (link_block bs d s) e = is_used s e)" for e
  proof (cases "bs = []")
    case False
    then have "page_aligned p" "slot_of p (fst (last bs))" using l by simp_all
    with False al q show ?thesis by (simp add: link_block_def field_stores)
  qed (simp add: link_block_def)
  then show "load_u64 (link_block bs d s) (next_page q) = load_u64 s (next_page q)"
    and "slot_of q e \<Longrightarrow> load_u64 (link_block bs d s) (desc_next e) =
           (if bs \<noteq> [] \<and> e = fst (last bs) then d else load_u64 s (desc_next e))"
    and "slot_of q e \<Longrightarrow> load_u64 (link_block bs d s) (desc_ptr e) = load_u64 s (desc_ptr e)"
    and "slot_of q e \<Longrightarrow> load_u64 (link_block bs d s) (desc_size e) = load_u64 s (desc_size e)"
    and "slot_of q e \<Longrightarrow> is_used (link_block bs d s) e = is_used s e"
    by blast+
qed (simp_all add: link_block_def)

lemma links_append_block:
  assumes h: "heap_links s pages bs" and al: "base_aligned s" and p: "p \<in> set pages" "slot_of p d"
    and new: "d \<notin> fst ` set bs"
  shows "heap_links (link_block bs d (fill_desc d ptr sz s)) pages (bs @ [(d, ptr, sz)])" (is "heap_links ?s' _ _")
proof -
  have pal: "page_aligned p" and d0: "d \<noteq> 0"
    using heap_linksD(3,4) [OF h p(1)] slot_nonnull p(2) by blast+
  have "\<exists>l. page_aligned l \<and> slot_of l (fst (last bs))" if "bs \<noteq> []"
    using heap_linksD(3,6) [OF h] last_in_set [OF that] by (meson image_eqI)
  then obtain l where l: "bs \<noteq> [] \<Longrightarrow> page_aligned l \<and> slot_of l (fst (last bs))" by blast
  have f: "load_u64 ?s' (next_page q) = load_u64 s (next_page q)"
    "slot_of q e \<Longrightarrow> load_u64 ?s' (desc_next e) =
      (if bs \<noteq> [] \<and> e = fst (last bs) then d else if e = d then 0 else load_u64 s (desc_next e))"
    "slot_of q e \<Longrightarrow> load_u64 ?s' (desc_ptr e) = (if e = d then ptr else load_u64 s (desc_ptr e))"
    "slot_of q e \<Longrightarrow> load_u64 ?s' (desc_size e) = (if e = d then sz else load_u64 s (desc_size e))"
    "slot_of q e \<Longrightarrow> is_used ?s' e = (e = d \<or> is_used s e)" if qp: "q \<in> set pages" for q e
  proof -
    note q = heap_linksD(3) [OF h qp]
    have al': "base_aligned (fill_desc d ptr sz s)" using al by simp
    note fields = link_block_fields [OF al' l q] fill_desc_fields [OF al pal p(2) q]
    show "load_u64 ?s' (next_page q) = load_u64 s (next_page q)"
      "slot_of q e \<Longrightarrow> load_u64 ?s' (desc_next e) =
        (if bs \<noteq> [] \<and> e = fst (last bs) then d else if e = d then 0 else load_u64 s (desc_next e))"
      "slot_of q e \<Longrightarrow> load_u64 ?s' (desc_ptr e) = (if e = d then ptr else load_u64 s (desc_ptr e))"
      "slot_of q e \<Longrightarrow> load_u64 ?s' (desc_size e) = (if e = d then sz else load_u64 s (desc_size e))"
      "slot_of q e \<Longrightarrow> is_used ?s' e = (e = d \<or> is_used s e)"
      by (simp_all add: fields)
  qed
  have sl: "\<exists>q \<in> set pages. slot_of q e" if "e \<in> fst ` set (bs @ [(d, ptr, sz)])" for e
    using that heap_linksD(6) [OF h] p by auto
  have "linked (\<lambda>p. load_u64 ?s' (next_page p)) (kalloc_page_head ?s') pages"
  proof -
    have hd: "kalloc_page_head ?s' = kalloc_page_head s" by (simp add: link_block_def)
    show ?thesis unfolding hd by (rule linked_cong [OF heap_linksD(1) [OF h]]) (rule f(1))
  qed
  moreover have "linked (\<lambda>d. load_u64 ?s' (desc_next d)) (allocated ?s') (map fst (bs @ [(d, ptr, sz)]))"
  proof (cases bs rule: rev_cases)
    case Nil
    then show ?thesis using f(2) [OF p] d0 by (simp add: link_block_def)
  next
    case (snoc cs c)
    have lk: "linked (\<lambda>d. load_u64 s (desc_next d)) (allocated s) (map fst cs @ [fst c])"
      using heap_linksD(2) [OF h] by (simp add: snoc)
    have ne: "fst c \<noteq> d" "\<And>x. x \<in> set (map fst cs) \<Longrightarrow> x \<noteq> d \<and> x \<noteq> fst c"
      using new linked_distinct [OF lk] by (auto simp: snoc intro: rev_image_eqI)
    obtain u where u: "u \<in> set pages" "slot_of u (fst c)" using sl [of "fst c"] by (auto simp: snoc)
    have "linked (\<lambda>d. load_u64 ?s' (desc_next d)) (allocated s) (map fst cs @ [fst c, d])"
    proof (rule linked_append [OF lk])
      show "load_u64 ?s' (desc_next (fst c)) = d" "load_u64 ?s' (desc_next d) = 0" "d \<noteq> 0"
        using f(2) [OF u] f(2) [OF p] ne d0 by (simp_all add: snoc)
      show "load_u64 ?s' (desc_next x) = load_u64 s (desc_next x)" if "x \<in> set (map fst cs)" for x
      proof -
        obtain w where "w \<in> set pages" "slot_of w x" using sl [of x] \<open>x \<in> set (map fst cs)\<close> by (auto simp: snoc)
        from f(2) [OF this] ne(2) [OF \<open>x \<in> set (map fst cs)\<close>] show ?thesis by (simp add: snoc)
      qed
    qed
    then show ?thesis by (simp add: link_block_def snoc)
  qed
  moreover have "load_u64 ?s' (desc_ptr e) = ptr' \<and> load_u64 ?s' (desc_size e) = sz'"
    if b: "(e, ptr', sz') \<in> set (bs @ [(d, ptr, sz)])" for e ptr' sz'
  proof -
    have "e \<in> fst ` set (bs @ [(d, ptr, sz)])" using b by (rule rev_image_eqI) simp
    then obtain w where w: "w \<in> set pages" "slot_of w e" using sl by blast
    show ?thesis using f(3,4) [OF w] heap_linksD(5) [OF h, of e ptr' sz'] b new by force
  qed
  moreover have "is_used ?s' e \<longleftrightarrow> e \<in> fst ` set (bs @ [(d, ptr, sz)])" if "q \<in> set pages" "slot_of q e" for q e
    using f(5) [OF that] heap_linksD(7) [OF h that] by auto
  ultimately show ?thesis unfolding heap_links_def using heap_linksD(3) [OF h] sl by blast
qed

lemma add_to_allocated_list_eq:
  assumes h: "heap_links s pages bs" and al: "base_aligned s" and p: "p \<in> set pages" "slot_of p d"
    and new: "d \<notin> fst ` set bs"
  shows "add_to_allocated_list d (store_u64 (desc_size d) sz (store_u64 (desc_ptr d) ptr (set_is_used d True s)))
    = Some (link_block bs d (fill_desc d ptr sz s))"
proof (cases bs rule: rev_cases)
  case Nil
  then show ?thesis using heap_linksD(2) [OF h] 
    by (simp add: add_to_allocated_list_def link_block_def fill_desc_def [symmetric])
      (simp add: slot_nonnull [OF heap_linksD(3,4) [OF h p(1)] p(2)])
next
  case (snoc cs c)
  have nz: "allocated s \<noteq> 0" "d \<noteq> 0"
    using heap_linksD(2) [OF h] slot_nonnull [OF heap_linksD(3,4) [OF h p(1)] p(2)] by (cases cs; auto simp: snoc)+
  have "linked (\<lambda>x. load_u64 (fill_desc d ptr sz s) (desc_next x)) (allocated s) (map fst cs @ [fst c])"
  proof (rule linked_cong)
    show "linked (\<lambda>x. load_u64 s (desc_next x)) (allocated s) (map fst cs @ [fst c])"
      using heap_linksD(2) [OF h] by (simp add: snoc)
    fix x assume "x \<in> set (map fst cs @ [fst c])"
    then have x: "x \<in> fst ` set bs" by (auto simp: snoc)
    obtain q where "page_aligned q" "slot_of q x" by (rule links_slot [OF h x])
    then show "load_u64 (fill_desc d ptr sz s) (desc_next x) = load_u64 s (desc_next x)"
      using fill_desc_fields(2) [OF al heap_linksD(3) [OF h p(1)] p(2)] x new by auto
  qed
  from last_block_linked [OF this] nz show ?thesis
    by (simp add: add_to_allocated_list_def link_block_def fill_desc_def [symmetric] snoc Let_def)
qed

lemma link_block_mem:
  assumes h: "heap_links s pages bs" and al: "base_aligned t" "va_to_pa t = va_to_pa s"
    and a: "frame a \<notin> page_frames s pages"
  shows "mem (link_block bs d t) a = mem t a"
proof (cases "bs = []")
  case False
  then have "fst (last bs) \<in> fst ` set bs" by simp
  then obtain p where p: "p \<in> set pages" "page_aligned p" "slot_of p (fst (last bs))" by (rule links_slot [OF h])
  then have "frame a \<noteq> frame (va_to_pa t p)" using a by (auto simp: page_frames_def al)
  then show ?thesis using al p False by (simp add: link_block_def field_store_mem del: mem_store)
qed (simp add: link_block_def)

section \<open>Removing a block\<close>

definition unlink_block :: "virt_addr list \<Rightarrow> virt_addr \<Rightarrow> 'a kalloc_state_scheme \<Rightarrow> 'a kalloc_state_scheme" where
  "unlink_block before d s =
     set_is_used d False
       (if before = [] then s\<lparr>allocated := load_u64 s (desc_next d)\<rparr>
        else store_u64 (desc_next (last before)) (load_u64 s (desc_next d)) s)"

lemma unlink_block_fields:
  assumes al: "base_aligned s" and p: "page_aligned p" "slot_of p d" and q: "page_aligned q"
    and l: "before = [] \<or> page_aligned l \<and> slot_of l (last before)"
  shows "load_u64 (unlink_block before d s) (next_page q) = load_u64 s (next_page q)"
    and "slot_of q e \<Longrightarrow> load_u64 (unlink_block before d s) (desc_next e) =
           (if before \<noteq> [] \<and> e = last before then load_u64 s (desc_next d) else load_u64 s (desc_next e))"
    and "slot_of q e \<Longrightarrow> load_u64 (unlink_block before d s) (desc_ptr e) = load_u64 s (desc_ptr e)"
    and "slot_of q e \<Longrightarrow> load_u64 (unlink_block before d s) (desc_size e) = load_u64 s (desc_size e)"
    and "slot_of q e \<Longrightarrow> is_used (unlink_block before d s) e = (e \<noteq> d \<and> is_used s e)"
    and "kalloc_page_head (unlink_block before d s) = kalloc_page_head s"
    and "allocated (unlink_block before d s) = (if before = [] then load_u64 s (desc_next d) else allocated s)"
proof -
  have "load_u64 (unlink_block before d s) (next_page q) = load_u64 s (next_page q)
    \<and> (slot_of q e \<longrightarrow> load_u64 (unlink_block before d s) (desc_next e) =
           (if before \<noteq> [] \<and> e = last before then load_u64 s (desc_next d) else load_u64 s (desc_next e))
        \<and> load_u64 (unlink_block before d s) (desc_ptr e) = load_u64 s (desc_ptr e)
        \<and> load_u64 (unlink_block before d s) (desc_size e) = load_u64 s (desc_size e)
        \<and> is_used (unlink_block before d s) e = (e \<noteq> d \<and> is_used s e))" for e
  proof (cases "before = []")
    case False
    then have "page_aligned l" "slot_of l (last before)" using l by simp_all
    with False al p q show ?thesis by (simp add: unlink_block_def field_stores)
  qed (use al p q in \<open>simp add: unlink_block_def field_stores\<close>)
  then show "load_u64 (unlink_block before d s) (next_page q) = load_u64 s (next_page q)"
    and "slot_of q e \<Longrightarrow> load_u64 (unlink_block before d s) (desc_next e) =
           (if before \<noteq> [] \<and> e = last before then load_u64 s (desc_next d) else load_u64 s (desc_next e))"
    and "slot_of q e \<Longrightarrow> load_u64 (unlink_block before d s) (desc_ptr e) = load_u64 s (desc_ptr e)"
    and "slot_of q e \<Longrightarrow> load_u64 (unlink_block before d s) (desc_size e) = load_u64 s (desc_size e)"
    and "slot_of q e \<Longrightarrow> is_used (unlink_block before d s) e = (e \<noteq> d \<and> is_used s e)"
    by blast+
qed (simp_all add: unlink_block_def)

lemma linked_drop:
  assumes "linked nxt a (xs @ z # ys)" "xs \<noteq> [] \<Longrightarrow> nxt' (last xs) = nxt z"
    and "\<And>x. x \<in> set (butlast xs @ ys) \<Longrightarrow> nxt' x = nxt x"
  shows "linked nxt' (if xs = [] then nxt z else a) (xs @ ys)"
proof (cases xs rule: rev_cases)
  case Nil
  then show ?thesis using assms(1,3) by (auto intro: linked_cong)
next
  case (snoc us y)
  have "linked nxt' a (us @ y # ys)"
    by (rule linked_remove) (use assms snoc in simp_all)
  then show ?thesis by (simp add: snoc)
qed

lemma links_remove_block:
  assumes h: "heap_links s pages (xs @ (d, ptr, sz) # ys)" and al: "base_aligned s"
  shows "heap_links (unlink_block (map fst xs) d s) pages (xs @ ys)" (is "heap_links ?s' _ _")
    and "load_u64 (unlink_block (map fst xs) d s) (desc_ptr d) = ptr"
    and "load_u64 (unlink_block (map fst xs) d s) (desc_size d) = sz"
proof -
  obtain p where p: "p \<in> set pages" "page_aligned p" "slot_of p d" by (rule links_slot [OF h, of d]) simp_all
  have "\<exists>l. page_aligned l \<and> slot_of l (last (map fst xs))" if "map fst xs \<noteq> []"
  proof -
    have "last (map fst xs) \<in> fst ` set (xs @ (d, ptr, sz) # ys)"
      using last_in_set [OF that] by (simp only: set_map set_append image_Un Un_iff simp_thms)
    from links_slot [OF h this] show ?thesis by blast
  qed
  then obtain l where l: "map fst xs = [] \<or> page_aligned l \<and> slot_of l (last (map fst xs))" by blast
  note f = unlink_block_fields [OF al p(2,3) _ l]
  have lk: "linked (\<lambda>d. load_u64 s (desc_next d)) (allocated s) (map fst xs @ d # map fst ys)"
    using heap_linksD(2) [OF h] by simp
  have dist: "d \<notin> fst ` set (xs @ ys)" "map fst xs \<noteq> [] \<Longrightarrow> last (map fst xs) \<notin> set (butlast (map fst xs) @ map fst ys)"
    using linked_distinct [OF lk] by (cases xs rule: rev_cases; auto)+
  have sl: "\<exists>q \<in> set pages. slot_of q e" if "e \<in> fst ` set (xs @ ys)" for e
    using heap_linksD(6) [OF h, of e] that by auto
  have "linked (\<lambda>p. load_u64 ?s' (next_page p)) (kalloc_page_head ?s') pages"
    unfolding f(6) [OF p(2)] by (rule linked_cong [OF heap_linksD(1) [OF h]]) (simp add: f(1) heap_linksD(3) [OF h])
  moreover have "linked (\<lambda>d. load_u64 ?s' (desc_next d)) (allocated ?s') (map fst (xs @ ys))"
  proof -
    have "linked (\<lambda>d. load_u64 ?s' (desc_next d))
        (if map fst xs = [] then load_u64 s (desc_next d) else allocated s) (map fst xs @ map fst ys)"
    proof (rule linked_drop [OF lk])
      show "load_u64 ?s' (desc_next (last (map fst xs))) = load_u64 s (desc_next d)" if ne: "map fst xs \<noteq> []"
        using f(2) [of l "last (map fst xs)"] l ne by simp
      show "load_u64 ?s' (desc_next x) = load_u64 s (desc_next x)" if x: "x \<in> set (butlast (map fst xs) @ map fst ys)" for x
      proof -
        have "x \<in> set (map fst (xs @ ys))" using x in_set_butlastD [of x "map fst xs"] by auto
        then have "x \<in> fst ` set (xs @ ys)" by (simp only: set_map)
        then obtain q where "q \<in> set pages" "slot_of q x" using sl by blast
        then show ?thesis using f(2) [OF heap_linksD(3) [OF h], of q x] dist(2) x by auto
      qed
    qed
    then show ?thesis by (simp add: f(7) [OF p(2)])
  qed
  moreover have "load_u64 ?s' (desc_ptr e) = ptr' \<and> load_u64 ?s' (desc_size e) = sz'"
    if b: "(e, ptr', sz') \<in> set (xs @ ys)" for e ptr' sz'
  proof -
    have "e \<in> fst ` set (xs @ ys)" using b by (rule rev_image_eqI) simp
    then obtain q where q: "q \<in> set pages" "slot_of q e" using sl by blast
    show ?thesis using f(3,4) [OF heap_linksD(3) [OF h q(1)] q(2)] heap_linksD(5) [OF h, of e ptr' sz'] b by auto
  qed
  moreover have "is_used ?s' e \<longleftrightarrow> e \<in> fst ` set (xs @ ys)" if "q \<in> set pages" "slot_of q e" for q e
    using f(5) [OF heap_linksD(3) [OF h that(1)] that(2)] heap_linksD(7) [OF h that] dist(1) by auto
  ultimately show "heap_links ?s' pages (xs @ ys)"
    unfolding heap_links_def using heap_linksD(3) [OF h] sl by blast
  show "load_u64 ?s' (desc_ptr d) = ptr" "load_u64 ?s' (desc_size d) = sz"
    using f(3,4) [OF p(2,3)] heap_linksD(5) [OF h, of d ptr sz] by simp_all
qed

lemma remove_from_allocated_list_eq:
  assumes h: "heap_links s pages (xs @ (d, ptr, sz) # ys)" and ptr: "ptr \<noteq> 0" "ptr \<notin> (fst \<circ> snd) ` set xs"
  shows "remove_from_allocated_list ptr s = Some (d, unlink_block (map fst xs) d s)"
proof -
  have lk: "linked (\<lambda>d. load_u64 s (desc_next d)) (allocated s) (map fst xs @ d # map fst ys)"
    using heap_linksD(2) [OF h] by simp
  have d: "load_u64 s (desc_ptr d) = ptr" "d \<noteq> 0"
    using heap_linksD(5) [OF h, of d ptr sz] linked_nonnull [OF lk] by auto
  have before: "\<forall>x \<in> set (map fst xs). load_u64 s (desc_ptr x) \<noteq> ptr"
    using heap_linksD(5) [OF h] ptr(2) by (force simp: image_iff)
  show ?thesis
  proof (cases xs)
    case Nil
    then show ?thesis using lk d ptr(1) by (simp add: remove_from_allocated_list_def unlink_block_def Let_def)
  next
    case (Cons x xs')
    have al: "allocated s = fst x" "fst x \<noteq> 0" using lk by (simp_all add: Cons)
    have "find_block (allocated s) 0 ptr s = Some (d, last (map fst xs))"
      using find_block_linked [OF lk before d(1)] by (simp add: Cons)
    moreover have "last (map fst xs) \<noteq> 0"
      using linked_nonnull [OF lk] last_in_set [of "map fst xs"] Cons by (metis Un_iff list.distinct(1) list.simps(9) set_append)
    ultimately show ?thesis using al before d(2) ptr(1)
      by (simp add: remove_from_allocated_list_def unlink_block_def Let_def Cons)
  qed
qed

lemma remove_from_allocated_list_none:
  assumes h: "heap_links s pages bs" and ptr: "ptr = 0 \<or> ptr \<notin> (fst \<circ> snd) ` set bs"
  shows "remove_from_allocated_list ptr s = Some (0, s)"
proof (cases "ptr = 0 \<or> allocated s = 0")
  case False
  note lk = heap_linksD(2) [OF h]
  have nn: "\<forall>x \<in> set (map fst bs). load_u64 s (desc_ptr x) \<noteq> ptr"
    using heap_linksD(5) [OF h] ptr False by (force simp: image_iff)
  moreover have "load_u64 s (desc_ptr (allocated s)) \<noteq> ptr" using lk False nn by (cases bs) auto
  moreover have "find_block (allocated s) 0 ptr s = Some (0, last (0 # map fst bs))"
    by (rule find_block_none [OF lk nn])
  ultimately show ?thesis using False by (simp add: remove_from_allocated_list_def)
qed (auto simp: remove_from_allocated_list_def)

lemma unlink_block_mem:
  assumes h: "heap_links s pages (xs @ (d, ptr, sz) # ys)" and al: "base_aligned s"
    and a: "frame a \<notin> page_frames s pages"
  shows "mem (unlink_block (map fst xs) d s) a = mem s a"
proof -
  obtain p where p: "p \<in> set pages" "page_aligned p" "slot_of p d" by (rule links_slot [OF h, of d]) simp_all
  have fp: "frame a \<noteq> frame (va_to_pa s p)" using a p(1) by (auto simp: page_frames_def)
  show ?thesis
  proof (cases "map fst xs = []")
    case False
    have "last (map fst xs) \<in> fst ` set (xs @ (d, ptr, sz) # ys)"
      using last_in_set [OF False] by (simp only: set_map set_append image_Un Un_iff simp_thms)
    then obtain l where l: "l \<in> set pages" "page_aligned l" "slot_of l (last (map fst xs))" by (rule links_slot [OF h])
    then have "frame a \<noteq> frame (va_to_pa s l)" using a by (auto simp: page_frames_def)
    then show ?thesis using al p l fp False by (simp add: unlink_block_def field_store_mem del: mem_store)
  qed (use al p fp in \<open>simp add: unlink_block_def field_store_mem\<close>)
qed

section \<open>Unlinking a page\<close>

definition unlink_page :: "virt_addr list \<Rightarrow> virt_addr \<Rightarrow> 'a kalloc_state_scheme \<Rightarrow> 'a kalloc_state_scheme" where
  "unlink_page before p s =
     (if before = [] then s\<lparr>kalloc_page_head := load_u64 s (next_page p)\<rparr>
      else store_u64 (next_page (last before)) (load_u64 s (next_page p)) s)"

lemma links_remove_page:
  assumes h: "heap_links s (us @ p # vs) bs" and al: "base_aligned s"
    and empty: "\<forall>d \<in> fst ` set bs. \<not> slot_of p d"
  shows "heap_links (unlink_page us p s) (us @ vs) bs" (is "heap_links ?s' _ _")
proof -
  have pal: "page_aligned q" if "q \<in> set (us @ vs)" for q using heap_linksD(3) [OF h, of q] that by auto
  have l: "us \<noteq> [] \<Longrightarrow> page_aligned (last us)" using pal by simp
  have f: "load_u64 ?s' (next_page q) = (if us \<noteq> [] \<and> q = last us then load_u64 s (next_page p) else load_u64 s (next_page q))"
    "slot_of q e \<Longrightarrow> load_u64 ?s' (desc_next e) = load_u64 s (desc_next e)"
    "slot_of q e \<Longrightarrow> load_u64 ?s' (desc_ptr e) = load_u64 s (desc_ptr e)"
    "slot_of q e \<Longrightarrow> load_u64 ?s' (desc_size e) = load_u64 s (desc_size e)"
    "slot_of q e \<Longrightarrow> is_used ?s' e = is_used s e" if "q \<in> set (us @ vs)" for q e
    using al l pal [OF that] by (simp_all add: unlink_page_def field_stores)
  have hd: "kalloc_page_head ?s' = (if us = [] then load_u64 s (next_page p) else kalloc_page_head s)"
    "allocated ?s' = allocated s" by (simp_all add: unlink_page_def)
  have sl: "\<exists>q \<in> set (us @ vs). slot_of q e" if "e \<in> fst ` set bs" for e
    using heap_linksD(6) [OF h that] empty that by auto
  note lk = heap_linksD(1) [OF h]
  have "linked (\<lambda>p. load_u64 ?s' (next_page p)) (if us = [] then load_u64 s (next_page p) else kalloc_page_head s) (us @ vs)"
  proof (rule linked_drop [OF lk])
    show "us \<noteq> [] \<Longrightarrow> load_u64 ?s' (next_page (last us)) = load_u64 s (next_page p)" using f(1) by simp
    fix q assume q: "q \<in> set (butlast us @ vs)"
    have "us = [] \<or> q \<noteq> last us" using q linked_distinct [OF lk] by (cases us rule: rev_cases) auto
    moreover have "q \<in> set (us @ vs)" using q by (auto dest: in_set_butlastD)
    ultimately show "load_u64 ?s' (next_page q) = load_u64 s (next_page q)" using f(1) by auto
  qed
  moreover have "linked (\<lambda>d. load_u64 ?s' (desc_next d)) (allocated ?s') (map fst bs)"
    unfolding hd by (rule linked_cong [OF heap_linksD(2) [OF h]]) (use sl f(2) in force)
  moreover have "load_u64 ?s' (desc_ptr e) = ptr \<and> load_u64 ?s' (desc_size e) = sz" if b: "(e, ptr, sz) \<in> set bs" for e ptr sz
    using heap_linksD(5) [OF h b] sl [OF rev_image_eqI [OF b]] f(3,4) by force
  moreover have "is_used ?s' e \<longleftrightarrow> e \<in> fst ` set bs" if "q \<in> set (us @ vs)" "slot_of q e" for q e
    using f(5) [OF that] heap_linksD(7) [OF h, of q e] that by auto
  ultimately show ?thesis unfolding heap_links_def hd(1) using pal sl by blast
qed

lemma unlink_page_mem:
  assumes "base_aligned s" "\<forall>q \<in> set us. page_aligned q" "frame a \<notin> page_frames s us"
  shows "mem (unlink_page us p s) a = mem s a"
proof (cases "us = []")
  case False
  then have "frame a \<noteq> frame (va_to_pa s (last us))" "page_aligned (last us)"
    using assms by (auto simp: page_frames_def)
  then show ?thesis using assms(1) False by (simp add: unlink_page_def field_store_mem del: mem_store)
qed (simp add: unlink_page_def)

lemma free_management_page_eq:
  assumes h: "heap_links s (us @ p # vs) bs" and d: "slot_of p d"
  shows "free_management_page_if_empty d s =
    Some (if \<exists>e \<in> fst ` set bs. slot_of p e then s
          else page_free (va_to_pa (unlink_page us p s) p) 1 (unlink_page us p s))"
proof -
  note lk = heap_linksD(1) [OF h] and pal = heap_linksD(3) [OF h, of p] and nz = heap_linksD(4) [OF h, of p]
  have dn: "p \<notin> set us" "distinct us" using linked_distinct [OF lk] by auto
  let ?head = "kalloc_page_head s"
  have fp: "find_page ?head ?head p s = Some (p, last (?head # us))"
    by (rule find_page_linked [OF lk dn(1)])
  have prev: "last (?head # us) = p \<longleftrightarrow> us = []" "us \<noteq> [] \<Longrightarrow> last (?head # us) = last us"
    using lk dn(1) by (cases us rule: rev_cases; auto)+
  have used: "(\<exists>i \<in> set (for_range 0 MAX_MANAGEMENT_BLOCKS_PER_PAGE). is_used s (page_slot p i)) \<longleftrightarrow>
      (\<exists>e \<in> fst ` set bs. slot_of p e)"
  proof -
    have "(\<exists>i \<in> set (for_range 0 MAX_MANAGEMENT_BLOCKS_PER_PAGE). is_used s (page_slot p i)) \<longleftrightarrow>
        (\<exists>e. slot_of p e \<and> is_used s e)"
      by (auto simp: set_for_range MAX_MANAGEMENT_BLOCKS_PER_PAGE_eq slot_of_def)
    then show ?thesis using heap_linksD(7) [OF h, of p] by auto
  qed
  have pn: "p \<noteq> 0" "d \<noteq> 0" "d AND NOT (PAGE_SIZE - 1) = p" using slot_nonnull slot_of_page(1) pal nz d by auto
  show ?thesis
    by (simp only: free_management_page_if_empty_def Let_def pn fp used option.case prod.case if_False)
      (use prev in \<open>simp add: unlink_page_def\<close>)
qed

end
