(* ===== verification/Kalloc_Correct.thy ===== *)
theory Kalloc_Correct
  imports Kalloc_Blocks
begin

text \<open>
  Correctness of \<^verbatim>\<open>kmalloc\<close> and \<^verbatim>\<open>kfree\<close>. Both return on every consistent heap; a block that
  \<^verbatim>\<open>kmalloc\<close> hands out is made of frames nobody used, \<^verbatim>\<open>kfree\<close> gives back exactly the block of its
  argument and the management page that became empty, and neither changes a byte outside the
  allocators' own pages.
\<close>

section \<open>Allocation\<close>

lemma page_alloc_null_upd:
  assumes inv: "alloc_inv s" and m: "\<And>a. is_bitmap_frame s (frame a) \<Longrightarrow> m a = mem s a"
  shows "fst (page_alloc n (s\<lparr>mem := m\<rparr>)) = PHYS_ADDR_NULL \<longleftrightarrow> fst (page_alloc n s) = PHYS_ADDR_NULL"
  using page_alloc_iff [OF inv, of n] page_alloc_iff [OF alloc_view_mem_upd(2) [OF inv m], of n]
  by (simp add: alloc_view_mem_upd(1) [OF inv m]) blast

lemma set_is_used_undo: "\<not> is_used s d \<Longrightarrow> set_is_used d False (set_is_used d True s) = s"
  by (cases s) (simp add: is_used_def set_is_used_def store_byte_def load_byte_def va_to_pa_def fun_upd_idem)

lemma set_is_used_redo:
  "load_byte s (desc_is_used d) = 1 \<Longrightarrow> set_is_used d True (set_is_used d False s) = s"
  by (cases s) (simp add: set_is_used_def store_byte_def load_byte_def va_to_pa_def fun_upd_idem)

lemma set_is_used_upd: "set_is_used d b s = s\<lparr>mem := mem (set_is_used d b s)\<rparr>"
  by (simp add: set_is_used_def store_byte_def)

text \<open>Marking a descriptor does not touch what is owned.\<close>

lemma page_store_not_bitmap:
  assumes "heap_owned base s pages bs" "is_bitmap_frame s (frame a)"
  shows "frame a \<notin> page_frames s pages"
  using heap_ownedD(6) [OF assms(1)] assms(2) by blast

lemma mark_owned:
  assumes h: "heap_rep base s pages bs" and p: "p \<in> set pages" "slot_of p d"
  shows "heap_owned base (set_is_used d b s) pages bs"
    and "\<And>a. is_bitmap_frame s (frame a) \<Longrightarrow> mem (set_is_used d b s) a = mem s a"
    and "\<And>a. frame a \<noteq> frame (va_to_pa s p) \<Longrightarrow> mem (set_is_used d b s) a = mem s a"
proof -
  note ho = heap_repD(2) [OF h]
  have pal: "page_aligned p" by (rule heap_linksD(3) [OF heap_repD(1) [OF h] p(1)])
  show out: "mem (set_is_used d b s) a = mem s a" if "frame a \<noteq> frame (va_to_pa s p)" for a
    using field_store_mem(5) [OF heap_ownedD(3) [OF ho] pal that p(2)] .
  show bm: "mem (set_is_used d b s) a = mem s a" if "is_bitmap_frame s (frame a)" for a
    using page_store_not_bitmap [OF ho that] p(1) by (intro out) (auto simp: page_frames_def)
  show "heap_owned base (set_is_used d b s) pages bs"
    by (subst set_is_used_upd, rule heap_owned_upd [OF ho bm])
qed

text \<open>
  The step from a found descriptor to the finished block: \<open>t\<close> is the heap state with the pages
  taken and the descriptor not yet marked.
\<close>

lemma finish_block:
  assumes h: "heap_links t pages bs" and ho: "heap_owned base t pages (bs @ [(d, ptr, sz)])"
    and p: "p \<in> set pages" "slot_of p d" and new: "d \<notin> fst ` set bs"
  defines "s' \<equiv> link_block bs d (fill_desc d ptr sz t)"
  shows "heap_rep base s' pages (bs @ [(d, ptr, sz)])" "heap_keeps pages t s'" "load_u64 s' (desc_ptr d) = ptr"
proof -
  note al = heap_ownedD(3) [OF ho]
  have pal: "page_aligned p" by (rule heap_linksD(3) [OF h p(1)])
  have m: "mem s' a = mem t a" if "frame a \<notin> page_frames t pages" for a
  proof -
    have "frame a \<noteq> frame (va_to_pa t p)" using that p(1) by (auto simp: page_frames_def)
    then show ?thesis unfolding s'_def
      using link_block_mem [OF h _ _ that, of "fill_desc d ptr sz t"] fill_desc_mem [OF al pal p(2)] al by simp
  qed
  have s': "s' = t\<lparr>mem := mem s', allocated := allocated s', kalloc_page_head := kalloc_page_head s'\<rparr>"
  proof -
    have "s' = (fill_desc d ptr sz t)\<lparr>mem := mem s', allocated := allocated s'\<rparr>"
      unfolding s'_def by (rule link_block_same)
    also have "\<dots> = t\<lparr>mem := mem s', allocated := allocated s'\<rparr>" by (subst fill_desc_same) simp
    finally show ?thesis by (cases t) (simp add: s'_def link_block_def)
  qed
  then show "heap_keeps pages t s'" using m by (simp add: heap_keeps_def)
  have links: "heap_links s' pages (bs @ [(d, ptr, sz)])"
    unfolding s'_def by (rule links_append_block [OF h al p new])
  have "heap_owned base (t\<lparr>mem := mem s'\<rparr>) pages (bs @ [(d, ptr, sz)])"
    by (rule heap_owned_upd [OF ho]) (use m page_store_not_bitmap [OF ho] in blast)
  then have "heap_owned base s' pages (bs @ [(d, ptr, sz)])" by (subst s') simp
  with links show "heap_rep base s' pages (bs @ [(d, ptr, sz)])" by (simp add: heap_rep_def)
  show "load_u64 s' (desc_ptr d) = ptr" using heap_linksD(5) [OF links, of d ptr sz] by simp
qed

lemma take_block:
  assumes h: "heap_rep base s pages bs" and p: "p \<in> set pages" "slot_of p d" and new: "d \<notin> fst ` set bs"
    and a: "page_alloc (NUM_PAGES sz) (set_is_used d True s) = (P, s2)" "P \<noteq> PHYS_ADDR_NULL" and sz: "size_ok sz"
  defines "t \<equiv> set_is_used d False s2"
  shows "heap_links t pages bs" "heap_owned base t pages (bs @ [(d, pa_to_va s P, sz)])" "heap_keeps pages s t"
    "s2 = set_is_used d True t" "block_frames P (NUM_PAGES sz) \<inter> used_frames s = {}" "pa_to_va s P \<noteq> 0"
    "page_aligned (pa_to_va s P)"
proof -
  define s1 where "s1 = set_is_used d True s"
  note hl = heap_repD(1) [OF h] and ho = heap_repD(2) [OF h]
  note inv = heap_ownedD(1,2,3) [OF ho]
  note mk = mark_owned [where b = True, OF h p, folded s1_def]
  note inv1 = heap_ownedD(1,2,3) [OF mk(1)]
  note own = page_alloc_owned [OF inv1(1) a [folded s1_def]] and fr = page_alloc_frame [OF inv1(1) a [folded s1_def]]
  have s1: "s1 = s\<lparr>mem := mem s1\<rparr>" unfolding s1_def by (rule set_is_used_upd)
  have va: "va_to_pa s1 = va_to_pa s" "is_bitmap_frame s1 = is_bitmap_frame s" "pa_to_va s1 = pa_to_va s"
    "owns_block s1 = owns_block s" "page_frames s1 = page_frames s"
    by (subst s1, simp add: is_bitmap_frame_def va_to_pa_def pa_to_va_def fun_eq_iff)+
  have s2: "s2 = s\<lparr>mem := mem s2\<rparr>" by (subst own(5), subst s1) simp
  have va2: "va_to_pa s2 = va_to_pa s" by (subst s2) (simp add: va_to_pa_def fun_eq_iff)
  have us: "used_frames s1 = used_frames s" by (subst s1, rule used_frames_upd(1) [OF inv(1) mk(2)])
  show "block_frames P (NUM_PAGES sz) \<inter> used_frames s = {}" using own(3) us by simp
  show nz: "pa_to_va s P \<noteq> 0" using owned_nonnull [OF inv1(1,2) own(2)] a(2) by (simp add: va PHYS_ADDR_NULL_def)
  show pal: "page_aligned (pa_to_va s P)"
    using fr(1) va_to_pa_aligned(1) [OF inv(3), of "pa_to_va s P"] by simp
  have ho2: "heap_owned base s2 pages (bs @ [(d, pa_to_va s P, sz)])"
    by (rule owned_take(2) [OF mk(1) own(1,5,3,4,2)]) (use sz nz pal in \<open>simp_all add: va\<close>)
  let ?u = "va_to_pa s (desc_is_used d)"
  have fu: "frame ?u \<in> page_frames s pages"
    using field_frames(3) [OF inv(3) heap_linksD(3) [OF hl p(1)] p(2)] p(1) by (auto simp: page_frames_def)
  have t: "t = s2\<lparr>mem := (mem s2)(?u := 0)\<rparr>" by (simp add: t_def set_is_used_def store_byte_def va2)
  have b: "mem s1 = (mem s)(?u := 1)" "mem s ?u = 0"
    using heap_linksD(7) [OF hl p] new by (simp_all add: s1_def set_is_used_def store_byte_def is_used_def load_byte_def)
  have s2m: "mem s2 x = mem s1 x" if "\<not> is_bitmap_frame s (frame x)" for x using fr(2) that by (simp add: va)
  have nbu: "\<not> is_bitmap_frame s (frame ?u)" using heap_ownedD(6) [OF ho fu] .
  have tm: "mem t x = mem s x" if "\<not> is_bitmap_frame s (frame x)" for x
    using s2m [OF that] b by (simp add: t)
  show "s2 = set_is_used d True t"
    unfolding t_def by (rule set_is_used_redo [symmetric]) (use s2m [OF nbu] b(1) in \<open>simp add: load_byte_def va2\<close>)
  show "heap_owned base t pages (bs @ [(d, pa_to_va s P, sz)])"
    unfolding t by (rule heap_owned_upd [OF ho2]) (use nbu in \<open>subst (asm) s2, auto simp: is_bitmap_frame_def\<close>)
  have ts: "t = s\<lparr>mem := mem t\<rparr>" unfolding t by (subst s2) simp
  show "heap_links t pages bs"
  proof (rule heap_links_cong [OF hl inv(3)])
    show "kalloc_page_head t = kalloc_page_head s" "allocated t = allocated s" "kernel_base_va t = kernel_base_va s"
      by (subst ts, simp)+
  qed (use tm heap_ownedD(6) [OF ho] in blast)
  show "heap_keeps pages s t" using ts by (rule heap_keepsI) (rule tm)
qed

lemma size_ok_iff: "size_ok sz \<longleftrightarrow> sz \<noteq> 0 \<and> \<not> sz > - 1 - (PAGE_SIZE - 1)"
proof -
  have "- 1 - (PAGE_SIZE - 1) = 0xFFFFFFFFFFFFF000" by (simp add: PAGE_SIZE_def)
  then show ?thesis by (auto simp: size_ok_def word_less_nat_alt)
qed

lemma kmalloc_spec:
  assumes h: "heap_rep base s pages bs"
  shows "\<exists>r s' vs. kmalloc sz s = Some (r, s') \<and> length vs \<le> 1 \<and> heap_keeps (pages @ vs) s s'
    \<and> (r = 0 \<longrightarrow> heap_rep base s' (pages @ vs) bs
         \<and> (\<not> size_ok sz \<or> fst (page_alloc 1 s) = PHYS_ADDR_NULL \<or> fst (page_alloc (NUM_PAGES sz) s') = PHYS_ADDR_NULL))
    \<and> (r \<noteq> 0 \<longrightarrow> size_ok sz \<and> page_aligned r \<and> block_frames (va_to_pa s r) (NUM_PAGES sz) \<inter> used_frames s = {}
         \<and> (\<exists>d. heap_rep base s' (pages @ vs) (bs @ [(d, r, sz)]) \<and> (\<forall>v \<in> set vs. slot_of v d)))"
proof (cases "size_ok sz")
  case False
  then have "kmalloc sz s = Some (0, s)" by (auto simp: kmalloc_def size_ok_iff)
  then show ?thesis using h False heap_keeps_refl [of pages s] by (intro exI [of _ 0] exI [of _ s] exI [of _ "[]"]) simp
next
  case True
  then have szc: "sz \<noteq> 0" "\<not> - PAGE_SIZE < sz" using size_ok_iff [of sz] by simp_all
  obtain d s1 where f: "find_free_management_block s = Some (d, s1)"
    and fs: "d = 0 \<and> s1 = s \<and> fst (page_alloc 1 s) = PHYS_ADDR_NULL \<or> found_slot base bs s pages d s1"
    using find_free_management_block_spec [OF h] by blast
  from fs show ?thesis
  proof
    assume "d = 0 \<and> s1 = s \<and> fst (page_alloc 1 s) = PHYS_ADDR_NULL"
    then show ?thesis using h f heap_keeps_refl [of pages s]
      by (intro exI [of _ 0] exI [of _ s] exI [of _ "[]"]) (simp add: kmalloc_def szc)
  next
    assume "found_slot base bs s pages d s1"
    then obtain s0 vs p where h0: "heap_rep base s0 (pages @ vs) bs" and p: "p \<in> set (pages @ vs)" "slot_of p d"
      and d: "d \<notin> fst ` set bs" "d \<noteq> 0" and s1: "s1 = set_is_used d True s0" and k0: "heap_keeps (pages @ vs) s s0"
      and dv: "\<forall>v \<in> set vs. slot_of v d" "length vs \<le> 1"
      unfolding found_slot_def by blast
    obtain P s2 where a: "page_alloc (NUM_PAGES sz) (set_is_used d True s0) = (P, s2)"
      by (cases "page_alloc (NUM_PAGES sz) (set_is_used d True s0)")
    show ?thesis
    proof (cases "P = PHYS_ADDR_NULL")
      case True
      note inv1 = heap_ownedD(1) [OF mark_owned(1) [where b = True, OF h0 p]]
      have "s2 = s1" using page_alloc_fail(1) [OF inv1] a True by (simp add: s1)
      moreover have "\<not> is_used s0 d" using heap_linksD(7) [OF heap_repD(1) [OF h0] p] d(1) by simp
      ultimately have "kmalloc sz s = Some (0, s0)"
        using a d(2) True by (simp add: kmalloc_def szc f s1 set_is_used_undo)
      moreover have "fst (page_alloc (NUM_PAGES sz) s0) = PHYS_ADDR_NULL"
        using page_alloc_null_upd [OF heap_ownedD(1) [OF heap_repD(2) [OF h0]] mark_owned(2) [where b = True, OF h0 p], of "NUM_PAGES sz"]
          a True set_is_used_upd [of d True s0] by simp
      ultimately show ?thesis using h0 k0 dv(2) by (intro exI [of _ 0] exI [of _ s0] exI [of _ vs]) simp
    next
      case False
      note tk = take_block [OF h0 p d(1) a False \<open>size_ok sz\<close>]
      define t where "t = set_is_used d False s2"
      note fin = finish_block [OF tk(1,2) p d(1)]
      define s' where "s' = link_block bs d (fill_desc d (pa_to_va s0 P) sz t)"
      have va: "pa_to_va s2 = pa_to_va s0" "pa_to_va s0 = pa_to_va s" "va_to_pa s0 = va_to_pa s"
        using heap_keepsD(2) [OF tk(3)] heap_keepsD(1,2) [OF k0] by simp_all
      have "kmalloc sz s = Some (pa_to_va s0 P, s')"
        using f a d(2) False add_to_allocated_list_eq [OF tk(1) heap_ownedD(3) [OF tk(2)] p d(1), folded tk(4)]
          fin(3) by (simp add: kmalloc_def szc s1 va Let_def s'_def t_def)
      moreover have "heap_keeps (pages @ vs) s s'"
        using heap_keeps_trans [OF heap_keeps_trans [OF k0 tk(3)] fin(2)] by (simp add: s'_def t_def)
      moreover have "used_frames s \<subseteq> used_frames s0"
        using heap_repD(2) [OF h] heap_repD(2) [OF h0] va(3)
        by (auto simp: heap_owned_def page_blocks_def user_blocks_def)
      ultimately show ?thesis using tk(5,6,7) fin(1) \<open>size_ok sz\<close> va dv
        by (intro exI [of _ "pa_to_va s0 P"] exI [of _ s'] exI [of _ vs]) (auto simp: s'_def t_def)
    qed
  qed
qed

section \<open>Freeing\<close>

text \<open>Pointers of live blocks are distinct: blocks with the same pointer would share a frame.\<close>

lemma block_frames_pos: "n \<noteq> 0 \<Longrightarrow> frame p \<in> block_frames p n"
  by (simp add: block_frames_def unat_gt_0)

lemma NUM_PAGES_pos: "size_ok sz \<Longrightarrow> NUM_PAGES sz \<noteq> 0"
proof -
  assume sz: "size_ok sz"
  then have "unat (NUM_PAGES sz) = (unat sz + 4095) div 4096" by (simp add: size_ok_def NUM_PAGES_unat)
  moreover have "0 < unat sz" using sz by (simp add: size_ok_def unat_gt_0)
  ultimately have "0 < unat (NUM_PAGES sz)" by (simp add: div_greater_zero_iff)
  then show "NUM_PAGES sz \<noteq> 0" by auto
qed

lemma live_ptr_unique:
  assumes ho: "heap_owned base s pages (xs @ (d, ptr, sz) # ys)"
  shows "ptr \<notin> (fst \<circ> snd) ` set xs"
proof
  assume "ptr \<in> (fst \<circ> snd) ` set xs"
  then obtain e sz' where e: "(e, ptr, sz') \<in> set xs" by force
  have ok: "NUM_PAGES sz \<noteq> 0" "NUM_PAGES sz' \<noteq> 0"
    using heap_ownedD(4) [OF ho, of d ptr sz] heap_ownedD(4) [OF ho, of e ptr sz'] e NUM_PAGES_pos by auto
  have "frame (va_to_pa s ptr) \<in> live_frames (user_blocks s xs)"
    using e block_frames_pos [OF ok(2)] by (force simp: live_frames_def user_blocks_def)
  moreover have "live_frames (user_blocks s xs) \<inter> block_frames (va_to_pa s ptr) (NUM_PAGES sz) = {}"
    using ho by (auto simp: heap_owned_def pairwise_apart_append)
  ultimately show False using block_frames_pos [OF ok(1), of "va_to_pa s ptr"] by blast
qed

text \<open>Giving pages back changes the bitmaps only.\<close>

lemma page_free_keeps:
  assumes hl: "heap_links s pages' bs'" and ho: "heap_owned base s pages bs" and own: "owns_block s p n"
    and sub: "page_frames s pages' \<subseteq> page_frames s pages"
  shows "heap_links (page_free p n s) pages' bs'" "heap_keeps pages'' s (page_free p n s)"
proof -
  note inv = heap_ownedD(1,3) [OF ho] and fr = free_owned_block [OF heap_ownedD(1) [OF ho] own]
  show "heap_links (page_free p n s) pages' bs'"
  proof (rule heap_links_cong [OF hl inv(2)])
    show "kalloc_page_head (page_free p n s) = kalloc_page_head s" "allocated (page_free p n s) = allocated s"
      "kernel_base_va (page_free p n s) = kernel_base_va s"
      by (subst fr(3), simp)+
    show "mem (page_free p n s) a = mem s a" if "frame a \<in> page_frames s pages'" for a
      using fr(4) heap_ownedD(6) [OF ho] that sub by blast
  qed
  show "heap_keeps pages'' s (page_free p n s)"
    using fr(3) by (rule heap_keepsI) (rule fr(4))
qed

lemma give_page:
  assumes h: "heap_rep base s (us @ p # vs) bs" and empty: "\<forall>d \<in> fst ` set bs. \<not> slot_of p d"
  defines "s1 \<equiv> unlink_page us p s"
  shows "heap_rep base (page_free (va_to_pa s1 p) 1 s1) (us @ vs) bs"
    "heap_keeps (us @ p # vs) s (page_free (va_to_pa s1 p) 1 s1)"
proof -
  note hl = heap_repD(1) [OF h] and ho = heap_repD(2) [OF h]
  note al = heap_ownedD(3) [OF ho]
  have s1: "s1 = s\<lparr>mem := mem s1, allocated := allocated s1, kalloc_page_head := kalloc_page_head s1\<rparr>"
    by (cases s) (simp add: s1_def unlink_page_def store_u64_def)
  have m: "mem s1 a = mem s a" if "frame a \<notin> page_frames s (us @ p # vs)" for a
    unfolding s1_def by (rule unlink_page_mem [OF al]) (use heap_linksD(3) [OF hl] that in auto)
  have k1: "heap_keeps (us @ p # vs) s s1" unfolding heap_keeps_def using s1 m by blast
  note same = heap_keepsD [OF k1]
  have hl1: "heap_links s1 (us @ vs) bs" unfolding s1_def by (rule links_remove_page [OF hl al empty])
  have "heap_owned base (s\<lparr>mem := mem s1\<rparr>) (us @ p # vs) bs"
    by (rule heap_owned_upd [OF ho]) (use m page_store_not_bitmap [OF ho] in blast)
  then have ho1: "heap_owned base s1 (us @ p # vs) bs" by (subst s1) simp
  have own: "owns_block s1 (va_to_pa s1 p) 1" using heap_ownedD(5) [OF ho1, of p] by simp
  note pk = page_free_keeps [OF hl1 ho1 own] and fr = free_owned_block [OF heap_ownedD(1) [OF ho1] own]
  have "heap_owned base (page_free (va_to_pa s1 p) 1 s1) (us @ vs) bs"
    by (rule owned_give(1) [OF ho1 fr(1,3,2)]) simp_all
  then show "heap_rep base (page_free (va_to_pa s1 p) 1 s1) (us @ vs) bs"
    using pk(1) by (auto simp: heap_rep_def)
  show "heap_keeps (us @ p # vs) s (page_free (va_to_pa s1 p) 1 s1)"
    by (rule heap_keeps_trans [OF k1 pk(2)]) auto
qed

lemma give_block:
  assumes h: "heap_rep base s pages (xs @ (d, ptr, sz) # ys)"
  defines "s1 \<equiv> unlink_block (map fst xs) d s"
  shows "heap_rep base (page_free (va_to_pa s ptr) (NUM_PAGES sz) s1) pages (xs @ ys)"
    "heap_keeps pages s (page_free (va_to_pa s ptr) (NUM_PAGES sz) s1)"
    "load_u64 s1 (desc_ptr d) = ptr" "load_u64 s1 (desc_size d) = sz" "va_to_pa s1 = va_to_pa s"
proof -
  note hl = heap_repD(1) [OF h] and ho = heap_repD(2) [OF h]
  note al = heap_ownedD(3) [OF ho]
  have s1: "s1 = s\<lparr>mem := mem s1, allocated := allocated s1, kalloc_page_head := kalloc_page_head s1\<rparr>"
    by (cases s) (simp add: s1_def unlink_block_def store_u64_def set_is_used_def store_byte_def)
  have m: "mem s1 a = mem s a" if "frame a \<notin> page_frames s pages" for a
    unfolding s1_def by (rule unlink_block_mem [OF hl al that])
  have k1: "heap_keeps pages s s1" unfolding heap_keeps_def using s1 m by blast
  show va: "va_to_pa s1 = va_to_pa s" by (rule heap_keepsD(1) [OF k1])
  have hl1: "heap_links s1 pages (xs @ ys)" unfolding s1_def by (rule links_remove_block(1) [OF hl al])
  have "heap_owned base (s\<lparr>mem := mem s1\<rparr>) pages (xs @ (d, ptr, sz) # ys)"
    by (rule heap_owned_upd [OF ho]) (use m page_store_not_bitmap [OF ho] in blast)
  then have ho1: "heap_owned base s1 pages (xs @ (d, ptr, sz) # ys)" by (subst s1) simp
  have own: "owns_block s1 (va_to_pa s ptr) (NUM_PAGES sz)" using heap_ownedD(4) [OF ho1, of d ptr sz] by (simp add: va)
  note pk = page_free_keeps [OF hl1 ho1 own] and fr = free_owned_block [OF heap_ownedD(1) [OF ho1] own]
  have "heap_owned base (page_free (va_to_pa s ptr) (NUM_PAGES sz) s1) pages (xs @ ys)"
    by (rule owned_give(2) [OF ho1 fr(1,3,2) refl]) (simp_all add: va)
  then show "heap_rep base (page_free (va_to_pa s ptr) (NUM_PAGES sz) s1) pages (xs @ ys)"
    using pk(1) by (simp add: heap_rep_def)
  show "heap_keeps pages s (page_free (va_to_pa s ptr) (NUM_PAGES sz) s1)"
    by (rule heap_keeps_trans [OF k1 pk(2)]) simp_all
  show "load_u64 s1 (desc_ptr d) = ptr" "load_u64 s1 (desc_size d) = sz"
    unfolding s1_def by (rule links_remove_block(2,3) [OF hl al])+
qed

lemma kfree_live:
  assumes h: "heap_rep base s pages (xs @ (d, ptr, sz) # ys)"
  shows "\<exists>s'. kfree ptr s = Some s' \<and> heap_keeps pages s s'
    \<and> heap_rep base s' (filter (\<lambda>p. slot_of p d \<longrightarrow> (\<exists>e \<in> fst ` set (xs @ ys). slot_of p e)) pages) (xs @ ys)"
proof -
  note hl = heap_repD(1) [OF h] and ho = heap_repD(2) [OF h]
  define s1 where "s1 = unlink_block (map fst xs) d s"
  define s2 where "s2 = page_free (va_to_pa s ptr) (NUM_PAGES sz) s1"
  note g = give_block [OF h, folded s1_def, folded s2_def]
  have ptr: "ptr \<noteq> 0" using heap_ownedD(4) [OF ho, of d ptr sz] by simp
  obtain p where p: "p \<in> set pages" "page_aligned p" "slot_of p d" by (rule links_slot [OF hl, of d]) auto
  then obtain us vs where pages: "pages = us @ p # vs" by (auto simp: in_set_conv_decomp)
  note h2 = g(1) [unfolded pages]
  have d0: "d \<noteq> 0" using slot_nonnull p heap_linksD(4) [OF hl p(1)] by blast
  have kf: "kfree ptr s = free_management_page_if_empty d s2"
    using remove_from_allocated_list_eq [OF hl ptr live_ptr_unique [OF ho]] g(3-5) d0
    by (simp add: kfree_def s1_def [symmetric] s2_def Let_def)
  have uniq: "slot_of q d \<longleftrightarrow> q = p" if "q \<in> set pages" for q
    using slot_unique [OF heap_linksD(3) [OF hl that] p(2) _ p(3)] p(3) by blast
  have dist: "p \<notin> set us" "p \<notin> set vs" using linked_distinct [OF heap_linksD(1) [OF hl]] by (auto simp: pages)
  show ?thesis
  proof (cases "\<exists>e \<in> fst ` set (xs @ ys). slot_of p e")
    case True
    have "filter (\<lambda>p. slot_of p d \<longrightarrow> (\<exists>e \<in> fst ` set (xs @ ys). slot_of p e)) pages = pages"
      using uniq True by (intro filter_True) blast
    then show ?thesis
      using kf free_management_page_eq [OF heap_repD(1) [OF h2] p(3)] True g(1,2) by (simp only: if_True) blast
  next
    case False
    have "filter (\<lambda>p. slot_of p d \<longrightarrow> (\<exists>e \<in> fst ` set (xs @ ys). slot_of p e)) us = us"
      "filter (\<lambda>p. slot_of p d \<longrightarrow> (\<exists>e \<in> fst ` set (xs @ ys). slot_of p e)) vs = vs"
      using uniq dist by (intro filter_True; force simp: pages)+
    then have flt: "filter (\<lambda>p. slot_of p d \<longrightarrow> (\<exists>e \<in> fst ` set (xs @ ys). slot_of p e)) pages = us @ vs"
      using False p(3) by (simp add: pages)
    have empty: "\<forall>d \<in> fst ` set (xs @ ys). \<not> slot_of p d" using False by blast
    note gp = give_page [OF h2 empty]
    have "kfree ptr s = Some (page_free (va_to_pa (unlink_page us p s2) p) 1 (unlink_page us p s2))"
      using kf free_management_page_eq [OF heap_repD(1) [OF h2] p(3)] False by (simp only: if_False)
    moreover have "heap_keeps pages s (page_free (va_to_pa (unlink_page us p s2) p) 1 (unlink_page us p s2))"
      using heap_keeps_trans [OF g(2) gp(2)] by (simp add: pages)
    ultimately show ?thesis using gp(1) flt by (simp only:) blast
  qed
qed

lemma kfree_unknown:
  assumes "heap_rep base s pages bs" "ptr = 0 \<or> ptr \<notin> (fst \<circ> snd) ` set bs"
  shows "kfree ptr s = Some s"
  using remove_from_allocated_list_none [OF heap_repD(1) [OF assms(1)] assms(2)] by (simp add: kfree_def)

end
