(* ===== verification/Kalloc_Client.thy ===== *)
theory Kalloc_Client
  imports Kalloc_Correct
begin

text \<open>
  The kernel heap as its clients see it. The locale \<open>heap_provider\<close> states what a client of
  \<^verbatim>\<open>kmalloc\<close> and \<^verbatim>\<open>kfree\<close> may rely on, and what follows for any sequence of calls: every call
  returns, the blocks the client believes to hold are the live blocks of the heap, and the
  bytes of a block stay as the client left them until the block is freed.
\<close>

section \<open>The contract\<close>

datatype heap_call = Kmalloc u64 | Kfree virt_addr

fun heap_exec ::
  "(u64 \<Rightarrow> 's \<Rightarrow> (virt_addr \<times> 's) option) \<Rightarrow> (virt_addr \<Rightarrow> 's \<Rightarrow> 's option) \<Rightarrow>
     heap_call list \<Rightarrow> 's \<Rightarrow> (virt_addr \<times> u64) list \<Rightarrow> ('s \<times> (virt_addr \<times> u64) list) option" where
  "heap_exec malloc free [] s live = Some (s, live)"
| "heap_exec malloc free (Kmalloc sz # calls) s live =
     (case malloc sz s of
        None \<Rightarrow> None
      | Some (ptr, s') \<Rightarrow> heap_exec malloc free calls s' (if ptr = 0 then live else live @ [(ptr, sz)]))"
| "heap_exec malloc free (Kfree ptr # calls) s live =
     (case free ptr s of
        None \<Rightarrow> None
      | Some s' \<Rightarrow> heap_exec malloc free calls s' (filter (\<lambda>b. fst b \<noteq> ptr) live))"

locale heap_provider =
  fixes malloc :: "u64 \<Rightarrow> 's \<Rightarrow> (virt_addr \<times> 's) option"
    and free :: "virt_addr \<Rightarrow> 's \<Rightarrow> 's option"
    and holds :: "'s \<Rightarrow> (virt_addr \<times> u64) list \<Rightarrow> bool"
    and contents :: "'s \<Rightarrow> virt_addr \<times> u64 \<Rightarrow> u8 list"
  assumes malloc_law: "holds s live \<Longrightarrow>
      \<exists>ptr s'. malloc sz s = Some (ptr, s') \<and> holds s' (if ptr = 0 then live else live @ [(ptr, sz)])
        \<and> (\<forall>b \<in> set live. contents s' b = contents s b)"
    and free_law: "holds s live \<Longrightarrow>
      \<exists>s'. free ptr s = Some s' \<and> holds s' (filter (\<lambda>b. fst b \<noteq> ptr) live)
        \<and> (\<forall>b \<in> set live. fst b \<noteq> ptr \<longrightarrow> contents s' b = contents s b)"
begin

lemma run_returns:
  assumes "holds s live"
  shows "\<exists>s' live'. heap_exec malloc free calls s live = Some (s', live') \<and> holds s' live'
    \<and> (\<forall>b \<in> set live. Kfree (fst b) \<notin> set calls \<longrightarrow> b \<in> set live' \<and> contents s' b = contents s b)"
  using assms
proof (induction calls arbitrary: s live)
  case (Cons c calls)
  show ?case
  proof (cases c)
    case (Kmalloc sz)
    obtain ptr s1 where m: "malloc sz s = Some (ptr, s1)" "holds s1 (if ptr = 0 then live else live @ [(ptr, sz)])"
      "\<forall>b \<in> set live. contents s1 b = contents s b"
      using malloc_law [OF Cons.prems, of sz] by blast
    from Cons.IH [OF m(2)] show ?thesis using m(1,3) by (fastforce simp: Kmalloc)
  next
    case (Kfree ptr)
    obtain s1 where f: "free ptr s = Some s1" "holds s1 (filter (\<lambda>b. fst b \<noteq> ptr) live)"
      "\<forall>b \<in> set live. fst b \<noteq> ptr \<longrightarrow> contents s1 b = contents s b"
      using free_law [OF Cons.prems, of ptr] by blast
    from Cons.IH [OF f(2)] show ?thesis using f(1,3) by (fastforce simp: Kfree)
  qed
qed simp

end

section \<open>The heap satisfies it\<close>

text \<open>The live blocks of a heap state, as pointers and sizes, and the bytes of a block.\<close>

definition heap_live :: "nat set \<Rightarrow> 'a kalloc_state_scheme \<Rightarrow> (virt_addr \<times> u64) list \<Rightarrow> bool" where
  "heap_live base s live \<longleftrightarrow> (\<exists>pages bs. heap_rep base s pages bs \<and> map snd bs = live)"

definition block_bytes :: "'a mem_state_scheme \<Rightarrow> virt_addr \<times> u64 \<Rightarrow> u8 list" where
  "block_bytes s b = map (\<lambda>i. load_byte s (fst b + of_nat i)) [0 ..< unat (snd b)]"

lemma owned_block_end:
  assumes inv: "alloc_inv s" and own: "owns_block s p n"
  shows "frame p + unat n < 2 ^ 52"
proof -
  obtain ci where ci: "ci \<in> inits s" and sub: "block_frames p n \<subseteq> chunk_frames (mem_chunks s ! ci)" and n: "n \<noteq> 0"
    using own by (auto simp: owns_block_def)
  define c where "c = mem_chunks s ! ci"
  have "0 < unat n" using n by (simp add: unat_gt_0)
  then have le: "frame p + unat n \<le> frame (mem_base c) + unat (total_pages c)"
    using sub by (auto simp: block_frames_def chunk_frames_def c_def)
  have "unat (mem_base c) = frame (mem_base c) * 4096" "unat (mem_base c) + unat (total_pages c) * 4096 < 2 ^ 64"
    using alloc_invD(1) [OF inv ci] page_aligned_unat by (auto simp: chunk_shape_def c_def)
  then have "frame (mem_base c) + unat (total_pages c) < 2 ^ 52" by simp
  with le show ?thesis by linarith
qed

lemma block_byte_frame:
  assumes al: "page_aligned p" and sz: "size_ok sz" and i: "i < unat sz"
    and fits: "frame p + unat (NUM_PAGES sz) < 2 ^ 52"
  shows "frame (p + of_nat i) \<in> block_frames p (NUM_PAGES sz)"
proof -
  have n: "unat (NUM_PAGES sz) = (unat sz + 4095) div 4096" using sz by (simp add: size_ok_def NUM_PAGES_unat)
  have lt: "i div 4096 < unat (NUM_PAGES sz)" using i unfolding n by (simp add: less_eq_div_iff_mult_less_eq div_less_iff_less_mult) 
  then have "i < unat (NUM_PAGES sz) * 4096" by (simp add: div_less_iff_less_mult)
  then have "unat p + i < 2 ^ 64" using page_aligned_unat [OF al] fits by simp
  moreover have "unat (of_nat i :: u64) = i" using i unat_lt64 [of sz] by (intro unat_of_nat64) linarith
  ultimately have "unat (p + of_nat i) = unat p + i" using unat_add64 [of p "of_nat i"] by simp
  then have "frame (p + of_nat i) = frame p + i div 4096" by (rule frame_offset [OF al])
  with lt show ?thesis by (simp add: block_frames_def)
qed

lemma page_user_disjoint:
  assumes "heap_owned base s pages bs" "(d, b) \<in> set bs"
  shows "page_frames s pages \<inter> block_frames (va_to_pa s (fst b)) (NUM_PAGES (snd b)) = {}"
proof -
  have "block_frames (va_to_pa s (fst b)) (NUM_PAGES (snd b)) \<subseteq> live_frames (user_blocks s bs)"
    using assms(2) by (cases b) (force simp: live_frames_def user_blocks_def)
  then show ?thesis using assms(1) unfolding heap_owned_def pairwise_apart_append live_page_blocks by blast
qed

lemma kept_bytes:
  assumes h: "heap_rep base s pages bs" "(d, b) \<in> set bs" and k: "heap_keeps pages' s s'"
    and dis: "page_frames s pages' \<inter> block_frames (va_to_pa s (fst b)) (NUM_PAGES (snd b)) = {}"
  shows "block_bytes s' b = block_bytes s b"
proof -
  obtain ptr sz where b: "b = (ptr, sz)" by (cases b)
  note ho = heap_repD(2) [OF h(1)]
  note inv = heap_ownedD(1,3) [OF ho]
  have own: "size_ok sz" "page_aligned ptr" "owns_block s (va_to_pa s ptr) (NUM_PAGES sz)"
    using heap_ownedD(4) [OF ho, of d ptr sz] h(2) by (simp_all add: b)
  have "mem s' (va_to_pa s ptr + of_nat i) = mem s (va_to_pa s ptr + of_nat i)" if "i < unat sz" for i
  proof -
    have "frame (va_to_pa s ptr + of_nat i) \<in> block_frames (va_to_pa s ptr) (NUM_PAGES sz)"
      by (rule block_byte_frame [OF _ own(1) that owned_block_end [OF inv(1) own(3)]])
        (simp add: va_to_pa_aligned inv own)
    then show ?thesis using k dis owned_not_bitmap [OF inv(1) own(3)] unfolding heap_keeps_def b by auto
  qed
  then show ?thesis by (simp add: block_bytes_def b load_byte_def va_to_pa_add heap_keepsD(1) [OF k])
qed

lemma heap_live_malloc:
  assumes "heap_live base s live"
  shows "\<exists>ptr s'. kmalloc sz s = Some (ptr, s') \<and> heap_live base s' (if ptr = 0 then live else live @ [(ptr, sz)])
    \<and> (\<forall>b \<in> set live. block_bytes s' b = block_bytes s b)"
proof -
  obtain pages bs where h: "heap_rep base s pages bs" and live: "live = map snd bs"
    using assms by (auto simp: heap_live_def)
  obtain r s' vs bs' where r: "kmalloc sz s = Some (r, s')" and k: "heap_keeps (pages @ vs) s s'"
    and h': "heap_rep base s' (pages @ vs) bs'" "map snd bs' = (if r = 0 then live else live @ [(r, sz)])"
      "set bs \<subseteq> set bs'"
  proof -
    obtain r s' vs where r: "kmalloc sz s = Some (r, s')" "heap_keeps (pages @ vs) s s'"
      and z: "r = 0 \<Longrightarrow> heap_rep base s' (pages @ vs) bs"
      and nz: "r \<noteq> 0 \<Longrightarrow> \<exists>d. heap_rep base s' (pages @ vs) (bs @ [(d, r, sz)])"
      using kmalloc_spec [OF h, of sz] by blast
    show thesis
    proof (cases "r = 0")
      case True
      then show thesis using that [OF r z [OF True]] by (simp add: live)
    next
      case False
      then obtain d where "heap_rep base s' (pages @ vs) (bs @ [(d, r, sz)])" using nz by blast
      from that [OF r this] False show thesis by (auto simp: live)
    qed
  qed
  have "block_bytes s' b = block_bytes s b" if b: "b \<in> set live" for b
  proof -
    obtain d where d: "(d, b) \<in> set bs" using b by (auto simp: live)
    have "page_frames s (pages @ vs) \<inter> block_frames (va_to_pa s (fst b)) (NUM_PAGES (snd b)) = {}"
      using page_user_disjoint [OF heap_repD(2) [OF h'(1)] subsetD [OF h'(3) d]] heap_keepsD(1,4) [OF k] by simp
    then show ?thesis by (rule kept_bytes [OF h d k])
  qed
  then show ?thesis using r h'(1,2) unfolding heap_live_def by blast
qed

lemma live_ptr_unique':
  assumes ho: "heap_owned base s pages (xs @ (d, ptr, sz) # ys)"
  shows "ptr \<notin> (fst \<circ> snd) ` set xs" "ptr \<notin> (fst \<circ> snd) ` set ys"
proof -
  show "ptr \<notin> (fst \<circ> snd) ` set xs" by (rule live_ptr_unique [OF ho])
  show "ptr \<notin> (fst \<circ> snd) ` set ys"
  proof
    assume "ptr \<in> (fst \<circ> snd) ` set ys"
    then obtain us e sz' vs where ys: "ys = us @ (e, ptr, sz') # vs" by (force simp: in_set_conv_decomp)
    have "heap_owned base s pages ((xs @ (d, ptr, sz) # us) @ (e, ptr, sz') # vs)" using ho by (simp add: ys)
    from live_ptr_unique [OF this] show False by simp
  qed
qed

lemma heap_live_free:
  assumes "heap_live base s live"
  shows "\<exists>s'. kfree ptr s = Some s' \<and> heap_live base s' (filter (\<lambda>b. fst b \<noteq> ptr) live)
    \<and> (\<forall>b \<in> set live. fst b \<noteq> ptr \<longrightarrow> block_bytes s' b = block_bytes s b)"
proof -
  obtain pages bs where h: "heap_rep base s pages bs" and live: "live = map snd bs"
    using assms by (auto simp: heap_live_def)
  show ?thesis
  proof (cases "ptr \<in> (fst \<circ> snd) ` set bs")
    case False
    then have "filter (\<lambda>b. fst b \<noteq> ptr) live = live" by (intro filter_True) (auto simp: live)
    then show ?thesis using kfree_unknown [OF h] False assms by auto
  next
    case True
    then obtain xs d sz ys where bs: "bs = xs @ (d, ptr, sz) # ys" by (force simp: in_set_conv_decomp)
    obtain s' pages' where f: "kfree ptr s = Some s'" "heap_keeps pages s s'" "heap_rep base s' pages' (xs @ ys)"
      using kfree_live [OF h [unfolded bs]] by blast
    have "ptr \<notin> (fst \<circ> snd) ` set (xs @ ys)"
      using live_ptr_unique' [OF heap_repD(2) [OF h, unfolded bs]] by (simp add: image_Un)
    then have "filter (\<lambda>b. fst b \<noteq> ptr) (map snd xs) = map snd xs" "filter (\<lambda>b. fst b \<noteq> ptr) (map snd ys) = map snd ys"
      by (intro filter_True; auto simp: image_Un image_iff)+
    then have "filter (\<lambda>b. fst b \<noteq> ptr) live = map snd (xs @ ys)" by (simp add: live bs)
    moreover have "block_bytes s' b = block_bytes s b" if b: "b \<in> set live" for b
    proof -
      obtain d where d: "(d, b) \<in> set bs" using b by (auto simp: live)
      show ?thesis by (rule kept_bytes [OF h d f(2) page_user_disjoint [OF heap_repD(2) [OF h] d]])
    qed
    ultimately show ?thesis using f unfolding heap_live_def by metis
  qed
qed

interpretation kheap: heap_provider kmalloc kfree "heap_live base" block_bytes for base
  by unfold_locales (rule heap_live_malloc heap_live_free, assumption)+

section \<open>Properties\<close>

text \<open>
  C8. \<^verbatim>\<open>kmalloc\<close> on a consistent heap always returns. A null result leaves the live blocks as they
  were, and happens only for a size that is 0 or wraps around in the rounding, or when the page
  allocator has no page for a descriptor or no run of pages for the block. A non-null result
  is a page-aligned pointer to frames that nobody used before, appended to the live blocks;
  the heap stays consistent, so the new block overlaps no other. In both cases only the
  bitmaps of the page allocator and the heap's own management pages change, and at most one
  management page is added.
\<close>

theorem kmalloc_correct:
  assumes "heap_rep base s pages bs"
  shows "\<exists>r s' vs. kmalloc sz s = Some (r, s') \<and> length vs \<le> 1 \<and> heap_keeps (pages @ vs) s s'
    \<and> (r = 0 \<longrightarrow> heap_rep base s' (pages @ vs) bs
         \<and> (\<not> size_ok sz \<or> fst (page_alloc 1 s) = PHYS_ADDR_NULL \<or> fst (page_alloc (NUM_PAGES sz) s') = PHYS_ADDR_NULL))
    \<and> (r \<noteq> 0 \<longrightarrow> size_ok sz \<and> page_aligned r \<and> block_frames (va_to_pa s r) (NUM_PAGES sz) \<inter> used_frames s = {}
         \<and> (\<exists>d. heap_rep base s' (pages @ vs) (bs @ [(d, r, sz)]) \<and> (\<forall>v \<in> set vs. slot_of v d)))"
  using assms by (rule kmalloc_spec)

text \<open>
  C9. \<^verbatim>\<open>kfree\<close> on a consistent heap always returns. A pointer that is not live changes nothing at
  all. A live pointer takes exactly its block out of the live blocks and gives its frames back;
  the management page of its descriptor is given back too exactly when no other live block has
  its descriptor there.
\<close>

theorem kfree_correct:
  assumes "heap_rep base s pages bs"
  shows "(ptr \<notin> (fst \<circ> snd) ` set bs \<longrightarrow> kfree ptr s = Some s)
    \<and> (\<forall>xs d sz ys. bs = xs @ (d, ptr, sz) # ys \<longrightarrow>
         (\<exists>s'. kfree ptr s = Some s' \<and> heap_keeps pages s s'
           \<and> heap_rep base s' (filter (\<lambda>p. slot_of p d \<longrightarrow> (\<exists>e \<in> fst ` set (xs @ ys). slot_of p e)) pages) (xs @ ys)))"
  using kfree_unknown [OF assms, of ptr] kfree_live [of base s pages _ _ ptr] assms by blast

text \<open>
  C7. In any sequence of \<^verbatim>\<open>kmalloc\<close> and \<^verbatim>\<open>kfree\<close> calls every call returns, the blocks the client
  was given and has not freed are exactly the live blocks of the heap (so they are pairwise
  disjoint), and a block that is not freed keeps its bytes throughout.
\<close>

theorem kernel_heap_client:
  assumes "heap_live base s live"
  shows "\<exists>s' live'. heap_exec kmalloc kfree calls s live = Some (s', live') \<and> heap_live base s' live'
    \<and> (\<forall>b \<in> set live. Kfree (fst b) \<notin> set calls \<longrightarrow> b \<in> set live' \<and> block_bytes s' b = block_bytes s b)"
  using assms by (rule kheap.run_returns)

text \<open>
  C10. Freeing the block just allocated brings the heap back: the same live blocks, and no frame
  in use that was not in use before, a management page allocated on the way included.
\<close>

theorem kmalloc_kfree_roundtrip:
  assumes h: "heap_rep base s pages bs" and a: "kmalloc sz s = Some (r, s1)" "r \<noteq> 0"
  shows "\<exists>s2 pages'. kfree r s1 = Some s2 \<and> heap_rep base s2 pages' bs \<and> set pages' \<subseteq> set pages
    \<and> used_frames s2 \<subseteq> used_frames s"
proof -
  obtain vs d where k: "heap_keeps (pages @ vs) s s1" and h1: "heap_rep base s1 (pages @ vs) (bs @ (d, r, sz) # [])"
    and vs: "\<forall>v \<in> set vs. slot_of v d"
    using kmalloc_spec [OF h, of sz] a by auto
  define pages' where "pages' = filter (\<lambda>p. slot_of p d \<longrightarrow> (\<exists>e \<in> fst ` set (bs @ []). slot_of p e)) (pages @ vs)"
  obtain s2 where f: "kfree r s1 = Some s2" "heap_keeps (pages @ vs) s1 s2" "heap_rep base s2 pages' bs"
    using kfree_live [OF h1] by (auto simp: pages'_def)
  note hl1 = heap_repD(1) [OF h1]
  have "v \<in> set pages" if v: "v \<in> set vs" "e \<in> fst ` set bs" "slot_of v e" for v e
  proof -
    obtain p where p: "p \<in> set pages" "slot_of p e" using heap_linksD(6) [OF heap_repD(1) [OF h] v(2)] by blast
    then have "p = v" using slot_unique heap_linksD(3) [OF hl1, of p] heap_linksD(3) [OF hl1, of v] v by auto
    with p show ?thesis by simp
  qed
  then have sub: "set pages' \<subseteq> set pages" using vs by (auto simp: pages'_def)
  have va: "va_to_pa s2 = va_to_pa s" using heap_keepsD(1) [OF k] heap_keepsD(1) [OF f(2)] by simp
  have "live_frames (page_blocks s2 pages') \<subseteq> live_frames (page_blocks s pages)"
    using sub by (auto simp: live_page_blocks page_frames_def va)
  moreover have "user_blocks s2 bs = user_blocks s bs" by (simp add: user_blocks_def va)
  ultimately have "used_frames s2 \<subseteq> used_frames s"
    using heap_repD(2) [OF f(3)] heap_repD(2) [OF h] by (auto simp: heap_owned_def)
  with f sub show ?thesis by blast
qed

end
