(* ===== verification/Kalloc_Demo.thy ===== *)
theory Kalloc_Demo
  imports Kalloc_Client Page_Allocator_Demo
begin

text \<open>
  The theorems about the kernel heap applied to an empty heap on the four pages of RAM at
  \<open>0x40000000\<close>, of which the bitmap occupies the first.
\<close>

definition demo_heap :: kalloc_state where
  "demo_heap = \<lparr>mem = (\<lambda>_. 0)(0x40000000 := 1), kernel_base_va = 0, pc_base = 0, syms = demo_syms,
     mem_chunks = demo_chunk # replicate 9 no_chunk, allocated = 0, kalloc_page_head = 0\<rparr>"

lemma demo_heap_inits: "inits demo_heap = {0}" "mem_chunks demo_heap ! 0 = demo_chunk"
  by (auto simp: inits_def demo_heap_def demo_chunk_def no_chunk_def nth_Cons' split: if_splits)

lemma demo_heap_used: "k < 8 \<Longrightarrow> page_used demo_chunk k demo_heap \<longleftrightarrow> k = 0"
  by (simp add: page_used_def demo_chunk_def demo_heap_def va_to_pa_def bit_1_iff)

lemma demo_heap_inv: "alloc_inv demo_heap"
proof -
  have "chunk_shape demo_chunk demo_heap"
    by (simp add: chunk_shape_def demo_chunk_def demo_heap_def page_aligned_def pa_to_va_def)
  moreover have "bitmap_marked demo_chunk demo_heap"
    using demo_heap_used [of 0] by (simp add: bitmap_marked_def bitmap_page_count_def demo_chunk_def)
  ultimately show ?thesis
    by (simp add: alloc_inv_def demo_heap_inits) (simp add: demo_heap_def MAX_MEM_CHUNKS_def)
qed

lemma demo_heap_used_frames: "used_frames demo_heap = {0x40000}"
proof -
  have "frame_used demo_heap f \<longleftrightarrow> f = 0x40000" for f
    using demo_heap_used [of "f - 0x40000"] by (auto simp: frame_used_def demo_heap_inits demo_frames)
      (auto simp: demo_chunk_def frame_def)
  then show ?thesis by (auto simp: used_frames_def)
qed

lemma demo_heap_rep: "heap_rep {0x40000} demo_heap [] []"
proof -
  have "linear_map_ok demo_heap"
    by (simp add: linear_map_ok_def demo_heap_inits demo_frames) (simp add: demo_heap_def)
  then show ?thesis using demo_heap_inv demo_heap_used_frames
    by (simp add: heap_rep_def heap_links_def heap_owned_def) (simp add: demo_heap_def)
qed

text \<open>The request for one page succeeds.\<close>

lemma demo_heap_kmalloc:
  obtains r s1 where "kmalloc 0x1000 demo_heap = Some (r, s1)" "r \<noteq> 0"
proof -
  obtain r s' vs where r: "kmalloc 0x1000 demo_heap = Some (r, s')" and len: "length vs \<le> 1"
    and k: "heap_keeps vs demo_heap s'"
    and z: "r = 0 \<longrightarrow> heap_rep {0x40000} s' vs [] \<and> (\<not> size_ok 0x1000 \<or> fst (page_alloc 1 demo_heap) = PHYS_ADDR_NULL
          \<or> fst (page_alloc (NUM_PAGES 0x1000) s') = PHYS_ADDR_NULL)"
    using kmalloc_spec [OF demo_heap_rep, of "0x1000"] by auto
  have "r \<noteq> 0"
  proof
    assume "r = 0"
    then have h: "heap_rep {0x40000} s' vs []" and c: "\<not> size_ok 0x1000 \<or> fst (page_alloc 1 demo_heap) = PHYS_ADDR_NULL
          \<or> fst (page_alloc (NUM_PAGES 0x1000) s') = PHYS_ADDR_NULL" using z by blast+
    have "size_ok 0x1000" by (simp add: size_ok_def)
    moreover have "fst (page_alloc 1 demo_heap) \<noteq> PHYS_ADDR_NULL" by code_simp
    moreover have "NUM_PAGES 0x1000 = 1" by (simp add: NUM_PAGES_def PAGE_SIZE_def)
    ultimately have null: "fst (page_alloc 1 s') = PHYS_ADDR_NULL" using c by simp
    have s': "s' = demo_heap\<lparr>mem := mem s', allocated := allocated s', kalloc_page_head := kalloc_page_head s'\<rparr>"
      using k by (simp add: heap_keeps_def)
    have ini: "inits s' = {0}" "mem_chunks s' ! 0 = demo_chunk"
      using demo_heap_inits by (subst s', simp add: inits_def)+
    have "\<exists>f \<in> {0x40001, 0x40002 :: nat}. f \<notin> page_frames s' vs" using len by (cases vs) auto
    then obtain f where f: "f = 0x40001 \<or> f = 0x40002" "f \<notin> page_frames s' vs" by auto
    have "used_frames s' = {0x40000} \<union> page_frames s' vs"
      using heap_repD(2) [OF h] by (simp add: heap_owned_def live_page_blocks)
    then have "f \<notin> used_frames s'" using f by auto
    then have "\<not> frame_used s' f" by (simp add: used_frames_def)
    moreover have "{f ..< f + unat (1 :: u64)} \<subseteq> chunk_frames (mem_chunks s' ! 0)" using f(1) by (auto simp: ini demo_frames)
    ultimately show False
      using page_alloc_iff [OF heap_ownedD(1) [OF heap_repD(2) [OF h]], of 1] null by (auto simp: ini)
  qed
  with r that show thesis by blast
qed

theorem kmalloc_correct_witness:
  "\<exists>r s' pages bs. kmalloc 0x1800 demo_heap = Some (r, s') \<and> heap_rep {0x40000} s' pages bs"
  using kmalloc_correct [OF demo_heap_rep, of "0x1800"] by blast

theorem kfree_correct_witness: "kfree 0x40001000 demo_heap = Some demo_heap"
  using kfree_correct [OF demo_heap_rep, of "0x40001000"] by simp

theorem kernel_heap_client_witness:
  "\<exists>s' live'. heap_exec kmalloc kfree [Kmalloc 1, Kmalloc 0, Kfree 0x40002000, Kmalloc 0x3000] demo_heap [] = Some (s', live')
    \<and> heap_live {0x40000} s' live'"
proof -
  have "heap_live {0x40000} demo_heap []" using demo_heap_rep by (auto simp: heap_live_def)
  from kernel_heap_client [OF this] show ?thesis by blast
qed

theorem kmalloc_kfree_roundtrip_witness:
  "\<exists>r s1 s2. kmalloc 0x1000 demo_heap = Some (r, s1) \<and> r \<noteq> 0 \<and> kfree r s1 = Some s2 \<and> used_frames s2 \<subseteq> {0x40000}"
proof -
  obtain r s1 where r: "kmalloc 0x1000 demo_heap = Some (r, s1)" "r \<noteq> 0" by (rule demo_heap_kmalloc)
  from kmalloc_kfree_roundtrip [OF demo_heap_rep r] r show ?thesis by (auto simp: demo_heap_used_frames)
qed

end
