(* ===== verification/Devices.thy ===== *)
theory Devices
  imports Kalloc Kprintf Bitfields
begin

text \<open>
  What the drivers share. The hardware behind the memory-mapped registers and the system
  registers is not part of the sources, so it is a parameter: a \<open>bus\<close> says how each volatile
  access changes the state \<open>'d\<close> of the hardware and what a read returns (reads may change it
  too, as acknowledging an interrupt does). The kernel state extends the state of the allocators
  by the hardware, the calls of \<^verbatim>\<open>kprintf\<close> made so far, and the exception mask bits of the PE.
  Barriers have no effect in this sequential view.
\<close>

section \<open>The bus and the kernel state\<close>

datatype (plugins only: code size) sysreg_name = reg_icc_sre_el1 | reg_icc_ctlr_el1 | reg_icc_pmr_el1 | reg_icc_bpr1_el1
  | reg_icc_igrpen1_el1 | reg_icc_iar1_el1 | reg_icc_eoir1_el1 | reg_icc_sgi1r_el1
  | reg_mpidr_el1 | reg_CurrentEL | reg_CNTP_CTL_EL0 | reg_CNTP_CVAL_EL0 | reg_CNTPCT_EL0
  | reg_CNTFRQ_EL0 | reg_SPSel | reg_ESR_EL1 | reg_FAR_EL1 | reg_ELR_EL1 | reg_vbar_el1

record 'd bus =
  mmio_read32 :: "virt_addr \<Rightarrow> 'd \<Rightarrow> u32 \<times> 'd"
  mmio_write32 :: "virt_addr \<Rightarrow> u32 \<Rightarrow> 'd \<Rightarrow> 'd"
  mmio_write64 :: "virt_addr \<Rightarrow> u64 \<Rightarrow> 'd \<Rightarrow> 'd"
  sysreg_read :: "sysreg_name \<Rightarrow> 'd \<Rightarrow> u64 \<times> 'd"
  sysreg_write :: "sysreg_name \<Rightarrow> u64 \<Rightarrow> 'd \<Rightarrow> 'd"

record 'd kernel_state = kalloc_state +
  hardware :: 'd
  console :: "(string \<times> va_arg list) list"
  daif :: u64

text \<open>Volatile loads and stores through a pointer, and \<^verbatim>\<open>READ_SYS_REG\<close> and \<^verbatim>\<open>WRITE_SYS_REG\<close>.\<close>

definition vread32 ::
  "'d bus \<Rightarrow> virt_addr \<Rightarrow> ('d, 'a) kernel_state_scheme \<Rightarrow> u32 \<times> ('d, 'a) kernel_state_scheme" where
  "vread32 b p s = (let (v, d) = mmio_read32 b p (hardware s) in (v, s\<lparr>hardware := d\<rparr>))"

definition vwrite32 ::
  "'d bus \<Rightarrow> virt_addr \<Rightarrow> u32 \<Rightarrow> ('d, 'a) kernel_state_scheme \<Rightarrow> ('d, 'a) kernel_state_scheme" where
  "vwrite32 b p v s = s\<lparr>hardware := mmio_write32 b p v (hardware s)\<rparr>"

definition vwrite64 ::
  "'d bus \<Rightarrow> virt_addr \<Rightarrow> u64 \<Rightarrow> ('d, 'a) kernel_state_scheme \<Rightarrow> ('d, 'a) kernel_state_scheme" where
  "vwrite64 b p v s = s\<lparr>hardware := mmio_write64 b p v (hardware s)\<rparr>"

definition READ_SYS_REG ::
  "'d bus \<Rightarrow> sysreg_name \<Rightarrow> ('d, 'a) kernel_state_scheme \<Rightarrow> u64 \<times> ('d, 'a) kernel_state_scheme" where
  "READ_SYS_REG b r s = (let (v, d) = sysreg_read b r (hardware s) in (v, s\<lparr>hardware := d\<rparr>))"

definition WRITE_SYS_REG ::
  "'d bus \<Rightarrow> sysreg_name \<Rightarrow> u64 \<Rightarrow> ('d, 'a) kernel_state_scheme \<Rightarrow> ('d, 'a) kernel_state_scheme" where
  "WRITE_SYS_REG b r v s = s\<lparr>hardware := sysreg_write b r v (hardware s)\<rparr>"

text \<open>
  \<^verbatim>\<open>kprintf\<close>: the call is recorded; what it puts on the console is \<open>console_text\<close>, by \<open>vprintf\<close>.
\<close>

definition kprintf ::
  "string \<Rightarrow> va_arg list \<Rightarrow> ('d, 'a) kernel_state_scheme \<Rightarrow> ('d, 'a) kernel_state_scheme" where
  "kprintf fmt args s = s\<lparr>console := console s @ [(fmt, args)]\<rparr>"

text \<open>String literals: the line feed \<^verbatim>\<open>\\n\<close>, and the UTF-8 bytes of the dash in some messages.\<close>

definition LF :: string where
  "LF = [CHR 0x0A]"

definition DASH :: string where
  "DASH = [CHR 0xE2, CHR 0x80, CHR 0x94]"

definition lit_bytes :: "string \<Rightarrow> u8 list" where
  "lit_bytes = map of_char"

definition Txt :: "string \<Rightarrow> va_arg" where
  "Txt t = Str (Some (lit_bytes t))"

definition U32 :: "u32 \<Rightarrow> va_arg" where
  "U32 v = Num (ucast v)"

definition I32 :: "int \<Rightarrow> va_arg" where
  "I32 v = Num (word_of_int v)"

fun console_text :: "(string \<times> va_arg list) list \<Rightarrow> u8 list option" where
  "console_text [] = Some []"
| "console_text ((fmt, args) # calls) =
     (case vprintf True (lit_bytes fmt) args of
        None \<Rightarrow> None
      | Some (out, n) \<Rightarrow> map_option (\<lambda>rest. out @ rest) (console_text calls))"

text \<open>
  \<^verbatim>\<open>while (busy(*p)) {}\<close> on a volatile register: waits for the hardware, possibly forever (\<open>None\<close>).
\<close>

partial_function (option) poll_while ::
  "'d bus \<Rightarrow> (('d, 'a) kernel_state_scheme \<Rightarrow> virt_addr) \<Rightarrow> (u32 \<Rightarrow> bool) \<Rightarrow> ('d, 'a) kernel_state_scheme
     \<Rightarrow> ('d, 'a) kernel_state_scheme option" where
  "poll_while b p busy s =
     (let (v, s1) = vread32 b (p s) s in if busy v then poll_while b p busy s1 else Some s1)"

text \<open>A sequence of statements, run in order.\<close>

definition stmts :: "('s \<Rightarrow> 's) list \<Rightarrow> 's \<Rightarrow> 's" where
  "stmts fs s = fold (\<lambda>f. f) fs s"

text \<open>\<^verbatim>\<open>kprintf\<close> of a field that is read from a volatile register in the call.\<close>

definition kprintf_field ::
  "'d bus \<Rightarrow> virt_addr \<Rightarrow> 'f layout \<Rightarrow> 'f \<Rightarrow> string \<Rightarrow> (u32 \<Rightarrow> va_arg list)
     \<Rightarrow> ('d, 'a) kernel_state_scheme \<Rightarrow> ('d, 'a) kernel_state_scheme" where
  "kprintf_field b p l f fmt args s =
     (let (v, s1) = vread32 b p s in kprintf fmt (args (bf_get l f v)) s1)"

section \<open>The core identifier and the current exception level (utils)\<close>

datatype mpidr_el1_field = MPIDR_aff0 | MPIDR_aff1 | MPIDR_aff2 | MPIDR_mt | MPIDR_res0_29_25
  | MPIDR_uniprocessor | MPIDR_res1 | MPIDR_aff3 | MPIDR_res0_63_40

definition mpidr_el1_t :: "mpidr_el1_field layout" where
  "mpidr_el1_t = [(MPIDR_aff0, 8), (MPIDR_aff1, 8), (MPIDR_aff2, 8), (MPIDR_mt, 1),
     (MPIDR_res0_29_25, 5), (MPIDR_uniprocessor, 1), (MPIDR_res1, 1), (MPIDR_aff3, 8),
     (MPIDR_res0_63_40, 24)]"

datatype current_el_field = EL_res0 | EL_el | EL_res0_rest

definition current_el_t :: "current_el_field layout" where
  "current_el_t = [(EL_res0, 2), (EL_el, 2), (EL_res0_rest, 60)]"

definition get_core_id :: "'d bus \<Rightarrow> ('d, 'a) kernel_state_scheme \<Rightarrow> u32 \<times> ('d, 'a) kernel_state_scheme" where
  "get_core_id b s =
     (let (raw, s1) = READ_SYS_REG b reg_mpidr_el1 s in (ucast (bf_get mpidr_el1_t MPIDR_aff0 raw), s1))"

definition read_current_el :: "'d bus \<Rightarrow> ('d, 'a) kernel_state_scheme \<Rightarrow> u64 \<times> ('d, 'a) kernel_state_scheme" where
  "read_current_el b s = READ_SYS_REG b reg_CurrentEL s"

definition print_current_el :: "'d bus \<Rightarrow> ('d, 'a) kernel_state_scheme \<Rightarrow> ('d, 'a) kernel_state_scheme" where
  "print_current_el b s =
     (let (raw, s1) = read_current_el b s;
          el = bf_get current_el_t EL_el raw;
          el_str = (if el = 0 then ''EL0 (Unprivileged / User)''
                    else if el = 1 then ''EL1 (Kernel)''
                    else if el = 2 then ''EL2 (Hypervisor)''
                    else if el = 3 then ''EL3 (Secure Monitor)''
                    else ''Unknown'');
          s2 = kprintf (''-------------- CurrentEL ----------------'' @ LF) [] s1;
          s3 = kprintf (''EL          : %u (%s)'' @ LF) [Num el, Txt el_str] s2;
          s4 = kprintf (''Raw         : 0x%lx'' @ LF) [Num raw] s3
      in kprintf (''-----------------------------------------'' @ LF @ LF) [] s4)"

interpretation mpidr: bitfield_struct mpidr_el1_t "TYPE(64)"
proof
  show "f \<in> fst ` set mpidr_el1_t" for f by (cases f) (simp_all add: mpidr_el1_t_def)
qed (simp_all add: mpidr_el1_t_def bf_size_def)

interpretation current_el: bitfield_struct current_el_t "TYPE(64)"
proof
  show "f \<in> fst ` set current_el_t" for f by (cases f) (simp_all add: current_el_t_def)
qed (simp_all add: current_el_t_def bf_size_def)

section \<open>Accesses without case distinction\<close>

lemma vread32_eq:
  "vread32 b p s = (fst (mmio_read32 b p (hardware s)), s\<lparr>hardware := snd (mmio_read32 b p (hardware s))\<rparr>)"
  by (simp add: vread32_def split: prod.split)

lemma READ_SYS_REG_eq:
  "READ_SYS_REG b r s = (fst (sysreg_read b r (hardware s)), s\<lparr>hardware := snd (sysreg_read b r (hardware s))\<rparr>)"
  by (simp add: READ_SYS_REG_def split: prod.split)

section \<open>Polling\<close>

text \<open>The hardware after \<open>n\<close> reads of the register at \<open>p\<close>, and what the next read returns.\<close>

definition after_reads :: "'d bus \<Rightarrow> virt_addr \<Rightarrow> nat \<Rightarrow> 'd \<Rightarrow> 'd" where
  "after_reads b p n d = ((\<lambda>d. snd (mmio_read32 b p d)) ^^ n) d"

definition nth_read :: "'d bus \<Rightarrow> virt_addr \<Rightarrow> nat \<Rightarrow> 'd \<Rightarrow> u32" where
  "nth_read b p n d = fst (mmio_read32 b p (after_reads b p n d))"

lemma reads_simps:
  "after_reads b p 0 d = d" "after_reads b p (Suc n) d = after_reads b p n (snd (mmio_read32 b p d))"
  "nth_read b p 0 d = fst (mmio_read32 b p d)"
  "nth_read b p (Suc n) d = nth_read b p n (snd (mmio_read32 b p d))"
  by (simp_all add: nth_read_def after_reads_def funpow_Suc_right del: funpow.simps)

lemma poll_while_result:
  assumes "poll_while b p busy s = Some s'" and "\<forall>s d. p (s\<lparr>hardware := d\<rparr>) = p s"
  shows "\<exists>n. \<not> busy (nth_read b (p s) n (hardware s)) \<and> (\<forall>m<n. busy (nth_read b (p s) m (hardware s)))
    \<and> s' = s\<lparr>hardware := after_reads b (p s) (Suc n) (hardware s)\<rparr>"
proof -
  define R where "R b p busy s s' \<longleftrightarrow> (\<forall>s d. p (s\<lparr>hardware := d\<rparr>) = p s) \<longrightarrow>
    (\<exists>n. \<not> busy (nth_read b (p s) n (hardware s)) \<and> (\<forall>m<n. busy (nth_read b (p s) m (hardware s)))
      \<and> s' = s\<lparr>hardware := after_reads b (p s) (Suc n) (hardware s)\<rparr>)"
    for b :: "'a bus" and p :: "('a, 'b) kernel_state_scheme \<Rightarrow> virt_addr" and busy s s'
  have "R b p busy s s'"
  proof (rule poll_while.raw_induct [OF _ assms(1)])
    fix poll b p busy s s'
    assume IH: "\<And>b p busy s s'. poll b p busy s = Some s' \<Longrightarrow> R b p busy s s'"
      and step: "(let (v, s1) = vread32 b (p s) s in if busy v then poll b p busy s1 else Some s1) = Some s'"
    obtain v d where v: "mmio_read32 b (p s) (hardware s) = (v, d)" by fastforce
    show "R b p busy s s'"
    proof (cases "busy v")
      case False
      then have "s' = s\<lparr>hardware := d\<rparr>" using step by (simp add: vread32_def v)
      with False show ?thesis unfolding R_def by (intro impI exI [of _ 0]) (simp add: reads_simps v)
    next
      case True
      then have "poll b p busy (s\<lparr>hardware := d\<rparr>) = Some s'" using step by (simp add: vread32_def v)
      then have "R b p busy (s\<lparr>hardware := d\<rparr>) s'" by (rule IH)
      show ?thesis unfolding R_def
      proof
        assume p: "\<forall>s d. p (s\<lparr>hardware := d\<rparr>) = p s"
        with \<open>R b p busy (s\<lparr>hardware := d\<rparr>) s'\<close> obtain n where "\<not> busy (nth_read b (p s) n d)"
          "\<forall>m<n. busy (nth_read b (p s) m d)" "s' = s\<lparr>hardware := after_reads b (p s) (Suc n) d\<rparr>"
          by (auto simp: R_def)
        with True show "\<exists>n. \<not> busy (nth_read b (p s) n (hardware s)) \<and> (\<forall>m<n. busy (nth_read b (p s) m (hardware s)))
            \<and> s' = s\<lparr>hardware := after_reads b (p s) (Suc n) (hardware s)\<rparr>"
          by (intro exI [of _ "Suc n"]) (auto simp: reads_simps v less_Suc_eq_0_disj)
      qed
    qed
  qed
  with assms(2) show ?thesis by (simp add: R_def)
qed

lemma poll_while_returns:
  assumes "\<forall>s d. p (s\<lparr>hardware := d\<rparr>) = p s"
  shows "poll_while b p busy s \<noteq> None \<longleftrightarrow> (\<exists>n. \<not> busy (nth_read b (p s) n (hardware s)))"
proof
  assume "poll_while b p busy s \<noteq> None"
  then show "\<exists>n. \<not> busy (nth_read b (p s) n (hardware s))" using poll_while_result [OF _ assms] by blast
next
  assume "\<exists>n. \<not> busy (nth_read b (p s) n (hardware s))"
  then obtain n where "\<not> busy (nth_read b (p s) n (hardware s))" ..
  then show "poll_while b p busy s \<noteq> None"
  proof (induction n arbitrary: s)
    case 0
    then show ?case by (subst poll_while.simps) (auto simp: reads_simps vread32_def split: prod.splits)
  next
    case (Suc n)
    obtain v d where v: "mmio_read32 b (p s) (hardware s) = (v, d)" by fastforce
    have "poll_while b p busy (s\<lparr>hardware := d\<rparr>) \<noteq> None" using Suc v by (simp add: reads_simps assms)
    then show ?case by (subst poll_while.simps) (simp add: vread32_def v)
  qed
qed

end
