(* ===== verification/Fdt.thy ===== *)
theory Fdt
  imports Devices Page_Table
begin

text \<open>
  \<^verbatim>\<open>fdt/fdt.c\<close> and \<^verbatim>\<open>fdt/fdt.h\<close>: what the kernel reads from the device tree. The library libfdt is not part
  of the sources; the record \<open>libfdt\<close> holds the functions and error codes that the code uses, and
  every definition takes it as an argument. The library reads the blob from memory, so what its
  functions return depends on the bytes that the kernel sees when it calls them: the parameter of the
  callers is an \<open>fdt_library\<close>, which they apply to the bytes of the current state. The functions of
  this file write no memory between their first and their last call, so they take the library as
  it is for one state. A property value is the list of its bytes, its
  length the \<^verbatim>\<open>len\<close> that \<^verbatim>\<open>fdt_getprop\<close> reports. The loops that follow node offsets end only if
  the library makes progress: they are \<open>partial_function (option)\<close>. \<open>None\<close> also stands for reading
  past the end of a property, which the C code would do without noticing.
\<close>

record libfdt =
  fdt_check_header :: "u64 \<Rightarrow> int"
  fdt_totalsize :: "u64 \<Rightarrow> u32"
  fdt_path_offset :: "u64 \<Rightarrow> string \<Rightarrow> int"
  fdt_address_cells :: "u64 \<Rightarrow> int \<Rightarrow> int"
  fdt_size_cells :: "u64 \<Rightarrow> int \<Rightarrow> int"
  fdt_getprop :: "u64 \<Rightarrow> int \<Rightarrow> string \<Rightarrow> u8 list option"
  fdt_node_offset_by_prop_value :: "u64 \<Rightarrow> int \<Rightarrow> string \<Rightarrow> u8 list \<Rightarrow> int"
  fdt_node_offset_by_compatible :: "u64 \<Rightarrow> int \<Rightarrow> string \<Rightarrow> int"
  fdt_node_offset_by_phandle :: "u64 \<Rightarrow> u32 \<Rightarrow> int"
  fdt_parent_offset :: "u64 \<Rightarrow> int \<Rightarrow> int"
  FDT_ERR_NOTFOUND :: int
  FDT_ERR_BADMAGIC :: int
  FDT_ERR_BADVERSION :: int
  FDT_ERR_BADSTATE :: int
  FDT_ERR_INTERNAL :: int
  FDT_ERR_BADNCELLS :: int

type_synonym fdt_library = "(virt_addr \<Rightarrow> u8) \<Rightarrow> libfdt"

section \<open>Data\<close>

definition MAX_MEM_REGIONS :: int where
  "MAX_MEM_REGIONS = 16"

definition IRQ_TYPE_SPI :: u32 where "IRQ_TYPE_SPI = 0x0"
definition IRQ_TYPE_PPI :: u32 where "IRQ_TYPE_PPI = 0x1"

datatype irq_trigger_t = IRQ_TRIGGER_EDGE | IRQ_TRIGGER_LEVEL_HIGH

record interrupt_t =
  irq_type :: u32
  irq_id :: u32
  trigger :: irq_trigger_t

text \<open>The big-endian 32-bit cells of a property: \<^verbatim>\<open>fdt32_to_cpu(ptr[j])\<close> is cell \<open>j\<close>.\<close>

definition fdt32_to_cpu :: "u8 \<Rightarrow> u8 \<Rightarrow> u8 \<Rightarrow> u8 \<Rightarrow> u32" where
  "fdt32_to_cpu a b c d =
     push_bit 24 (ucast a) OR push_bit 16 (ucast b) OR push_bit 8 (ucast c) OR ucast d"

fun prop_cells :: "u8 list \<Rightarrow> u32 list" where
  "prop_cells (a # b # c # d # bs) = fdt32_to_cpu a b c d # prop_cells bs"
| "prop_cells _ = []"

text \<open>The loop \<^verbatim>\<open>for (j = 0; j < n; j++) v = (v << 32) | cell\<close>, consuming the cells it reads.\<close>

definition read_cells :: "int \<Rightarrow> u32 list \<Rightarrow> (u64 \<times> u32 list) option" where
  "read_cells n cs =
     (if length cs < nat n then None
      else Some (fold (\<lambda>c v. push_bit 32 v OR ucast c) (take (nat n) cs) 0, drop (nat n) cs))"

section \<open>Operations\<close>

definition interrupt_to_intid ::
  "interrupt_t \<Rightarrow> ('d, 'a) kernel_state_scheme \<Rightarrow> int \<times> ('d, 'a) kernel_state_scheme" where
  "interrupt_to_intid i s =
     (if irq_type i = IRQ_TYPE_PPI then (sint (16 + irq_id i), s)
      else if irq_type i = IRQ_TYPE_SPI then (sint (32 + irq_id i), s)
      else (-1, kprintf (''FDT Error: unrecognized interrupt type %d'' @ LF) [U32 (irq_type i)] s))"

definition check_fdt ::
  "libfdt \<Rightarrow> u64 \<Rightarrow> ('d, 'a) kernel_state_scheme \<Rightarrow> bool \<times> ('d, 'a) kernel_state_scheme" where
  "check_fdt L ptr s =
     (if ptr = 0 then (False, kprintf (''FDT Error: null DTB address'' @ LF) [] s)
      else
        let err = fdt_check_header L ptr
        in if err = 0 then (True, kprintf (''Valid fdt'' @ LF) [] s)
           else if err = - FDT_ERR_BADMAGIC L then
             (False, kprintf (''FDT Error: Bad magic number'' @ LF) [] s)
           else if err = - FDT_ERR_BADVERSION L then
             (False, kprintf (''FDT Error: Unsupported FDT version'' @ LF) [] s)
           else if err = - FDT_ERR_BADSTATE L then
             (False, kprintf (''FDT Error: Bad state'' @ LF) [] s)
           else (False, kprintf (''FDT Error: Unknown error code %d'' @ LF) [I32 err] s))"

text \<open>The inner loop of \<^verbatim>\<open>get_mem\<close> over the entries of one \<^verbatim>\<open>reg\<close> property.\<close>

fun mem_entries :: "int \<Rightarrow> int \<Rightarrow> nat \<Rightarrow> u32 list \<Rightarrow> memory_map_t \<Rightarrow> memory_map_t option" where
  "mem_entries address_cell size_cell 0 cs mmap = Some mmap"
| "mem_entries address_cell size_cell (Suc n) cs mmap =
     (if count mmap \<ge> MAX_MEM_REGIONS then Some mmap
      else
        case read_cells address_cell cs of
          None \<Rightarrow> None
        | Some (b, cs1) \<Rightarrow>
            (case read_cells size_cell cs1 of
               None \<Rightarrow> None
             | Some (sz, cs2) \<Rightarrow>
                 mem_entries address_cell size_cell n cs2
                   (if sz > 0
                    then mmap\<lparr>regions := regions mmap @ [\<lparr>base = b, size = sz\<rparr>], count := count mmap + 1\<rparr>
                    else mmap)))"

partial_function (option) mem_nodes ::
  "libfdt \<Rightarrow> u64 \<Rightarrow> int \<Rightarrow> int \<Rightarrow> int \<Rightarrow> memory_map_t \<Rightarrow> ('d, 'a) kernel_state_scheme
     \<Rightarrow> (int \<times> memory_map_t \<times> ('d, 'a) kernel_state_scheme) option" where
  "mem_nodes L fdt address_cell size_cell prev mmap s =
     (let node = fdt_node_offset_by_prop_value L fdt prev ''device_type'' (lit_bytes ''memory'' @ [0])
      in if node < 0 then Some (0, mmap, s)
         else
           case fdt_getprop L fdt node ''reg'' of
             None \<Rightarrow> mem_nodes L fdt address_cell size_cell node mmap s
           | Some reg \<Rightarrow>
               if length reg = 0 then mem_nodes L fdt address_cell size_cell node mmap s
               else
                 let entry_size = nat (address_cell + size_cell) * 4
                 in if length reg < entry_size \<or> length reg mod entry_size \<noteq> 0
                    then Some (- FDT_ERR_BADSTATE L, mmap,
                           kprintf (''FDT Error: memory '' @ [CHR 0x22] @ ''reg'' @ [CHR 0x22] @
                                    '' length %d is not a multiple of entry size %zu'' @ LF)
                             [I32 (int (length reg)), Num (of_nat entry_size)] s)
                    else
                      (case mem_entries address_cell size_cell (length reg div entry_size) (prop_cells reg) mmap of
                         None \<Rightarrow> None
                       | Some mmap' \<Rightarrow> mem_nodes L fdt address_cell size_cell node mmap' s))"

text \<open>\<open>None\<close> for \<^verbatim>\<open>mmap\<close> is the null pointer. The result pairs the return value with the map.\<close>

definition get_mem ::
  "libfdt \<Rightarrow> u64 \<Rightarrow> memory_map_t option \<Rightarrow> ('d, 'a) kernel_state_scheme
     \<Rightarrow> (int \<times> memory_map_t option \<times> ('d, 'a) kernel_state_scheme) option" where
  "get_mem L fdt mmap s =
     (case mmap of
        None \<Rightarrow> Some (- FDT_ERR_INTERNAL L, None, s)
      | Some m \<Rightarrow>
          if fdt = 0 then Some (- FDT_ERR_INTERNAL L, Some m, s)
          else
            let m1 = \<lparr>regions = [], count = 0\<rparr>;
                root = fdt_path_offset L fdt ''/''
            in if root < 0 then Some (root, Some m1, s)
               else
                 let address_cell = fdt_address_cells L fdt root;
                     size_cell = fdt_size_cells L fdt root
                 in if address_cell < 1 \<or> address_cell > 2 \<or> size_cell < 1 \<or> size_cell > 2
                    then Some (- FDT_ERR_BADSTATE L, Some m1,
                           kprintf (''FDT Error: unsupported address/size cell counts %d/%d'' @ LF)
                             [I32 address_cell, I32 size_cell] s)
                    else
                      map_option (\<lambda>(r, m2, s2). (r, Some m2, s2))
                        (mem_nodes L fdt address_cell size_cell (-1) m1 s))"

definition fdt_is_error :: "int \<Rightarrow> bool" where
  "fdt_is_error offset \<longleftrightarrow> offset < 0"

definition get_intc_node_offset :: "libfdt \<Rightarrow> u64 \<Rightarrow> int" where
  "get_intc_node_offset L fdt =
     (if fdt = 0 then - FDT_ERR_INTERNAL L
      else fdt_node_offset_by_prop_value L fdt (-1) ''interrupt-controller'' [])"

text \<open>The string is the bytes of the property up to its first terminator.\<close>

definition get_compatible_string :: "libfdt \<Rightarrow> u64 \<Rightarrow> int \<Rightarrow> u8 list option" where
  "get_compatible_string L fdt node_offset =
     (if fdt = 0 \<or> fdt_is_error node_offset then None
      else case fdt_getprop L fdt node_offset ''compatible'' of
             None \<Rightarrow> None
           | Some prop \<Rightarrow> if length prop = 0 then None else Some prop)"

fun reg_entries ::
  "int \<Rightarrow> int \<Rightarrow> nat \<Rightarrow> u32 list \<Rightarrow> memory_map_t \<Rightarrow> ('d, 'a) kernel_state_scheme
     \<Rightarrow> (bool \<times> memory_map_t \<times> ('d, 'a) kernel_state_scheme) option" where
  "reg_entries addr_cells size_cells 0 cs m s = Some (True, m, s)"
| "reg_entries addr_cells size_cells (Suc n) cs m s =
     (case read_cells addr_cells cs of
        None \<Rightarrow> None
      | Some (b, cs1) \<Rightarrow>
          (case read_cells size_cells cs1 of
             None \<Rightarrow> None
           | Some (sz, cs2) \<Rightarrow>
               if count m < MAX_MEM_REGIONS then
                 reg_entries addr_cells size_cells n cs2
                   (m\<lparr>regions := regions m @ [\<lparr>base = b, size = sz\<rparr>], count := count m + 1\<rparr>) s
               else
                 Some (False, m,
                   kprintf (''FDT Warning: reg property has more entries than MAX_MEM_REGIONS, truncating'' @ LF) [] s)))"

text \<open>
  \<^verbatim>\<open>get_reg_property\<close> returns a bool, so the negative error code of its first branch converts to
  true. The entry count is an unsigned 64-bit division, which yields zero for a zero divisor on
  AArch64, as word division does here.
\<close>

definition get_reg_property ::
  "libfdt \<Rightarrow> u64 \<Rightarrow> int \<Rightarrow> memory_map_t option \<Rightarrow> ('d, 'a) kernel_state_scheme
     \<Rightarrow> (bool \<times> memory_map_t option \<times> ('d, 'a) kernel_state_scheme) option" where
  "get_reg_property L fdt node_offset reg_map s =
     (if fdt = 0 \<or> fdt_is_error node_offset \<or> reg_map = None
      then Some (- FDT_ERR_INTERNAL L \<noteq> 0, reg_map, s)
      else
        let m1 = \<lparr>regions = [], count = 0\<rparr>;
            addr_cells = fdt_address_cells L fdt node_offset;
            size_cells = fdt_size_cells L fdt node_offset;
            entry_cells = addr_cells + size_cells
        in case fdt_getprop L fdt node_offset ''reg'' of
             None \<Rightarrow> Some (False, Some m1, s)
           | Some reg \<Rightarrow>
               if length reg = 0 then Some (False, Some m1, s)
               else
                 let num_entries = (of_nat (length reg) :: u64) div (word_of_int entry_cells * 4)
                 in map_option (\<lambda>(r, m2, s2). (r, Some m2, s2))
                      (reg_entries addr_cells size_cells (unat num_entries) (prop_cells reg) m1 s))"

text \<open>The walk to the nearest ancestor with an \<^verbatim>\<open>interrupt-parent\<close>; \<^verbatim>\<open>-1\<close> if there is none.\<close>

partial_function (option) find_interrupt_parent :: "libfdt \<Rightarrow> u64 \<Rightarrow> int \<Rightarrow> int option" where
  "find_interrupt_parent L fdt ancestor =
     (if ancestor \<ge> 0 then
        (case fdt_getprop L fdt ancestor ''interrupt-parent'' of
           None \<Rightarrow> find_interrupt_parent L fdt (fdt_parent_offset L fdt ancestor)
         | Some p \<Rightarrow>
             if length p = 4 then Some (fdt_node_offset_by_phandle L fdt (hd (prop_cells p)))
             else find_interrupt_parent L fdt (fdt_parent_offset L fdt ancestor))
      else Some (-1))"

definition parse_intr :: "u32 list \<Rightarrow> interrupt_t" where
  "parse_intr entry =
     \<lparr>irq_type = entry ! 0, irq_id = entry ! 1,
      trigger = (if entry ! 2 AND 0x4 \<noteq> 0 then IRQ_TRIGGER_LEVEL_HIGH else IRQ_TRIGGER_EDGE)\<rparr>"

text \<open>
  The second half of \<^verbatim>\<open>get_intr_property\<close>, once the interrupt parent is known. The array the caller
  passes holds \<open>out_len\<close> elements and is not null in any call; the parsed interrupts are returned as
  the list of the elements written, with the return value.
\<close>

definition intr_entries ::
  "libfdt \<Rightarrow> u8 list \<Rightarrow> u8 list option \<Rightarrow> nat \<Rightarrow> ('d, 'a) kernel_state_scheme
     \<Rightarrow> int \<times> interrupt_t list \<times> ('d, 'a) kernel_state_scheme" where
  "intr_entries L intr cells_prop out_len s =
     (if cells_prop = None \<or> length (the cells_prop) \<noteq> 4 then
        (- FDT_ERR_BADNCELLS L, [],
         kprintf (''FDT Error: interrupt-parent is missing '' @ [CHR 0x22] @ ''#interrupt-cells'' @ [CHR 0x22] @ LF) [] s)
      else
        let cells_per_entry = hd (prop_cells (the cells_prop))
        in if cells_per_entry \<noteq> 3 then
             (- FDT_ERR_BADNCELLS L, [],
              kprintf (''FDT Error: unsupported #interrupt-cells value %u'' @ LF) [U32 cells_per_entry] s)
           else
             let entry_size = unat cells_per_entry * 4
             in if length intr mod entry_size \<noteq> 0 then
                  (- FDT_ERR_BADSTATE L, [],
                   kprintf (''FDT Error: '' @ [CHR 0x22] @ ''interrupts'' @ [CHR 0x22] @
                            '' length %d is not a multiple of entry size %zu'' @ LF)
                     [I32 (int (length intr)), Num (of_nat entry_size)] s)
                else
                  let num_entries = length intr div entry_size;
                      cnt = (if num_entries < out_len then num_entries else out_len);
                      out = map (\<lambda>i. parse_intr (drop (i * unat cells_per_entry) (prop_cells intr))) [0..<cnt];
                      s1 = (if cnt < num_entries then
                              kprintf (''FDT Warning: '' @ [CHR 0x22] @ ''interrupts'' @ [CHR 0x22] @
                                '' has %lu entries but only %lu fit in out_intr_array, truncating'' @ LF)
                                [Num (of_nat num_entries), Num (of_nat cnt)] s
                            else s)
                  in (int cnt, out, s1))"

definition get_intr_property ::
  "libfdt \<Rightarrow> u64 \<Rightarrow> int \<Rightarrow> nat \<Rightarrow> ('d, 'a) kernel_state_scheme
     \<Rightarrow> (int \<times> interrupt_t list \<times> ('d, 'a) kernel_state_scheme) option" where
  "get_intr_property L fdt node_offset out_len s =
     (if fdt = 0 \<or> fdt_is_error node_offset then Some (- FDT_ERR_INTERNAL L, [], s)
      else
        let prop = fdt_getprop L fdt node_offset ''interrupts''
        in if prop = None \<or> length (the prop) = 0 then Some (- FDT_ERR_NOTFOUND L, [], s)
           else
             case find_interrupt_parent L fdt node_offset of
               None \<Rightarrow> None
             | Some found \<Rightarrow>
                 let parent = (if fdt_is_error found then get_intc_node_offset L fdt else found)
                 in if fdt_is_error parent then
                      Some (- FDT_ERR_NOTFOUND L, [],
                        kprintf (''FDT Error: could not resolve an interrupt-parent for node'' @ LF) [] s)
                    else
                      Some (intr_entries L (the prop) (fdt_getprop L fdt parent ''#interrupt-cells'') out_len s))"

partial_function (option) compatible_nodes ::
  "libfdt \<Rightarrow> u64 \<Rightarrow> string \<Rightarrow> nat \<Rightarrow> int \<Rightarrow> int list \<Rightarrow> ('d, 'a) kernel_state_scheme
     \<Rightarrow> (int list \<times> ('d, 'a) kernel_state_scheme) option" where
  "compatible_nodes L fdt compatible out_len prev out s =
     (let node = fdt_node_offset_by_compatible L fdt prev compatible
      in if node < 0 then Some (out, s)
         else if length out \<ge> out_len then
           Some (out, kprintf (''FDT Warning: more '' @ [CHR 0x22] @ ''%s'' @ [CHR 0x22] @
                        '' compatible nodes than out_node_offsets_len, truncating'' @ LF) [Txt compatible] s)
         else compatible_nodes L fdt compatible out_len node (out @ [node]) s)"

definition get_nodes_by_compatible ::
  "libfdt \<Rightarrow> u64 \<Rightarrow> string \<Rightarrow> nat \<Rightarrow> ('d, 'a) kernel_state_scheme
     \<Rightarrow> (int \<times> int list \<times> ('d, 'a) kernel_state_scheme) option" where
  "get_nodes_by_compatible L fdt compatible out_len s =
     (if fdt = 0 then Some (- FDT_ERR_INTERNAL L, [], s)
      else map_option (\<lambda>(out, s1). (int (length out), out, s1))
             (compatible_nodes L fdt compatible out_len (-1) [] s))"

end
