(* ===== verification/Fdt_Correct.thy ===== *)
theory Fdt_Correct
  imports Fdt
begin

text \<open>
  What \<^verbatim>\<open>get_mem\<close> reads from the device tree. The reference \<open>reg_regions\<close> decodes a \<^verbatim>\<open>reg\<close> property as
  the devicetree specification says, in unbounded arithmetic; \<open>node_chain\<close> is the finite sequence of
  nodes that libfdt enumerates.
\<close>

section \<open>Reference decoding\<close>

definition cells_value :: "u32 list \<Rightarrow> nat" where
  "cells_value cs = foldl (\<lambda>v c. v * 2 ^ 32 + unat c) 0 cs"

function reg_regions :: "nat \<Rightarrow> nat \<Rightarrow> u32 list \<Rightarrow> memory_region_t list" where
  "reg_regions ac sc cs =
     (if ac + sc = 0 \<or> length cs < ac + sc then []
      else \<lparr>base = of_nat (cells_value (take ac cs)), size = of_nat (cells_value (take sc (drop ac cs)))\<rparr>
           # reg_regions ac sc (drop (ac + sc) cs))"
  by pat_completeness auto
termination by (relation "measure (\<lambda>(ac, sc, cs). length cs)") auto

declare reg_regions.simps [simp del]

definition node_regions :: "libfdt \<Rightarrow> u64 \<Rightarrow> int \<Rightarrow> int \<Rightarrow> int \<Rightarrow> memory_region_t list" where
  "node_regions L fdt ac sc node =
     (case fdt_getprop L fdt node ''reg'' of
        None \<Rightarrow> [] | Some reg \<Rightarrow> filter (\<lambda>r. 0 < memory_region_t.size r) (reg_regions (nat ac) (nat sc) (prop_cells reg)))"

definition reg_wellformed :: "libfdt \<Rightarrow> u64 \<Rightarrow> int \<Rightarrow> int \<Rightarrow> int \<Rightarrow> bool" where
  "reg_wellformed L fdt ac sc node \<longleftrightarrow>
     (case fdt_getprop L fdt node ''reg'' of None \<Rightarrow> True | Some reg \<Rightarrow> length reg mod (4 * nat (ac + sc)) = 0)"

fun node_chain :: "(int \<Rightarrow> int) \<Rightarrow> int \<Rightarrow> int list \<Rightarrow> bool" where
  "node_chain next prev [] \<longleftrightarrow> next prev < 0"
| "node_chain next prev (n # ns) \<longleftrightarrow> next prev = n \<and> 0 \<le> n \<and> node_chain next n ns"

abbreviation next_memory_node :: "libfdt \<Rightarrow> u64 \<Rightarrow> int \<Rightarrow> int" where
  "next_memory_node L fdt prev \<equiv>
     fdt_node_offset_by_prop_value L fdt prev ''device_type'' (lit_bytes ''memory'' @ [0])"

section \<open>Cells\<close>

lemma append_cell: "push_bit 32 v OR ucast (c :: u32) = v * 2 ^ 32 + (ucast c :: u64)" for v :: u64
proof -
  have "push_bit 32 v AND (ucast c :: u64) = 0"
    by (rule bit_word_eqI) (auto simp: bit_simps dest: bit_imp_le_length)
  then have "push_bit 32 v OR (ucast c :: u64) = push_bit 32 v + ucast c" by (simp add: disjunctive_add_eq_or)
  then show ?thesis by (simp add: push_bit_eq_mult)
qed

lemma fold_cells:
  "fold (\<lambda>c v. push_bit 32 v OR ucast c) cs (of_nat n :: u64) = of_nat (foldl (\<lambda>v c. v * 2 ^ 32 + unat (c :: u32)) n cs)"
proof (induction cs arbitrary: n)
  case (Cons c cs)
  have "push_bit 32 (of_nat n) OR ucast c = (of_nat (n * 2 ^ 32 + unat c) :: u64)"
    by (simp add: append_cell)
  then show ?case by (simp only: fold.simps comp_apply foldl.simps Cons.IH)
qed simp

lemma read_cells_value:
  "nat n \<le> length cs \<Longrightarrow> read_cells n cs = Some (of_nat (cells_value (take (nat n) cs)), drop (nat n) cs)"
  using fold_cells [of "take (nat n) cs" 0] by (simp add: read_cells_def cells_value_def)

lemma length_prop_cells: "length (prop_cells bs) = length bs div 4"
  by (induction bs rule: prop_cells.induct) simp_all

section \<open>One property\<close>

definition map_of_regions :: "memory_region_t list \<Rightarrow> memory_map_t" where
  "map_of_regions rs = \<lparr>regions = take 16 rs, count = int (length (take 16 rs))\<rparr>"

lemma mem_entries_run:
  assumes "0 < nat ac + nat sc" "length cs = n * (nat ac + nat sc)"
  shows "mem_entries ac sc n cs (map_of_regions rs) =
    Some (map_of_regions (rs @ filter (\<lambda>r. 0 < memory_region_t.size r) (reg_regions (nat ac) (nat sc) cs)))"
  using assms(2)
proof (induction n arbitrary: cs rs)
  case 0
  then show ?case using assms(1) by (subst reg_regions.simps) simp
next
  case (Suc n)
  let ?r = "\<lparr>base = of_nat (cells_value (take (nat ac) cs)),
             size = of_nat (cells_value (take (nat sc) (drop (nat ac) cs)))\<rparr> :: memory_region_t"
  have len: "nat ac + nat sc \<le> length cs" "length (drop (nat ac + nat sc) cs) = n * (nat ac + nat sc)"
    using Suc.prems by simp_all
  have reg: "reg_regions (nat ac) (nat sc) cs = ?r # reg_regions (nat ac) (nat sc) (drop (nat ac + nat sc) cs)"
    using len(1) assms(1) by (subst reg_regions.simps) auto
  have rd: "read_cells ac cs = Some (base ?r, drop (nat ac) cs)"
    "read_cells sc (drop (nat ac) cs) = Some (memory_region_t.size ?r, drop (nat ac + nat sc) cs)"
    using len(1) by (simp_all add: read_cells_value add.commute)
  show ?case
  proof (cases "16 \<le> length rs")
    case True
    then show ?thesis by (simp add: map_of_regions_def MAX_MEM_REGIONS_def)
  next
    case False
    let ?rs = "if 0 < memory_region_t.size ?r then rs @ [?r] else rs"
    have "mem_entries ac sc (Suc n) cs (map_of_regions rs) =
        mem_entries ac sc n (drop (nat ac + nat sc) cs) (map_of_regions ?rs)"
      using False rd by (simp add: map_of_regions_def MAX_MEM_REGIONS_def add.commute)
    also have "\<dots> = Some (map_of_regions (?rs @ filter (\<lambda>r. 0 < memory_region_t.size r)
        (reg_regions (nat ac) (nat sc) (drop (nat ac + nat sc) cs))))" by (rule Suc.IH [OF len(2)])
    finally show ?thesis by (simp add: reg)
  qed
qed

section \<open>All memory nodes\<close>

lemma mem_nodes_step:
  assumes ac: "1 \<le> ac" "1 \<le> sc" and n: "next_memory_node L fdt prev = n" "0 \<le> n"
    and wf: "reg_wellformed L fdt ac sc n"
  shows "mem_nodes L fdt ac sc prev (map_of_regions rs) s =
    mem_nodes L fdt ac sc n (map_of_regions (rs @ node_regions L fdt ac sc n)) s"
proof (cases "fdt_getprop L fdt n ''reg''")
  case None
  then show ?thesis using n by (subst mem_nodes.simps) (simp add: node_regions_def)
next
  case (Some reg)
  define k where "k = nat ac + nat sc"
  have k: "0 < k" "nat (ac + sc) * 4 = 4 * k" "nat (ac + sc) = k" using ac by (simp_all add: k_def nat_add_distrib)
  have m: "length reg mod (4 * k) = 0" using wf Some by (simp add: reg_wellformed_def k(3))
  then obtain q where q: "length reg = q * (4 * k)" by (metis mod_0_imp_dvd dvd_def mult.commute)
  show ?thesis
  proof (cases "q = 0")
    case True
    then have "reg = []" using q by simp
    with Some have "node_regions L fdt ac sc n = []"
      using k(1) by (simp add: node_regions_def) (subst reg_regions.simps, simp add: k_def)
    with Some \<open>reg = []\<close> n show ?thesis by (subst mem_nodes.simps) simp
  next
    case False
    have "length (prop_cells reg) = q * k" using q by (simp add: length_prop_cells mult.left_commute)
    then have "length (prop_cells reg) = q * (nat ac + nat sc)" by (simp only: k_def)
    note run = mem_entries_run [OF k(1) [unfolded k_def] this, of rs]
    have d: "length reg div (4 * k) = q" "\<not> length reg < 4 * k" "length reg \<noteq> 0" using q k(1) False by simp_all
    show ?thesis
      using n Some run d m by (subst mem_nodes.simps) (simp add: k(2) node_regions_def)
  qed
qed

lemma mem_nodes_run:
  assumes "1 \<le> ac" "1 \<le> sc" and "node_chain (next_memory_node L fdt) prev ns"
    and "\<forall>n \<in> set ns. reg_wellformed L fdt ac sc n"
  shows "mem_nodes L fdt ac sc prev (map_of_regions rs) s =
    Some (0, map_of_regions (rs @ concat (map (node_regions L fdt ac sc) ns)), s)"
  using assms(3,4)
proof (induction ns arbitrary: prev rs)
  case Nil
  then show ?case by (subst mem_nodes.simps) simp
next
  case (Cons n ns)
  then show ?case using mem_nodes_step [OF assms(1,2), of L fdt prev n rs s] by simp
qed

lemma mem_nodes_malformed:
  assumes "1 \<le> ac" "1 \<le> sc" and "node_chain (next_memory_node L fdt) prev ns"
    and "\<exists>n \<in> set ns. \<not> reg_wellformed L fdt ac sc n"
  shows "\<exists>rs' fmt args. mem_nodes L fdt ac sc prev (map_of_regions rs) s =
    Some (- FDT_ERR_BADSTATE L, map_of_regions rs', kprintf fmt args s)"
  using assms(3,4)
proof (induction ns arbitrary: prev rs)
  case (Cons n ns)
  show ?case
  proof (cases "reg_wellformed L fdt ac sc n")
    case True
    then show ?thesis using Cons mem_nodes_step [OF assms(1,2), of L fdt prev n rs s] by simp
  next
    case False
    then obtain reg where reg: "fdt_getprop L fdt n ''reg'' = Some reg" "length reg mod (4 * nat (ac + sc)) \<noteq> 0"
      by (auto simp: reg_wellformed_def split: option.splits)
    then have "length reg \<noteq> 0" by auto
    with reg Cons.prems(1) show ?thesis by (subst mem_nodes.simps) (auto simp: mult.commute Let_def)
  qed
qed simp

section \<open>get_mem\<close>

lemma get_mem_described:
  assumes "fdt \<noteq> 0" and "0 \<le> fdt_path_offset L fdt ''/''"
  defines "ac \<equiv> fdt_address_cells L fdt (fdt_path_offset L fdt ''/'')"
    and "sc \<equiv> fdt_size_cells L fdt (fdt_path_offset L fdt ''/'')"
  assumes "ac \<in> {1, 2}" "sc \<in> {1, 2}" and "node_chain (next_memory_node L fdt) (-1) ns"
  shows "\<forall>n \<in> set ns. reg_wellformed L fdt ac sc n \<Longrightarrow>
      get_mem L fdt (Some m) s = Some (0, Some (map_of_regions (concat (map (node_regions L fdt ac sc) ns))), s)"
    and "\<exists>n \<in> set ns. \<not> reg_wellformed L fdt ac sc n \<Longrightarrow>
        \<exists>m' s'. get_mem L fdt (Some m) s = Some (- FDT_ERR_BADSTATE L, m', s')"
proof -
  have c: "1 \<le> ac" "1 \<le> sc" "\<not> 2 < ac" "\<not> 2 < sc" using assms(5,6) by auto
  have e: "map_of_regions [] = \<lparr>regions = [], count = 0\<rparr>" by (simp add: map_of_regions_def)
  have g: "get_mem L fdt (Some m) s =
      map_option (\<lambda>(r, m2, s2). (r, Some m2, s2)) (mem_nodes L fdt ac sc (-1) (map_of_regions []) s)"
    using assms(1,2) c by (simp add: get_mem_def Let_def ac_def [symmetric] sc_def [symmetric] e not_less)
  show "\<forall>n \<in> set ns. reg_wellformed L fdt ac sc n \<Longrightarrow>
      get_mem L fdt (Some m) s = Some (0, Some (map_of_regions (concat (map (node_regions L fdt ac sc) ns))), s)"
    using mem_nodes_run [OF c(1,2) assms(7), of "[]" s] by (simp add: g)
  show "\<exists>n \<in> set ns. \<not> reg_wellformed L fdt ac sc n \<Longrightarrow>
        \<exists>m' s'. get_mem L fdt (Some m) s = Some (- FDT_ERR_BADSTATE L, m', s')"
    using mem_nodes_malformed [OF c(1,2) assms(7), of "[]" s] by (auto simp: g)
qed

text \<open>The memory map that a device tree with whole entries describes.\<close>

definition memory_described :: "libfdt \<Rightarrow> u64 \<Rightarrow> memory_map_t \<Rightarrow> bool" where
  "memory_described L fdt mm \<longleftrightarrow>
     (let root = fdt_path_offset L fdt ''/''; ac = fdt_address_cells L fdt root; sc = fdt_size_cells L fdt root
      in fdt \<noteq> 0 \<and> 0 \<le> root \<and> ac \<in> {1, 2} \<and> sc \<in> {1, 2}
         \<and> (\<exists>ns. node_chain (next_memory_node L fdt) (-1) ns \<and> (\<forall>n \<in> set ns. reg_wellformed L fdt ac sc n)
              \<and> mm = map_of_regions (concat (map (node_regions L fdt ac sc) ns))))"

lemma get_mem_of_described: "memory_described L fdt mm \<Longrightarrow> get_mem L fdt (Some m) s = Some (0, Some mm, s)"
  using get_mem_described(1) [of fdt L] unfolding memory_described_def Let_def by blast

text \<open>
  C27. \<^verbatim>\<open>get_mem\<close> on a device tree whose memory nodes libfdt enumerates in finitely many steps: with one
  or two cells per address and size it returns; if every \<^verbatim>\<open>reg\<close> property has whole entries it
  succeeds and the map holds the non-empty regions of all nodes in their order, decoded as the
  specification says, the first sixteen of them, and prints nothing; with a malformed property
  it returns an error. It never reads past a property.
\<close>

theorem get_mem_correct:
  assumes "fdt \<noteq> 0" and "0 \<le> fdt_path_offset L fdt ''/''"
  defines "ac \<equiv> fdt_address_cells L fdt (fdt_path_offset L fdt ''/'')"
    and "sc \<equiv> fdt_size_cells L fdt (fdt_path_offset L fdt ''/'')"
  assumes "ac \<in> {1, 2}" "sc \<in> {1, 2}" and "node_chain (next_memory_node L fdt) (-1) ns"
  shows "((\<forall>n \<in> set ns. reg_wellformed L fdt ac sc n) \<longrightarrow>
      get_mem L fdt (Some m) s = Some (0, Some (map_of_regions (concat (map (node_regions L fdt ac sc) ns))), s))
    \<and> ((\<exists>n \<in> set ns. \<not> reg_wellformed L fdt ac sc n) \<longrightarrow>
        (\<exists>m' s'. get_mem L fdt (Some m) s = Some (- FDT_ERR_BADSTATE L, m', s')))"
  using get_mem_described [OF assms(1,2) assms(5,6) [unfolded ac_def sc_def] assms(7), folded ac_def sc_def] by blast

text \<open>Whatever libfdt returns, a result of \<^verbatim>\<open>get_mem\<close> is a well-formed map and only messages were added.\<close>

definition memory_map_wf :: "memory_map_t \<Rightarrow> bool" where
  "memory_map_wf m \<longleftrightarrow> count m = int (length (regions m)) \<and> length (regions m) \<le> 16
     \<and> (\<forall>r \<in> set (regions m). 0 < memory_region_t.size r)"

lemma mem_entries_wf:
  "mem_entries ac sc n cs m = Some m' \<Longrightarrow> memory_map_wf m \<Longrightarrow> memory_map_wf m'"
  by (induction ac sc n cs m rule: mem_entries.induct)
    (auto simp: memory_map_wf_def MAX_MEM_REGIONS_def split: if_splits option.splits)

lemma mem_nodes_wf:
  fixes s :: "('d, 'a) kernel_state_scheme"
  assumes "mem_nodes L fdt ac sc prev m s = Some (r, m', s')" "memory_map_wf m"
  shows "memory_map_wf m' \<and> (\<exists>c. s' = s\<lparr>console := c\<rparr>)"
proof -
  have "memory_map_wf m \<longrightarrow> memory_map_wf (fst (snd (r, m', s'))) \<and> (\<exists>c. snd (snd (r, m', s')) = s\<lparr>console := c\<rparr>)"
  proof (rule mem_nodes.raw_induct [OF _ assms(1)])
    fix nodes L fdt ac sc prev m s and y :: "int \<times> memory_map_t \<times> ('d, 'a) kernel_state_scheme"
    assume IH: "\<And>L fdt ac sc prev m s y. nodes L fdt ac sc prev m s = Some y \<Longrightarrow>
        memory_map_wf m \<longrightarrow> memory_map_wf (fst (snd y)) \<and> (\<exists>c. snd (snd y) = s\<lparr>console := c\<rparr>)"
      and step: "(let node = next_memory_node L fdt prev
      in if node < 0 then Some (0, m, s)
         else
           case fdt_getprop L fdt node ''reg'' of
             None \<Rightarrow> nodes L fdt ac sc node m s
           | Some reg \<Rightarrow>
               if length reg = 0 then nodes L fdt ac sc node m s
               else
                 let entry_size = nat (ac + sc) * 4
                 in if length reg < entry_size \<or> length reg mod entry_size \<noteq> 0
                    then Some (- FDT_ERR_BADSTATE L, m,
                           kprintf (''FDT Error: memory '' @ [CHR 0x22] @ ''reg'' @ [CHR 0x22] @
                                    '' length %d is not a multiple of entry size %zu'' @ LF)
                             [I32 (int (length reg)), Num (of_nat entry_size)] s)
                    else
                      (case mem_entries ac sc (length reg div entry_size) (prop_cells reg) m of
                         None \<Rightarrow> None
                       | Some mmap' \<Rightarrow> nodes L fdt ac sc node mmap' s)) = Some y"
    have idle: "\<exists>c. s = s\<lparr>console := c\<rparr>" by (rule exI [of _ "console s"]) simp
    show "memory_map_wf m \<longrightarrow> memory_map_wf (fst (snd y)) \<and> (\<exists>c. snd (snd y) = s\<lparr>console := c\<rparr>)"
      using step IH mem_entries_wf idle
      by (auto simp: Let_def kprintf_def split: if_splits option.splits)
  qed
  with assms(2) show ?thesis by simp
qed

lemma get_mem_wf:
  assumes "get_mem L fdt (Some m) s = Some (r, Some m', s')"
  shows "0 \<le> r \<and> 0 < FDT_ERR_INTERNAL L \<longrightarrow> memory_map_wf m'" "\<exists>c. s' = s\<lparr>console := c\<rparr>"
proof -
  have z: "memory_map_wf \<lparr>regions = [], count = 0\<rparr>" by (simp add: memory_map_wf_def)
  have idle: "\<exists>c. s = s\<lparr>console := c\<rparr>" by (rule exI [of _ "console s"]) simp
  show "0 \<le> r \<and> 0 < FDT_ERR_INTERNAL L \<longrightarrow> memory_map_wf m'" "\<exists>c. s' = s\<lparr>console := c\<rparr>"
    using assms z idle by (auto simp: get_mem_def kprintf_def Let_def dest!: mem_nodes_wf [OF _ z] split: if_splits)
qed

text \<open>
  C28. Whatever the device tree and libfdt contain, a memory map that \<^verbatim>\<open>get_mem\<close> delivers without an
  error is well formed: \<^verbatim>\<open>count\<close> is the number of the regions, at most sixteen, none is empty, and
  apart from messages the kernel state is unchanged.
\<close>

theorem get_mem_type:
  assumes "get_mem L fdt (Some m) s = Some (r, Some m', s')" and "0 \<le> r" and "0 < FDT_ERR_INTERNAL L"
  shows "memory_map_wf m' \<and> (\<exists>c. s' = s\<lparr>console := c\<rparr>)"
  using get_mem_wf [OF assms(1)] assms(2,3) by blast

end
