(* ===== verification/Setup.thy ===== *)
theory Setup
  imports Fdt_Correct Page_Allocator_Client
begin

text \<open>
  \<^verbatim>\<open>utils/utils.c\<close>: filling the page allocator from the memory map of the device tree and reserving the
  pages of the kernel image and of the device tree blob. Every call of libfdt reads the bytes of the
  state in which it happens: the last one, for the size of the blob, comes after the bitmaps of the
  allocator have been written. What this establishes is in
  \<^verbatim>\<open>Setup_Correct\<close>.
\<close>

section \<open>Operations\<close>

definition reserve_kernel_img_pages ::
  "('d, 'a) kernel_state_scheme \<Rightarrow> bool \<times> ('d, 'a) kernel_state_scheme" where
  "reserve_kernel_img_pages s =
     (let img_size = get_image_size s;
          num_pages = NUM_PAGES img_size;
          img_start = sym_addr s image_start;
          s1 = kprintf (''Reserving kernel image pages: start=%p, size=0x%lx bytes, pages=0x%lx'' @ LF)
                 [Num img_start, Num img_size, Num num_pages] s;
          (ok, s2) = reserve_page (va_to_pa s1 img_start) num_pages s1
      in if \<not> ok then (False, kprintf (''Failed to reserve kernel image pages. Halting.'' @ LF) [] s2)
         else (True, s2))"

definition reserve_fdt_pages ::
  "fdt_library \<Rightarrow> u64 \<Rightarrow> ('d, 'a) kernel_state_scheme \<Rightarrow> bool \<times> ('d, 'a) kernel_state_scheme" where
  "reserve_fdt_pages L fdt_addr s =
     (let fdt_size = ucast (fdt_totalsize (L (load_byte s)) fdt_addr);
          num_pages = NUM_PAGES fdt_size;
          s1 = kprintf (''Reserving FDT pages: start=%p, size=0x%lx bytes, pages=0x%lx'' @ LF)
                 [Num fdt_addr, Num fdt_size, Num num_pages] s;
          (ok, s2) = reserve_page (va_to_pa s1 fdt_addr) num_pages s1
      in if \<not> ok then (False, kprintf (''Failed to reserve FDT pages. Halting.'' @ LF) [] s2)
         else (True, s2))"

text \<open>The loop of \<^verbatim>\<open>setup_page_allocator\<close> over the regions of the memory map; \<open>i\<close> counts them.\<close>

fun add_regions ::
  "nat \<Rightarrow> memory_region_t list \<Rightarrow> ('d, 'a) kernel_state_scheme \<Rightarrow> bool \<times> ('d, 'a) kernel_state_scheme" where
  "add_regions i [] s = (True, s)"
| "add_regions i (r # rs) s =
     (let (ok, s1) = page_allocator_add_region (base r) (memory_region_t.size r) True s
      in if \<not> ok then
           (False, kprintf (''Failed to add memory region %d [0x%lx, size 0x%lx] to the page allocator'' @ LF)
              [I32 (int i), Num (base r), Num (memory_region_t.size r)] s1)
         else add_regions (Suc i) rs s1)"

text \<open>\<open>None\<close> when \<^verbatim>\<open>get_mem\<close> does not return; the local \<^verbatim>\<open>mmap\<close> is uninitialised, its value \<open>mmap0\<close> is never used.\<close>

definition setup_page_allocator ::
  "fdt_library \<Rightarrow> memory_map_t \<Rightarrow> u64 \<Rightarrow> ('d, 'a) kernel_state_scheme \<Rightarrow> (bool \<times> ('d, 'a) kernel_state_scheme) option" where
  "setup_page_allocator L mmap0 fdt_addr s =
     (let (valid, s1) = check_fdt (L (load_byte s)) fdt_addr s
      in if \<not> valid then Some (False, kprintf (''FDT validation failed. Halting.'' @ LF) [] s1)
         else
           case get_mem (L (load_byte s1)) fdt_addr (Some mmap0) s1 of
             None \<Rightarrow> None
           | Some (r, mmap, s2) \<Rightarrow>
               if r < 0 then Some (False, kprintf (''Failed to parse memory map from FDT. Halting.'' @ LF) [] s2)
               else
                 let (added, s3) = add_regions 0 (take (nat (count (the mmap))) (regions (the mmap))) s2
                 in if \<not> added then Some (False, s3)
                    else
                      let (img, s4) = reserve_kernel_img_pages s3
                      in if \<not> img then
                           Some (False, kprintf (''Error while reserving kernel binary pages'' @ LF) [] s4)
                         else
                           let (dtb, s5) = reserve_fdt_pages L fdt_addr s4
                           in if \<not> dtb then
                                Some (False, kprintf (''Error while reserving FDT pages'' @ LF) [] s5)
                              else Some (True, s5))"

text \<open>The backslash and the single quote.\<close>

definition BSL :: string where "BSL = [CHR 0x5C]"
definition SQ :: string where "SQ = [CHR 0x27]"

definition kernelite_logo :: string where
  "kernelite_logo =
     ''@@@@@@@@@@@@@@@@@@@@@@@@@@@@@@@@@@@@@@@@@@@@@@@@@@@@@@@@'' @ LF @
     ''@@@@@@@@@@@@@@@@@@@@@@@@@@%%++%%@@@@@@@@@@@@@@@@@@@@@@@@@@'' @ LF @
     ''@@@@@@@@@@@@@@@@@@@@@@%%*=::::::=*%%@@@@@@@@@@@@@@@@@@@@@@'' @ LF @
     ''@@@@@@@@@@@@@@@@@@@#+-::::::::::::-+#@@@@@@@@@@@@@@@@@@@'' @ LF @
     ''@@@@@@@@@@@@@@@%%*=:::::::::--:::::::::=*%%@@@@@@@@@@@@@@@'' @ LF @
     ''@@@@@@@@@@@#+-:::::::::--------:::::::::-+#@@@@@@@@@@@@@'' @ LF @
     ''@@@@@@@@%%*=::::::::::--------------::::::::::=*%%@@@@@@@@'' @ LF @
     ''@@@@@#+-:::::::::---------====---------:::::::::-+#@@@@@'' @ LF @
     ''@#*=::::::::::--------===++++++===--------::::::::::=*#@'' @ LF @
     ''@=::::::::--------===++++++++++++++===--------::::::::=@'' @ LF @
     ''@=:::::--------==+++++++++****+++++++++==--------:::::=@'' @ LF @
     ''@=:::::------=+++++++++*#%%%%%%%%%%%%#*+++++++++=------:::::=@'' @ LF @
     ''@=:::::------=+++++**#%%%%%%%%%%%%%%%%%%%%%%%%#**+++++=------:::::=@'' @ LF @
     ''@=:::::------=+++++#%%%%%%%%%%%%%%%%%%%%%%%%%%%%%%%%#+++++=------:::::=@'' @ LF @
     ''@=:::::------=+++++#%%%%%%%%%%%%%%%%%%%%%%%%%%%%%%%%#+++++=------:::::=@'' @ LF @
     ''@=:::::------=+++++#%%%%%%%%%%%%%%%%%%%%%%%%%%%%%%%%#+++++=------:::::=@'' @ LF @
     ''@=:::::------=+++++#%%%%%%%%%%%%%%%%%%%%%%%%%%%%%%%%#+++++=------:::::=@'' @ LF @
     ''@=:::::------=+++++#%%%%%%%%%%%%%%%%%%%%%%%%%%%%%%%%#+++++=------:::::=@'' @ LF @
     ''@=:::::------=+++++#%%%%%%%%%%%%%%%%%%%%%%%%%%%%%%%%#+++++=------:::::=@'' @ LF @
     ''@=:::::------=+++++#%%%%%%%%%%%%%%%%%%%%%%%%%%%%%%%%#+++++=------:::::=@'' @ LF @
     ''@=:::::------=+++++++*#%%%%%%%%%%%%%%%%%%%%#*+++++++=------:::::=@'' @ LF @
     ''@=:::::------==+++++++++*##%%%%##*+++++++++==------:::::=@'' @ LF @
     ''@=::::::--------===++++++++++++++++++===--------::::::=@'' @ LF @
     ''@=::::::::::--------==++++++++++++==--------::::::::::=@'' @ LF @
     ''@@%%*=::::::::::--------===++++===--------::::::::::=*%%@@'' @ LF @
     ''@@@@@@#+-:::::::::---------==---------:::::::::-+#@@@@@@'' @ LF @
     ''@@@@@@@@@%%*=::::::::::------------::::::::::=*%%@@@@@@@@@'' @ LF @
     ''@@@@@@@@@@@@@#+-:::::::::------:::::::::-+#@@@@@@@@@@@@@'' @ LF @
     ''@@@@@@@@@@@@@@@@@#=::::::::::::::::::=#@@@@@@@@@@@@@@@@@'' @ LF @
     ''@@@@@@@@@@@@@@@@@@@@%%*=::::::::::=*%%@@@@@@@@@@@@@@@@@@@@'' @ LF @
     ''@@@@@@@@@@@@@@@@@@@@@@@@#+-::-+#@@@@@@@@@@@@@@@@@@@@@@@@'' @ LF @
     ''@@@@@@@@@@@@@@@@@@@@@@@@@@@##@@@@@@@@@@@@@@@@@@@@@@@@@@@'' @ LF @
     '' _   __                     _ _ _       '' @ LF @
     ''| | / /                    | (_) |      '' @ LF @
     ''| |/ /  ___ _ __ _ __   ___| |_| |_ ___ '' @ LF @
     ''|    '' @ BSL @ '' / _ '' @ BSL @ '' '' @ SQ @ ''__| '' @ SQ @ ''_ '' @ BSL @ '' / _ '' @ BSL @ '' | | __/ _ '' @ BSL @ LF @
     ''| |'' @ BSL @ ''  '' @ BSL @ ''  __/ |  | | | |  __/ | | ||  __/'' @ LF @
     BSL @ ''_| '' @ BSL @ ''_/'' @ BSL @ ''___|_|  |_| |_|'' @ BSL @ ''___|_|_|'' @ BSL @ ''__'' @ BSL @ ''___|'' @ LF @
     ''  a bare-metal kernel  |  github.com/Abhinkop/kernelite'' @ LF @
     LF"

definition print_kernelite_logo :: "('d, 'a) kernel_state_scheme \<Rightarrow> ('d, 'a) kernel_state_scheme" where
  "print_kernelite_logo s = kprintf kernelite_logo [] s"

end
