(* ===== verification/Gicv3_Regs.thy ===== *)
theory Gicv3_Regs
  imports Bitfields
begin

text \<open>
  The register layouts of \<^verbatim>\<open>drivers/gicv3.c\<close>: each packed union of the source as its list of
  fields, in declaration order, and the proof that it is a bit-field struct of the register's
  width (which is what the source's static assertions on the sizes check).
\<close>

section \<open>Distributor registers\<close>

datatype gicd_ctlr_field = CTLR_enable_grp0 | CTLR_enable_grp1ns | CTLR_enable_grp1s | CTLR_res0
  | CTLR_are_s | CTLR_are_ns | CTLR_ds | CTLR_e1nwf | CTLR_res1 | CTLR_rwp

definition gicd_ctlr_t :: "gicd_ctlr_field layout" where
  "gicd_ctlr_t = [(CTLR_enable_grp0, 1), (CTLR_enable_grp1ns, 1), (CTLR_enable_grp1s, 1),
     (CTLR_res0, 1), (CTLR_are_s, 1), (CTLR_are_ns, 1), (CTLR_ds, 1), (CTLR_e1nwf, 1),
     (CTLR_res1, 23), (CTLR_rwp, 1)]"

datatype gicd_typer_field = TYPER_itlinesnumber | TYPER_cpunumber | TYPER_espi | TYPER_nmi
  | TYPER_security_extn | TYPER_num_lpis | TYPER_mbis | TYPER_lpis | TYPER_dvis | TYPER_idbits
  | TYPER_a3v | TYPER_no1n | TYPER_rss | TYPER_espi_range

definition gicd_typer_t :: "gicd_typer_field layout" where
  "gicd_typer_t = [(TYPER_itlinesnumber, 5), (TYPER_cpunumber, 3), (TYPER_espi, 1), (TYPER_nmi, 1),
     (TYPER_security_extn, 1), (TYPER_num_lpis, 5), (TYPER_mbis, 1), (TYPER_lpis, 1),
     (TYPER_dvis, 1), (TYPER_idbits, 5), (TYPER_a3v, 1), (TYPER_no1n, 1), (TYPER_rss, 1),
     (TYPER_espi_range, 5)]"

datatype gicd_iidr_field = IIDR_implementer | IIDR_revision | IIDR_variant | IIDR_res0
  | IIDR_product_id

definition gicd_iidr_t :: "gicd_iidr_field layout" where
  "gicd_iidr_t = [(IIDR_implementer, 12), (IIDR_revision, 4), (IIDR_variant, 4), (IIDR_res0, 4),
     (IIDR_product_id, 8)]"

datatype gicd_ipriorityr_field = DPRIO_priority0 | DPRIO_priority1 | DPRIO_priority2
  | DPRIO_priority3

definition gicd_ipriorityr_t :: "gicd_ipriorityr_field layout" where
  "gicd_ipriorityr_t = [(DPRIO_priority0, 8), (DPRIO_priority1, 8), (DPRIO_priority2, 8),
     (DPRIO_priority3, 8)]"

text \<open>The routing mode values \<^verbatim>\<open>gicd_irm_t\<close>.\<close>

datatype gicd_irm_t = GICD_IRM_AFFINITY | GICD_IRM_ANY_PE

fun gicd_irm_code :: "gicd_irm_t \<Rightarrow> u64" where
  "gicd_irm_code GICD_IRM_AFFINITY = 0"
| "gicd_irm_code GICD_IRM_ANY_PE = 1"

datatype gicd_irouter_field = ROUTER_aff0 | ROUTER_aff1 | ROUTER_aff2 | ROUTER_res0 | ROUTER_irm
  | ROUTER_aff3 | ROUTER_res1

definition gicd_irouter_t :: "gicd_irouter_field layout" where
  "gicd_irouter_t = [(ROUTER_aff0, 8), (ROUTER_aff1, 8), (ROUTER_aff2, 8), (ROUTER_res0, 7),
     (ROUTER_irm, 1), (ROUTER_aff3, 8), (ROUTER_res1, 24)]"

datatype gicd_isenabler_field = DISEN_enable

definition gicd_isenabler_t :: "gicd_isenabler_field layout" where
  "gicd_isenabler_t = [(DISEN_enable, 32)]"

datatype gicd_igroupr_field = DGRP_group

definition gicd_igroupr_t :: "gicd_igroupr_field layout" where
  "gicd_igroupr_t = [(DGRP_group, 32)]"

datatype gicd_igrpmodr_field = DMOD_grpmod

definition gicd_igrpmodr_t :: "gicd_igrpmodr_field layout" where
  "gicd_igrpmodr_t = [(DMOD_grpmod, 32)]"

section \<open>Redistributor registers\<close>

datatype gicr_waker_field = WAKER_impl_defined_0 | WAKER_processor_sleep | WAKER_children_asleep
  | WAKER_res0 | WAKER_impl_defined_31

definition gicr_waker_t :: "gicr_waker_field layout" where
  "gicr_waker_t = [(WAKER_impl_defined_0, 1), (WAKER_processor_sleep, 1),
     (WAKER_children_asleep, 1), (WAKER_res0, 28), (WAKER_impl_defined_31, 1)]"

datatype gicr_isenabler0_field = RISEN_sgi_enable | RISEN_ppi_enable

definition gicr_isenabler0_t :: "gicr_isenabler0_field layout" where
  "gicr_isenabler0_t = [(RISEN_sgi_enable, 16), (RISEN_ppi_enable, 16)]"

datatype gicr_igroupr0_field = RGRP_sgi_group | RGRP_ppi_group

definition gicr_igroupr0_t :: "gicr_igroupr0_field layout" where
  "gicr_igroupr0_t = [(RGRP_sgi_group, 16), (RGRP_ppi_group, 16)]"

datatype gicr_igrpmodr0_field = RMOD_sgi_grpmod | RMOD_ppi_grpmod

definition gicr_igrpmodr0_t :: "gicr_igrpmodr0_field layout" where
  "gicr_igrpmodr0_t = [(RMOD_sgi_grpmod, 16), (RMOD_ppi_grpmod, 16)]"

datatype gicr_ipriorityr_field = RPRIO_prio_0 | RPRIO_prio_1 | RPRIO_prio_2 | RPRIO_prio_3

definition gicr_ipriorityr_t :: "gicr_ipriorityr_field layout" where
  "gicr_ipriorityr_t = [(RPRIO_prio_0, 8), (RPRIO_prio_1, 8), (RPRIO_prio_2, 8), (RPRIO_prio_3, 8)]"

section \<open>CPU interface system registers\<close>

datatype icc_sre_el1_field = SRE_sre | SRE_dfb | SRE_dib | SRE_res0

definition icc_sre_el1_t :: "icc_sre_el1_field layout" where
  "icc_sre_el1_t = [(SRE_sre, 1), (SRE_dfb, 1), (SRE_dib, 1), (SRE_res0, 61)]"

datatype icc_ctlr_el1_field = ICTLR_cbpr | ICTLR_eoi_mode | ICTLR_res0_5_2 | ICTLR_pmhe
  | ICTLR_res0_7 | ICTLR_pri_bits | ICTLR_id_bits | ICTLR_seis | ICTLR_a3v | ICTLR_res0_17_16
  | ICTLR_rss | ICTLR_ext_range | ICTLR_res0_63_20

definition icc_ctlr_el1_t :: "icc_ctlr_el1_field layout" where
  "icc_ctlr_el1_t = [(ICTLR_cbpr, 1), (ICTLR_eoi_mode, 1), (ICTLR_res0_5_2, 4), (ICTLR_pmhe, 1),
     (ICTLR_res0_7, 1), (ICTLR_pri_bits, 3), (ICTLR_id_bits, 3), (ICTLR_seis, 1), (ICTLR_a3v, 1),
     (ICTLR_res0_17_16, 2), (ICTLR_rss, 1), (ICTLR_ext_range, 1), (ICTLR_res0_63_20, 44)]"

datatype icc_pmr_el1_field = PMR_priority | PMR_res0

definition icc_pmr_el1_t :: "icc_pmr_el1_field layout" where
  "icc_pmr_el1_t = [(PMR_priority, 8), (PMR_res0, 56)]"

datatype icc_bpr1_el1_field = BPR1_binary_point | BPR1_res0

definition icc_bpr1_el1_t :: "icc_bpr1_el1_field layout" where
  "icc_bpr1_el1_t = [(BPR1_binary_point, 3), (BPR1_res0, 61)]"

datatype icc_igrpen1_el1_field = IGRPEN1_enable | IGRPEN1_res0

definition icc_igrpen1_el1_t :: "icc_igrpen1_el1_field layout" where
  "icc_igrpen1_el1_t = [(IGRPEN1_enable, 1), (IGRPEN1_res0, 63)]"

datatype icc_iar1_el1_field = IAR1_intid | IAR1_res0

definition icc_iar1_el1_t :: "icc_iar1_el1_field layout" where
  "icc_iar1_el1_t = [(IAR1_intid, 24), (IAR1_res0, 40)]"

datatype icc_eoir1_el1_field = EOIR1_intid | EOIR1_res0

definition icc_eoir1_el1_t :: "icc_eoir1_el1_field layout" where
  "icc_eoir1_el1_t = [(EOIR1_intid, 24), (EOIR1_res0, 40)]"

section \<open>The declarations are bit-field structs\<close>

interpretation ctlr: bitfield_struct gicd_ctlr_t "TYPE(32)"
proof
  show "f \<in> fst ` set gicd_ctlr_t" for f by (cases f) (simp_all add: gicd_ctlr_t_def)
qed (simp_all add: gicd_ctlr_t_def bf_size_def)

interpretation typer: bitfield_struct gicd_typer_t "TYPE(32)"
proof
  show "f \<in> fst ` set gicd_typer_t" for f by (cases f) (simp_all add: gicd_typer_t_def)
qed (simp_all add: gicd_typer_t_def bf_size_def)

interpretation iidr: bitfield_struct gicd_iidr_t "TYPE(32)"
proof
  show "f \<in> fst ` set gicd_iidr_t" for f by (cases f) (simp_all add: gicd_iidr_t_def)
qed (simp_all add: gicd_iidr_t_def bf_size_def)

interpretation dprio: bitfield_struct gicd_ipriorityr_t "TYPE(32)"
proof
  show "f \<in> fst ` set gicd_ipriorityr_t" for f by (cases f) (simp_all add: gicd_ipriorityr_t_def)
qed (simp_all add: gicd_ipriorityr_t_def bf_size_def)

interpretation router: bitfield_struct gicd_irouter_t "TYPE(64)"
proof
  show "f \<in> fst ` set gicd_irouter_t" for f by (cases f) (simp_all add: gicd_irouter_t_def)
qed (simp_all add: gicd_irouter_t_def bf_size_def)

interpretation disen: bitfield_struct gicd_isenabler_t "TYPE(32)"
proof
  show "f \<in> fst ` set gicd_isenabler_t" for f by (cases f) (simp_all add: gicd_isenabler_t_def)
qed (simp_all add: gicd_isenabler_t_def bf_size_def)

interpretation dgrp: bitfield_struct gicd_igroupr_t "TYPE(32)"
proof
  show "f \<in> fst ` set gicd_igroupr_t" for f by (cases f) (simp_all add: gicd_igroupr_t_def)
qed (simp_all add: gicd_igroupr_t_def bf_size_def)

interpretation dmod: bitfield_struct gicd_igrpmodr_t "TYPE(32)"
proof
  show "f \<in> fst ` set gicd_igrpmodr_t" for f by (cases f) (simp_all add: gicd_igrpmodr_t_def)
qed (simp_all add: gicd_igrpmodr_t_def bf_size_def)

interpretation waker: bitfield_struct gicr_waker_t "TYPE(32)"
proof
  show "f \<in> fst ` set gicr_waker_t" for f by (cases f) (simp_all add: gicr_waker_t_def)
qed (simp_all add: gicr_waker_t_def bf_size_def)

interpretation risen: bitfield_struct gicr_isenabler0_t "TYPE(32)"
proof
  show "f \<in> fst ` set gicr_isenabler0_t" for f by (cases f) (simp_all add: gicr_isenabler0_t_def)
qed (simp_all add: gicr_isenabler0_t_def bf_size_def)

interpretation rgrp: bitfield_struct gicr_igroupr0_t "TYPE(32)"
proof
  show "f \<in> fst ` set gicr_igroupr0_t" for f by (cases f) (simp_all add: gicr_igroupr0_t_def)
qed (simp_all add: gicr_igroupr0_t_def bf_size_def)

interpretation rmod: bitfield_struct gicr_igrpmodr0_t "TYPE(32)"
proof
  show "f \<in> fst ` set gicr_igrpmodr0_t" for f by (cases f) (simp_all add: gicr_igrpmodr0_t_def)
qed (simp_all add: gicr_igrpmodr0_t_def bf_size_def)

interpretation rprio: bitfield_struct gicr_ipriorityr_t "TYPE(32)"
proof
  show "f \<in> fst ` set gicr_ipriorityr_t" for f by (cases f) (simp_all add: gicr_ipriorityr_t_def)
qed (simp_all add: gicr_ipriorityr_t_def bf_size_def)

interpretation sre: bitfield_struct icc_sre_el1_t "TYPE(64)"
proof
  show "f \<in> fst ` set icc_sre_el1_t" for f by (cases f) (simp_all add: icc_sre_el1_t_def)
qed (simp_all add: icc_sre_el1_t_def bf_size_def)

interpretation ictlr: bitfield_struct icc_ctlr_el1_t "TYPE(64)"
proof
  show "f \<in> fst ` set icc_ctlr_el1_t" for f by (cases f) (simp_all add: icc_ctlr_el1_t_def)
qed (simp_all add: icc_ctlr_el1_t_def bf_size_def)

interpretation pmr: bitfield_struct icc_pmr_el1_t "TYPE(64)"
proof
  show "f \<in> fst ` set icc_pmr_el1_t" for f by (cases f) (simp_all add: icc_pmr_el1_t_def)
qed (simp_all add: icc_pmr_el1_t_def bf_size_def)

interpretation bpr1: bitfield_struct icc_bpr1_el1_t "TYPE(64)"
proof
  show "f \<in> fst ` set icc_bpr1_el1_t" for f by (cases f) (simp_all add: icc_bpr1_el1_t_def)
qed (simp_all add: icc_bpr1_el1_t_def bf_size_def)

interpretation igrpen1: bitfield_struct icc_igrpen1_el1_t "TYPE(64)"
proof
  show "f \<in> fst ` set icc_igrpen1_el1_t" for f by (cases f) (simp_all add: icc_igrpen1_el1_t_def)
qed (simp_all add: icc_igrpen1_el1_t_def bf_size_def)

interpretation iar1: bitfield_struct icc_iar1_el1_t "TYPE(64)"
proof
  show "f \<in> fst ` set icc_iar1_el1_t" for f by (cases f) (simp_all add: icc_iar1_el1_t_def)
qed (simp_all add: icc_iar1_el1_t_def bf_size_def)

interpretation eoir1: bitfield_struct icc_eoir1_el1_t "TYPE(64)"
proof
  show "f \<in> fst ` set icc_eoir1_el1_t" for f by (cases f) (simp_all add: icc_eoir1_el1_t_def)
qed (simp_all add: icc_eoir1_el1_t_def bf_size_def)

end
