(* ===== verification/Gicv3_Access.thy ===== *)
theory Gicv3_Access
  imports Devices Gicv3_Regs
begin

text \<open>
  The state of \<^verbatim>\<open>drivers/gicv3.c\<close>, the accessors that compute register addresses, and the functions
  that dump registers on the console. The driver keeps the mapped base addresses and the
  dispatch table of handlers; a handler is a function pointer, here its address.
\<close>

record handler_data_t =
  handler :: u64
  private_data :: u64

definition MAX_INT_ID :: u32 where
  "MAX_INT_ID = 1024"

text \<open>\<^verbatim>\<open>gicv3_memap_t\<close> and \<^verbatim>\<open>dispatch_table\<close>.\<close>

record 'd gic_state = "'d kernel_state" +
  dist_base :: virt_addr
  redist_base :: virt_addr
  dispatch_table :: "handler_data_t list"

section \<open>Register addresses\<close>

text \<open>The products \<^verbatim>\<open>n * 4\<close> and \<^verbatim>\<open>intid * 8\<close> are formed in 32 bits and then widened.\<close>

definition get_gicd_ctlr :: "('d, 'a) gic_state_scheme \<Rightarrow> virt_addr" where
  "get_gicd_ctlr s = dist_base s + 0x0000"

definition get_gicd_typer :: "('d, 'a) gic_state_scheme \<Rightarrow> virt_addr" where
  "get_gicd_typer s = dist_base s + 0x0004"

definition get_gicd_iidr :: "('d, 'a) gic_state_scheme \<Rightarrow> virt_addr" where
  "get_gicd_iidr s = dist_base s + 0x0008"

definition get_gicd_igroupr :: "('d, 'a) gic_state_scheme \<Rightarrow> u32 \<Rightarrow> virt_addr" where
  "get_gicd_igroupr s n = dist_base s + 0x0080 + ucast (n * 4)"

definition get_gicd_igrpmodr :: "('d, 'a) gic_state_scheme \<Rightarrow> u32 \<Rightarrow> virt_addr" where
  "get_gicd_igrpmodr s n = dist_base s + 0x0D00 + ucast (n * 4)"

definition get_gicd_ipriorityr :: "('d, 'a) gic_state_scheme \<Rightarrow> u32 \<Rightarrow> virt_addr" where
  "get_gicd_ipriorityr s n = dist_base s + 0x0400 + ucast (n * 4)"

definition get_gicd_irouter :: "('d, 'a) gic_state_scheme \<Rightarrow> u32 \<Rightarrow> virt_addr" where
  "get_gicd_irouter s intid = dist_base s + 0x6000 + ucast (intid * 8)"

definition get_gicd_isenabler :: "('d, 'a) gic_state_scheme \<Rightarrow> u32 \<Rightarrow> virt_addr" where
  "get_gicd_isenabler s n = dist_base s + 0x0100 + ucast (n * 4)"

definition get_gicd_icenabler :: "('d, 'a) gic_state_scheme \<Rightarrow> u32 \<Rightarrow> virt_addr" where
  "get_gicd_icenabler s n = dist_base s + 0x0180 + ucast (n * 4)"

definition get_redist_base :: "('d, 'a) gic_state_scheme \<Rightarrow> u32 \<Rightarrow> virt_addr" where
  "get_redist_base s cpu_num = redist_base s + ucast cpu_num * 0x20000"

definition get_gicr_sgi_base :: "('d, 'a) gic_state_scheme \<Rightarrow> u32 \<Rightarrow> virt_addr" where
  "get_gicr_sgi_base s cpu_num = get_redist_base s cpu_num + 0x10000"

definition get_gicr_waker :: "('d, 'a) gic_state_scheme \<Rightarrow> u32 \<Rightarrow> virt_addr" where
  "get_gicr_waker s cpu_num = get_redist_base s cpu_num + 0x0014"

definition get_gicr_isenabler0 :: "('d, 'a) gic_state_scheme \<Rightarrow> u32 \<Rightarrow> virt_addr" where
  "get_gicr_isenabler0 s cpu_num = get_gicr_sgi_base s cpu_num + 0x100"

definition get_gicr_icenabler0 :: "('d, 'a) gic_state_scheme \<Rightarrow> u32 \<Rightarrow> virt_addr" where
  "get_gicr_icenabler0 s cpu_num = get_gicr_sgi_base s cpu_num + 0x0180"

definition get_gicr_igroupr0 :: "('d, 'a) gic_state_scheme \<Rightarrow> u32 \<Rightarrow> virt_addr" where
  "get_gicr_igroupr0 s cpu_num = get_gicr_sgi_base s cpu_num + 0x0080"

definition get_gicr_igrpmodr0 :: "('d, 'a) gic_state_scheme \<Rightarrow> u32 \<Rightarrow> virt_addr" where
  "get_gicr_igrpmodr0 s cpu_num = get_gicr_sgi_base s cpu_num + 0x0D00"

definition get_gicr_ipriorityr :: "('d, 'a) gic_state_scheme \<Rightarrow> u32 \<Rightarrow> u32 \<Rightarrow> virt_addr" where
  "get_gicr_ipriorityr s cpu_num n = get_gicr_sgi_base s cpu_num + 0x0400 + ucast (n * 4)"

section \<open>Register dumps\<close>

definition print_gicd_typer :: "'d bus \<Rightarrow> ('d, 'a) gic_state_scheme \<Rightarrow> ('d, 'a) gic_state_scheme" where
  "print_gicd_typer b s =
     (let typer = get_gicd_typer s
      in stmts [
        kprintf (''-------------- GIC TYPER -----------------'' @ LF) [],
        (\<lambda>s. let (v, s1) = vread32 b typer s; (w, s2) = vread32 b typer s1
           in kprintf (''ITLinesNumber : %u (max SPI interrupts = %u)'' @ LF)
                [U32 (bf_get gicd_typer_t TYPER_itlinesnumber v),
                 U32 ((bf_get gicd_typer_t TYPER_itlinesnumber w + 1) * 32)] s2),
        kprintf_field b typer gicd_typer_t TYPER_cpunumber (''CPUNumber     : %u (number of CPUs / affinity level 0)'' @ LF)
           (\<lambda>v. [U32 v]),
        kprintf_field b typer gicd_typer_t TYPER_espi (''ESPI          : %s'' @ LF)
           (\<lambda>v. [Txt (if v \<noteq> 0 then ''Extended SPI range is supported'' else ''Extended SPI range is NOT supported'')]),
        kprintf_field b typer gicd_typer_t TYPER_nmi (''NMI           : %s'' @ LF)
           (\<lambda>v. [Txt (if v \<noteq> 0 then ''Non-maskable interrupt support is implemented'' else ''Non-maskable interrupt support is NOT implemented'')]),
        kprintf_field b typer gicd_typer_t TYPER_security_extn (''SecurityExtn  : %s'' @ LF)
           (\<lambda>v. [Txt (if v \<noteq> 0 then ''Security extensions (Group0/Group1 split) are implemented'' else ''Security extensions are NOT implemented (secure-disabled model)'')]),
        kprintf_field b typer gicd_typer_t TYPER_num_lpis (''num_LPIs      : %u (maximum number of LPI interrupts supported)'' @ LF)
           (\<lambda>v. [U32 v]),
        kprintf_field b typer gicd_typer_t TYPER_mbis (''MBIS          : %s'' @ LF)
           (\<lambda>v. [Txt (if v \<noteq> 0 then ''Message-based interrupt generation via Distributor registers is supported'' else ''Message-based interrupt generation via Distributor registers is NOT supported'')]),
        kprintf_field b typer gicd_typer_t TYPER_lpis (''LPIs          : %s'' @ LF)
           (\<lambda>v. [Txt (if v \<noteq> 0 then ''Locality-specific interrupts (LPIs) are supported'' else ''LPIs are NOT supported'')]),
        kprintf_field b typer gicd_typer_t TYPER_dvis (''DVIS          : %s'' @ LF)
           (\<lambda>v. [Txt (if v \<noteq> 0 then ''Direct Virtual LPI injection is supported'' else ''Direct Virtual LPI injection is NOT supported'')]),
        kprintf_field b typer gicd_typer_t TYPER_idbits (''IDbits        : %u (implemented INTID bits)'' @ LF)
           (\<lambda>v. [U32 v]),
        kprintf_field b typer gicd_typer_t TYPER_a3v (''A3V           : %s'' @ LF)
           (\<lambda>v. [Txt (if v \<noteq> 0 then ''Affinity level 3 is implemented'' else ''Affinity level 3 is fixed to 0 (not implemented)'')]),
        kprintf_field b typer gicd_typer_t TYPER_no1n (''No1N          : %s'' @ LF)
           (\<lambda>v. [Txt (if v \<noteq> 0 then ''1-of-N SPI interrupts are NOT supported'' else ''1-of-N SPI interrupts are supported'')]),
        kprintf_field b typer gicd_typer_t TYPER_rss (''RSS           : %s'' @ LF)
           (\<lambda>v. [Txt (if v \<noteq> 0 then ''Targeted SGIs support extended affinity routing (0-255)'' else ''Targeted SGIs support legacy SGI affinity routing (0-15)'')]),
        kprintf_field b typer gicd_typer_t TYPER_espi_range (''ESPI_range    : %u (extended SPI range size)'' @ LF)
           (\<lambda>v. [U32 v]),
        (\<lambda>s. let (v, s1) = vread32 b typer s in kprintf (''Raw           : 0x%x'' @ LF) [U32 v] s1),
        kprintf (''-----------------------------------------'' @ LF @ LF) []] s)"

definition print_gicd_iidr :: "'d bus \<Rightarrow> ('d, 'a) gic_state_scheme \<Rightarrow> ('d, 'a) gic_state_scheme" where
  "print_gicd_iidr b s =
     (let ptr = get_gicd_iidr s
      in stmts [
        kprintf (''-------------- GIC IIDR -----------------'' @ LF) [],
        (\<lambda>s. let (v, s1) = vread32 b ptr s; impl = bf_get gicd_iidr_t IIDR_implementer v;
               (w, s2) = vread32 b ptr s1; arg = U32 (bf_get gicd_iidr_t IIDR_implementer w)
           in if impl = 0x41 then kprintf (''Implementer : 0x%lx (ARM Ltd.)'' @ LF) [arg] s2
              else if impl = 0x43B then kprintf (''Implementer : 0x%lx (ARM / Cortex-style GIC)'' @ LF) [arg] s2
              else kprintf (''Implementer : 0x%lx (Unknown JEP106 vendor)'' @ LF) [arg] s2),
        kprintf_field b ptr gicd_iidr_t IIDR_revision (''Revision    : %u (implementation revision)'' @ LF)
           (\<lambda>v. [U32 v]),
        kprintf_field b ptr gicd_iidr_t IIDR_variant (''Variant     : %u (major implementation variant)'' @ LF)
           (\<lambda>v. [U32 v]),
        kprintf_field b ptr gicd_iidr_t IIDR_product_id (''Product ID  : 0x%x (implementation-specific ID)'' @ LF)
           (\<lambda>v. [U32 v]),
        (\<lambda>s. let (v, s1) = vread32 b ptr s in kprintf (''Raw         : 0x%x'' @ LF) [U32 v] s1),
        kprintf (''-----------------------------------------'' @ LF @ LF) []] s)"

definition print_gicd_ctlr :: "'d bus \<Rightarrow> ('d, 'a) gic_state_scheme \<Rightarrow> ('d, 'a) gic_state_scheme" where
  "print_gicd_ctlr b s =
     (let (raw, s1) = vread32 b (get_gicd_ctlr s) s; f = (\<lambda>x. bf_get gicd_ctlr_t x raw)
      in stmts [
        kprintf (''-------------- GIC CTLR -----------------'' @ LF) [],
        kprintf (''EnableGrp0  : %u (%s)'' @ LF)
          [U32 (f CTLR_enable_grp0),
           Txt (if f CTLR_enable_grp0 \<noteq> 0 then ''Group 0 interrupts ENABLED'' else ''Group 0 interrupts DISABLED'')],
        kprintf (''EnableGrp1NS: %u (%s)'' @ LF)
          [U32 (f CTLR_enable_grp1ns),
           Txt (if f CTLR_enable_grp1ns \<noteq> 0 then ''Non-secure Group 1 interrupts ENABLED'' else ''Non-secure Group 1 interrupts DISABLED'')],
        kprintf (''EnableGrp1S : %u (%s)'' @ LF)
          [U32 (f CTLR_enable_grp1s),
           Txt (if f CTLR_enable_grp1s \<noteq> 0 then ''Secure Group 1 interrupts ENABLED'' else ''Secure Group 1 interrupts DISABLED (or RES0)'')],
        kprintf (''ARE_S       : %u (%s)'' @ LF)
          [U32 (f CTLR_are_s),
           Txt (if f CTLR_are_s \<noteq> 0 then ''Affinity Routing ENABLED  (Secure)'' else ''Affinity Routing DISABLED (Secure)'')],
        kprintf (''ARE_NS      : %u (%s)'' @ LF)
          [U32 (f CTLR_are_ns),
           Txt (if f CTLR_are_ns \<noteq> 0 then ''Affinity Routing ENABLED  (Non-secure)'' else ''Affinity Routing DISABLED (Non-secure)'')],
        kprintf (''DS          : %u (%s)'' @ LF)
          [U32 (f CTLR_ds),
           Txt (if f CTLR_ds \<noteq> 0 then ''Security DISABLED (single security state / RAO+WI)'' else ''Security ENABLED  (two security states)'')],
        kprintf (''E1NWF       : %u (%s)'' @ LF)
          [U32 (f CTLR_e1nwf),
           Txt (if f CTLR_e1nwf \<noteq> 0 then ''1-of-N Wakeup ENABLED'' else ''1-of-N Wakeup DISABLED'')],
        kprintf (''RWP         : %u (%s)'' @ LF)
          [U32 (f CTLR_rwp),
           Txt (if f CTLR_rwp \<noteq> 0 then ''Write PENDING  (poll until clear before next write)'' else ''Write COMPLETE (safe to proceed)'')],
        kprintf (''Raw         : 0x%x'' @ LF) [U32 raw],
        kprintf (''-----------------------------------------'' @ LF @ LF) []] s1)"

definition print_gicr_waker :: "'d bus \<Rightarrow> u32 \<Rightarrow> ('d, 'a) gic_state_scheme \<Rightarrow> ('d, 'a) gic_state_scheme" where
  "print_gicr_waker b cpu_num s =
     (let (raw, s1) = vread32 b (get_gicr_waker s cpu_num) s;
          f = (\<lambda>x. bf_get gicr_waker_t x raw)
      in stmts [
        kprintf (''-------------- GICR_WAKER (cpu %u) ------'' @ LF) [U32 cpu_num],
        kprintf (''ProcessorSleep : %u (%s)'' @ LF)
          [U32 (f WAKER_processor_sleep),
           Txt (if f WAKER_processor_sleep \<noteq> 0 then ''PE marked ASLEEP  (clear this to wake redistributor)'' else ''PE marked AWAKE'')],
        kprintf (''ChildrenAsleep : %u (%s)'' @ LF)
          [U32 (f WAKER_children_asleep),
           Txt (if f WAKER_children_asleep \<noteq> 0 then ''Children ASLEEP   (poll until 0 after clearing ProcessorSleep)'' else ''Children AWAKE    (safe to receive interrupts)'')],
        (if f WAKER_processor_sleep \<noteq> 0 \<or> f WAKER_children_asleep \<noteq> 0
         then kprintf (''*** WARNING: Redistributor is NOT ready '' @ DASH @ '' interrupts will not be delivered!'' @ LF) []
         else kprintf (''Status      : Redistributor READY (both bits clear)'' @ LF) []),
        kprintf (''Raw         : 0x%x'' @ LF) [U32 raw],
        kprintf (''-----------------------------------------'' @ LF @ LF) []] s1)"

definition print_gicr_isenabler0 :: "'d bus \<Rightarrow> u32 \<Rightarrow> ('d, 'a) gic_state_scheme \<Rightarrow> ('d, 'a) gic_state_scheme" where
  "print_gicr_isenabler0 b cpu_num s =
     (let (raw, s1) = vread32 b (get_gicr_isenabler0 s cpu_num) s
      in stmts [
        kprintf (''------- GICR_ISENABLER0 (cpu %u) --------'' @ LF) [U32 cpu_num],
        fold (\<lambda>i. let enabled = drop_bit i (bf_get gicr_isenabler0_t RISEN_sgi_enable raw) AND 1
                    in kprintf (''  SGI INTID %u : %s'' @ LF) [U32 (of_nat i), Txt (if enabled \<noteq> 0 then ''ENABLED'' else ''disabled'')])
          [0..<16],
        fold (\<lambda>i. let enabled = drop_bit i (bf_get gicr_isenabler0_t RISEN_ppi_enable raw) AND 1
                    in kprintf (''  PPI INTID %u : %s'' @ LF) [U32 (16 + of_nat i), Txt (if enabled \<noteq> 0 then ''ENABLED'' else ''disabled'')])
          [0..<16],
        kprintf (''Raw         : 0x%x'' @ LF) [U32 raw],
        kprintf (''-----------------------------------------'' @ LF @ LF) []] s1)"

definition group_str :: "u32 \<Rightarrow> u32 \<Rightarrow> string" where
  "group_str t_grp t_grp_mod =
     (if t_grp = 0 \<and> t_grp_mod = 0 then ''Group 0''
      else if t_grp \<noteq> 0 \<and> t_grp_mod = 0 then ''Group 1 Non-secure''
      else if t_grp = 0 \<and> t_grp_mod \<noteq> 0 then ''Group 1 Secure''
      else ''Reserved'')"

definition print_gicr_igroup :: "'d bus \<Rightarrow> u32 \<Rightarrow> ('d, 'a) gic_state_scheme \<Rightarrow> ('d, 'a) gic_state_scheme" where
  "print_gicr_igroup b cpu_num s =
     (let (grp, s0) = vread32 b (get_gicr_igroupr0 s cpu_num) s;
          (md, s1) = vread32 b (get_gicr_igrpmodr0 s0 cpu_num) s0
      in stmts [
        kprintf (''------- GICR_IGROUPR0/IGRPMODR0 (cpu %u) ---'' @ LF) [U32 cpu_num],
        fold (\<lambda>i. let type_str = (if i < 16 then ''SGI'' else ''PPI'')
                 in kprintf (''  %s INTID %u : %s'' @ LF)
                      [Txt type_str, U32 (of_nat i), Txt (group_str (drop_bit i grp AND 1) (drop_bit i md AND 1))])
          [0..<32],
        kprintf (''IGROUPR0  Raw : 0x%x'' @ LF) [U32 grp],
        kprintf (''IGRPMODR0 Raw : 0x%x'' @ LF) [U32 md],
        kprintf (''---------------------------------------------'' @ LF @ LF) []] s1)"

definition GICR_IPRIORITYR_COUNT :: nat where
  "GICR_IPRIORITYR_COUNT = 8"

text \<open>The body of the loop in \<^verbatim>\<open>print_gicr_ipriorityr\<close>.\<close>

definition print_ipriority_step ::
  "'d bus \<Rightarrow> u32 \<Rightarrow> u32 \<Rightarrow> ('d, 'a) gic_state_scheme \<Rightarrow> ('d, 'a) gic_state_scheme" where
  "print_ipriority_step b cpu_num i s =
     (let (raw, s1) = vread32 b (get_gicr_ipriorityr s cpu_num i) s; base_intid = i * 4
      in stmts [
        kprintf (''  INTID %u : 0x%x'' @ LF) [U32 (base_intid + 0), U32 (bf_get gicr_ipriorityr_t RPRIO_prio_0 raw)],
        kprintf (''  INTID %u : 0x%x'' @ LF) [U32 (base_intid + 1), U32 (bf_get gicr_ipriorityr_t RPRIO_prio_1 raw)],
        kprintf (''  INTID %u : 0x%x'' @ LF) [U32 (base_intid + 2), U32 (bf_get gicr_ipriorityr_t RPRIO_prio_2 raw)],
        kprintf (''  INTID %u : 0x%x'' @ LF) [U32 (base_intid + 3), U32 (bf_get gicr_ipriorityr_t RPRIO_prio_3 raw)]] s1)"

definition print_gicr_ipriorityr :: "'d bus \<Rightarrow> u32 \<Rightarrow> ('d, 'a) gic_state_scheme \<Rightarrow> ('d, 'a) gic_state_scheme" where
  "print_gicr_ipriorityr b cpu_num s =
     stmts [
        kprintf (''------- GICR_IPRIORITYR (cpu %u) --------'' @ LF) [U32 cpu_num],
        fold (print_ipriority_step b cpu_num) (map of_nat [0..<GICR_IPRIORITYR_COUNT]),
        kprintf (''-----------------------------------------'' @ LF @ LF) []] s"

definition print_mpidr_el1 :: "'d bus \<Rightarrow> ('d, 'a) gic_state_scheme \<Rightarrow> ('d, 'a) gic_state_scheme" where
  "print_mpidr_el1 b s =
     (let (raw, s1) = READ_SYS_REG b reg_mpidr_el1 s; f = (\<lambda>x. bf_get mpidr_el1_t x raw)
      in stmts [
        kprintf (''-------------- MPIDR_EL1 ----------------'' @ LF) [],
        kprintf (''Aff0        : %u (%s)'' @ LF)
          [Num (f MPIDR_aff0),
           Txt (if f MPIDR_mt \<noteq> 0 then ''Thread ID within core (MT==1)'' else ''Core ID within cluster'')],
        kprintf (''Aff1        : %u (Cluster ID)'' @ LF) [Num (f MPIDR_aff1)],
        kprintf (''Aff2        : %u (Higher cluster ID)'' @ LF) [Num (f MPIDR_aff2)],
        kprintf (''Aff3        : %u (Top-level affinity)'' @ LF) [Num (f MPIDR_aff3)],
        kprintf (''AffinityVal : Aff3=0x%x Aff2=0x%x Aff1=0x%x Aff0=0x%x'' @
            '' (match against GICR_TYPER.AffinityValue)'' @ LF)
          [Num (f MPIDR_aff3), Num (f MPIDR_aff2), Num (f MPIDR_aff1), Num (f MPIDR_aff0)],
        kprintf (''MT          : %u (%s)'' @ LF)
          [Num (f MPIDR_mt),
           Txt (if f MPIDR_mt \<noteq> 0 then ''Aff0 is THREAD ID (SMT system)'' else ''Aff0 is CORE ID (no SMT)'')],
        kprintf (''U           : %u (%s)'' @ LF)
          [Num (f MPIDR_uniprocessor),
           Txt (if f MPIDR_uniprocessor \<noteq> 0 then ''Uniprocessor (single PE, affinity fields meaningless)'' else ''Multiprocessor (affinity fields valid)'')],
        kprintf (''Raw         : 0x%lx'' @ LF) [Num raw],
        kprintf (''-----------------------------------------'' @ LF @ LF) []] s1)"

definition print_icc_sre_el1 :: "'d bus \<Rightarrow> ('d, 'a) gic_state_scheme \<Rightarrow> ('d, 'a) gic_state_scheme" where
  "print_icc_sre_el1 b s =
     (let (raw, s1) = READ_SYS_REG b reg_icc_sre_el1 s; f = (\<lambda>x. bf_get icc_sre_el1_t x raw)
      in stmts [
        kprintf (''-------------- ICC_SRE_EL1 --------------'' @ LF) [],
        kprintf (''SRE         : %u (%s)'' @ LF)
          [Num (f SRE_sre),
           Txt (if f SRE_sre \<noteq> 0 then ''System registers ENABLED (ICC_* accessible)'' else ''System registers DISABLED (GICC memory-map used)'')],
        kprintf (''DFB         : %u (%s)'' @ LF)
          [Num (f SRE_dfb),
           Txt (if f SRE_dfb \<noteq> 0 then ''FIQ bypass DISABLED'' else ''FIQ bypass ENABLED'')],
        kprintf (''DIB         : %u (%s)'' @ LF)
          [Num (f SRE_dib),
           Txt (if f SRE_dib \<noteq> 0 then ''IRQ bypass DISABLED'' else ''IRQ bypass ENABLED'')],
        (if f SRE_sre = 0 then kprintf (''*** WARNING: SRE==0, all other ICC_* register accesses will FAULT!'' @ LF) [] else id),
        kprintf (''Raw         : 0x%lx'' @ LF) [Num raw],
        kprintf (''-----------------------------------------'' @ LF @ LF) []] s1)"

definition print_icc_ctlr_el1 :: "'d bus \<Rightarrow> ('d, 'a) gic_state_scheme \<Rightarrow> ('d, 'a) gic_state_scheme" where
  "print_icc_ctlr_el1 b s =
     (let (raw, s1) = READ_SYS_REG b reg_icc_ctlr_el1 s; f = (\<lambda>x. bf_get icc_ctlr_el1_t x raw);
          num_pri_bits = ucast (f ICTLR_pri_bits) + 1;
          num_pri_levels = push_bit (unat num_pri_bits) 1;
          id_bits_str = (if f ICTLR_id_bits = 0 then ''16-bit INTIDs (0-65535)''
                         else if f ICTLR_id_bits = 1 then ''24-bit INTIDs (0-16777215)''
                         else ''Reserved'')
      in stmts [
        kprintf (''-------------- ICC_CTLR_EL1 -------------'' @ LF) [],
        kprintf (''EOImode     : %u (%s)'' @ LF)
          [Num (f ICTLR_eoi_mode),
           Txt (if f ICTLR_eoi_mode \<noteq> 0 then ''Split mode: EOIR=priority drop only, DIR=deactivate'' else ''Combined mode: EOIR=priority drop AND deactivate'')],
        kprintf (''CBPR        : %u (%s)'' @ LF)
          [Num (f ICTLR_cbpr),
           Txt (if f ICTLR_cbpr \<noteq> 0 then ''BPR0 used for both Group 0 and Group 1'' else ''BPR0 and BPR1 are independent'')],
        kprintf (''PRIbits     : %u (%u priority bits implemented = %u levels)'' @ LF) [Num (f ICTLR_pri_bits), U32 num_pri_bits, U32 num_pri_levels],
        kprintf (''IDbits      : %u (%s)'' @ LF) [Num (f ICTLR_id_bits), Txt id_bits_str],
        kprintf (''SEIS        : %u (%s)'' @ LF)
          [Num (f ICTLR_seis),
           Txt (if f ICTLR_seis \<noteq> 0 then ''SEI generation SUPPORTED'' else ''SEI generation NOT supported'')],
        kprintf (''A3V         : %u (%s)'' @ LF)
          [Num (f ICTLR_a3v),
           Txt (if f ICTLR_a3v \<noteq> 0 then ''Non-zero Aff3 in SGI routing SUPPORTED'' else ''Non-zero Aff3 in SGI routing NOT supported'')],
        kprintf (''Raw         : 0x%lx'' @ LF) [Num raw],
        kprintf (''-----------------------------------------'' @ LF @ LF) []] s1)"

definition print_icc_pmr_el1 :: "'d bus \<Rightarrow> ('d, 'a) gic_state_scheme \<Rightarrow> ('d, 'a) gic_state_scheme" where
  "print_icc_pmr_el1 b s =
     (let (raw, s1) = READ_SYS_REG b reg_icc_pmr_el1 s; f = (\<lambda>x. bf_get icc_pmr_el1_t x raw)
      in stmts [
        kprintf (''-------------- ICC_PMR_EL1 --------------'' @ LF) [],
        kprintf (''Priority    : 0x%x (%u)'' @ LF) [Num (f PMR_priority), Num (f PMR_priority)],
        (if f PMR_priority = 0x00 then kprintf (''Effect      : ALL interrupts MASKED (nothing will be delivered)'' @ LF) []
         else if f PMR_priority = 0xFF then kprintf (''Effect      : ALL interrupts UNMASKED (lowest priority threshold)'' @ LF) []
         else kprintf (''Effect      : Interrupts with priority < 0x%x will be delivered'' @ LF) [Num (f PMR_priority)]),
        kprintf (''Raw         : 0x%lx'' @ LF) [Num raw],
        kprintf (''-----------------------------------------'' @ LF @ LF) []] s1)"

definition print_icc_bpr1_el1 :: "'d bus \<Rightarrow> ('d, 'a) gic_state_scheme \<Rightarrow> ('d, 'a) gic_state_scheme" where
  "print_icc_bpr1_el1 b s =
     (let (raw, s1) = READ_SYS_REG b reg_icc_bpr1_el1 s;
          bp = ucast (bf_get icc_bpr1_el1_t BPR1_binary_point raw) :: u32;
          group_bits = 7 - bp; sub_bits = bp + 1
      in stmts [
        kprintf (''-------------- ICC_BPR1_EL1 -------------'' @ LF) [],
        kprintf (''BinaryPoint : %u'' @ LF) [U32 bp],
        kprintf (''Effect      : Priority[7:%u] = preemption group (%u bits)'' @ LF) [U32 (bp + 1), U32 group_bits],
        kprintf (''              Priority[%u:0] = subpriority     (%u bits, no preemption)'' @ LF) [U32 bp, U32 sub_bits],
        kprintf (''Raw         : 0x%lx'' @ LF) [Num raw],
        kprintf (''-----------------------------------------'' @ LF @ LF) []] s1)"

definition print_icc_igrpen1_el1 :: "'d bus \<Rightarrow> ('d, 'a) gic_state_scheme \<Rightarrow> ('d, 'a) gic_state_scheme" where
  "print_icc_igrpen1_el1 b s =
     (let (raw, s1) = READ_SYS_REG b reg_icc_igrpen1_el1 s; f = (\<lambda>x. bf_get icc_igrpen1_el1_t x raw)
      in stmts [
        kprintf (''-------------- ICC_IGRPEN1_EL1 ----------'' @ LF) [],
        kprintf (''Enable      : %u (%s)'' @ LF)
          [Num (f IGRPEN1_enable),
           Txt (if f IGRPEN1_enable \<noteq> 0 then ''Group 1 interrupts ENABLED on this PE'' else ''Group 1 interrupts DISABLED on this PE'')],
        (if f IGRPEN1_enable = 0 then kprintf (''*** WARNING: Group 1 interrupts will not be delivered to this PE!'' @ LF) [] else id),
        kprintf (''Raw         : 0x%lx'' @ LF) [Num raw],
        kprintf (''-----------------------------------------'' @ LF @ LF) []] s1)"

end
