(* ===== verification/Gicv3.thy ===== *)
theory Gicv3
  imports Gicv3_Access Fdt
begin

text \<open>
  The operations of \<^verbatim>\<open>drivers/gicv3.c\<close>, in the order of the source. The two polling loops wait for
  the hardware and may run forever: \<open>None\<close> stands for not returning. \<^verbatim>\<open>1U << n\<close> with \<open>n < 32\<close> is
  \<open>push_bit n 1\<close> on 32-bit words.
\<close>

section \<open>Bringing up the distributor, the redistributor and the CPU interface\<close>

definition poll_rwp ::
  "'d bus \<Rightarrow> ('d, 'a) gic_state_scheme \<Rightarrow> ('d, 'a) gic_state_scheme option" where
  "poll_rwp b s = poll_while b get_gicd_ctlr (\<lambda>v. bf_get gicd_ctlr_t CTLR_rwp v \<noteq> 0) s"

definition set_up_gicd_ctrl ::
  "'d bus \<Rightarrow> ('d, 'a) gic_state_scheme \<Rightarrow> ('d, 'a) gic_state_scheme option" where
  "set_up_gicd_ctrl b s =
     (let (raw, s1) = vread32 b (get_gicd_ctlr s) s;
          raw1 = bf_set gicd_ctlr_t CTLR_enable_grp1ns 1 raw;
          raw2 = bf_set gicd_ctlr_t CTLR_are_ns 1 raw1;
          raw3 = bf_set gicd_ctlr_t CTLR_are_s 1 raw2;
          s2 = vwrite32 b (get_gicd_ctlr s1) raw3 s1
      in map_option
           (\<lambda>s3. let (v, s4) = vread32 b (get_gicd_ctlr s3) s3
                 in kprintf (''Raw         : 0x%x'' @ LF) [U32 v] s4)
           (poll_rwp b s2))"

definition poll_children_asleep ::
  "'d bus \<Rightarrow> u32 \<Rightarrow> ('d, 'a) gic_state_scheme \<Rightarrow> ('d, 'a) gic_state_scheme option" where
  "poll_children_asleep b cpu_num s =
     poll_while b (\<lambda>s. get_gicr_waker s cpu_num) (\<lambda>v. bf_get gicr_waker_t WAKER_children_asleep v \<noteq> 0) s"

definition set_gicr_waker ::
  "'d bus \<Rightarrow> u32 \<Rightarrow> ('d, 'a) gic_state_scheme \<Rightarrow> ('d, 'a) gic_state_scheme option" where
  "set_gicr_waker b cpu_num s =
     (let s1 = print_gicr_waker b cpu_num s;
          (raw, s2) = vread32 b (get_gicr_waker s1 cpu_num) s1;
          s3 = vwrite32 b (get_gicr_waker s2 cpu_num) (bf_set gicr_waker_t WAKER_processor_sleep 0 raw) s2;
          s4 = print_gicr_waker b cpu_num s3
      in poll_children_asleep b cpu_num s4)"

definition enable_icc_sys_reg_interface ::
  "'d bus \<Rightarrow> ('d, 'a) gic_state_scheme \<Rightarrow> ('d, 'a) gic_state_scheme" where
  "enable_icc_sys_reg_interface b s =
     (let (raw, s1) = READ_SYS_REG b reg_icc_sre_el1 s
      in WRITE_SYS_REG b reg_icc_sre_el1 (bf_set icc_sre_el1_t SRE_sre 1 raw) s1)"

definition set_core_priority_threshold ::
  "'d bus \<Rightarrow> u8 \<Rightarrow> ('d, 'a) gic_state_scheme \<Rightarrow> ('d, 'a) gic_state_scheme" where
  "set_core_priority_threshold b threshold s =
     WRITE_SYS_REG b reg_icc_pmr_el1 (bf_set icc_pmr_el1_t PMR_priority (ucast threshold) 0) s"

definition unmask_all_core_interrupts ::
  "'d bus \<Rightarrow> ('d, 'a) gic_state_scheme \<Rightarrow> ('d, 'a) gic_state_scheme" where
  "unmask_all_core_interrupts b s = set_core_priority_threshold b 0xFF s"

definition mask_all_core_interrupts ::
  "'d bus \<Rightarrow> ('d, 'a) gic_state_scheme \<Rightarrow> ('d, 'a) gic_state_scheme" where
  "mask_all_core_interrupts b s = set_core_priority_threshold b 0x00 s"

definition set_core_binary_point ::
  "'d bus \<Rightarrow> u8 \<Rightarrow> ('d, 'a) gic_state_scheme \<Rightarrow> ('d, 'a) gic_state_scheme" where
  "set_core_binary_point b binary_point s =
     WRITE_SYS_REG b reg_icc_bpr1_el1
       (bf_set icc_bpr1_el1_t BPR1_binary_point (ucast (binary_point AND 0x7)) 0) s"

definition set_core_min_binary_point ::
  "'d bus \<Rightarrow> ('d, 'a) gic_state_scheme \<Rightarrow> ('d, 'a) gic_state_scheme" where
  "set_core_min_binary_point b s =
     (let (raw, s1) = READ_SYS_REG b reg_icc_ctlr_el1 s;
          min_bpr = 7 - ucast (bf_get icc_ctlr_el1_t ICTLR_pri_bits raw) :: u32
      in set_core_binary_point b (ucast min_bpr) s1)"

definition set_combined_eoi_mode ::
  "'d bus \<Rightarrow> ('d, 'a) gic_state_scheme \<Rightarrow> ('d, 'a) gic_state_scheme" where
  "set_combined_eoi_mode b s =
     (let (raw, s1) = READ_SYS_REG b reg_icc_ctlr_el1 s
      in WRITE_SYS_REG b reg_icc_ctlr_el1 (bf_set icc_ctlr_el1_t ICTLR_eoi_mode 0 raw) s1)"

definition enable_grp1_interrupts ::
  "'d bus \<Rightarrow> ('d, 'a) gic_state_scheme \<Rightarrow> ('d, 'a) gic_state_scheme" where
  "enable_grp1_interrupts b s =
     (let (raw, s1) = READ_SYS_REG b reg_icc_igrpen1_el1 s
      in WRITE_SYS_REG b reg_icc_igrpen1_el1 (bf_set icc_igrpen1_el1_t IGRPEN1_enable 1 raw) s1)"

section \<open>Mapping the register frames\<close>

partial_function (option) map_continuous_loop ::
  "phy_addr \<Rightarrow> virt_addr \<Rightarrow> phy_addr \<Rightarrow> page_permissions_t \<Rightarrow> mem_type_t \<Rightarrow> ('d, 'a) gic_state_scheme
     \<Rightarrow> (bool \<times> ('d, 'a) gic_state_scheme) option" where
  "map_continuous_loop p_start v_start end_addr perms mem_type s =
     (if p_start < end_addr then
        let (ok, s1) = map_page (get_kernel_map_root s) v_start p_start perms mem_type s
        in if \<not> ok then
             Some (False, kprintf (''Error: failed to map page at 0x%lx'' @ LF) [Num p_start] s1)
           else map_continuous_loop (p_start + PAGE_SIZE) (v_start + PAGE_SIZE) end_addr perms mem_type s1
      else Some (True, s))"

definition map_continuous ::
  "phy_addr \<Rightarrow> virt_addr \<Rightarrow> u64 \<Rightarrow> page_permissions_t \<Rightarrow> mem_type_t \<Rightarrow> ('d, 'a) gic_state_scheme
     \<Rightarrow> (bool \<times> ('d, 'a) gic_state_scheme) option" where
  "map_continuous p_base v_base sz perms mem_type s =
     (if p_base mod PAGE_SIZE \<noteq> 0 then
        Some (False, kprintf (''Error: p_base 0x%lx is not 4KB aligned'' @ LF) [Num p_base] s)
      else if v_base mod PAGE_SIZE \<noteq> 0 then
        Some (False, kprintf (''Error: v_base 0x%lx is not 4KB aligned'' @ LF) [Num v_base] s)
      else if sz = 0 then
        Some (False, kprintf (''Error: map_continuous called with size 0'' @ LF) [] s)
      else
        let (sz1, s1) =
              (if sz mod PAGE_SIZE \<noteq> 0 then
                 ((sz + PAGE_SIZE - 1) AND NOT (PAGE_SIZE - 1),
                  kprintf (''Warning: size 0x%lx is not page-aligned, rounding up'' @ LF) [Num sz] s)
               else (sz, s))
        in map_continuous_loop p_base v_base (p_base + sz1) perms mem_type s1)"

section \<open>SGIs and PPIs: configuration\<close>

definition bad_sgi_ppi :: "u32 \<Rightarrow> ('d, 'a) gic_state_scheme \<Rightarrow> bool \<times> ('d, 'a) gic_state_scheme" where
  "bad_sgi_ppi intid s =
     (False, kprintf (''Error: invalid SGI/PPI INTID %u '' @ DASH @ '' must be 0-31'' @ LF) [U32 intid] s)"

definition enable_sgi_ppi ::
  "'d bus \<Rightarrow> u32 \<Rightarrow> u32 \<Rightarrow> ('d, 'a) gic_state_scheme \<Rightarrow> bool \<times> ('d, 'a) gic_state_scheme" where
  "enable_sgi_ppi b cpu_num intid s =
     (if intid > 31 then bad_sgi_ppi intid s
      else (True, vwrite32 b (get_gicr_isenabler0 s cpu_num) (push_bit (unat intid) 1) s))"

definition set_sgi_ppi_group1_ns ::
  "'d bus \<Rightarrow> u32 \<Rightarrow> u32 \<Rightarrow> ('d, 'a) gic_state_scheme \<Rightarrow> bool \<times> ('d, 'a) gic_state_scheme" where
  "set_sgi_ppi_group1_ns b cpu_num intid s =
     (if intid > 31 then bad_sgi_ppi intid s
      else
        let (grp, s1) = vread32 b (get_gicr_igroupr0 s cpu_num) s;
            s2 = vwrite32 b (get_gicr_igroupr0 s1 cpu_num) (grp OR push_bit (unat intid) 1) s1;
            (md, s3) = vread32 b (get_gicr_igrpmodr0 s2 cpu_num) s2;
            s4 = vwrite32 b (get_gicr_igrpmodr0 s3 cpu_num) (md AND NOT (push_bit (unat intid) 1)) s3
        in (True, s4))"

text \<open>The byte-lane update shared by the priority setters of both register files.\<close>

definition put_priority :: "u32 \<Rightarrow> u8 \<Rightarrow> u32 \<Rightarrow> u32" where
  "put_priority intid priority raw =
     (let byte_idx = intid mod 4;
          shift = byte_idx * 8;
          msk = push_bit (unat shift) 0xFF
      in (raw AND NOT msk) OR push_bit (unat shift) (ucast priority))"

definition set_sgi_ppi_priority ::
  "'d bus \<Rightarrow> u32 \<Rightarrow> u32 \<Rightarrow> u8 \<Rightarrow> ('d, 'a) gic_state_scheme \<Rightarrow> bool \<times> ('d, 'a) gic_state_scheme" where
  "set_sgi_ppi_priority b cpu_num intid priority s =
     (if intid > 31 then bad_sgi_ppi intid s
      else
        let reg_idx = intid div 4;
            (raw, s1) = vread32 b (get_gicr_ipriorityr s cpu_num reg_idx) s
        in (True, vwrite32 b (get_gicr_ipriorityr s1 cpu_num reg_idx) (put_priority intid priority raw) s1))"

definition configure_sgi_ppi ::
  "'d bus \<Rightarrow> u32 \<Rightarrow> u32 \<Rightarrow> u8 \<Rightarrow> ('d, 'a) gic_state_scheme \<Rightarrow> bool \<times> ('d, 'a) gic_state_scheme" where
  "configure_sgi_ppi b cpu_num intid priority s =
     (let (ok1, s1) = set_sgi_ppi_group1_ns b cpu_num intid s
      in if \<not> ok1 then (False, s1)
         else
           let (ok2, s2) = set_sgi_ppi_priority b cpu_num intid priority s1
           in if \<not> ok2 then (False, s2)
              else
                let (ok3, s3) = enable_sgi_ppi b cpu_num intid s2
                in if \<not> ok3 then (False, s3) else (True, s3))"

section \<open>SPIs: configuration\<close>

definition bad_spi :: "u32 \<Rightarrow> ('d, 'a) gic_state_scheme \<Rightarrow> bool \<times> ('d, 'a) gic_state_scheme" where
  "bad_spi intid s =
     (False, kprintf (''Error: INTID %u is not an SPI '' @ DASH @ '' SPIs start at INTID 32'' @ LF) [U32 intid] s)"

definition enable_spi ::
  "'d bus \<Rightarrow> u32 \<Rightarrow> ('d, 'a) gic_state_scheme \<Rightarrow> bool \<times> ('d, 'a) gic_state_scheme" where
  "enable_spi b intid s =
     (if intid < 32 then bad_spi intid s
      else (True, vwrite32 b (get_gicd_isenabler s (intid div 32)) (push_bit (unat (intid mod 32)) 1) s))"

definition set_spi_group1_ns ::
  "'d bus \<Rightarrow> u32 \<Rightarrow> ('d, 'a) gic_state_scheme \<Rightarrow> bool \<times> ('d, 'a) gic_state_scheme" where
  "set_spi_group1_ns b intid s =
     (if intid < 32 then bad_spi intid s
      else
        let reg_idx = intid div 32;
            bit_idx = intid mod 32;
            (grp, s1) = vread32 b (get_gicd_igroupr s reg_idx) s;
            s2 = vwrite32 b (get_gicd_igroupr s1 reg_idx) (grp OR push_bit (unat bit_idx) 1) s1;
            (md, s3) = vread32 b (get_gicd_igrpmodr s2 reg_idx) s2;
            s4 = vwrite32 b (get_gicd_igrpmodr s3 reg_idx) (md AND NOT (push_bit (unat bit_idx) 1)) s3
        in (True, s4))"

definition set_spi_priority ::
  "'d bus \<Rightarrow> u32 \<Rightarrow> u8 \<Rightarrow> ('d, 'a) gic_state_scheme \<Rightarrow> bool \<times> ('d, 'a) gic_state_scheme" where
  "set_spi_priority b intid priority s =
     (if intid < 32 then bad_spi intid s
      else
        let reg_idx = intid div 4;
            (raw, s1) = vread32 b (get_gicd_ipriorityr s reg_idx) s
        in (True, vwrite32 b (get_gicd_ipriorityr s1 reg_idx) (put_priority intid priority raw) s1))"

text \<open>The value \<^verbatim>\<open>set_spi_route\<close> builds in its local \<^verbatim>\<open>router\<close>.\<close>

definition route_value :: "u32 \<Rightarrow> u32 \<Rightarrow> u32 \<Rightarrow> u32 \<Rightarrow> u64" where
  "route_value aff0 aff1 aff2 aff3 =
     (let r1 = bf_set gicd_irouter_t ROUTER_aff0 (ucast (aff0 AND 0xFF)) 0;
          r2 = bf_set gicd_irouter_t ROUTER_aff1 (ucast (aff1 AND 0xFF)) r1;
          r3 = bf_set gicd_irouter_t ROUTER_aff2 (ucast (aff2 AND 0xFF)) r2;
          r4 = bf_set gicd_irouter_t ROUTER_aff3 (ucast (aff3 AND 0xFF)) r3
      in bf_set gicd_irouter_t ROUTER_irm (gicd_irm_code GICD_IRM_AFFINITY) r4)"

definition set_spi_route ::
  "'d bus \<Rightarrow> u32 \<Rightarrow> u32 \<Rightarrow> u32 \<Rightarrow> u32 \<Rightarrow> u32 \<Rightarrow> ('d, 'a) gic_state_scheme
     \<Rightarrow> bool \<times> ('d, 'a) gic_state_scheme" where
  "set_spi_route b intid aff0 aff1 aff2 aff3 s =
     (if intid < 32 then bad_spi intid s
      else (True, vwrite64 b (get_gicd_irouter s intid) (route_value aff0 aff1 aff2 aff3) s))"

definition configure_spi ::
  "'d bus \<Rightarrow> u32 \<Rightarrow> u8 \<Rightarrow> u32 \<Rightarrow> u32 \<Rightarrow> u32 \<Rightarrow> u32 \<Rightarrow> ('d, 'a) gic_state_scheme
     \<Rightarrow> bool \<times> ('d, 'a) gic_state_scheme" where
  "configure_spi b intid priority aff0 aff1 aff2 aff3 s =
     (let (ok1, s1) = set_spi_group1_ns b intid s
      in if \<not> ok1 then (False, s1)
         else
           let (ok2, s2) = set_spi_priority b intid priority s1
           in if \<not> ok2 then (False, s2)
              else
                let (ok3, s3) = set_spi_route b intid aff0 aff1 aff2 aff3 s2
                in if \<not> ok3 then (False, s3)
                   else
                     let (ok4, s4) = enable_spi b intid s3
                     in if \<not> ok4 then (False, s4) else (True, s4))"

text \<open>\<^verbatim>\<open>msr daifclr, #0xf\<close> and \<^verbatim>\<open>msr daifset, #0xf\<close> on the four mask bits.\<close>

definition unmask_all_exceptions :: "('d, 'a) gic_state_scheme \<Rightarrow> ('d, 'a) gic_state_scheme" where
  "unmask_all_exceptions s = s\<lparr>daif := daif s AND NOT 0xF\<rparr>"

definition mask_all_exceptions :: "('d, 'a) gic_state_scheme \<Rightarrow> ('d, 'a) gic_state_scheme" where
  "mask_all_exceptions s = s\<lparr>daif := daif s OR 0xF\<rparr>"

section \<open>SGIs and PPIs: teardown\<close>

definition disable_sgi_ppi ::
  "'d bus \<Rightarrow> u32 \<Rightarrow> u32 \<Rightarrow> ('d, 'a) gic_state_scheme \<Rightarrow> bool \<times> ('d, 'a) gic_state_scheme" where
  "disable_sgi_ppi b cpu_num intid s =
     (if intid > 31 then bad_sgi_ppi intid s
      else (True, vwrite32 b (get_gicr_icenabler0 s cpu_num) (push_bit (unat intid) 1) s))"

definition clear_sgi_ppi_group ::
  "'d bus \<Rightarrow> u32 \<Rightarrow> u32 \<Rightarrow> ('d, 'a) gic_state_scheme \<Rightarrow> bool \<times> ('d, 'a) gic_state_scheme" where
  "clear_sgi_ppi_group b cpu_num intid s =
     (if intid > 31 then bad_sgi_ppi intid s
      else
        let (grp, s1) = vread32 b (get_gicr_igroupr0 s cpu_num) s;
            s2 = vwrite32 b (get_gicr_igroupr0 s1 cpu_num) (grp AND NOT (push_bit (unat intid) 1)) s1;
            (md, s3) = vread32 b (get_gicr_igrpmodr0 s2 cpu_num) s2;
            s4 = vwrite32 b (get_gicr_igrpmodr0 s3 cpu_num) (md AND NOT (push_bit (unat intid) 1)) s3
        in (True, s4))"

definition clear_sgi_ppi_priority ::
  "'d bus \<Rightarrow> u32 \<Rightarrow> u32 \<Rightarrow> ('d, 'a) gic_state_scheme \<Rightarrow> bool \<times> ('d, 'a) gic_state_scheme" where
  "clear_sgi_ppi_priority b cpu_num intid s =
     (if intid > 31 then bad_sgi_ppi intid s else set_sgi_ppi_priority b cpu_num intid 0x00 s)"

definition unconfigure_sgi_ppi ::
  "'d bus \<Rightarrow> u32 \<Rightarrow> u32 \<Rightarrow> ('d, 'a) gic_state_scheme \<Rightarrow> bool \<times> ('d, 'a) gic_state_scheme" where
  "unconfigure_sgi_ppi b cpu_num intid s =
     (let (ok1, s1) = disable_sgi_ppi b cpu_num intid s
      in if \<not> ok1 then (False, s1)
         else
           let (ok2, s2) = clear_sgi_ppi_priority b cpu_num intid s1
           in if \<not> ok2 then (False, s2)
              else
                let (ok3, s3) = clear_sgi_ppi_group b cpu_num intid s2
                in if \<not> ok3 then (False, s3) else (True, s3))"

section \<open>SPIs: teardown\<close>

definition disable_spi ::
  "'d bus \<Rightarrow> u32 \<Rightarrow> ('d, 'a) gic_state_scheme \<Rightarrow> bool \<times> ('d, 'a) gic_state_scheme" where
  "disable_spi b intid s =
     (if intid < 32 then bad_spi intid s
      else (True, vwrite32 b (get_gicd_icenabler s (intid div 32)) (push_bit (unat (intid mod 32)) 1) s))"

definition clear_spi_group ::
  "'d bus \<Rightarrow> u32 \<Rightarrow> ('d, 'a) gic_state_scheme \<Rightarrow> bool \<times> ('d, 'a) gic_state_scheme" where
  "clear_spi_group b intid s =
     (if intid < 32 then bad_spi intid s
      else
        let reg_idx = intid div 32;
            bit_idx = intid mod 32;
            (grp, s1) = vread32 b (get_gicd_igroupr s reg_idx) s;
            s2 = vwrite32 b (get_gicd_igroupr s1 reg_idx) (grp AND NOT (push_bit (unat bit_idx) 1)) s1;
            (md, s3) = vread32 b (get_gicd_igrpmodr s2 reg_idx) s2;
            s4 = vwrite32 b (get_gicd_igrpmodr s3 reg_idx) (md AND NOT (push_bit (unat bit_idx) 1)) s3
        in (True, s4))"

definition clear_spi_priority ::
  "'d bus \<Rightarrow> u32 \<Rightarrow> ('d, 'a) gic_state_scheme \<Rightarrow> bool \<times> ('d, 'a) gic_state_scheme" where
  "clear_spi_priority b intid s =
     (if intid < 32 then bad_spi intid s else set_spi_priority b intid 0x00 s)"

definition clear_spi_route ::
  "'d bus \<Rightarrow> u32 \<Rightarrow> ('d, 'a) gic_state_scheme \<Rightarrow> bool \<times> ('d, 'a) gic_state_scheme" where
  "clear_spi_route b intid s =
     (if intid < 32 then bad_spi intid s else (True, vwrite64 b (get_gicd_irouter s intid) 0 s))"

definition unconfigure_spi ::
  "'d bus \<Rightarrow> u32 \<Rightarrow> ('d, 'a) gic_state_scheme \<Rightarrow> bool \<times> ('d, 'a) gic_state_scheme" where
  "unconfigure_spi b intid s =
     (let (ok1, s1) = disable_spi b intid s
      in if \<not> ok1 then (False, s1)
         else
           let (ok2, s2) = clear_spi_priority b intid s1
           in if \<not> ok2 then (False, s2)
              else
                let (ok3, s3) = clear_spi_route b intid s2
                in if \<not> ok3 then (False, s3)
                   else
                     let (ok4, s4) = clear_spi_group b intid s3
                     in if \<not> ok4 then (False, s4) else (True, s4))"

section \<open>Initialisation\<close>

definition map_gic_region ::
  "nat \<Rightarrow> memory_region_t \<Rightarrow> ('d, 'a) gic_state_scheme \<Rightarrow> ('d, 'a) gic_state_scheme option" where
  "map_gic_region i r s =
     (let s1 = kprintf (''Mapping ICU Reg Region %d: base=0x%lx, size=0x%lx'' @ LF)
                 [I32 (int i), Num (base r), Num (memory_region_t.size r)] s
      in map_option
           (\<lambda>(ok, s2).
              if ok then s2
              else kprintf (''Failed to map ICU Reg Region %d: base=0x%lx, size=0x%lx'' @ LF)
                     [I32 (int i), Num (base r), Num (memory_region_t.size r)] s2)
           (map_continuous (base r) (pa_to_va s1 (base r)) (memory_region_t.size r) rw_perms DEVICE s1))"

text \<open>The calls that follow the mapping of the two frames: the last part, and all of them.\<close>

definition gicv3_cpu_setup ::
  "'d bus \<Rightarrow> u32 \<Rightarrow> ('d, 'a) gic_state_scheme \<Rightarrow> ('d, 'a) gic_state_scheme" where
  "gicv3_cpu_setup b core s =
     stmts
       [print_gicr_ipriorityr b core, print_current_el b,
        enable_icc_sys_reg_interface b, print_icc_sre_el1 b,
        mask_all_core_interrupts b, unmask_all_core_interrupts b, print_icc_pmr_el1 b,
        set_core_min_binary_point b, print_icc_bpr1_el1 b,
        set_combined_eoi_mode b, print_icc_ctlr_el1 b,
        enable_grp1_interrupts b, print_icc_igrpen1_el1 b, unmask_all_exceptions,
        kprintf (''GICv3 initialization complete'' @ LF) []] s"

definition gicv3_bring_up ::
  "'d bus \<Rightarrow> ('d, 'a) gic_state_scheme \<Rightarrow> ('d, 'a) gic_state_scheme option" where
  "gicv3_bring_up b s =
     Option.bind (set_up_gicd_ctrl b (stmts [mask_all_exceptions, print_gicd_typer b, print_gicd_iidr b] s)) (\<lambda>s1.
       let s2 = stmts [print_gicd_ctlr b, print_mpidr_el1 b] s1;
           (core_a, s3) = get_core_id b s2;
           (core_b, s4) = get_core_id b (print_gicr_waker b core_a s3)
       in Option.bind (set_gicr_waker b core_b s4) (\<lambda>s5.
            let (c1, s6) = get_core_id b s5;
                (c2, s7) = get_core_id b (print_gicr_waker b c1 s6);
                (c3, s8) = get_core_id b (print_gicr_isenabler0 b c2 s7);
                (c4, s9) = get_core_id b (print_gicr_igroup b c3 s8)
            in Some (gicv3_cpu_setup b c4 s9)))"

text \<open>The uninitialised local \<^verbatim>\<open>reg_map\<close> is passed to \<^verbatim>\<open>get_reg_property\<close>, which overwrites it here.\<close>

definition gicv3_init ::
  "'d bus \<Rightarrow> libfdt \<Rightarrow> u64 \<Rightarrow> ('d, 'a) gic_state_scheme \<Rightarrow> ('d, 'a) gic_state_scheme option" where
  "gicv3_init b L fdt s =
     (let intc_node = get_intc_node_offset L fdt
      in if fdt_is_error intc_node then
           Some (kprintf (''No interrupt controller node found in FDT'' @ LF) [] s)
         else
           Option.bind (get_reg_property L fdt intc_node (Some \<lparr>regions = [], count = 0\<rparr>) s) (\<lambda>(ok, m, s1).
             let reg_map = the m
             in if \<not> ok then
                  Some (kprintf (''Failed to retrieve reg property for interrupt controller'' @ LF) [] s1)
                else
                  let s2 = kprintf (''GICv3: Found %d register regions'' @ LF) [I32 (count reg_map)] s1
                  in if count reg_map \<noteq> 2 then
                       Some (kprintf (''GICv3 Error: Expected exactly 2 reg regions for distributor and redistributor, found %d'' @ LF)
                         [I32 (count reg_map)] s2)
                     else
                       Option.bind (map_gic_region 0 (regions reg_map ! 0) s2) (\<lambda>s3.
                         Option.bind (map_gic_region 1 (regions reg_map ! 1) s3) (\<lambda>s4.
                           gicv3_bring_up b
                             (s4\<lparr>dist_base := pa_to_va s4 (base (regions reg_map ! 0)),
                                 redist_base := pa_to_va s4 (base (regions reg_map ! 1))\<rparr>)))))"

section \<open>Registration and dispatch\<close>

definition range_error :: "u32 \<Rightarrow> ('d, 'a) gic_state_scheme \<Rightarrow> ('d, 'a) gic_state_scheme" where
  "range_error irq_num s =
     kprintf (''Error: INTID %u is out of range (max %u)'' @ LF) [U32 irq_num, U32 (MAX_INT_ID - 1)] s"

definition gicv3_register_irq ::
  "'d bus \<Rightarrow> u32 \<Rightarrow> handler_data_t \<Rightarrow> ('d, 'a) gic_state_scheme \<Rightarrow> bool \<times> ('d, 'a) gic_state_scheme" where
  "gicv3_register_irq b irq_num handler_data s =
     (if irq_num \<ge> MAX_INT_ID then (False, range_error irq_num s)
      else
        let (ok, s1) =
              (if irq_num < 32 then
                 let (core, s0) = get_core_id b s;
                     (ok, s1) = configure_sgi_ppi b core irq_num 0xA0 s0
                 in (ok, if ok then s1
                         else kprintf (''Error: failed to configure SGI/PPI INTID %u'' @ LF) [U32 irq_num] s1)
               else
                 let (ok, s1) = configure_spi b irq_num 0xA0 0 0 0 0 s
                 in (ok, if ok then s1
                         else kprintf (''Error: failed to configure SPI INTID %u'' @ LF) [U32 irq_num] s1))
        in if \<not> ok then (False, s1)
           else (True, s1\<lparr>dispatch_table := (dispatch_table s1)[unat irq_num := handler_data]\<rparr>))"

definition gicv3_unregister_irq ::
  "'d bus \<Rightarrow> u32 \<Rightarrow> ('d, 'a) gic_state_scheme \<Rightarrow> ('d, 'a) gic_state_scheme" where
  "gicv3_unregister_irq b irq_num s =
     (if irq_num \<ge> MAX_INT_ID then range_error irq_num s
      else
        let s1 = (if irq_num < 32 then
                    let (core, s0) = get_core_id b s in snd (unconfigure_sgi_ppi b core irq_num s0)
                  else snd (unconfigure_spi b irq_num s))
        in s1\<lparr>dispatch_table := (dispatch_table s1)[unat irq_num := \<lparr>handler = 0, private_data = 0\<rparr>]\<rparr>)"

text \<open>
  Calling a handler through its pointer is the parameter \<open>invoke\<close>: it maps the handler's address,
  its argument and the state to the state after it, or to \<open>None\<close> if it does not return.
\<close>

definition gicv3_handle_irq ::
  "'d bus \<Rightarrow> (u64 \<Rightarrow> u64 \<Rightarrow> ('d, 'a) gic_state_scheme \<Rightarrow> ('d, 'a) gic_state_scheme option)
     \<Rightarrow> ('d, 'a) gic_state_scheme \<Rightarrow> ('d, 'a) gic_state_scheme option" where
  "gicv3_handle_irq b invoke s =
     (let (iar, s1) = READ_SYS_REG b reg_icc_iar1_el1 s;
          intid = ucast (bf_get icc_iar1_el1_t IAR1_intid iar) :: u32
      in if intid = 1023 \<or> intid = 1022 then
           Some (unmask_all_exceptions (kprintf (''Spurious interrupt, ignoring'' @ LF) [] s1))
         else if intid \<ge> MAX_INT_ID then
           Some (unmask_all_exceptions (kprintf (''Error: out-of-range INTID %u received'' @ LF) [U32 intid] s1))
         else
           let h = dispatch_table s1 ! unat intid
           in map_option
                (WRITE_SYS_REG b reg_icc_eoir1_el1 (bf_set icc_eoir1_el1_t EOIR1_intid (ucast intid) 0))
                (if handler h \<noteq> 0 then invoke (handler h) (private_data h) s1
                 else Some (kprintf (''Warning: no handler registered for INTID %u'' @ LF) [U32 intid] s1)))"

section \<open>Test support\<close>

definition gicv3_trigger_sgi ::
  "'d bus \<Rightarrow> u32 \<Rightarrow> u32 \<Rightarrow> ('d, 'a) gic_state_scheme \<Rightarrow> ('d, 'a) gic_state_scheme" where
  "gicv3_trigger_sgi b intid target_aff0 s =
     (if intid > 15 then kprintf (''GIC: invalid SGI INTID %u (must be 0-15)'' @ LF) [U32 intid] s
      else
        WRITE_SYS_REG b reg_icc_sgi1r_el1
          (push_bit (unat (target_aff0 AND 0xF)) 1 OR push_bit 24 (ucast intid)) s)"

definition gicv3_read_gicd_ctlr ::
  "'d bus \<Rightarrow> ('d, 'a) gic_state_scheme \<Rightarrow> u32 \<times> ('d, 'a) gic_state_scheme" where
  "gicv3_read_gicd_ctlr b s = (if dist_base s = 0 then (0, s) else vread32 b (get_gicd_ctlr s) s)"

definition gicv3_read_gicd_typer ::
  "'d bus \<Rightarrow> ('d, 'a) gic_state_scheme \<Rightarrow> u32 \<times> ('d, 'a) gic_state_scheme" where
  "gicv3_read_gicd_typer b s = (if dist_base s = 0 then (0, s) else vread32 b (get_gicd_typer s) s)"

definition gicv3_get_waker :: "('d, 'a) gic_state_scheme \<Rightarrow> virt_addr" where
  "gicv3_get_waker s = (if redist_base s = 0 then 0 else get_gicr_waker s 0)"

end
