(* ===== verification/Timer.thy ===== *)
theory Timer
  imports Gicv3
begin

text \<open>
  \<^verbatim>\<open>icu/icu.c\<close>, \<^verbatim>\<open>timer/timer.c\<close> and \<^verbatim>\<open>drivers/arm_timer.c\<close>: the dispatch layer in front of the interrupt
  controller and the periodic system timer on top of it. A function pointer is the address of
  the function; the addresses of the functions and objects whose pointers the kernel stores
  come from the linker and are the parameter \<open>code_symbols\<close>. As in the driver, \<open>invoke\<close> is the call through a
  handler pointer.
\<close>

section \<open>Interrupt controller unit\<close>

text \<open>A C string inside a property: the bytes before the first terminator, \<open>None\<close> without one.\<close>

definition c_string :: "u8 list \<Rightarrow> u8 list option" where
  "c_string bs = (if 0 \<in> set bs then Some (takeWhile (\<lambda>c. c \<noteq> 0) bs) else None)"

definition icu_init ::
  "'d bus \<Rightarrow> libfdt \<Rightarrow> u64 \<Rightarrow> ('d, 'a) gic_state_scheme \<Rightarrow> ('d, 'a) gic_state_scheme option" where
  "icu_init b L fdt s =
     (let (ok, s1) = (if fdt = 0 then (False, s) else check_fdt L fdt s)
      in if \<not> ok then Some (kprintf (''Invalid FDT pointer'' @ LF) [] s1)
         else
           let intc_node = get_intc_node_offset L fdt
           in if fdt_is_error intc_node then
                Some (kprintf (''No interrupt controller node found in FDT'' @ LF) [] s1)
              else
                case get_compatible_string L fdt intc_node of
                  None \<Rightarrow>
                    Some (kprintf (''Failed to retrieve compatible string for interrupt controller'' @ LF) [] s1)
                | Some prop \<Rightarrow>
                    Option.bind (c_string prop) (\<lambda>compatible.
                      let s2 = kprintf (''Initializing ICU for compatible: %s'' @ LF) [Str (Some compatible)] s1
                      in if compatible = lit_bytes ''arm,gic-v3'' then
                           gicv3_init b L fdt
                             (kprintf (''Detected GICv3 compatible. Initializing GICv3...'' @ LF) [] s2)
                         else
                           Some (kprintf (''Unsupported interrupt controller compatible: %s'' @ LF)
                             [Str (Some compatible)] s2)))"

definition icu_register_irq ::
  "'d bus \<Rightarrow> u32 \<Rightarrow> handler_data_t \<Rightarrow> ('d, 'a) gic_state_scheme \<Rightarrow> bool \<times> ('d, 'a) gic_state_scheme" where
  "icu_register_irq b irq_num handler_data s = gicv3_register_irq b irq_num handler_data s"

definition icu_unregister_irq ::
  "'d bus \<Rightarrow> u32 \<Rightarrow> ('d, 'a) gic_state_scheme \<Rightarrow> ('d, 'a) gic_state_scheme" where
  "icu_unregister_irq b irq_num s = gicv3_unregister_irq b irq_num s"

definition icu_handle_irq ::
  "'d bus \<Rightarrow> (u64 \<Rightarrow> u64 \<Rightarrow> ('d, 'a) gic_state_scheme \<Rightarrow> ('d, 'a) gic_state_scheme option)
     \<Rightarrow> ('d, 'a) gic_state_scheme \<Rightarrow> ('d, 'a) gic_state_scheme option" where
  "icu_handle_irq b invoke s = gicv3_handle_irq b invoke s"

section \<open>The ARM generic timer\<close>

record code_symbols =
  addr_timer_isr :: u64
  addr_timer_tick_handler :: u64
  addr_pl011_rx_handler :: u64
  addr_pl011_putc :: u64
  addr_pl011_getc :: u64
  addr_uart0 :: u64
  addr_uart0_putchar :: u64
  addr_vector_table :: u64
  addr_exit_msg :: u64
  addr_current_pc :: u64

definition MAX_TIMER_INTERRUPTS :: nat where
  "MAX_TIMER_INTERRUPTS = 4"

definition NS_PHYSICAL_TIMER_INTR_INDEX :: nat where
  "NS_PHYSICAL_TIMER_INTR_INDEX = 1"

definition MILLISECONDS_PER_SECOND :: u64 where
  "MILLISECONDS_PER_SECOND = 1000"

datatype cntp_ctl_field = CNTP_is_enable | CNTP_is_masked | CNTP_is_condition_fulfilled | CNTP_rest

definition cntp_ctl_el0_t :: "cntp_ctl_field layout" where
  "cntp_ctl_el0_t = [(CNTP_is_enable, 1), (CNTP_is_masked, 1), (CNTP_is_condition_fulfilled, 1), (CNTP_rest, 61)]"

interpretation cntp_ctl: bitfield_struct cntp_ctl_el0_t "TYPE(64)"
proof
  show "f \<in> fst ` set cntp_ctl_el0_t" for f by (cases f) (simp_all add: cntp_ctl_el0_t_def)
qed (simp_all add: cntp_ctl_el0_t_def bf_size_def)

text \<open>The static variables \<^verbatim>\<open>period_ticks\<close> and \<^verbatim>\<open>tick_handler\<close>.\<close>

record 'd timer_state = "'d gic_state" +
  period_ticks :: u64
  tick_handler :: handler_data_t

definition timer_isr ::
  "'d bus \<Rightarrow> (u64 \<Rightarrow> u64 \<Rightarrow> ('d, 'a) timer_state_scheme \<Rightarrow> ('d, 'a) timer_state_scheme option)
     \<Rightarrow> ('d, 'a) timer_state_scheme \<Rightarrow> ('d, 'a) timer_state_scheme option" where
  "timer_isr b invoke s =
     (let (reg, s1) = READ_SYS_REG b reg_CNTP_CTL_EL0 s
      in if bf_get cntp_ctl_el0_t CNTP_is_condition_fulfilled reg = 0 then Some s1
         else
           let reg1 = bf_set cntp_ctl_el0_t CNTP_is_masked 1 reg;
               s2 = WRITE_SYS_REG b reg_CNTP_CTL_EL0 reg1 s1
           in Option.bind (invoke (handler (tick_handler s2)) (private_data (tick_handler s2)) s2) (\<lambda>s3.
                let (cval, s4) = READ_SYS_REG b reg_CNTP_CVAL_EL0 s3;
                    s5 = WRITE_SYS_REG b reg_CNTP_CVAL_EL0 (cval + period_ticks s4) s4;
                    reg2 = bf_set cntp_ctl_el0_t CNTP_is_masked 0 (bf_set cntp_ctl_el0_t CNTP_is_enable 1 reg1)
                in Some (WRITE_SYS_REG b reg_CNTP_CTL_EL0 reg2 s5)))"

definition set_period ::
  "'d bus \<Rightarrow> u64 \<Rightarrow> ('d, 'a) timer_state_scheme \<Rightarrow> bool \<times> ('d, 'a) timer_state_scheme" where
  "set_period b period_ms s =
     (let (freq, s1) = READ_SYS_REG b reg_CNTFRQ_EL0 s;
          s2 = kprintf (''CNTFRQ_EL0 = %lu'' @ LF) [Num freq] s1;
          s3 = s2\<lparr>period_ticks := freq * period_ms div MILLISECONDS_PER_SECOND\<rparr>
      in if period_ticks s3 > 0xFFFFFFFF then
           (False, kprintf (''ARM Timer Error: period %lu ms does not fit in CNTP_TVAL_EL0'' @ LF) [Num period_ms] s3)
         else (True, s3))"

definition setup_isr ::
  "'d bus \<Rightarrow> code_symbols \<Rightarrow> u32 \<Rightarrow> handler_data_t \<Rightarrow> ('d, 'a) timer_state_scheme
     \<Rightarrow> bool \<times> ('d, 'a) timer_state_scheme" where
  "setup_isr b C int_id hnd s =
     (let s1 = s\<lparr>tick_handler := \<lparr>handler = handler hnd, private_data = private_data hnd\<rparr>\<rparr>;
          (ok, s2) = icu_register_irq b int_id \<lparr>handler = addr_timer_isr C, private_data = 0\<rparr> s1
      in if \<not> ok then
           (False, kprintf (''ARM Timer Error: failed to register IRQ %u'' @ LF) [U32 int_id] s2)
         else
           let (now, s3) = READ_SYS_REG b reg_CNTPCT_EL0 s2;
               s4 = WRITE_SYS_REG b reg_CNTP_CVAL_EL0 (now + period_ticks s3) s3;
               reg = bf_set cntp_ctl_el0_t CNTP_is_masked 0 (bf_set cntp_ctl_el0_t CNTP_is_enable 1 0)
           in (True, WRITE_SYS_REG b reg_CNTP_CTL_EL0 reg s4))"

definition setup_arm64_sys_timer ::
  "'d bus \<Rightarrow> libfdt \<Rightarrow> code_symbols \<Rightarrow> u64 \<Rightarrow> int \<Rightarrow> u64 \<Rightarrow> handler_data_t \<Rightarrow> ('d, 'a) timer_state_scheme
     \<Rightarrow> (bool \<times> ('d, 'a) timer_state_scheme) option" where
  "setup_arm64_sys_timer b L C fdt node_offset milliseconds hnd s =
     (if fdt = 0 then Some (False, kprintf (''ARM Timer Error: null FDT pointer'' @ LF) [] s)
      else if fdt_is_error node_offset then
        Some (False, kprintf (''ARM Timer Error: invalid timer node offset %d'' @ LF) [I32 node_offset] s)
      else
        Option.bind (get_intr_property L fdt node_offset MAX_TIMER_INTERRUPTS s) (\<lambda>(num_intrs, intrs, s1).
          if num_intrs < 0 then
            Some (False, kprintf (''ARM Timer Error: failed to read '' @ [CHR 0x22] @ ''interrupts'' @ [CHR 0x22] @
                    '' property (error %d)'' @ LF) [I32 num_intrs] s1)
          else if num_intrs \<le> int NS_PHYSICAL_TIMER_INTR_INDEX then
            Some (False, kprintf (''ARM Timer Error: expected at least %d '' @ [CHR 0x22] @ ''interrupts'' @ [CHR 0x22] @
                    '' entries (non-secure PPI is index %d), found %d'' @ LF)
                    [I32 (int NS_PHYSICAL_TIMER_INTR_INDEX + 1), I32 (int NS_PHYSICAL_TIMER_INTR_INDEX), I32 num_intrs] s1)
          else
            let (ok, s2) = set_period b milliseconds s1
            in if \<not> ok then Some (False, s2)
               else
                 let (intid, s3) = interrupt_to_intid (intrs ! NS_PHYSICAL_TIMER_INTR_INDEX) s2
                 in if intid < 0 then
                      Some (False, kprintf (''ARM Timer Error: failed to resolve INTID for non-secure physical timer interrupt'' @ LF) [] s3)
                    else Some (setup_isr b C (word_of_int intid) hnd s3)))"

section \<open>The system timer\<close>

definition MAX_TIMERS :: nat where
  "MAX_TIMERS = 10"

definition setup_sys_timer ::
  "'d bus \<Rightarrow> libfdt \<Rightarrow> code_symbols \<Rightarrow> u64 \<Rightarrow> u64 \<Rightarrow> handler_data_t \<Rightarrow> ('d, 'a) timer_state_scheme
     \<Rightarrow> (bool \<times> ('d, 'a) timer_state_scheme) option" where
  "setup_sys_timer b L C fdt milliseconds hnd s =
     (if fdt = 0 then Some (False, kprintf (''Timer Error: null FDT pointer'' @ LF) [] s)
      else
        Option.bind (get_nodes_by_compatible L fdt ''arm,armv8-timer'' MAX_TIMERS s) (\<lambda>(num_timer_nodes, timer_nodes, s1).
          if num_timer_nodes < 0 then
            Some (False, kprintf (''Timer Error: failed to search FDT for '' @ [CHR 0x22] @ ''arm,armv8-timer'' @
                    [CHR 0x22] @ '' nodes'' @ LF) [] s1)
          else if num_timer_nodes \<noteq> 1 then
            Some (False, kprintf (''Timer Error: expected exactly 1 '' @ [CHR 0x22] @ ''arm,armv8-timer'' @
                    [CHR 0x22] @ '' node, found %d'' @ LF) [I32 num_timer_nodes] s1)
          else setup_arm64_sys_timer b L C fdt (timer_nodes ! 0) milliseconds hnd s1))"

end
