(* ===== verification/Uart.thy ===== *)
theory Uart
  imports Timer
begin

text \<open>
  \<^verbatim>\<open>drivers/uart.c\<close>: the PL011 driver. The device struct keeps the register base and two function
  pointers; a register access is a volatile access through the bus. \<^verbatim>\<open>char\<close> is unsigned on AArch64,
  so widening a character to 32 bits adds zeros. Receiving waits for the flag register, possibly
  forever (\<open>None\<close>).
\<close>

record uart_device_t =
  mmio_base :: u64
  putc :: u64
  getc :: u64

definition UART_DR :: u64 where "UART_DR = 0x00"
definition UART_FR :: u64 where "UART_FR = 0x18"
definition UART_FR_RXFE :: u32 where "UART_FR_RXFE = push_bit 4 1"
definition UART_IMSC :: u64 where "UART_IMSC = 0x038"
definition UART_ICR :: u64 where "UART_ICR = 0x044"
definition UART_IMSC_RXIM :: u32 where "UART_IMSC_RXIM = push_bit 4 1"
definition UART_ICR_RXIC :: u32 where "UART_ICR_RXIC = push_bit 4 1"

definition pl011_putc ::
  "'d bus \<Rightarrow> uart_device_t \<Rightarrow> u8 \<Rightarrow> ('d, 'a) kernel_state_scheme \<Rightarrow> ('d, 'a) kernel_state_scheme" where
  "pl011_putc b dev chr s = vwrite32 b (mmio_base dev + UART_DR) (ucast chr) s"

definition pl011_getc ::
  "'d bus \<Rightarrow> uart_device_t \<Rightarrow> ('d, 'a) kernel_state_scheme \<Rightarrow> (u8 \<times> ('d, 'a) kernel_state_scheme) option" where
  "pl011_getc b dev s =
     map_option (\<lambda>s1. let (v, s2) = vread32 b (mmio_base dev + UART_DR) s1 in (ucast (v AND 0xFF), s2))
       (poll_while b (\<lambda>_. mmio_base dev + UART_FR) (\<lambda>v. v AND UART_FR_RXFE \<noteq> 0) s)"

definition pl011_enable_rx_interrupt ::
  "'d bus \<Rightarrow> uart_device_t \<Rightarrow> ('d, 'a) kernel_state_scheme \<Rightarrow> ('d, 'a) kernel_state_scheme" where
  "pl011_enable_rx_interrupt b dev s =
     (let (v, s1) = vread32 b (mmio_base dev + UART_IMSC) s
      in vwrite32 b (mmio_base dev + UART_IMSC) (v OR UART_IMSC_RXIM) s1)"

definition pl011_clear_rx_interrupt ::
  "'d bus \<Rightarrow> uart_device_t \<Rightarrow> ('d, 'a) kernel_state_scheme \<Rightarrow> ('d, 'a) kernel_state_scheme" where
  "pl011_clear_rx_interrupt b dev s = vwrite32 b (mmio_base dev + UART_ICR) UART_ICR_RXIC s"

definition pl011_rx_handler ::
  "'d bus \<Rightarrow> uart_device_t \<Rightarrow> ('d, 'a) kernel_state_scheme \<Rightarrow> ('d, 'a) kernel_state_scheme option" where
  "pl011_rx_handler b dev s =
     map_option (\<lambda>(chr, s1). pl011_clear_rx_interrupt b dev (pl011_putc b dev chr s1)) (pl011_getc b dev s)"

definition pl011_register_handler ::
  "'d bus \<Rightarrow> code_symbols \<Rightarrow> u64 \<Rightarrow> ('d, 'a) gic_state_scheme \<Rightarrow> bool \<times> ('d, 'a) gic_state_scheme" where
  "pl011_register_handler b C dev s =
     icu_register_irq b 33 \<lparr>handler = addr_pl011_rx_handler C, private_data = dev\<rparr> s"

text \<open>The struct is returned; the enabling reads its \<^verbatim>\<open>mmio_base\<close>, which has just been set.\<close>

definition pl011_init ::
  "'d bus \<Rightarrow> code_symbols \<Rightarrow> u64 \<Rightarrow> ('d, 'a) kernel_state_scheme
     \<Rightarrow> uart_device_t \<times> ('d, 'a) kernel_state_scheme" where
  "pl011_init b C base_addr s =
     (let dev = \<lparr>mmio_base = base_addr, putc = addr_pl011_putc C, getc = addr_pl011_getc C\<rparr>
      in (dev, pl011_enable_rx_interrupt b dev s))"

section \<open>Echo\<close>

lemma rx_handler_effect:
  fixes s :: "('d, 'a) kernel_state_scheme"
  shows "(pl011_rx_handler b dev s \<noteq> None \<longleftrightarrow>
      (\<exists>n. \<not> bit (nth_read b (mmio_base dev + UART_FR) n (hardware s)) 4))
    \<and> (\<forall>s'. pl011_rx_handler b dev s = Some s' \<longrightarrow>
         (\<exists>n d v. d = after_reads b (mmio_base dev + UART_FR) (Suc n) (hardware s)
            \<and> (\<forall>m<n. bit (nth_read b (mmio_base dev + UART_FR) m (hardware s)) 4)
            \<and> \<not> bit (nth_read b (mmio_base dev + UART_FR) n (hardware s)) 4
            \<and> v = take_bit 8 (fst (mmio_read32 b (mmio_base dev + UART_DR) d))
            \<and> s' = s\<lparr>hardware := mmio_write32 b (mmio_base dev + UART_ICR) 0x10
                       (mmio_write32 b (mmio_base dev + UART_DR) v (snd (mmio_read32 b (mmio_base dev + UART_DR) d)))\<rparr>))"
proof -
  have busy: "(\<lambda>v. v AND UART_FR_RXFE \<noteq> 0) = (\<lambda>v :: u32. bit v 4)"
    using and_exp_eq_0_iff_not_bit [of _ 4, where 'a = "32 word"] by (simp add: UART_FR_RXFE_def fun_eq_iff push_bit_eq_mult)
  have byte: "ucast (ucast (v AND 0xFF :: u32) :: u8) = take_bit 8 v" for v :: u32
  proof -
    have "(0xFF :: u32) = mask 8" by (simp add: mask_eq_exp_minus_1)
    then have "v AND 0xFF = take_bit 8 v" by (simp only: take_bit_eq_mask)
    then show ?thesis by (intro bit_word_eqI) (auto simp: bit_simps)
  qed
  have p: "\<forall>(s :: ('d, 'a) kernel_state_scheme) d. (\<lambda>_. mmio_base dev + UART_FR) (s\<lparr>hardware := d\<rparr>) = (\<lambda>_. mmio_base dev + UART_FR) s" by simp
  note ret = poll_while_returns [OF p, of b "\<lambda>v. bit v 4" s] and res = poll_while_result [OF _ p, of b "\<lambda>v. bit v 4" s]
  define poll where "poll = poll_while b (\<lambda>_. mmio_base dev + UART_FR) (\<lambda>v. bit v 4) s"
  have eq: "pl011_rx_handler b dev s =
      map_option (\<lambda>s1. s1\<lparr>hardware := mmio_write32 b (mmio_base dev + UART_ICR) 0x10
        (mmio_write32 b (mmio_base dev + UART_DR) (take_bit 8 (fst (mmio_read32 b (mmio_base dev + UART_DR) (hardware s1))))
          (snd (mmio_read32 b (mmio_base dev + UART_DR) (hardware s1))))\<rparr>) poll"
    unfolding pl011_rx_handler_def pl011_getc_def busy poll_def
    by (cases "poll_while b (\<lambda>_. mmio_base dev + UART_FR) (\<lambda>v. bit v 4) s")
      (simp_all add: vread32_eq byte vwrite32_def pl011_putc_def pl011_clear_rx_interrupt_def UART_ICR_RXIC_def)
  show ?thesis
  proof (intro conjI allI impI)
    show "pl011_rx_handler b dev s \<noteq> None \<longleftrightarrow> (\<exists>n. \<not> bit (nth_read b (mmio_base dev + UART_FR) n (hardware s)) 4)"
      using ret by (simp add: eq poll_def)
    fix s' assume "pl011_rx_handler b dev s = Some s'"
    then obtain s1 where s1: "poll = Some s1" and s': "s' = s1\<lparr>hardware := mmio_write32 b (mmio_base dev + UART_ICR) 0x10
        (mmio_write32 b (mmio_base dev + UART_DR) (take_bit 8 (fst (mmio_read32 b (mmio_base dev + UART_DR) (hardware s1))))
          (snd (mmio_read32 b (mmio_base dev + UART_DR) (hardware s1))))\<rparr>"
      by (auto simp: eq)
    then obtain n where "\<not> bit (nth_read b (mmio_base dev + UART_FR) n (hardware s)) 4"
      "\<forall>m<n. bit (nth_read b (mmio_base dev + UART_FR) m (hardware s)) 4"
      "s1 = s\<lparr>hardware := after_reads b (mmio_base dev + UART_FR) (Suc n) (hardware s)\<rparr>"
      using res by (auto simp: poll_def)
    then show "\<exists>n d v. d = after_reads b (mmio_base dev + UART_FR) (Suc n) (hardware s)
            \<and> (\<forall>m<n. bit (nth_read b (mmio_base dev + UART_FR) m (hardware s)) 4)
            \<and> \<not> bit (nth_read b (mmio_base dev + UART_FR) n (hardware s)) 4
            \<and> v = take_bit 8 (fst (mmio_read32 b (mmio_base dev + UART_DR) d))
            \<and> s' = s\<lparr>hardware := mmio_write32 b (mmio_base dev + UART_ICR) 0x10
                       (mmio_write32 b (mmio_base dev + UART_DR) v (snd (mmio_read32 b (mmio_base dev + UART_DR) d)))\<rparr>"
      using s' by (intro exI [of _ n]) simp
  qed
qed

text \<open>
  The receive handler returns exactly when the receive FIFO becomes non-empty after finitely
  many polls. Then it has read one character, has written exactly that character (and no other
  bits) to the data register, and has cleared the receive interrupt last; nothing else of the
  kernel state changed.
\<close>

theorem pl011_rx_handler_echoes:
  fixes s :: "('d, 'a) kernel_state_scheme"
  shows "(pl011_rx_handler b dev s \<noteq> None \<longleftrightarrow>
      (\<exists>n. \<not> bit (nth_read b (mmio_base dev + UART_FR) n (hardware s)) 4))
    \<and> (\<forall>s'. pl011_rx_handler b dev s = Some s' \<longrightarrow>
         (\<exists>n d v. d = after_reads b (mmio_base dev + UART_FR) (Suc n) (hardware s)
            \<and> (\<forall>m<n. bit (nth_read b (mmio_base dev + UART_FR) m (hardware s)) 4)
            \<and> \<not> bit (nth_read b (mmio_base dev + UART_FR) n (hardware s)) 4
            \<and> v = take_bit 8 (fst (mmio_read32 b (mmio_base dev + UART_DR) d))
            \<and> s' = s\<lparr>hardware := mmio_write32 b (mmio_base dev + UART_ICR) 0x10
                       (mmio_write32 b (mmio_base dev + UART_DR) v (snd (mmio_read32 b (mmio_base dev + UART_DR) d)))\<rparr>))"
  by (rule rx_handler_effect)

end
