(* ===== verification/Exceptions.thy ===== *)
theory Exceptions
  imports Timer
begin

text \<open>
  The ends of the kernel: \<^verbatim>\<open>exit/exit.c\<close>, \<^verbatim>\<open>exception_handling/handler.c\<close>, \<^verbatim>\<open>error/panic.c\<close> and
  \<^verbatim>\<open>error/error_strings.c\<close>. Leaving the kernel is the semihosting call that \<^verbatim>\<open>hlt #0xF000\<close> makes:
  the operation in \<^verbatim>\<open>x0\<close> and the two words of the block \<^verbatim>\<open>x1\<close> points to. The panic path writes to the
  UART data register itself, without \<^verbatim>\<open>kprintf\<close>.
\<close>

section \<open>Leaving the kernel\<close>

record semihosting_call =
  sh_operation :: u64
  sh_block :: "u64 list"

definition exit ::
  "u32 \<Rightarrow> ('d, 'a) kernel_state_scheme \<Rightarrow> semihosting_call \<times> ('d, 'a) kernel_state_scheme" where
  "exit code s =
     (\<lparr>sh_operation = 0x18, sh_block = [0x20026, ucast code]\<rparr>,
      kprintf (''Exiting QEMU with code: %u'' @ LF) [U32 code] s)"

section \<open>Exception handlers\<close>

definition ESR_EC_SHIFT :: nat where "ESR_EC_SHIFT = 26"
definition ESR_EC_MASK :: u64 where "ESR_EC_MASK = 0x3F"
definition ESR_EC_IABT_LOW :: u64 where "ESR_EC_IABT_LOW = 0x20"
definition ESR_EC_IABT_CUR :: u64 where "ESR_EC_IABT_CUR = 0x21"
definition ESR_EC_DABT_LOW :: u64 where "ESR_EC_DABT_LOW = 0x24"
definition ESR_EC_DABT_CUR :: u64 where "ESR_EC_DABT_CUR = 0x25"
definition ESR_ISS_WNR_BIT :: u64 where "ESR_ISS_WNR_BIT = push_bit 6 1"

text \<open>The line that tells the kind of the fault.\<close>

definition fault_line :: "u64 \<Rightarrow> u64 \<Rightarrow> string \<times> va_arg list" where
  "fault_line esr far =
     (let exc_class = drop_bit ESR_EC_SHIFT esr AND ESR_EC_MASK
      in if exc_class = ESR_EC_DABT_LOW \<or> exc_class = ESR_EC_DABT_CUR then
           (''Data Abort        : FAR_EL1 = 0x%lx  [%s fault]'' @ LF,
            [Num far, Txt (if esr AND ESR_ISS_WNR_BIT \<noteq> 0 then ''WRITE'' else ''READ'')])
         else if exc_class = ESR_EC_IABT_LOW \<or> exc_class = ESR_EC_IABT_CUR then
           (''Instruction Abort : FAR_EL1 = 0x%lx'' @ LF, [Num far])
         else (''FAR_EL1           = 0x%lx  (not an abort)'' @ LF, [Num far]))"

definition generic_handler ::
  "'d bus \<Rightarrow> ('d, 'a) kernel_state_scheme \<Rightarrow> semihosting_call \<times> ('d, 'a) kernel_state_scheme" where
  "generic_handler b s =
     (let s0 = kprintf (''Generic Handler invoked'' @ LF) [] s;
          (current_el, s1) = READ_SYS_REG b reg_CurrentEL s0;
          (sp_sel, s2) = READ_SYS_REG b reg_SPSel s1;
          (esr, s3) = READ_SYS_REG b reg_ESR_EL1 s2;
          (far, s4) = READ_SYS_REG b reg_FAR_EL1 s3;
          (elr, s5) = READ_SYS_REG b reg_ELR_EL1 s4;
          el_num = drop_bit 2 current_el AND 0x3;
          exc_class = drop_bit ESR_EC_SHIFT esr AND ESR_EC_MASK;
          s6 = kprintf (''Current EL        = EL%lx'' @ LF) [Num el_num] s5;
          s7 = kprintf (''Used stack        = EL%lx'' @ LF) [Num (if sp_sel = 0 then 0 else el_num)] s6;
          s8 = kprintf (''ELR_EL1 (faulting PC)  = 0x%lx'' @ LF) [Num elr] s7;
          s9 = kprintf (''ESR_EL1           = 0x%lx  (EC=0x%lx)'' @ LF) [Num esr, Num exc_class] s8;
          s10 = kprintf (fst (fault_line esr far)) (snd (fault_line esr far)) s9
      in exit 1 s10)"

definition el1_irq_handler ::
  "'d bus \<Rightarrow> (u64 \<Rightarrow> u64 \<Rightarrow> ('d, 'a) gic_state_scheme \<Rightarrow> ('d, 'a) gic_state_scheme option)
     \<Rightarrow> ('d, 'a) gic_state_scheme \<Rightarrow> ('d, 'a) gic_state_scheme option" where
  "el1_irq_handler b invoke s = icu_handle_irq b invoke s"

section \<open>Error strings\<close>

definition ERROR_CODE_SUCCESS :: u64 where "ERROR_CODE_SUCCESS = 0x0"
definition ERROR_CODE_NOT_EL1 :: u64 where "ERROR_CODE_NOT_EL1 = 0x1"

definition STRING_MAP :: "(u64 \<times> string) list" where
  "STRING_MAP = [(ERROR_CODE_SUCCESS, ''SUCCESS''), (ERROR_CODE_NOT_EL1, ''CPU not in EL1'')]"

text \<open>The switch has one case per entry of the map.\<close>

definition error_to_string :: "u64 \<Rightarrow> string" where
  "error_to_string code = (case map_of STRING_MAP code of Some str \<Rightarrow> str | None \<Rightarrow> ''UNKNOWN'')"

section \<open>Panic\<close>

definition uart0_dr :: virt_addr where
  "uart0_dr = 0x09000000"

text \<open>The argument is the array without the terminator that ends every string literal.\<close>

fun print_uart0 :: "'d bus \<Rightarrow> u8 list \<Rightarrow> ('d, 'a) kernel_state_scheme \<Rightarrow> ('d, 'a) kernel_state_scheme" where
  "print_uart0 b [] s = s"
| "print_uart0 b (chr # str) s =
     (if chr \<noteq> 0 then print_uart0 b str (vwrite32 b uart0_dr (ucast chr) s) else s)"

definition hex_digit_char :: "u8 \<Rightarrow> u8" where
  "hex_digit_char digit = (if digit < 10 then digit + 0x30 else digit - 10 + 0x41)"

definition print_hex_digit :: "'d bus \<Rightarrow> u8 \<Rightarrow> ('d, 'a) kernel_state_scheme \<Rightarrow> ('d, 'a) kernel_state_scheme" where
  "print_hex_digit b digit s = print_uart0 b [hex_digit_char digit] s"

text \<open>\<^verbatim>\<open>for (i = 60; i >= 0; i -= 4)\<close>.\<close>

definition hex_shifts :: "nat list" where
  "hex_shifts = map (\<lambda>k. 60 - 4 * k) [0 ..< 16]"

definition print_hex :: "'d bus \<Rightarrow> u64 \<Rightarrow> ('d, 'a) kernel_state_scheme \<Rightarrow> ('d, 'a) kernel_state_scheme" where
  "print_hex b val s =
     fold (\<lambda>i. print_hex_digit b (ucast (drop_bit i val AND 0xF))) hex_shifts (print_uart0 b (lit_bytes ''0x'') s)"

definition CRLF :: string where
  "CRLF = [CHR 0x0D, CHR 0x0A]"

definition panic_print_c :: "'d bus \<Rightarrow> u64 \<Rightarrow> ('d, 'a) kernel_state_scheme \<Rightarrow> ('d, 'a) kernel_state_scheme" where
  "panic_print_c b code s =
     (let s1 = print_uart0 b (lit_bytes (CRLF @ ''!!! KERNEL PANIC !!!'' @ CRLF)) s;
          s2 = print_uart0 b (lit_bytes ''Error Code:    '') s1;
          s3 = print_hex b code s2;
          s4 = print_uart0 b (lit_bytes (CRLF @ ''Error Message: '')) s3;
          s5 = print_uart0 b (lit_bytes (error_to_string code)) s4
      in print_uart0 b (lit_bytes (CRLF @ ''Halting system.'' @ CRLF)) s5)"

section \<open>What the panic path reports\<close>

text \<open>The effect on the hardware of transmitting a list of bytes through the data register at \<open>p\<close>.\<close>

definition transmit :: "'d bus \<Rightarrow> virt_addr \<Rightarrow> u8 list \<Rightarrow> 'd \<Rightarrow> 'd" where
  "transmit b p bs = fold (\<lambda>c. mmio_write32 b p (ucast c)) bs"

lemma transmit_append [simp]: "transmit b p (xs @ ys) d = transmit b p ys (transmit b p xs d)"
  by (simp add: transmit_def)

lemma print_uart0_transmit:
  "0 \<notin> set str \<Longrightarrow> print_uart0 b str s = s\<lparr>hardware := transmit b uart0_dr str (hardware s)\<rparr>"
  by (induction str arbitrary: s) (auto simp: transmit_def vwrite32_def)

definition hex_text :: "u64 \<Rightarrow> u8 list" where
  "hex_text val = map (\<lambda>i. hex_digit_char (ucast (drop_bit i val AND 0xF))) hex_shifts"

lemma hex_digit_char_values:
  "\<forall>d \<in> set [0 ..< 16]. digit_value (hex_digit_char (of_nat d)) = Some (int d) \<and> hex_digit_char (of_nat d) \<noteq> 0"
  by code_simp

lemma nibble:
  obtains d where "d < 16" "(ucast (drop_bit i (val :: u64) AND 0xF) :: u8) = of_nat d" "d = unat val div 2 ^ i mod 16"
proof -
  have m: "(0xF :: u64) = mask 4" by (simp add: mask_eq_exp_minus_1)
  have "unat (drop_bit i val AND 0xF) = unat val div 2 ^ i mod 16"
    unfolding m take_bit_eq_mask [symmetric] unsigned_take_bit_eq unsigned_drop_bit_eq
    using unat_lt64 [of val] by (simp add: take_bit_eq_mod drop_bit_eq_div)
  then have "(ucast (drop_bit i val AND 0xF) :: u8) = of_nat (unat val div 2 ^ i mod 16)"
    by (metis of_nat_unat)
  then show thesis by (intro that [of "unat val div 2 ^ i mod 16"]) simp_all
qed

lemma hex_text_value:
  fixes val :: u64
  assumes "n \<le> 16"
  defines "ds \<equiv> map (\<lambda>i. hex_digit_char (ucast (drop_bit i val AND 0xF))) (map (\<lambda>k. 60 - 4 * k) [0 ..< n])"
  shows "is_number 16 ds \<and> 0 \<notin> set ds \<and> digits_value 16 0 ds = int (unat val div 2 ^ (64 - 4 * n))"
  using assms(1) unfolding ds_def
proof (induction n)
  case 0
  then show ?case using unat_lt64 [of val] by (simp add: is_number_def)
next
  case (Suc n)
  obtain d where d: "d < 16" "(ucast (drop_bit (60 - 4 * n) val AND 0xF) :: u8) = of_nat d"
    "d = unat val div 2 ^ (60 - 4 * n) mod 16" using nibble [of "60 - 4 * n" val] by blast
  have dv: "digit_value (hex_digit_char (of_nat d)) = Some (int d)" "hex_digit_char (of_nat d) \<noteq> 0"
    using hex_digit_char_values d(1) by (simp_all add: atLeast0LessThan)
  have e: "64 - 4 * n = (60 - 4 * n) + 4" "64 - 4 * Suc n = 60 - 4 * n" using Suc.prems by simp_all
  have "unat val div 2 ^ (64 - 4 * n) = unat val div 2 ^ (60 - 4 * n) div 16"
    unfolding e(1) power_add by (simp add: div_mult2_eq)
  then have "unat val div 2 ^ (64 - 4 * n) * 16 + d = unat val div 2 ^ (64 - 4 * Suc n)" by (simp add: d(3) e(2))
  then have "int (unat val div 2 ^ (64 - 4 * n)) * 16 + int d = int (unat val div 2 ^ (64 - 4 * Suc n))"
    by (metis of_nat_add of_nat_mult of_nat_numeral)
  with Suc dv d(1) show ?case by (auto simp: is_number_def digits_value_append d(2))
qed

lemmas hex_text_parses = hex_text_value [of 16, folded hex_shifts_def hex_text_def, simplified]

lemma print_hex_transmit:
  "print_hex b val s = s\<lparr>hardware := transmit b uart0_dr (lit_bytes ''0x'' @ hex_text val) (hardware s)\<rparr>"
proof -
  have "fold (\<lambda>i. print_hex_digit b (ucast (drop_bit i val AND 0xF))) is t =
      t\<lparr>hardware := transmit b uart0_dr (map (\<lambda>i. hex_digit_char (ucast (drop_bit i val AND 0xF))) is) (hardware t)\<rparr>"
    if "0 \<notin> set (map (\<lambda>i. hex_digit_char (ucast (drop_bit i val AND 0xF))) is)" for "is" and t :: "('a, 'b) kernel_state_scheme"
    using that by (induction "is" arbitrary: t) (auto simp: print_hex_digit_def vwrite32_def transmit_def)
  moreover have "0 \<notin> set (lit_bytes ''0x'')" by code_simp
  ultimately show ?thesis
    using hex_text_parses [of val] by (simp add: print_hex_def hex_text_def print_uart0_transmit)
qed

text \<open>
  C29. What a panic reports. \<^verbatim>\<open>panic_print_c\<close> sends one fixed frame around two parts to the UART data
  register and changes nothing else: the error code as \<^verbatim>\<open>0x\<close> and exactly sixteen digits, from which
  \<^verbatim>\<open>strtoul\<close> recovers the code, and the message of the error table (\<^verbatim>\<open>UNKNOWN\<close> for every other code).
\<close>

theorem panic_print_c_reports:
  "\<exists>digits msg.
     panic_print_c b code s = s\<lparr>hardware := transmit b 0x09000000
        (lit_bytes (CRLF @ ''!!! KERNEL PANIC !!!'' @ CRLF @ ''Error Code:    '' @ ''0x'') @ digits
         @ lit_bytes (CRLF @ ''Error Message: '') @ lit_bytes msg
         @ lit_bytes (CRLF @ ''Halting system.'' @ CRLF)) (hardware s)\<rparr>
     \<and> length digits = 16
     \<and> (\<forall>t p. cstring t p (lit_bytes ''0x'' @ digits) \<longrightarrow> strtoul p 0 16 t = Some (code, t))
     \<and> (code = 0 \<longrightarrow> msg = ''SUCCESS'') \<and> (code = 1 \<longrightarrow> msg = ''CPU not in EL1'')
     \<and> (1 < code \<longrightarrow> msg = ''UNKNOWN'')"
proof -
  have "0 \<notin> set (lit_bytes ''SUCCESS'')" "0 \<notin> set (lit_bytes ''CPU not in EL1'')" "0 \<notin> set (lit_bytes ''UNKNOWN'')"
    by code_simp+
  then have msg: "0 \<notin> set (lit_bytes (error_to_string code))" by (auto simp: error_to_string_def STRING_MAP_def)
  have parse: "strtoul p 0 16 t = Some (code, t)" if c: "cstring t p (lit_bytes ''0x'' @ hex_text code)"
    for t :: "'c mem_state_scheme" and p
  proof -
    have "lit_bytes ''0x'' = [0x30, 0x78]" by code_simp
    with c have x: "load_byte t p = 0x30" "load_byte t (p + 1) = 0x78" and r: "cstring t (p + 2) (hex_text code)"
      by (auto simp: add.assoc)
    then show ?thesis using strtoul_loop_run [OF r, of 16 0] hex_text_parses [of code] by (simp add: strtoul_def)
  qed
  note msg
  moreover have "0 \<notin> set (lit_bytes (CRLF @ ''!!! KERNEL PANIC !!!'' @ CRLF))" "0 \<notin> set (lit_bytes ''Error Code:    '')"
    "0 \<notin> set (lit_bytes (CRLF @ ''Error Message: ''))" "0 \<notin> set (lit_bytes (CRLF @ ''Halting system.'' @ CRLF))"
    by code_simp+
  moreover have "lit_bytes (xs @ ys) = lit_bytes xs @ lit_bytes ys" for xs ys by (simp add: lit_bytes_def)
  ultimately have "panic_print_c b code s = s\<lparr>hardware := transmit b 0x09000000
        (lit_bytes (CRLF @ ''!!! KERNEL PANIC !!!'' @ CRLF @ ''Error Code:    '' @ ''0x'') @ hex_text code
         @ lit_bytes (CRLF @ ''Error Message: '') @ lit_bytes (error_to_string code)
         @ lit_bytes (CRLF @ ''Halting system.'' @ CRLF)) (hardware s)\<rparr>"
    by (simp add: panic_print_c_def Let_def print_hex_transmit print_uart0_transmit uart0_dr_def del: append.simps)
  moreover have "length (hex_text code) = 16" by (simp add: hex_text_def hex_shifts_def)
  moreover have "code = 0 \<Longrightarrow> error_to_string code = ''SUCCESS''" "code = 1 \<Longrightarrow> error_to_string code = ''CPU not in EL1''"
    "1 < code \<Longrightarrow> error_to_string code = ''UNKNOWN''"
    by (auto simp: error_to_string_def STRING_MAP_def ERROR_CODE_SUCCESS_def ERROR_CODE_NOT_EL1_def)
  ultimately show ?thesis using parse by blast
qed

end
