(* ===== verification/Mmu.thy ===== *)
theory Mmu
  imports Page_Desc
begin

text \<open>
  \<^verbatim>\<open>mmu/mmu.c\<close> and \<^verbatim>\<open>mmu/mmu.h\<close>: the register layouts and \<^verbatim>\<open>enable_mmu\<close>, which programs the memory
  attributes, the translation control register and both table bases, and then turns the
  MMU on. The system registers are a record; the accesses and barriers are also recorded in
  order, because the order is part of what makes the sequence correct. The message at the end of the
  function needs the console, which this state does not have: \<^verbatim>\<open>Boot\<close> records it.
\<close>

section \<open>Register layouts\<close>

text \<open>The enumerations of the register values.\<close>

datatype device_type = DEVICE_nGnRnE | DEVICE_nGnRE | DEVICE_nGRE | DEVICE_GRE

fun device_type_code :: "device_type \<Rightarrow> u8" where
  "device_type_code DEVICE_nGnRnE = 0"
| "device_type_code DEVICE_nGnRE = 1"
| "device_type_code DEVICE_nGRE = 2"
| "device_type_code DEVICE_GRE = 3"

datatype tcr_cacheability = TCR_CACHE_NON_CACHEABLE | TCR_CACHE_WB_RA_WA | TCR_CACHE_WT_RA_NWA
  | TCR_CACHE_WB_RA_NWA

fun tcr_cacheability_code :: "tcr_cacheability \<Rightarrow> u64" where
  "tcr_cacheability_code TCR_CACHE_NON_CACHEABLE = 0"
| "tcr_cacheability_code TCR_CACHE_WB_RA_WA = 1"
| "tcr_cacheability_code TCR_CACHE_WT_RA_NWA = 2"
| "tcr_cacheability_code TCR_CACHE_WB_RA_NWA = 3"

datatype tcr_shareability = TCR_SH_NON_SHAREABLE | TCR_SH_RESERVED | TCR_SH_OUTER_SHAREABLE
  | TCR_SH_INNER_SHAREABLE

fun tcr_shareability_code :: "tcr_shareability \<Rightarrow> u64" where
  "tcr_shareability_code TCR_SH_NON_SHAREABLE = 0"
| "tcr_shareability_code TCR_SH_RESERVED = 1"
| "tcr_shareability_code TCR_SH_OUTER_SHAREABLE = 2"
| "tcr_shareability_code TCR_SH_INNER_SHAREABLE = 3"

datatype tcr_tg0 = TCR_TG0_4KB | TCR_TG0_64KB | TCR_TG0_16KB

fun tcr_tg0_code :: "tcr_tg0 \<Rightarrow> u64" where
  "tcr_tg0_code TCR_TG0_4KB = 0"
| "tcr_tg0_code TCR_TG0_64KB = 1"
| "tcr_tg0_code TCR_TG0_16KB = 2"

datatype tcr_tg1 = TCR_TG1_16KB | TCR_TG1_4KB | TCR_TG1_64KB

fun tcr_tg1_code :: "tcr_tg1 \<Rightarrow> u64" where
  "tcr_tg1_code TCR_TG1_16KB = 1"
| "tcr_tg1_code TCR_TG1_4KB = 2"
| "tcr_tg1_code TCR_TG1_64KB = 3"

datatype tcr_ips = TCR_IPS_32BIT | TCR_IPS_36BIT | TCR_IPS_40BIT | TCR_IPS_44BIT | TCR_IPS_48BIT
  | TCR_IPS_52BIT

fun tcr_ips_code :: "tcr_ips \<Rightarrow> u64" where
  "tcr_ips_code TCR_IPS_32BIT = 0"
| "tcr_ips_code TCR_IPS_36BIT = 1"
| "tcr_ips_code TCR_IPS_40BIT = 2"
| "tcr_ips_code TCR_IPS_44BIT = 3"
| "tcr_ips_code TCR_IPS_48BIT = 4"
| "tcr_ips_code TCR_IPS_52BIT = 5"

datatype device_attr_field = DA_xs | DA_res0_1 | DA_type | DA_res0_7_4

definition mair_device_attr_t :: "device_attr_field layout" where
  "mair_device_attr_t = [(DA_xs, 1), (DA_res0_1, 1), (DA_type, 2), (DA_res0_7_4, 4)]"

datatype normal_attr_field = NA_inner_write_alloc | NA_inner_read_alloc | NA_inner_write_back | NA_inner_non_transient
  | NA_outer_write_alloc | NA_outer_read_alloc | NA_outer_write_back | NA_outer_non_transient

definition mair_normal_attr_t :: "normal_attr_field layout" where
  "mair_normal_attr_t = [(NA_inner_write_alloc, 1), (NA_inner_read_alloc, 1), (NA_inner_write_back, 1),
     (NA_inner_non_transient, 1), (NA_outer_write_alloc, 1), (NA_outer_read_alloc, 1),
     (NA_outer_write_back, 1), (NA_outer_non_transient, 1)]"

datatype (plugins only: code size) tcr_field = T_t0sz | T_res0_6 | T_epd0 | T_irgn0 | T_orgn0 | T_sh0 | T_tg0 | T_t1sz | T_a1 | T_epd1
  | T_irgn1 | T_orgn1 | T_sh1 | T_tg1 | T_ips | T_res0_35 | T_as | T_tbi0 | T_tbi1 | T_ha | T_hd
  | T_hpd0 | T_hpd1 | T_hwu059 | T_hwu060 | T_hwu061 | T_hwu062 | T_hwu159 | T_hwu160 | T_hwu161
  | T_hwu162 | T_tbid0 | T_tbid1 | T_nfd0 | T_nfd1 | T_e0pd0 | T_e0pd1 | T_tcma0 | T_tcma1 | T_ds
  | T_mtx0 | T_mtx1 | T_res0_63_62

definition tcr_reg_t :: "tcr_field layout" where
  "tcr_reg_t = [(T_t0sz, 6), (T_res0_6, 1), (T_epd0, 1), (T_irgn0, 2), (T_orgn0, 2), (T_sh0, 2), (T_tg0, 2),
     (T_t1sz, 6), (T_a1, 1), (T_epd1, 1), (T_irgn1, 2), (T_orgn1, 2), (T_sh1, 2), (T_tg1, 2),
     (T_ips, 3), (T_res0_35, 1), (T_as, 1), (T_tbi0, 1), (T_tbi1, 1), (T_ha, 1), (T_hd, 1),
     (T_hpd0, 1), (T_hpd1, 1), (T_hwu059, 1), (T_hwu060, 1), (T_hwu061, 1), (T_hwu062, 1),
     (T_hwu159, 1), (T_hwu160, 1), (T_hwu161, 1), (T_hwu162, 1), (T_tbid0, 1), (T_tbid1, 1),
     (T_nfd0, 1), (T_nfd1, 1), (T_e0pd0, 1), (T_e0pd1, 1), (T_tcma0, 1), (T_tcma1, 1), (T_ds, 1),
     (T_mtx0, 1), (T_mtx1, 1), (T_res0_63_62, 2)]"

datatype (plugins only: code size) sctlr_field = S_m | S_a | S_c | S_sa | S_sa0 | S_cp15ben | S_naa | S_itd | S_sed | S_uma | S_enrctx | S_eos
  | S_i | S_endb | S_dze | S_uct | S_ntwi | S_res0_17 | S_ntwe | S_wxn | S_tscxt | S_iesb | S_eis
  | S_span | S_e0e | S_ee | S_uci | S_enda | S_ntlsmd | S_lsmaoe | S_enib | S_enia | S_res0_34_32
  | S_bt0 | S_bt1 | S_itfsb | S_tcf0 | S_tcf | S_ata0 | S_ata | S_dssbs | S_tweden | S_twedel
  | S_res0_53_50 | S_enasr | S_enas0 | S_enals | S_epan | S_res0_63_58

definition sctlr_el1_t :: "sctlr_field layout" where
  "sctlr_el1_t = [(S_m, 1), (S_a, 1), (S_c, 1), (S_sa, 1), (S_sa0, 1), (S_cp15ben, 1), (S_naa, 1), (S_itd, 1),
     (S_sed, 1), (S_uma, 1), (S_enrctx, 1), (S_eos, 1), (S_i, 1), (S_endb, 1), (S_dze, 1),
     (S_uct, 1), (S_ntwi, 1), (S_res0_17, 1), (S_ntwe, 1), (S_wxn, 1), (S_tscxt, 1), (S_iesb, 1),
     (S_eis, 1), (S_span, 1), (S_e0e, 1), (S_ee, 1), (S_uci, 1), (S_enda, 1), (S_ntlsmd, 1),
     (S_lsmaoe, 1), (S_enib, 1), (S_enia, 1), (S_res0_34_32, 3), (S_bt0, 1), (S_bt1, 1),
     (S_itfsb, 1), (S_tcf0, 2), (S_tcf, 2), (S_ata0, 1), (S_ata, 1), (S_dssbs, 1), (S_tweden, 1),
     (S_twedel, 4), (S_res0_53_50, 4), (S_enasr, 1), (S_enas0, 1), (S_enals, 1), (S_epan, 1),
     (S_res0_63_58, 6)]"

text \<open>\<^verbatim>\<open>mair_reg_t\<close>: slot \<open>k\<close> is byte \<open>k\<close> of the register.\<close>

definition mair_get :: "nat \<Rightarrow> u64 \<Rightarrow> u8" where
  "mair_get k r = ucast (drop_bit (8 * k) r)"

definition mair_reg_t :: "nat \<Rightarrow> u8 \<Rightarrow> u64 \<Rightarrow> u64" where
  "mair_reg_t k b r = (r AND NOT (push_bit (8 * k) 0xFF)) OR push_bit (8 * k) (ucast b)"

section \<open>System registers\<close>

record sys_regs =
  mair_el1 :: u64
  tcr_el1 :: u64
  ttbr0_el1 :: u64
  ttbr1_el1 :: u64
  sctlr_el1 :: u64

datatype sys_reg = MAIR_EL1 | TCR_EL1 | TTBR0_EL1 | TTBR1_EL1 | SCTLR_EL1

datatype sys_event = Write sys_reg u64 | Read sys_reg | ISB | DSB_SY

fun write_sys_reg :: "sys_reg \<Rightarrow> u64 \<Rightarrow> sys_regs \<Rightarrow> sys_regs" where
  "write_sys_reg MAIR_EL1 v r = r\<lparr>mair_el1 := v\<rparr>"
| "write_sys_reg TCR_EL1 v r = r\<lparr>tcr_el1 := v\<rparr>"
| "write_sys_reg TTBR0_EL1 v r = r\<lparr>ttbr0_el1 := v\<rparr>"
| "write_sys_reg TTBR1_EL1 v r = r\<lparr>ttbr1_el1 := v\<rparr>"
| "write_sys_reg SCTLR_EL1 v r = r\<lparr>sctlr_el1 := v\<rparr>"

fun run_events :: "sys_event list \<Rightarrow> sys_regs \<Rightarrow> sys_regs" where
  "run_events [] r = r"
| "run_events (Write x v # es) r = run_events es (write_sys_reg x v r)"
| "run_events (e # es) r = run_events es r"

section \<open>enable_mmu\<close>

definition mair_value :: u64 where
  "mair_value =
     (let m0 = 0;
          m1 = mair_reg_t 0 (bf_set mair_device_attr_t DA_type (device_type_code DEVICE_nGnRnE) (mair_get 0 m0)) m0;
          m2 = mair_reg_t 0 (bf_set mair_device_attr_t DA_xs 0 (mair_get 0 m1)) m1
      in fold (\<lambda>f m. mair_reg_t 1 (bf_set mair_normal_attr_t f 1 (mair_get 1 m)) m)
           [NA_outer_non_transient, NA_outer_write_back, NA_outer_read_alloc, NA_outer_write_alloc,
            NA_inner_non_transient, NA_inner_write_back, NA_inner_read_alloc, NA_inner_write_alloc] m2)"

definition tcr_value :: u64 where
  "tcr_value =
     fold (\<lambda>(f, v) r. bf_set tcr_reg_t f v r)
       [(T_t0sz, 64 - 48), (T_irgn0, tcr_cacheability_code TCR_CACHE_WB_RA_NWA),
        (T_orgn0, tcr_cacheability_code TCR_CACHE_WB_RA_NWA),
        (T_sh0, tcr_shareability_code TCR_SH_INNER_SHAREABLE), (T_tg0, tcr_tg0_code TCR_TG0_4KB),
        (T_t1sz, 64 - 48), (T_irgn1, tcr_cacheability_code TCR_CACHE_WB_RA_NWA),
        (T_orgn1, tcr_cacheability_code TCR_CACHE_WB_RA_NWA),
        (T_sh1, tcr_shareability_code TCR_SH_INNER_SHAREABLE), (T_tg1, tcr_tg1_code TCR_TG1_4KB),
        (T_ips, tcr_ips_code TCR_IPS_40BIT), (T_epd1, 0)] 0"

definition sctlr_enable :: "u64 \<Rightarrow> u64" where
  "sctlr_enable v =
     fold (\<lambda>(f, b) r. bf_set sctlr_el1_t f b r) [(S_a, 0), (S_ee, 0), (S_m, 1), (S_c, 1), (S_i, 1)] v"

definition enable_mmu ::
  "virt_addr \<Rightarrow> virt_addr \<Rightarrow> 'a mem_state_scheme \<Rightarrow> sys_regs \<Rightarrow> bool \<times> sys_event list" where
  "enable_mmu id_map_root kernel_map_root s r =
     (if id_map_root = 0 \<or> kernel_map_root = 0 then (False, [])
      else
        (True,
         [Write MAIR_EL1 mair_value, Write TCR_EL1 tcr_value, ISB,
          Write TTBR0_EL1 (va_to_pa s id_map_root), Write TTBR1_EL1 (va_to_pa s kernel_map_root), ISB,
          Read SCTLR_EL1, DSB_SY, Write SCTLR_EL1 (sctlr_enable (sctlr_el1 r)), ISB]))"

section \<open>Correctness\<close>

interpretation da: bitfield_struct mair_device_attr_t "TYPE(8)"
proof
  show "f \<in> fst ` set mair_device_attr_t" for f by (cases f) (simp_all add: mair_device_attr_t_def)
qed (simp_all add: mair_device_attr_t_def bf_size_def)

interpretation na: bitfield_struct mair_normal_attr_t "TYPE(8)"
proof
  show "f \<in> fst ` set mair_normal_attr_t" for f by (cases f) (simp_all add: mair_normal_attr_t_def)
qed (simp_all add: mair_normal_attr_t_def bf_size_def)

interpretation tcr: bitfield_struct tcr_reg_t "TYPE(64)"
proof
  show "f \<in> fst ` set tcr_reg_t" for f by (cases f) (simp_all add: tcr_reg_t_def)
qed (simp_all add: tcr_reg_t_def bf_size_def)

interpretation sctlr: bitfield_struct sctlr_el1_t "TYPE(64)"
proof
  show "f \<in> fst ` set sctlr_el1_t" for f by (cases f) (simp_all add: sctlr_el1_t_def)
qed (simp_all add: sctlr_el1_t_def bf_size_def)

text \<open>
  The architecture's reading of the programmed registers, by bit positions and by its own encodings:
  for each half of the address space the width, the granule (as the number of address bits within a
  page), the level at which the walk starts, and whether the walk is made at all; the number of
  bits of an output address; and the attribute byte that a descriptor selects.
\<close>

record walk_config =
  va_bits :: nat
  page_bits :: nat
  first_level :: int
  walked :: bool

definition tg0_page_bits :: "u64 \<Rightarrow> nat" where
  "tg0_page_bits c = (if c = 0 then 12 else if c = 1 then 16 else if c = 2 then 14 else 0)"

definition tg1_page_bits :: "u64 \<Rightarrow> nat" where
  "tg1_page_bits c = (if c = 1 then 14 else if c = 2 then 12 else if c = 3 then 16 else 0)"

definition start_level :: "nat \<Rightarrow> nat \<Rightarrow> int" where
  "start_level va pg = 4 - int ((va - pg + (pg - 3) - 1) div (pg - 3))"

definition low_walk :: "u64 \<Rightarrow> walk_config" where
  "low_walk tcr =
     (let va = 64 - unat (take_bit 6 tcr); pg = tg0_page_bits (take_bit 2 (drop_bit 14 tcr))
      in \<lparr>va_bits = va, page_bits = pg, first_level = start_level va pg, walked = (\<not> bit tcr 7)\<rparr>)"

definition high_walk :: "u64 \<Rightarrow> walk_config" where
  "high_walk tcr =
     (let va = 64 - unat (take_bit 6 (drop_bit 16 tcr)); pg = tg1_page_bits (take_bit 2 (drop_bit 30 tcr))
      in \<lparr>va_bits = va, page_bits = pg, first_level = start_level va pg, walked = (\<not> bit tcr 23)\<rparr>)"

definition output_bits :: "u64 \<Rightarrow> nat" where
  "output_bits tcr = ([32, 36, 40, 42, 44, 48, 52, 0] ! unat (take_bit 3 (drop_bit 32 tcr)))"

definition memory_attribute :: "sys_regs \<Rightarrow> u64 \<Rightarrow> u8" where
  "memory_attribute r d = ucast (drop_bit (8 * attr_index d) (mair_el1 r))"

lemma tcr_literal: "tcr_value = 0x2BF103F10"
  by code_simp

lemma mair_literal: "mair_value = 0xFF00"
  by code_simp

lemma tcr_fields:
  "take_bit 6 (0x2BF103F10 :: u64) = 16" "take_bit 6 (drop_bit 16 (0x2BF103F10 :: u64)) = 16"
  "take_bit 2 (drop_bit 14 (0x2BF103F10 :: u64)) = 0" "take_bit 2 (drop_bit 30 (0x2BF103F10 :: u64)) = 2"
  "take_bit 3 (drop_bit 32 (0x2BF103F10 :: u64)) = 2"
  "\<not> bit (0x2BF103F10 :: u64) 7" "\<not> bit (0x2BF103F10 :: u64) 23" "\<not> bit (0x2BF103F10 :: u64) 59"
  by simp_all

lemma programmed_values:
  "low_walk tcr_value = \<lparr>va_bits = 48, page_bits = 12, first_level = 0, walked = True\<rparr>"
  "high_walk tcr_value = \<lparr>va_bits = 48, page_bits = 12, first_level = 0, walked = True\<rparr>"
  "output_bits tcr_value = 40" "\<not> bit tcr_value 59"
  unfolding tcr_literal low_walk_def high_walk_def output_bits_def tcr_fields Let_def
  by (simp_all add: tg0_page_bits_def tg1_page_bits_def start_level_def tcr_fields)

text \<open>
  C25. The registers that \<^verbatim>\<open>enable_mmu\<close> programs fit the tables that the kernel builds. Decoded as the architecture
  decodes them, both halves of the address space are 48 bits wide with the 4 KB granule, walked from
  level 0, which are the four levels of \<^verbatim>\<open>map_page\<close>, with descriptors in the 48-bit format (DS clear).
  A leaf descriptor that \<^verbatim>\<open>map_page\<close> writes selects the attribute Device-nGnRnE (\<open>0x00\<close>) for device
  memory and write-back cacheable (\<open>0xFF\<close>) for normal memory. Output addresses have 40 bits: a page of
  \<open>2 ^ 40\<close> or above, which the tables can hold, would fault.
\<close>

theorem enable_mmu_registers:
  assumes "i \<noteq> 0" and "k \<noteq> 0" and "r' = run_events (snd (enable_mmu i k s r)) r"
  shows "low_walk (tcr_el1 r') = \<lparr>va_bits = 48, page_bits = 12, first_level = 0, walked = True\<rparr>
    \<and> high_walk (tcr_el1 r') = \<lparr>va_bits = 48, page_bits = 12, first_level = 0, walked = True\<rparr>
    \<and> output_bits (tcr_el1 r') = 40 \<and> \<not> bit (tcr_el1 r') 59
    \<and> (p \<noteq> 0 \<longrightarrow> memory_attribute r' (load_u64 (write_page_desc p pa perms DEVICE t) p) = 0x00
               \<and> memory_attribute r' (load_u64 (write_page_desc p pa perms NORMAL t) p) = 0xFF)"
proof -
  have r': "tcr_el1 r' = tcr_value" "mair_el1 r' = mair_value" using assms by (simp_all add: enable_mmu_def)
  have "drop_bit 8 (0xFF00 :: u64) = 0xFF" by code_simp
  moreover have "ucast (0xFF00 :: u64) = (0 :: u8)" by code_simp
  ultimately show ?thesis
    by (simp add: r' programmed_values mair_literal memory_attribute_def load_written_desc leaf_attr_index)
qed

lemma sctlr_width: "bf_width sctlr_el1_t S_m = 1" "bf_width sctlr_el1_t S_c = 1" "bf_width sctlr_el1_t S_i = 1"
    "bf_width sctlr_el1_t S_a = 1" "bf_width sctlr_el1_t S_ee = 1"
  by (simp_all add: sctlr_el1_t_def)

text \<open>
  C24. \<^verbatim>\<open>enable_mmu\<close> refuses null roots without touching a register. Otherwise both table bases hold the
  physical addresses of the given roots, SCTLR changes in exactly the bits M, C, I (set) and
  A, EE (cleared), and the write that turns the MMU on comes after a data barrier and after
  all other registers have been written and synchronised.
\<close>

theorem enable_mmu_correct:
  "enable_mmu 0 k s r = (False, []) \<and> enable_mmu i 0 s r = (False, [])
   \<and> (i \<noteq> 0 \<and> k \<noteq> 0 \<longrightarrow>
       (\<exists>es. enable_mmu i k s r = (True, es @ [ISB, Read SCTLR_EL1, DSB_SY, Write SCTLR_EL1 (sctlr_enable (sctlr_el1 r)), ISB])
          \<and> (\<forall>v. Write SCTLR_EL1 v \<notin> set es)
          \<and> run_events es r = r\<lparr>mair_el1 := mair_value, tcr_el1 := tcr_value,
                ttbr0_el1 := va_to_pa s i, ttbr1_el1 := va_to_pa s k\<rparr>))
   \<and> (\<forall>f. bf_get sctlr_el1_t f (sctlr_enable v) =
        (if f \<in> {S_m, S_c, S_i} then 1 else if f \<in> {S_a, S_ee} then 0 else bf_get sctlr_el1_t f v))"
proof (intro conjI impI allI)
  show "enable_mmu 0 k s r = (False, [])" "enable_mmu i 0 s r = (False, [])" by (simp_all add: enable_mmu_def)
  show "\<exists>es. enable_mmu i k s r = (True, es @ [ISB, Read SCTLR_EL1, DSB_SY, Write SCTLR_EL1 (sctlr_enable (sctlr_el1 r)), ISB])
          \<and> (\<forall>v. Write SCTLR_EL1 v \<notin> set es)
          \<and> run_events es r = r\<lparr>mair_el1 := mair_value, tcr_el1 := tcr_value,
                ttbr0_el1 := va_to_pa s i, ttbr1_el1 := va_to_pa s k\<rparr>" if "i \<noteq> 0 \<and> k \<noteq> 0"
    using that
    by (intro exI [of _ "[Write MAIR_EL1 mair_value, Write TCR_EL1 tcr_value, ISB,
          Write TTBR0_EL1 (va_to_pa s i), Write TTBR1_EL1 (va_to_pa s k)]"]) (simp add: enable_mmu_def)
  show "bf_get sctlr_el1_t f (sctlr_enable v) =
        (if f \<in> {S_m, S_c, S_i} then 1 else if f \<in> {S_a, S_ee} then 0 else bf_get sctlr_el1_t f v)" for f
    by (simp add: sctlr_enable_def sctlr.get_set sctlr_width del: sctlr.get_set_other sctlr.get_set_same)
qed

definition reset_regs :: sys_regs where
  "reset_regs = \<lparr>mair_el1 = 0, tcr_el1 = 0, ttbr0_el1 = 0, ttbr1_el1 = 0, sctlr_el1 = 0x30D00800\<rparr>"

definition boot_mem :: mem_state where
  "boot_mem = \<lparr>mem = (\<lambda>_. 0), kernel_base_va = 0, pc_base = 0,
     syms = \<lparr>image_start = 0, image_end = 0, idmap_pg_dir_bitmap_start = 0, idmap_pg_dir_start = 0,
             kernel_pg_dir_root_start = 0\<rparr>\<rparr>"

theorem enable_mmu_registers_witness:
  "page_bits (high_walk (tcr_el1 (run_events (snd (enable_mmu 0x1000 0x2000 boot_mem reset_regs)) reset_regs))) = 12"
proof -
  have "(0x1000 :: u64) \<noteq> 0" "(0x2000 :: u64) \<noteq> 0" by simp_all
  from enable_mmu_registers [OF this refl, of boot_mem reset_regs "0x3000" 0 rw_perms boot_mem] show ?thesis by (elim conjE) simp
qed

theorem enable_mmu_correct_witness:
  "\<exists>es. enable_mmu 0x1000 0x2000 boot_mem reset_regs =
      (True, es @ [ISB, Read SCTLR_EL1, DSB_SY, Write SCTLR_EL1 (sctlr_enable 0x30D00800), ISB])
    \<and> ttbr0_el1 (run_events es reset_regs) = 0x1000 \<and> ttbr1_el1 (run_events es reset_regs) = 0x2000"
proof -
  have "sctlr_el1 reset_regs = 0x30D00800" by (simp add: reset_regs_def)
  moreover have "va_to_pa boot_mem 0x1000 = 0x1000" "va_to_pa boot_mem 0x2000 = 0x2000"
    by (simp_all add: va_to_pa_def boot_mem_def)
  ultimately show ?thesis using enable_mmu_correct [of "0x2000" boot_mem reset_regs "0x1000" 0] by auto
qed

end
