(* ===== verification/Boot.thy ===== *)
theory Boot
  imports "HOL-Library.Monad_Syntax" Setup Uart Exceptions Mmu
begin

text \<open>
  \<^verbatim>\<open>main.c\<close>: the boot sequence of the kernel, from the entry in the low half to the exit from the
  high half. Code addresses are formed relative to the program counter, so after the switch
  \<open>code_at\<close> moves them to the high half. \<open>wfi\<close> is the environment: it waits and lets the
  exceptions that arrive run; \<open>None\<close> is a core that is never woken. The build without
  \<^verbatim>\<open>RUN_TESTS\<close> is modelled.
\<close>

section \<open>State\<close>

record serial_t =
  con_putc :: u64
  con_getc :: u64

record 'd boot_state = "'d timer_state" +
  uart0 :: uart_device_t
  serial_console :: serial_t
  mmu_regs :: sys_regs

definition code_at :: "virt_addr \<Rightarrow> code_symbols \<Rightarrow> code_symbols" where
  "code_at pc C =
     \<lparr>addr_timer_isr = pc + addr_timer_isr C, addr_timer_tick_handler = pc + addr_timer_tick_handler C,
      addr_pl011_rx_handler = pc + addr_pl011_rx_handler C, addr_pl011_putc = pc + addr_pl011_putc C,
      addr_pl011_getc = pc + addr_pl011_getc C, addr_uart0 = pc + addr_uart0 C,
      addr_uart0_putchar = pc + addr_uart0_putchar C, addr_vector_table = pc + addr_vector_table C,
      addr_exit_msg = pc + addr_exit_msg C, addr_current_pc = pc + addr_current_pc C\<rparr>"

definition set_kprintf_console :: "serial_t \<Rightarrow> ('d, 'a) boot_state_scheme \<Rightarrow> ('d, 'a) boot_state_scheme" where
  "set_kprintf_console con s = s\<lparr>serial_console := \<lparr>con_putc = con_putc con, con_getc = con_getc con\<rparr>\<rparr>"

section \<open>Handlers and function pointers\<close>

text \<open>The call through \<^verbatim>\<open>uart0.putc\<close>; \<open>None\<close> if the pointer is not the driver's function.\<close>

definition uart0_putchar ::
  "'d bus \<Rightarrow> code_symbols \<Rightarrow> u8 \<Rightarrow> ('d, 'a) boot_state_scheme \<Rightarrow> ('d, 'a) boot_state_scheme option" where
  "uart0_putchar b H chr s =
     (if putc (uart0 s) = addr_pl011_putc H then Some (pl011_putc b (uart0 s) chr s) else None)"

definition timer_tick_handler :: "'d bus \<Rightarrow> ('d, 'a) kernel_state_scheme \<Rightarrow> ('d, 'a) kernel_state_scheme" where
  "timer_tick_handler b s =
     (let s1 = kprintf (''Timer tick handler called'' @ LF) [] s;
          (cnt, s2) = READ_SYS_REG b reg_CNTPCT_EL0 s1
      in kprintf (''CNTPCT_EL0 = %lu'' @ LF) [Num cnt] s2)"

text \<open>
  A call through a handler pointer: the functions whose addresses the kernel hands out, and
  \<open>None\<close> for a jump to anything else. The tick handler is called by \<^verbatim>\<open>timer_isr\<close>.
\<close>

definition invoke_handler ::
  "'d bus \<Rightarrow> code_symbols \<Rightarrow> u64 \<Rightarrow> u64 \<Rightarrow> ('d, 'a) boot_state_scheme \<Rightarrow> ('d, 'a) boot_state_scheme option" where
  "invoke_handler b H fn priv s =
     (if fn = addr_timer_tick_handler H then Some (timer_tick_handler b s)
      else if fn = addr_pl011_rx_handler H \<and> priv = addr_uart0 H then pl011_rx_handler b (uart0 s) s
      else None)"

definition kernel_invoke ::
  "'d bus \<Rightarrow> code_symbols \<Rightarrow> u64 \<Rightarrow> u64 \<Rightarrow> ('d, 'a) boot_state_scheme \<Rightarrow> ('d, 'a) boot_state_scheme option" where
  "kernel_invoke b H fn priv s =
     (if fn = addr_timer_isr H then timer_isr b (invoke_handler b H) s else invoke_handler b H fn priv s)"

section \<open>The boot sequence\<close>

definition setup_system_timer ::
  "'d bus \<Rightarrow> libfdt \<Rightarrow> code_symbols \<Rightarrow> u64 \<Rightarrow> ('d, 'a) boot_state_scheme \<Rightarrow> ('d, 'a) boot_state_scheme option" where
  "setup_system_timer b L H fdt s =
     (let period_ms = 1000;
          hnd = \<lparr>handler = addr_timer_tick_handler H, private_data = 0\<rparr>
      in do {
           (ok, s1) \<leftarrow> setup_sys_timer b L H fdt period_ms hnd s;
           Some (if \<not> ok then kprintf (''Error setting up system timer'' @ LF) [] s1 else s1)
         })"

definition ID_MAP_NUM_PAGES :: u64 where
  "ID_MAP_NUM_PAGES = 0x6"

text \<open>The registers that take the identity map out of use: \<^verbatim>\<open>EPD0\<close> set and \<^verbatim>\<open>TTBR0\<close> cleared.\<close>

definition disable_low_map :: "sys_regs \<Rightarrow> sys_regs" where
  "disable_low_map r =
     write_sys_reg TTBR0_EL1 0 (write_sys_reg TCR_EL1 (bf_set tcr_reg_t T_epd0 1 (tcr_el1 r)) r)"

text \<open>\<^verbatim>\<open>kprintf("%s", ptr)\<close> reads the string from memory; \<open>None\<close> if it has no terminator.\<close>

partial_function (option) load_string :: "virt_addr \<Rightarrow> 'a mem_state_scheme \<Rightarrow> u8 list option" where
  "load_string p s =
     (if load_byte s p = 0 then Some []
      else do { str \<leftarrow> load_string (p + 1) s; Some (load_byte s p # str) })"

definition exit_message :: "code_symbols \<Rightarrow> ('d, 'a) kernel_state_scheme \<Rightarrow> ('d, 'a) kernel_state_scheme option" where
  "exit_message H s = do {
     msg_len \<leftarrow> strlen (addr_exit_msg H) s;
     (ptr, s1) \<leftarrow> kmalloc (msg_len + 1) s;
     if ptr \<noteq> 0 then do {
       s2 \<leftarrow> Some (snd (memcpy ptr (addr_exit_msg H) (msg_len + 1) s1));
       str \<leftarrow> load_string ptr s2;
       kfree ptr (kprintf ''%s'' [Str (Some str)] s2)
     }
     else Some (kprintf (''Failed to allocate memory for exit message'' @ LF) [] s1)
   }"

fun wait_ticks :: "nat \<Rightarrow> ('s \<Rightarrow> 's option) \<Rightarrow> 's \<Rightarrow> 's option" where
  "wait_ticks 0 wfi s = Some s"
| "wait_ticks (Suc n) wfi s = do { s1 \<leftarrow> wfi s; wait_ticks n wfi s1 }"

text \<open>The first half, up to the interrupt controller: everything is moved to the high addresses.\<close>

definition enter_high_half ::
  "'d bus \<Rightarrow> code_symbols \<Rightarrow> ('d, 'a) boot_state_scheme \<Rightarrow> ('d, 'a) boot_state_scheme" where
  "enter_high_half b H s =
     (let s1 = fixup_page_allocator (update_kernel_base_va s);
          (dev, s2) = pl011_init b H (pa_to_va s1 0x09000000) s1;
          s3 = set_kprintf_console \<lparr>con_putc = addr_uart0_putchar H, con_getc = 0\<rparr> (s2\<lparr>uart0 := dev\<rparr>);
          s4 = WRITE_SYS_REG b reg_vbar_el1 (addr_vector_table H) s3;
          s5 = s4\<lparr>mmu_regs := disable_low_map (mmu_regs s4)\<rparr>;
          s6 = kprintf (''Freeing id map page table pages...'' @ LF) [] s5;
          s7 = page_free (va_to_pa s6 (get_id_map_region_start s6)) (ID_MAP_NUM_PAGES + 1) s6;
          s8 = kprintf (''Hello World from high-half!'' @ LF) [] s7
      in kprintf (''Current PC: 0x%lx'' @ LF) [Num (addr_current_pc H)] s8)"

definition high_half_main ::
  "'d bus \<Rightarrow> fdt_library \<Rightarrow> code_symbols
     \<Rightarrow> (('d, 'a) boot_state_scheme \<Rightarrow> ('d, 'a) boot_state_scheme option) \<Rightarrow> phy_addr \<Rightarrow> ('d, 'a) boot_state_scheme
     \<Rightarrow> (semihosting_call \<times> ('d, 'a) boot_state_scheme) option" where
  "high_half_main b L C wfi fdt_addr s = do {
     H \<leftarrow> Some (code_at (pc_base s) C);
     s1 \<leftarrow> Some (enter_high_half b H s);
     fdt \<leftarrow> Some (pa_to_va s1 fdt_addr);
     s2 \<leftarrow> icu_init b (L (load_byte s1)) fdt s1;
     s3 \<leftarrow> Some (snd (pl011_register_handler b H (addr_uart0 H) s2));
     s4 \<leftarrow> setup_system_timer b (L (load_byte s3)) H fdt s3;
     s5 \<leftarrow> wait_ticks 5 wfi s4;
     s6 \<leftarrow> exit_message H s5;
     Some (exit 0 s6)
   }"

text \<open>The first lines of \<^verbatim>\<open>main\<close>: the console on the UART at its physical address, and the logo.\<close>

definition boot_console ::
  "'d bus \<Rightarrow> code_symbols \<Rightarrow> u64 \<Rightarrow> ('d, 'a) boot_state_scheme \<Rightarrow> ('d, 'a) boot_state_scheme" where
  "boot_console b low uart0_base s =
     (let (dev, s1) = pl011_init b low uart0_base s;
          s2 = set_kprintf_console \<lparr>con_putc = addr_uart0_putchar low, con_getc = 0\<rparr> (s1\<lparr>uart0 := dev\<rparr>)
      in print_kernelite_logo s2)"

text \<open>The last statement of \<^verbatim>\<open>enable_mmu\<close>, the message that the MMU is on; \<open>Mmu.enable_mmu\<close> models the others.\<close>

definition enable_mmu_report :: "('d, 'a) kernel_state_scheme \<Rightarrow> ('d, 'a) kernel_state_scheme" where
  "enable_mmu_report s = kprintf (''MMU: Successfully enabled and running in Virtual Memory!'' @ LF) [] s"

text \<open>
  \<^verbatim>\<open>main\<close> up to the jump to the high half: the result tells whether to go on; \<open>False\<close> stands for the
  early \<^verbatim>\<open>return 1\<close> of the code.
\<close>

definition boot_low_half ::
  "'d bus \<Rightarrow> fdt_library \<Rightarrow> code_symbols \<Rightarrow> memory_map_t \<Rightarrow> u64
     \<Rightarrow> ('d, 'a) boot_state_scheme \<Rightarrow> (bool \<times> ('d, 'a) boot_state_scheme) option" where
  "boot_low_half b L C mmap0 fdt_addr s =
     (let uart0_base = 0x09000000;
          s3 = boot_console b (code_at (pc_base s) C) uart0_base s;
          failed = (\<lambda>msg s. Some (False, kprintf (msg @ LF) [] s))
      in do {
        (id_map, s4) \<leftarrow> setup_kernel_id_map uart0_base s3;
        if \<not> id_map then failed ''Error while setting up id map'' s4 else do {
        s5 \<leftarrow> Some (kprintf (''fdt adrr = 0x%lx size = 0x%x'' @ LF) [Num fdt_addr, U32 (fdt_totalsize (L (load_byte s4)) fdt_addr)] s4);
        (r, mmap, s6) \<leftarrow> get_mem (L (load_byte s5)) fdt_addr (Some mmap0) s5;
        if r < 0 then failed ''Failed to parse memory map from FDT. Halting.'' s6 else do {
        (allocator, s7) \<leftarrow> setup_page_allocator L mmap0 fdt_addr s6;
        if \<not> allocator then failed ''Failed to set up page allocator. Halting.'' s7 else do {
        (kernel_map, s8) \<leftarrow> setup_kernel_map mmap s7;
        if \<not> kernel_map then failed ''Error while setting up kernel map'' s8 else do {
        (uart_mapped, s9) \<leftarrow> Some (map_page (get_kernel_map_root s8) (uart0_base + KERNEL_BASE) uart0_base rw_perms DEVICE s8);
        if \<not> uart_mapped then failed ''Error while mapping uart'' s9 else do {
        (mmu, events) \<leftarrow> Some (enable_mmu (get_id_map_root s9) (get_kernel_map_root s9) s9 (mmu_regs s9));
        s10 \<leftarrow> Some (s9\<lparr>mmu_regs := run_events events (mmu_regs s9)\<rparr>);
        if \<not> mmu then failed ''Error while setting up mmu'' s10 else Some (True, enable_mmu_report s10)
        }}}}}
      })"

text \<open>\<^verbatim>\<open>main\<close> returns a status to \<^verbatim>\<open>boot.s\<close> or leaves the kernel from \<^verbatim>\<open>high_half_main\<close>.\<close>

datatype boot_result = Returned int | Exited semihosting_call

definition boot_main ::
  "'d bus \<Rightarrow> fdt_library \<Rightarrow> code_symbols
     \<Rightarrow> (('d, 'a) boot_state_scheme \<Rightarrow> ('d, 'a) boot_state_scheme option) \<Rightarrow> memory_map_t \<Rightarrow> u64
     \<Rightarrow> ('d, 'a) boot_state_scheme \<Rightarrow> (boot_result \<times> ('d, 'a) boot_state_scheme) option" where
  "boot_main b L C wfi mmap0 fdt_addr s = do {
     (ok, s1) \<leftarrow> boot_low_half b L C mmap0 fdt_addr s;
     if \<not> ok then Some (Returned 1, s1) else do {
       s2 \<leftarrow> Some (switch_to_high_va s1);
       (call, s3) \<leftarrow> high_half_main b L C wfi fdt_addr s2;
       Some (Exited call, s3)
     }
   }"

end
