(* ===== verification/Setup_Correct.thy ===== *)
theory Setup_Correct
  imports Setup
begin

text \<open>
  \<^verbatim>\<open>setup_page_allocator\<close> establishes the invariant of the page allocator: from an empty allocator
  and the memory map of the device tree it makes exactly the whole pages of the regions managed,
  and exactly the bitmaps, the kernel image and the device tree blob used.
\<close>

section \<open>The console does not matter to the allocator\<close>

lemma console_view [simp]:
  "inits (s\<lparr>console := c\<rparr>) = inits s" "alloc_inv (s\<lparr>console := c\<rparr>) = alloc_inv s"
  "frame_used (s\<lparr>console := c\<rparr>) = frame_used s" "frame_managed (s\<lparr>console := c\<rparr>) = frame_managed s"
  "is_bitmap_frame (s\<lparr>console := c\<rparr>) = is_bitmap_frame s"
  "sym_addr (s\<lparr>console := c\<rparr>) f = sym_addr s f" "get_image_size (s\<lparr>console := c\<rparr>) = get_image_size s"
  "va_to_pa (s\<lparr>console := c\<rparr>) = va_to_pa s" "pa_to_va (s\<lparr>console := c\<rparr>) = pa_to_va s"
proof -
  have i: "inits (s\<lparr>console := c\<rparr>) = inits s" by (simp add: inits_def)
  then show "inits (s\<lparr>console := c\<rparr>) = inits s" .
  have pu: "page_used d k (s\<lparr>console := c\<rparr>) = page_used d k s" for d k
    by (simp add: page_used_def bitmap_test_def load_byte_def va_to_pa_def)
  then show "alloc_inv (s\<lparr>console := c\<rparr>) = alloc_inv s"
    by (simp add: alloc_inv_def i chunk_shape_def bitmap_marked_def pa_to_va_def)
  show "frame_used (s\<lparr>console := c\<rparr>) = frame_used s" "frame_managed (s\<lparr>console := c\<rparr>) = frame_managed s"
    "is_bitmap_frame (s\<lparr>console := c\<rparr>) = is_bitmap_frame s"
    by (simp_all add: fun_eq_iff frame_used_def frame_managed_def is_bitmap_frame_def i pu)
qed (simp_all add: sym_addr_def get_image_size_def va_to_pa_def pa_to_va_def fun_eq_iff)

section \<open>One region\<close>

definition region_frames :: "memory_region_t \<Rightarrow> nat set" where
  "region_frames r = {(unat (base r) + 4095) div 4096 ..< (unat (base r) + unat (memory_region_t.size r)) div 4096}"

text \<open>The frames of the bitmap, at the start of the region.\<close>

definition region_bitmap :: "memory_region_t \<Rightarrow> nat set" where
  "region_bitmap r =
     (let q = (unat (base r) + 4095) div 4096; e = (unat (base r) + unat (memory_region_t.size r)) div 4096
      in {q ..< q + ((e - q + 7) div 8 + 4095) div 4096})"

definition usable_region :: "'a mem_state_scheme \<Rightarrow> memory_region_t \<Rightarrow> bool" where
  "usable_region s r \<longleftrightarrow>
     region_fits (base r) (memory_region_t.size r) \<and> region_base (base r) \<noteq> 0
     \<and> \<not> check_kernel_binary_overlap (region_base (base r))
          (NUM_PAGES ((region_pages (base r) (memory_region_t.size r) + 7) div 8) * PAGE_SIZE) s"

definition chunk_sets :: "'a alloc_state_scheme \<Rightarrow> nat set set" where
  "chunk_sets s = (\<lambda>i. chunk_frames (mem_chunks s ! i)) ` inits s"

lemma managed_chunk_sets: "frame_managed s f \<longleftrightarrow> f \<in> \<Union> (chunk_sets s)"
  by (auto simp: frame_managed_def chunk_sets_def)

lemma used_managed: "frame_used s f \<Longrightarrow> frame_managed s f"
  by (auto simp: frame_used_def frame_managed_def)

lemma ivl_eq:
  assumes "{a ..< b} = {c ..< d}" "c < (d :: nat)"
  shows "a = c" "b = d"
proof -
  have "c \<in> {a ..< b}" using assms by simp
  then have "a < b" by simp
  then show "a = c" "b = d" using atLeastLessThan_inj [OF assms(1) _ assms(2)] by simp_all
qed

lemma find_region_slot_from_None:
  "find_region_slot_from cs k a = None \<Longrightarrow> c \<in> set cs \<Longrightarrow> initialized c"
  by (induction cs k a rule: find_region_slot_from.induct) (auto split: if_splits)

lemma free_slot:
  assumes inv: "alloc_inv s" and n: "card (inits s) < 10"
    and fits: "region_fits (base r) (memory_region_t.size r)" and dis: "\<forall>f \<in> region_frames r. \<not> frame_managed s f"
  obtains i where "find_region_slot_from (mem_chunks s) 0 (base r) = Some i" "i \<notin> inits s"
proof (cases "find_region_slot_from (mem_chunks s) 0 (base r)")
  case None
  then have "inits s = {..<10}"
    using find_region_slot_from_None [OF None] inv by (auto simp: inits_def alloc_inv_def MAX_MEM_CHUNKS_def)
  with n show ?thesis by simp
next
  case (Some i)
  have "i \<notin> inits s"
  proof
    assume i: "i \<in> inits s"
    then have b: "mem_base (mem_chunks s ! i) = base r" using find_region_slot_from_Some [OF Some] by (auto simp: inits_def)
    have sh: "chunk_shape (mem_chunks s ! i) s" by (rule alloc_invD(1) [OF inv i])
    then have al: "page_aligned (base r)" "unat (total_pages (mem_chunks s ! i)) \<noteq> 0"
      using b by (simp_all add: chunk_shape_def unat_eq_0)
    have "frame (base r) \<in> chunk_frames (mem_chunks s ! i)" using al(2) b by (simp add: chunk_frames_def)
    moreover have "frame (base r) \<in> region_frames r"
      using al(1) fits by (auto simp: region_frames_def region_fits_def frame_def page_aligned_def)
    ultimately show False using dis i by (auto simp: frame_managed_def)
  qed
  with Some show ?thesis by (rule that)
qed

lemma bitmap_frames_region:
  assumes "region_fits (base r) (memory_region_t.size r)" "chunk_frames c = region_frames r"
  shows "bitmap_frames c = region_bitmap r"
proof -
  have "(unat (base r) + 4095) div 4096 < (unat (base r) + unat (memory_region_t.size r)) div 4096"
    using assms(1) by (simp add: region_fits_def)
  then have "frame (mem_base c) = (unat (base r) + 4095) div 4096"
    "frame (mem_base c) + unat (total_pages c) = (unat (base r) + unat (memory_region_t.size r)) div 4096"
    using assms(2) ivl_eq by (simp_all add: chunk_frames_def region_frames_def)
  then show ?thesis unfolding bitmap_frames_def region_bitmap_def Let_def bitmap_page_count_def
    by (metis add_diff_cancel_left')
qed

lemma add_usable_region:
  assumes inv: "alloc_inv s" and kb: "kernel_base_va s = 0" and n: "card (inits s) < 10"
    and us: "usable_region s r" and dis: "\<forall>f \<in> region_frames r. \<not> frame_managed s f"
  shows "\<exists>s'. page_allocator_add_region (base r) (memory_region_t.size r) True s = (True, s')
    \<and> alloc_inv s' \<and> card (inits s') = Suc (card (inits s))
    \<and> chunk_sets s' = insert (region_frames r) (chunk_sets s)
    \<and> (\<forall>f. frame_used s' f \<longleftrightarrow> frame_used s f \<or> f \<in> region_bitmap r)
    \<and> (\<forall>a. frame a \<notin> region_bitmap r \<longrightarrow> mem s' a = mem s a)
    \<and> s' = s\<lparr>mem := mem s', mem_chunks := mem_chunks s'\<rparr>"
proof -
  have fits: "region_fits (base r) (memory_region_t.size r)" and nz: "region_base (base r) \<noteq> 0"
    and ov: "\<not> (True \<and> check_kernel_binary_overlap (region_base (base r))
          (NUM_PAGES ((region_pages (base r) (memory_region_t.size r) + 7) div 8) * PAGE_SIZE) s)"
    using us by (simp_all add: usable_region_def)
  obtain i where i: "find_region_slot_from (mem_chunks s) 0 (base r) = Some i" "i \<notin> inits s"
    by (rule free_slot [OF inv n fits dis])
  have nz': "pa_to_va s (region_base (base r)) \<noteq> 0" using nz kb by (simp add: pa_to_va_def)
  have ap: "\<forall>j \<in> inits s - {i}. chunk_frames (mem_chunks s ! j)
      \<inter> {(unat (base r) + 4095) div 4096 ..< (unat (base r) + unat (memory_region_t.size r)) div 4096} = {}"
    using dis by (auto simp: region_frames_def frame_managed_def)
  obtain s' where add: "page_allocator_add_region (base r) (memory_region_t.size r) True s = (True, s')" "alloc_inv s'"
    and ins: "inits s' = insert i (inits s)" and cf: "chunk_frames (mem_chunks s' ! i) = region_frames r"
    and new: "\<forall>f \<in> chunk_frames (mem_chunks s' ! i). frame_used s' f \<longleftrightarrow> f \<in> bitmap_frames (mem_chunks s' ! i)"
    and old: "\<forall>j \<in> inits s - {i}. \<forall>f \<in> chunk_frames (mem_chunks s ! j). frame_used s' f = frame_used s f"
    and out: "\<forall>a. frame a \<notin> bitmap_frames (mem_chunks s' ! i) \<longrightarrow> mem s' a = mem s a"
    and nth: "\<forall>j. j \<noteq> i \<longrightarrow> mem_chunks s' ! j = mem_chunks s ! j"
    and s': "s' = s\<lparr>mem := mem s', mem_chunks := mem_chunks s'\<rparr>"
    using add_region_effect [OF inv i(1) fits nz nz' ov ap] by (auto simp: region_frames_def)
  have bm: "bitmap_frames (mem_chunks s' ! i) = region_bitmap r" by (rule bitmap_frames_region [OF fits cf])
  have sub: "region_bitmap r \<subseteq> region_frames r"
    using bitmap_frames_sub [of "mem_chunks s' ! i" s'] alloc_invD(1) [OF add(2), of i] ins by (simp add: bm cf)
  have cs: "chunk_sets s' = insert (region_frames r) (chunk_sets s)"
  proof -
    have "(\<lambda>j. chunk_frames (mem_chunks s' ! j)) ` inits s = chunk_sets s"
      unfolding chunk_sets_def by (rule image_cong [OF refl]) (use nth i(2) in force)
    then show ?thesis by (simp add: chunk_sets_def ins cf)
  qed
  have "frame_used s' f \<longleftrightarrow> frame_used s f \<or> f \<in> region_bitmap r" for f
  proof -
    consider "f \<in> region_frames r" | j where "j \<in> inits s" "f \<in> chunk_frames (mem_chunks s ! j)" "f \<notin> region_frames r"
      | "f \<notin> region_frames r" "\<not> frame_managed s f" by (auto simp: frame_managed_def)
    then show ?thesis
    proof cases
      case 1
      then show ?thesis using new dis used_managed by (auto simp: cf bm)
    next
      case 2
      then show ?thesis using old i(2) sub by auto
    next
      case 3
      then have "\<not> frame_managed s' f" by (auto simp: managed_chunk_sets cs)
      with 3 show ?thesis using used_managed sub by blast
    qed
  qed
  moreover have "finite (inits s)" by (simp add: inits_def)
  ultimately show ?thesis using add ins i(2) cs out s' by (auto simp: bm)
qed

section \<open>All regions\<close>

abbreviation apart_regions :: "memory_region_t list \<Rightarrow> bool" where
  "apart_regions rs \<equiv> sorted_wrt (\<lambda>r q. region_frames r \<inter> region_frames q = {}) rs"

lemma usable_region_cong:
  "pc_base s' = pc_base s \<Longrightarrow> syms s' = syms s \<Longrightarrow> usable_region s' r = usable_region s r"
  by (simp add: usable_region_def check_kernel_binary_overlap_def sym_addr_def)

lemma add_regions_run:
  assumes "alloc_inv s" "kernel_base_va s = 0" "card (inits s) + length rs \<le> 10"
    and "\<forall>r \<in> set rs. usable_region s r" "apart_regions rs" "\<forall>r \<in> set rs. \<forall>f \<in> region_frames r. \<not> frame_managed s f"
  shows "\<exists>s'. add_regions k rs s = (True, s') \<and> alloc_inv s'
    \<and> chunk_sets s' = region_frames ` set rs \<union> chunk_sets s
    \<and> (\<forall>f. frame_used s' f \<longleftrightarrow> frame_used s f \<or> (\<exists>r \<in> set rs. f \<in> region_bitmap r))
    \<and> (\<forall>a. (\<forall>r \<in> set rs. frame a \<notin> region_bitmap r) \<longrightarrow> mem s' a = mem s a)
    \<and> s' = s\<lparr>mem := mem s', mem_chunks := mem_chunks s'\<rparr>"
  using assms
proof (induction rs arbitrary: s k)
  case (Cons r rs)
  have n: "card (inits s) < 10" and us: "usable_region s r" and dis: "\<forall>f \<in> region_frames r. \<not> frame_managed s f"
    using Cons.prems by simp_all
  obtain s1 where s1: "page_allocator_add_region (base r) (memory_region_t.size r) True s = (True, s1)" "alloc_inv s1"
    "card (inits s1) = Suc (card (inits s))" "chunk_sets s1 = insert (region_frames r) (chunk_sets s)"
    "\<forall>f. frame_used s1 f \<longleftrightarrow> frame_used s f \<or> f \<in> region_bitmap r"
    "\<forall>a. frame a \<notin> region_bitmap r \<longrightarrow> mem s1 a = mem s a"
    and e1: "s1 = s\<lparr>mem := mem s1, mem_chunks := mem_chunks s1\<rparr>"
    using add_usable_region [OF Cons.prems(1,2) n us dis] by blast
  have sel: "kernel_base_va s1 = 0" "pc_base s1 = pc_base s" "syms s1 = syms s"
    using Cons.prems(2) by (subst e1, simp)+
  have "\<exists>s'. add_regions (Suc k) rs s1 = (True, s') \<and> alloc_inv s'
    \<and> chunk_sets s' = region_frames ` set rs \<union> chunk_sets s1
    \<and> (\<forall>f. frame_used s' f \<longleftrightarrow> frame_used s1 f \<or> (\<exists>r \<in> set rs. f \<in> region_bitmap r))
    \<and> (\<forall>a. (\<forall>r \<in> set rs. frame a \<notin> region_bitmap r) \<longrightarrow> mem s' a = mem s1 a)
    \<and> s' = s1\<lparr>mem := mem s', mem_chunks := mem_chunks s'\<rparr>"
  proof (rule Cons.IH [OF s1(2) sel(1)])
    show "card (inits s1) + length rs \<le> 10" using Cons.prems(3) s1(3) by simp
    show "\<forall>r \<in> set rs. usable_region s1 r" using Cons.prems(4) usable_region_cong [OF sel(2,3)] by simp
    show "apart_regions rs" using Cons.prems(5) by simp
    show "\<forall>q \<in> set rs. \<forall>f \<in> region_frames q. \<not> frame_managed s1 f"
    proof (intro ballI)
      fix q f assume q: "q \<in> set rs" "f \<in> region_frames q"
      then have "region_frames r \<inter> region_frames q = {}" "\<not> frame_managed s f" using Cons.prems(5,6) by simp_all
      with q(2) have "f \<notin> region_frames r" "\<not> frame_managed s f" by blast+
      then show "\<not> frame_managed s1 f" by (simp add: managed_chunk_sets s1(4))
    qed
  qed
  then obtain s' where s': "add_regions (Suc k) rs s1 = (True, s')" "alloc_inv s'"
    "chunk_sets s' = region_frames ` set rs \<union> chunk_sets s1"
    "\<forall>f. frame_used s' f \<longleftrightarrow> frame_used s1 f \<or> (\<exists>r \<in> set rs. f \<in> region_bitmap r)"
    "\<forall>a. (\<forall>r \<in> set rs. frame a \<notin> region_bitmap r) \<longrightarrow> mem s' a = mem s1 a"
    and e': "s' = s1\<lparr>mem := mem s', mem_chunks := mem_chunks s'\<rparr>" by (elim exE conjE) (rule that)
  have "s' = s\<lparr>mem := mem s', mem_chunks := mem_chunks s'\<rparr>" 
  proof -
    have "s1\<lparr>mem := m, mem_chunks := x\<rparr> = s\<lparr>mem := m, mem_chunks := x\<rparr>" for m x by (subst e1) simp
    with e' show ?thesis by simp
  qed
  moreover have "add_regions k (r # rs) s = (True, s')" using s1(1) s'(1) by simp
  moreover have "chunk_sets s' = region_frames ` set (r # rs) \<union> chunk_sets s" using s1(4) s'(3) by simp
  moreover have "\<forall>f. frame_used s' f \<longleftrightarrow> frame_used s f \<or> (\<exists>r \<in> set (r # rs). f \<in> region_bitmap r)"
    using s1(5) s'(4) by simp
  moreover have "\<forall>a. (\<forall>r \<in> set (r # rs). frame a \<notin> region_bitmap r) \<longrightarrow> mem s' a = mem s a"
    using s1(6) s'(5) by simp
  ultimately show ?case using s'(2) by blast
qed simp

section \<open>Reservations\<close>

definition in_one_region :: "memory_region_t list \<Rightarrow> phy_addr \<Rightarrow> u64 \<Rightarrow> bool" where
  "in_one_region rs a n \<longleftrightarrow> (\<exists>r \<in> set rs. frame a \<in> region_frames r
     \<and> unat a + unat n * 4096 \<le> (unat (base r) + unat (memory_region_t.size r)) div 4096 * 4096)"

lemma reserve_in_region:
  assumes inv: "alloc_inv s" and cs: "chunk_sets s = region_frames ` set rs"
    and fits: "\<forall>r \<in> set rs. region_fits (base r) (memory_region_t.size r)" and reg: "in_one_region rs a n"
  shows "\<exists>s'. reserve_page a n s = (True, s') \<and> alloc_inv s' \<and> s' = s\<lparr>mem := mem s'\<rparr>
    \<and> (\<forall>f. frame_used s' f \<longleftrightarrow> frame_used s f \<or> f \<in> block_frames a n)
    \<and> (\<forall>x. \<not> is_bitmap_frame s (frame x) \<longrightarrow> mem s' x = mem s x)"
proof -
  obtain r where r: "r \<in> set rs" "frame a \<in> region_frames r"
    and e: "unat a + unat n * 4096 \<le> (unat (base r) + unat (memory_region_t.size r)) div 4096 * 4096"
    using reg by (auto simp: in_one_region_def)
  have lt: "unat (base r) + unat (memory_region_t.size r) < 2 ^ 64"
    and ne: "(unat (base r) + 4095) div 4096 < (unat (base r) + unat (memory_region_t.size r)) div 4096"
    using fits r(1) by (auto simp: region_fits_def)
  have "region_frames r \<in> chunk_sets s" using r(1) cs by simp
  then obtain i where i: "i \<in> inits s" "chunk_frames (mem_chunks s ! i) = region_frames r"
    by (auto simp: chunk_sets_def)
  define c where "c = mem_chunks s ! i"
  have sh: "chunk_shape c s" using alloc_invD(1) [OF inv i(1)] by (simp add: c_def)
  have "frame (mem_base c) + unat (total_pages c) = (unat (base r) + unat (memory_region_t.size r)) div 4096"
    using ivl_eq(2) [OF _ ne] i(2) by (simp add: c_def [symmetric] chunk_frames_def region_frames_def)
  moreover have "unat (chunk_end c) = (frame (mem_base c) + unat (total_pages c)) * 4096"
    using chunk_end_unat [OF sh] sh by (simp add: chunk_shape_def page_aligned_unat)
  ultimately have ce: "unat a + unat n * 4096 \<le> unat (chunk_end c)" using e by simp
  have nw: "unat a + unat n * 4096 < 2 ^ 64" using e lt div_times_less_eq_dividend [of _ 4096] by (meson le_trans not_le)
  obtain ok s' where res: "reserve_page a n s = (ok, s')" by fastforce
  have ok using reserve_page_spec [OF inv nw res] i r(2) ce by (auto simp: c_def)
  with reserve_page_spec [OF inv nw res] res show ?thesis by auto
qed

section \<open>The whole set-up\<close>

text \<open>The overlap check keeps the bitmaps off the kernel image.\<close>

lemma image_not_bitmap:
  assumes us: "usable_region s r" and a: "sym_addr s image_start \<le> a" "a < sym_addr s image_end"
  shows "frame a \<notin> region_bitmap r"
proof
  assume fa: "frame a \<in> region_bitmap r"
  let ?A = "region_base (base r)" and ?P = "region_pages (base r) (memory_region_t.size r)"
  have fits: "region_fits (base r) (memory_region_t.size r)" using us by (simp add: usable_region_def)
  note facts = region_fits_facts [OF fits]
  define q where "q = frame ?A"
  have A: "unat ?A = q * 4096" using facts(1) by (simp add: q_def page_aligned_unat)
  have P: "(unat (base r) + unat (memory_region_t.size r)) div 4096 - q = unat ?P" using facts(5) by (simp add: q_def)
  define k where "k = ((unat ?P + 7) div 8 + 4095) div 4096"
  define B where "B = NUM_PAGES ((?P + 7) div 8)"
  have B: "unat B = k"
    using region_sizes(2) [OF facts(6), of s] by (simp add: B_def k_def bitmap_page_count_def region_chunk_def)
  have up: "(x + (m - 1)) div m \<le> x" if "0 < x" "0 < m" for x m :: nat
  proof -
    have "x + (m - 1) \<le> m * x" using that by (cases x; cases m) simp_all
    then have "(x + (m - 1)) div m \<le> m * x div m" by (rule div_le_mono)
    then show ?thesis using that by simp
  qed
  have p: "0 < unat ?P" using facts(4) by (simp add: unat_gt_0)
  then have "k \<le> unat ?P" using up [of "unat ?P" 8] up [of "(unat ?P + 7) div 8" 4096] by (simp add: k_def)
  then have lim: "unat ?A + k * 4096 < 2 ^ 64" using facts(6) by simp
  then have "unat (B * PAGE_SIZE) = k * 4096" using B by (simp add: unat_mult64)
  then have e: "unat (?A + B * PAGE_SIZE) = (q + k) * 4096" using lim A by (simp add: unat_add64)
  have "frame a < q + k" "q \<le> frame a"
    using fa P facts(2) by (auto simp: region_bitmap_def Let_def q_def k_def)
  then have "unat a < (q + k) * 4096" "q * 4096 \<le> unat a"
    by (simp_all add: frame_def div_less_iff_less_mult less_eq_div_iff_mult_less_eq)
  then have "a < ?A + B * PAGE_SIZE" "?A \<le> a" by (simp_all add: word_less_nat_alt word_le_nat_alt e A)
  then have "check_kernel_binary_overlap ?A (B * PAGE_SIZE) s"
    using a by (simp add: check_kernel_binary_overlap_def) (metis le_less_trans)
  with us show False by (simp add: usable_region_def B_def)
qed

lemma bitmap_frame_regions:
  assumes "chunk_sets s = region_frames ` set rs" "\<forall>r \<in> set rs. region_fits (base r) (memory_region_t.size r)"
  shows "is_bitmap_frame s f \<longleftrightarrow> (\<exists>r \<in> set rs. f \<in> region_bitmap r)"
proof
  assume "is_bitmap_frame s f"
  then obtain i where i: "i \<in> inits s" "f \<in> bitmap_frames (mem_chunks s ! i)" by (auto simp: is_bitmap_frame_def)
  then have "chunk_frames (mem_chunks s ! i) \<in> chunk_sets s" by (simp add: chunk_sets_def)
  then obtain r where "r \<in> set rs" "chunk_frames (mem_chunks s ! i) = region_frames r" using assms(1) by auto
  with i(2) assms(2) show "\<exists>r \<in> set rs. f \<in> region_bitmap r" using bitmap_frames_region [of r] by auto
next
  assume "\<exists>r \<in> set rs. f \<in> region_bitmap r"
  then obtain r where r: "r \<in> set rs" "f \<in> region_bitmap r" by blast
  then have "region_frames r \<in> chunk_sets s" using assms(1) by simp
  then obtain i where "i \<in> inits s" "chunk_frames (mem_chunks s ! i) = region_frames r" by (auto simp: chunk_sets_def)
  with r assms(2) have "i \<in> inits s" "f \<in> bitmap_frames (mem_chunks s ! i)" using bitmap_frames_region [of r] by auto
  then show "is_bitmap_frame s f" by (auto simp: is_bitmap_frame_def)
qed

lemma chunk_sets_upd [simp]:
  "chunk_sets (s\<lparr>mem := m\<rparr>) = chunk_sets s" "chunk_sets (t\<lparr>console := c\<rparr>) = chunk_sets t"
  by (simp_all add: chunk_sets_def)

lemma report_ok:
  "\<exists>s'. x = (True, s') \<and> P s' \<Longrightarrow>
   \<exists>s'. (case x of (ok, s2) \<Rightarrow> if \<not> ok then (False, f s2) else (True, s2)) = (True, s') \<and> P s'"
  by auto

text \<open>What a reservation in one of the regions leaves behind.\<close>

definition reserved ::
  "memory_region_t list \<Rightarrow> phy_addr \<Rightarrow> u64 \<Rightarrow> ('d, 'a) kernel_state_scheme \<Rightarrow> ('d, 'a) kernel_state_scheme \<Rightarrow> bool" where
  "reserved rs a n s s' \<longleftrightarrow> alloc_inv s' \<and> s' = s\<lparr>mem := mem s', console := console s'\<rparr>
    \<and> chunk_sets s' = region_frames ` set rs
    \<and> (\<forall>f. frame_used s' f \<longleftrightarrow> frame_used s f \<or> f \<in> block_frames a n)
    \<and> (\<forall>x. (\<forall>r \<in> set rs. frame x \<notin> region_bitmap r) \<longrightarrow> mem s' x = mem s x)"

lemma reserve_announced:
  assumes inv: "alloc_inv s" and cs: "chunk_sets s = region_frames ` set rs"
    and fits: "\<forall>r \<in> set rs. region_fits (base r) (memory_region_t.size r)" and reg: "in_one_region rs a n"
  shows "\<exists>s'. reserve_page a n (kprintf fmt args s) = (True, s') \<and> reserved rs a n s s'"
proof -
  let ?s = "kprintf fmt args s"
  have inv': "alloc_inv ?s" and cs': "chunk_sets ?s = region_frames ` set rs" using inv cs by (simp_all add: kprintf_def)
  obtain s' where s': "reserve_page a n ?s = (True, s')" "alloc_inv s'" and e: "s' = ?s\<lparr>mem := mem s'\<rparr>"
    and f: "\<forall>f. frame_used s' f \<longleftrightarrow> frame_used ?s f \<or> f \<in> block_frames a n"
    and m: "\<forall>x. \<not> is_bitmap_frame ?s (frame x) \<longrightarrow> mem s' x = mem ?s x"
    using reserve_in_region [OF inv' cs' fits reg] by blast
  have "s' = s\<lparr>mem := mem s', console := console s'\<rparr>" by (subst (1 2 3) e) (simp add: kprintf_def)
  moreover have "chunk_sets s' = region_frames ` set rs" by (subst e) (simp add: cs')
  moreover have "\<forall>f. frame_used s' f \<longleftrightarrow> frame_used s f \<or> f \<in> block_frames a n" using f by (simp add: kprintf_def)
  moreover have "\<forall>x. (\<forall>r \<in> set rs. frame x \<notin> region_bitmap r) \<longrightarrow> mem s' x = mem s x"
    using m by (simp add: bitmap_frame_regions [OF cs' fits]) (simp add: kprintf_def)
  ultimately show ?thesis using s' unfolding reserved_def by blast
qed

text \<open>
  The device tree blob of \<open>n\<close> bytes at \<open>fdt\<close>. The size that libfdt reports is read from the blob; the
  code reads it again after the bitmaps have been written, so they must not lie on it.
\<close>

definition blob_bytes :: "u64 \<Rightarrow> u32 \<Rightarrow> u64 set" where
  "blob_bytes fdt n = {a. unat fdt \<le> unat a \<and> unat a < unat fdt + unat n}"

definition size_in_blob :: "fdt_library \<Rightarrow> u64 \<Rightarrow> 'a mem_state_scheme \<Rightarrow> bool" where
  "size_in_blob L fdt s \<longleftrightarrow>
     (\<forall>v. (\<forall>a \<in> blob_bytes fdt (fdt_totalsize (L (load_byte s)) fdt). v a = load_byte s a) \<longrightarrow>
        fdt_totalsize (L v) fdt = fdt_totalsize (L (load_byte s)) fdt)"

definition blob_off_bitmaps :: "u64 \<Rightarrow> u32 \<Rightarrow> memory_region_t list \<Rightarrow> bool" where
  "blob_off_bitmaps fdt n rs \<longleftrightarrow> (\<forall>a \<in> blob_bytes fdt n. \<forall>r \<in> set rs. frame a \<notin> region_bitmap r)"

lemma load_byte_low: "kernel_base_va s = 0 \<Longrightarrow> load_byte s = mem s"
  by (simp add: load_byte_def va_to_pa_def fun_eq_iff)

lemma load_byte_console: "load_byte (s\<lparr>console := c\<rparr>) = load_byte s"
  by (simp add: load_byte_def va_to_pa_def fun_eq_iff)

lemma setup_page_allocator_run:
  assumes inv: "alloc_inv s" and empty: "inits s = {}" and kb: "kernel_base_va s = 0"
    and K: "K = L (load_byte s)"
    and fdt: "fdt \<noteq> 0" "fdt_check_header K fdt = 0" "0 < FDT_ERR_INTERNAL K"
    and mm: "get_mem K fdt (Some m0) (snd (check_fdt K fdt s)) = Some (r, Some mm, s2)" "0 \<le> r"
    and rs: "length (regions mm) \<le> 10" "\<forall>r \<in> set (regions mm). usable_region s r" "apart_regions (regions mm)"
    and img: "in_one_region (regions mm) (sym_addr s image_start) (NUM_PAGES (get_image_size s))"
    and dtb: "in_one_region (regions mm) fdt (NUM_PAGES (ucast (fdt_totalsize K fdt)))"
    and blob: "size_in_blob L fdt s" "blob_off_bitmaps fdt (fdt_totalsize K fdt) (regions mm)"
  shows "\<exists>s'. setup_page_allocator L m0 fdt s = Some (True, s') \<and> alloc_inv s'
    \<and> (\<forall>f. frame_managed s' f \<longleftrightarrow> (\<exists>r \<in> set (regions mm). f \<in> region_frames r))
    \<and> (\<forall>f. frame_used s' f \<longleftrightarrow> (\<exists>r \<in> set (regions mm). f \<in> region_bitmap r)
         \<or> f \<in> block_frames (sym_addr s image_start) (NUM_PAGES (get_image_size s))
         \<or> f \<in> block_frames fdt (NUM_PAGES (ucast (fdt_totalsize K fdt))))
    \<and> (\<forall>a. (\<forall>r \<in> set (regions mm). frame a \<notin> region_bitmap r) \<longrightarrow> mem s' a = mem s a)
    \<and> (\<forall>a. sym_addr s image_start \<le> a \<and> a < sym_addr s image_end \<longrightarrow> mem s' a = mem s a)
    \<and> (\<forall>f. is_bitmap_frame s' f \<longleftrightarrow> (\<exists>r \<in> set (regions mm). f \<in> region_bitmap r))
    \<and> chunk_sets s' = region_frames ` set (regions mm)
    \<and> s' = s\<lparr>mem := mem s', mem_chunks := mem_chunks s', console := console s'\<rparr>"
proof -
  let ?R = "regions mm"
  obtain c1 where c1: "check_fdt K fdt s = (True, s\<lparr>console := c1\<rparr>)"
    using fdt(1,2) by (simp add: check_fdt_def kprintf_def)
  obtain c2 where "s2 = s\<lparr>console := c1\<rparr>\<lparr>console := c2\<rparr>" using get_mem_wf(2) [OF mm(1)] by (auto simp: c1)
  then have s2: "s2 = s\<lparr>console := c2\<rparr>" by simp
  have wf: "take (nat (count mm)) ?R = ?R" using get_mem_wf(1) [OF mm(1)] mm(2) fdt(3) by (simp add: memory_map_wf_def)
  have fits: "\<forall>r \<in> set ?R. region_fits (base r) (memory_region_t.size r)" using rs(2) by (simp add: usable_region_def)
  have us: "\<forall>r \<in> set ?R. usable_region s2 r" using rs(2) usable_region_cong [of s2 s] by (simp add: s2)
  have "\<not> frame_managed s2 f" for f using empty by (simp add: s2 frame_managed_def)
  then have "\<exists>s'. add_regions 0 ?R s2 = (True, s') \<and> alloc_inv s'
    \<and> chunk_sets s' = region_frames ` set ?R \<union> chunk_sets s2
    \<and> (\<forall>f. frame_used s' f \<longleftrightarrow> frame_used s2 f \<or> (\<exists>r \<in> set ?R. f \<in> region_bitmap r))
    \<and> (\<forall>a. (\<forall>r \<in> set ?R. frame a \<notin> region_bitmap r) \<longrightarrow> mem s' a = mem s2 a)
    \<and> s' = s2\<lparr>mem := mem s', mem_chunks := mem_chunks s'\<rparr>"
    using inv empty kb rs(1,3) us by (intro add_regions_run) (simp_all add: s2)
  then obtain s3 where s3: "add_regions 0 ?R s2 = (True, s3)" "alloc_inv s3"
    and c3: "chunk_sets s3 = region_frames ` set ?R \<union> chunk_sets s2"
    and u3: "\<forall>f. frame_used s3 f \<longleftrightarrow> frame_used s2 f \<or> (\<exists>r \<in> set ?R. f \<in> region_bitmap r)"
    and m3: "\<forall>a. (\<forall>r \<in> set ?R. frame a \<notin> region_bitmap r) \<longrightarrow> mem s3 a = mem s2 a"
    and e3: "s3 = s2\<lparr>mem := mem s3, mem_chunks := mem_chunks s3\<rparr>" by blast
  have cs3: "chunk_sets s3 = region_frames ` set ?R" using c3 empty by (simp add: s2 chunk_sets_def)
  have sel3: "sym_addr s3 image_start = sym_addr s image_start" "get_image_size s3 = get_image_size s"
    "va_to_pa s3 = (\<lambda>x. x)"
    by (subst e3, simp add: s2 get_image_size_def sym_addr_def va_to_pa_def kb fun_eq_iff)+
  have vk: "va_to_pa (kprintf fmt args t) = va_to_pa t" for fmt args and t :: "('a, 'b) kernel_state_scheme"
    by (simp add: kprintf_def)
  have "\<exists>s4. reserve_kernel_img_pages s3 = (True, s4)
      \<and> reserved ?R (sym_addr s image_start) (NUM_PAGES (get_image_size s)) s3 s4"
    unfolding reserve_kernel_img_pages_def Let_def sel3 vk by (rule report_ok [OF reserve_announced [OF s3(2) cs3 fits img]])
  then obtain s4 where s4: "reserve_kernel_img_pages s3 = (True, s4)"
    and r4: "reserved ?R (sym_addr s image_start) (NUM_PAGES (get_image_size s)) s3 s4" by blast
  have e4: "s4 = s3\<lparr>mem := mem s4, console := console s4\<rparr>" using r4 unfolding reserved_def by blast
  have sel4: "va_to_pa s4 = (\<lambda>x. x)" by (subst e4) (simp add: sel3)
  have inv4: "alloc_inv s4" "chunk_sets s4 = region_frames ` set ?R" using r4 unfolding reserved_def by blast+
  have size: "fdt_totalsize (L (load_byte s4)) fdt = fdt_totalsize K fdt"
  proof -
    have kb4: "kernel_base_va s4 = 0" by (subst e4, subst e3) (simp add: s2 kb)
    have "load_byte s4 a = load_byte s a" if "a \<in> blob_bytes fdt (fdt_totalsize K fdt)" for a
    proof -
      have off: "\<forall>r \<in> set ?R. frame a \<notin> region_bitmap r" using that blob(2) by (simp add: blob_off_bitmaps_def)
      then have "mem s4 a = mem s3 a" using r4 unfolding reserved_def by blast
      also have "\<dots> = mem s a" using off m3 by (simp add: s2)
      finally show ?thesis by (simp add: load_byte_low kb kb4)
    qed
    then show ?thesis using blob(1) unfolding size_in_blob_def K by blast
  qed
  have "\<exists>s5. reserve_fdt_pages L fdt s4 = (True, s5)
      \<and> reserved ?R fdt (NUM_PAGES (ucast (fdt_totalsize K fdt))) s4 s5"
    unfolding reserve_fdt_pages_def Let_def size sel4 vk by (rule report_ok [OF reserve_announced [OF inv4 fits dtb]])
  then obtain s5 where s5: "reserve_fdt_pages L fdt s4 = (True, s5)"
    and r5: "reserved ?R fdt (NUM_PAGES (ucast (fdt_totalsize K fdt))) s4 s5" by blast
  have inv5: "alloc_inv s5" "chunk_sets s5 = region_frames ` set ?R" using r5 unfolding reserved_def by blast+
  have u: "\<forall>f. frame_used s4 f \<longleftrightarrow> frame_used s3 f \<or> f \<in> block_frames (sym_addr s image_start) (NUM_PAGES (get_image_size s))"
    "\<forall>f. frame_used s5 f \<longleftrightarrow> frame_used s4 f \<or> f \<in> block_frames fdt (NUM_PAGES (ucast (fdt_totalsize K fdt)))"
    using r4 r5 unfolding reserved_def by blast+
  have mem: "mem s5 a = mem s a" if "\<forall>r \<in> set ?R. frame a \<notin> region_bitmap r" for a
  proof -
    have "mem s5 a = mem s4 a" "mem s4 a = mem s3 a" using that r4 r5 unfolding reserved_def by blast+
    then show ?thesis using that m3 by (simp add: s2)
  qed
  have "frame_used s f = False" for f using empty by (simp add: frame_used_def)
  then have "\<forall>f. frame_used s5 f \<longleftrightarrow> (\<exists>r \<in> set ?R. f \<in> region_bitmap r)
         \<or> f \<in> block_frames (sym_addr s image_start) (NUM_PAGES (get_image_size s))
         \<or> f \<in> block_frames fdt (NUM_PAGES (ucast (fdt_totalsize K fdt)))"
    using u3 u by (simp add: s2)
  moreover have "setup_page_allocator L m0 fdt s = Some (True, s5)"
    using mm(1,2) by (simp add: setup_page_allocator_def load_byte_console K [symmetric] c1 wf s3(1) s4 s5)
  moreover have "\<forall>f. frame_managed s5 f \<longleftrightarrow> (\<exists>r \<in> set ?R. f \<in> region_frames r)"
    by (simp add: managed_chunk_sets inv5)
  moreover have "\<forall>a. sym_addr s image_start \<le> a \<and> a < sym_addr s image_end \<longrightarrow> mem s5 a = mem s a"
    using mem image_not_bitmap rs(2) by blast
  moreover have "\<forall>f. is_bitmap_frame s5 f \<longleftrightarrow> (\<exists>r \<in> set ?R. f \<in> region_bitmap r)"
    using bitmap_frame_regions [OF inv5(2) fits] by blast
  moreover have "s5 = s\<lparr>mem := mem s5, mem_chunks := mem_chunks s5, console := console s5\<rparr>"
  proof -
    have e5: "s5 = s4\<lparr>mem := mem s5, console := console s5\<rparr>" using r5 unfolding reserved_def by blast
    have x3: "s3\<lparr>mem := m, mem_chunks := y, console := c\<rparr> = s\<lparr>mem := m, mem_chunks := y, console := c\<rparr>" for m y c
      by (subst e3) (simp add: s2)
    have x4: "s4\<lparr>mem := m, mem_chunks := y, console := c\<rparr> = s3\<lparr>mem := m, mem_chunks := y, console := c\<rparr>" for m y c
      by (subst e4) simp
    have x5: "s5\<lparr>mem := m, mem_chunks := y, console := c\<rparr> = s4\<lparr>mem := m, mem_chunks := y, console := c\<rparr>" for m y c
      by (subst e5) simp
    have "s5 = s5\<lparr>mem := mem s5, mem_chunks := mem_chunks s5, console := console s5\<rparr>" by simp
    also have "\<dots> = s\<lparr>mem := mem s5, mem_chunks := mem_chunks s5, console := console s5\<rparr>" by (simp only: x5 x4 x3)
    finally show ?thesis .
  qed
  moreover have "\<forall>a. (\<forall>r \<in> set ?R. frame a \<notin> region_bitmap r) \<longrightarrow> mem s5 a = mem s a" using mem by blast
  ultimately show ?thesis using inv5 by (intro exI [of _ s5] conjI) assumption+
qed

text \<open>
  C14. \<^verbatim>\<open>setup_page_allocator\<close>: from an allocator without regions, with a valid device tree blob whose memory
  map lists at most ten disjoint regions of whole pages, whose bitmaps do not fall on the kernel
  image, with the image and the blob each inside one region and no byte of the blob on a
  bitmap, the set-up succeeds and establishes the
  invariant of the allocator. The managed frames are exactly the whole pages of the regions; the
  used frames are exactly those of the bitmaps, the kernel image and the blob. No byte outside the
  bitmaps changes; in particular the image and the blob keep their contents. The condition on the
  blob is needed: its size is read only after the bitmaps have been written, and nothing in the code
  keeps a bitmap off the blob. Of libfdt it is assumed that the size it reports depends on the bytes of
  the blob only.
\<close>

theorem setup_page_allocator_establishes:
  assumes inv: "alloc_inv s" and empty: "inits s = {}" and kb: "kernel_base_va s = 0"
    and K: "K = L (load_byte s)"
    and fdt: "fdt \<noteq> 0" "fdt_check_header K fdt = 0" "0 < FDT_ERR_INTERNAL K"
    and mm: "get_mem K fdt (Some m0) (snd (check_fdt K fdt s)) = Some (r, Some mm, s2)" "0 \<le> r"
    and rs: "length (regions mm) \<le> 10" "\<forall>r \<in> set (regions mm). usable_region s r" "apart_regions (regions mm)"
    and img: "in_one_region (regions mm) (sym_addr s image_start) (NUM_PAGES (get_image_size s))"
    and dtb: "in_one_region (regions mm) fdt (NUM_PAGES (ucast (fdt_totalsize K fdt)))"
    and blob: "size_in_blob L fdt s" "blob_off_bitmaps fdt (fdt_totalsize K fdt) (regions mm)"
  shows "\<exists>s'. setup_page_allocator L m0 fdt s = Some (True, s') \<and> alloc_inv s'
    \<and> (\<forall>f. frame_managed s' f \<longleftrightarrow> (\<exists>r \<in> set (regions mm). f \<in> region_frames r))
    \<and> (\<forall>f. frame_used s' f \<longleftrightarrow> (\<exists>r \<in> set (regions mm). f \<in> region_bitmap r)
         \<or> f \<in> block_frames (sym_addr s image_start) (NUM_PAGES (get_image_size s))
         \<or> f \<in> block_frames fdt (NUM_PAGES (ucast (fdt_totalsize K fdt))))
    \<and> (\<forall>a. (\<forall>r \<in> set (regions mm). frame a \<notin> region_bitmap r) \<longrightarrow> mem s' a = mem s a)
    \<and> (\<forall>a. sym_addr s image_start \<le> a \<and> a < sym_addr s image_end \<longrightarrow> mem s' a = mem s a)"
  using setup_page_allocator_run [OF assms] by (elim exE conjE) (intro exI conjI, assumption+)

end
