(* ===== verification/Id_Map.thy ===== *)
theory Id_Map
  imports Page_Table_Maps
begin

text \<open>
  \<^verbatim>\<open>setup_kernel_id_map\<close>: the six pages between the linker symbols are exactly enough for the identity
  map of a kernel image inside one 2 MB block and of the serial device below 512 GB.
\<close>

section \<open>The pool of table pages\<close>

text \<open>The pool after it has been added and its first page has become the root table.\<close>

definition id_map_pool :: "phy_addr \<Rightarrow> 'a alloc_state_scheme \<Rightarrow> bool" where
  "id_map_pool I s \<longleftrightarrow> (\<exists>i. inits s = {i} \<and> mem_base (mem_chunks s ! i) = I
     \<and> chunk_frames (mem_chunks s ! i) = {frame I ..< frame I + 7} \<and> bitmap_frames (mem_chunks s ! i) = {frame I})"

lemma pool_view:
  assumes "id_map_pool I s"
  shows "frame_managed s f \<longleftrightarrow> f \<in> {frame I ..< frame I + 7}" "is_bitmap_frame s f \<longleftrightarrow> f = frame I"
  using assms by (auto simp: id_map_pool_def frame_managed_def is_bitmap_frame_def)

lemma id_map_pool_mem [simp]: "id_map_pool I (s\<lparr>mem := m\<rparr>) = id_map_pool I s"
  by (simp add: id_map_pool_def)

lemma aligned_step:
  assumes "page_aligned I" "unat I + k * 4096 < 2 ^ 64"
  shows "unat (I + of_nat k * PAGE_SIZE) = unat I + k * 4096" "page_aligned (I + of_nat k * PAGE_SIZE)"
    "frame (I + of_nat k * PAGE_SIZE) = frame I + k"
proof -
  have "unat (of_nat k * PAGE_SIZE) = k * 4096"
    using assms(2) by (subst unat_mult64) (simp_all add: unat_of_nat64 PAGE_SIZE_def)
  then show u: "unat (I + of_nat k * PAGE_SIZE) = unat I + k * 4096" using assms(2) by (subst unat_add64) simp_all
  show "page_aligned (I + of_nat k * PAGE_SIZE)" using assms(1) unfolding page_aligned_def u by simp
  show "frame (I + of_nat k * PAGE_SIZE) = frame I + k" by (simp add: frame_def u)
qed

lemma add_pool:
  assumes inv: "alloc_inv s" and empty: "inits s = {}" and kb: "kernel_base_va s = 0"
    and I: "page_aligned I" "I \<noteq> 0" "unat I + 7 * 4096 \<le> 2 ^ 48"
  shows "\<exists>s'. page_allocator_add_region I (ID_MAP_SIZE + PAGE_SIZE) False s = (True, s') \<and> alloc_inv s'
    \<and> id_map_pool I s' \<and> (\<forall>f. frame_used s' f \<longleftrightarrow> f = frame I)
    \<and> (\<forall>a. frame a \<noteq> frame I \<longrightarrow> mem s' a = mem s a)
    \<and> s' = s\<lparr>mem := mem s', mem_chunks := mem_chunks s'\<rparr>"
proof -
  have len: "length (mem_chunks s) = 10" using inv by (simp add: alloc_inv_def MAX_MEM_CHUNKS_def)
  then obtain c cs where cs: "mem_chunks s = c # cs" by (cases "mem_chunks s") auto
  have "0 \<notin> inits s" using empty by simp
  then have slot: "find_region_slot_from (mem_chunks s) 0 I = Some 0" by (simp add: inits_def cs)
  define sz where "sz = ID_MAP_SIZE + PAGE_SIZE"
  have sz: "unat sz = 7 * 4096" by (simp add: sz_def ID_MAP_SIZE_def PAGE_SIZE_def)
  have f: "(unat I + 4095) div 4096 = frame I" "(unat I + unat sz) div 4096 = frame I + 7"
    using I(1) by (auto simp: frame_def page_aligned_def sz)
  have fits: "region_fits I sz" using I(3) f by (simp add: region_fits_def sz)
  have "unat (region_base I) = unat I"
    using region_base_unat [of I] I(1,3) f(1) by (simp add: page_aligned_unat)
  then have rb: "region_base I = I" by (simp add: word_unat_eq_iff)
  obtain s' where s': "page_allocator_add_region I sz False s = (True, s')" "alloc_inv s'"
    "inits s' = insert 0 (inits s)"
    "chunk_frames (mem_chunks s' ! 0) = {(unat I + 4095) div 4096 ..< (unat I + unat sz) div 4096}"
    "\<forall>f \<in> chunk_frames (mem_chunks s' ! 0). frame_used s' f \<longleftrightarrow> f \<in> bitmap_frames (mem_chunks s' ! 0)"
    "\<forall>a. frame a \<notin> bitmap_frames (mem_chunks s' ! 0) \<longrightarrow> mem s' a = mem s a"
    and e: "s' = s\<lparr>mem := mem s', mem_chunks := mem_chunks s'\<rparr>"
    using add_region_effect [OF inv slot fits, of False] rb I(2) kb empty by (auto simp: pa_to_va_def)
  define d where "d = mem_chunks s' ! 0"
  have sh: "chunk_shape d s'" using alloc_invD(1) [OF s'(2), of 0] s'(3) by (simp add: d_def)
  have cf: "chunk_frames d = {frame I ..< frame I + 7}" using s'(4) by (simp only: d_def f)
  then have "{frame (mem_base d) ..< frame (mem_base d) + unat (total_pages d)} = {frame I ..< frame I + 7}"
    by (simp only: chunk_frames_def)
  moreover have "frame (mem_base d) < frame (mem_base d) + unat (total_pages d)"
    using sh by (simp add: chunk_shape_def unat_gt_0)
  ultimately have eq: "frame (mem_base d) = frame I" "unat (total_pages d) = 7"
    using atLeastLessThan_inj [of "frame (mem_base d)" "frame (mem_base d) + unat (total_pages d)" "frame I" "frame I + 7"]
    by auto
  then have bm: "bitmap_frames d = {frame I}" by (auto simp: bitmap_frames_def bitmap_page_count_def)
  have "mem_base d = I" using page_aligned_inj [OF _ I(1) eq(1)] sh by (simp add: chunk_shape_def)
  then have pool: "id_map_pool I s'" using s'(3) cf bm empty by (simp add: id_map_pool_def d_def)
  have "frame_used s' f \<longleftrightarrow> f = frame I" for f
  proof (cases "f \<in> {frame I ..< frame I + 7}")
    case True
    then show ?thesis using s'(5) cf bm by (auto simp: d_def)
  next
    case False
    then have "\<not> frame_managed s' f" by (simp add: pool_view(1) [OF pool])
    with False show ?thesis by (auto simp: frame_managed_def frame_used_def)
  qed
  with s'(1,2,6) pool bm e show ?thesis unfolding sz_def [symmetric] d_def [symmetric] by blast
qed

lemma alloc_root:
  assumes inv: "alloc_inv s" and pool: "id_map_pool I s" and used: "\<And>f. frame_used s f \<longleftrightarrow> f = frame I"
    and I: "page_aligned I" "I \<noteq> 0" "unat I + 7 * 4096 \<le> 2 ^ 48"
  shows "\<exists>s'. page_alloc 1 s = (I + PAGE_SIZE, s') \<and> alloc_inv s' \<and> s' = s\<lparr>mem := mem s'\<rparr>
    \<and> (\<forall>f. frame_used s' f \<longleftrightarrow> f = frame I \<or> f = Suc (frame I))
    \<and> (\<forall>a. frame a \<noteq> frame I \<longrightarrow> mem s' a = mem s a)"
proof -
  have "Suc (frame I) \<in> free_frames s" by (simp add: free_frames_def pool_view [OF pool] used)
  then have ne: "free_frames s \<noteq> {}" by blast
  obtain p s' where a: "page_alloc 1 s = (p, s')" by fastforce
  then have p: "p \<noteq> PHYS_ADDR_NULL" using page_alloc_one [OF inv ne] by simp
  obtain ci c where ci: "ci \<in> inits s" and c: "c = mem_chunks s ! ci" and al: "page_aligned p"
    and sub: "block_frames p 1 \<subseteq> chunk_frames c" and free: "\<forall>f \<in> block_frames p 1. \<not> frame_used s f"
    and us: "\<And>f. frame_used s' f \<longleftrightarrow> frame_used s f \<or> f \<in> block_frames p 1"
    and inv': "alloc_inv s'" "s' = s\<lparr>mem := mem s'\<rparr>" and out: "\<And>a. frame a \<notin> bitmap_frames c \<Longrightarrow> mem s' a = mem s a"
    and first: "\<And>b. {frame (mem_base c) + b ..< frame (mem_base c) + b + unat (1 :: u64)} \<subseteq> chunk_frames c \<Longrightarrow>
       \<forall>f \<in> {frame (mem_base c) + b ..< frame (mem_base c) + b + unat (1 :: u64)}. \<not> frame_used s f \<Longrightarrow>
       frame p \<le> frame (mem_base c) + b"
    by (rule page_alloc_success [OF inv a p]) blast
  have c': "mem_base c = I" "chunk_frames c = {frame I ..< frame I + 7}" "bitmap_frames c = {frame I}"
    using pool ci by (auto simp: id_map_pool_def c)
  have bf: "block_frames p 1 = {frame p}" by (simp add: block_frames_def)
  have "frame p \<le> frame I + 1" using first [of 1] by (simp add: c' used)
  moreover have "frame p \<noteq> frame I" "frame I \<le> frame p" using free sub by (auto simp: bf used c')
  ultimately have fp: "frame p = Suc (frame I)" by simp
  have "frame (I + PAGE_SIZE) = Suc (frame I)" "page_aligned (I + PAGE_SIZE)"
    using aligned_step [OF I(1), of 1] I(3) by simp_all
  then have "p = I + PAGE_SIZE" using page_aligned_inj [OF al] fp by metis
  moreover have "\<forall>f. frame_used s' f \<longleftrightarrow> f = frame I \<or> f = Suc (frame I)" using us by (simp add: bf fp used)
  ultimately show ?thesis using a inv' out by (auto simp: c')
qed

section \<open>Mapping pages that share their tables\<close>

lemma run_shared_path:
  assumes "pt_ok s root" "\<forall>x \<in> set xs. page_aligned x \<and> va_path x = P" "table_at (mem s) root P \<noteq> None"
  shows "\<exists>s'. run_steps (\<lambda>x. map_page (pa_to_va s root) x x perms mt) xs s = (True, s')
    \<and> card (free_frames s) \<le> card (free_frames s') \<and> table_at (mem s') root P \<noteq> None"
  using assms
proof (induction xs arbitrary: s)
  case (Cons x xs)
  have x: "page_aligned x" "va_path x = P" using Cons.prems(2) by simp_all
  have "table_at (mem s) root (take 3 (va_path x)) \<noteq> None" using Cons.prems(3) x(2) va_path_ok(2) [of x] by simp
  then obtain s1 where s1: "map_page (pa_to_va s root) x x perms mt s = (True, s1)"
    "card (free_frames s) \<le> card (free_frames s1)" "table_at (mem s1) root P \<noteq> None"
    using map_page_budget [OF Cons.prems(1) x(1) x(1), of 3 perms mt] x(2) by auto
  note eff = map_page_effect [OF Cons.prems(1) s1(1)]
  have "pa_to_va s1 = pa_to_va s" by (subst eff(2)) simp
  with Cons.IH [OF eff(1) _ s1(3)] Cons.prems(2) s1 show ?case by fastforce
qed auto

lemma run_one_block:
  assumes ok: "pt_ok s root" and xs: "\<forall>x \<in> set xs. page_aligned x \<and> va_path x = P" "xs \<noteq> []"
    and fr: "3 \<le> card (free_frames s)"
  shows "\<exists>s'. run_steps (\<lambda>x. map_page (pa_to_va s root) x x perms mt) xs s = (True, s')
    \<and> card (free_frames s) \<le> card (free_frames s') + 3 \<and> table_at (mem s') root P \<noteq> None"
proof -
  obtain x ys where x: "xs = x # ys" "page_aligned x" "va_path x = P" using xs by (cases xs) auto
  obtain s1 where s1: "map_page (pa_to_va s root) x x perms mt s = (True, s1)"
    "card (free_frames s) \<le> card (free_frames s1) + 3" "table_at (mem s1) root P \<noteq> None"
    using map_page_budget [OF ok x(2) x(2), of 0 perms mt] x(3) fr by auto
  note eff = map_page_effect [OF ok s1(1)]
  have "pa_to_va s1 = pa_to_va s" by (subst eff(2)) simp
  with run_shared_path [OF eff(1) _ s1(3), of ys perms mt] xs(1) s1 x(1) show ?thesis by fastforce
qed

text \<open>Addresses below \<open>2 ^ 48\<close> in one 2 MB block share their tables; below 512 GB they share the first one.\<close>

lemma va_path_block:
  assumes "unat x div 2 ^ 21 = unat y div 2 ^ 21"
  shows "va_path x = va_path y"
proof -
  have "drop_bit 21 x = drop_bit 21 y"
    using assms by (simp add: word_unat_eq_iff unat_div64 drop_bit_eq_div)
  then have d: "drop_bit (k + 21) x = drop_bit (k + 21) y" for k by (simp flip: drop_bit_drop_bit)
  show ?thesis using d [of 18] d [of 9] d [of 0] by (simp add: va_path_def)
qed

lemma va_path_low:
  assumes "unat x < 2 ^ 39"
  shows "take 1 (va_path x) = [0]"
proof -
  have "drop_bit 39 x = 0" using assms by (simp add: word_unat_eq_iff unat_div64 drop_bit_eq_div)
  then show ?thesis by (simp add: va_path_def)
qed

lemma va_page_low:
  assumes "unat x < 2 ^ 48"
  shows "va_page x = drop_bit 12 x"
proof -
  have "unat (take_bit 48 x) = unat x mod 2 ^ 48"
    by (simp only: unsigned_take_bit_eq) (simp add: take_bit_eq_mod)
  then have "take_bit 48 x = x" using assms by (simp add: word_unat_eq_iff)
  then show ?thesis by (simp only: va_page_def)
qed

section \<open>The identity map\<close>

definition image_page :: "'a mem_state_scheme \<Rightarrow> phy_addr \<Rightarrow> bool" where
  "image_page s x \<longleftrightarrow> page_aligned x \<and> sym_addr s image_start \<le> x \<and> x < sym_addr s image_end"

text \<open>The layout the linker script gives, and the placement of the image and of the serial device.\<close>

definition id_map_layout :: "'a mem_state_scheme \<Rightarrow> phy_addr \<Rightarrow> bool" where
  "id_map_layout s dev \<longleftrightarrow>
     (let I = get_id_map_region_start s; A = sym_addr s image_start; E = sym_addr s image_end
      in page_aligned I \<and> I \<noteq> 0 \<and> unat I + 7 * 4096 \<le> 2 ^ 48 \<and> get_id_map_root s = I + PAGE_SIZE
         \<and> page_aligned A \<and> A < E \<and> unat E \<le> 2 ^ 39 \<and> unat A div 2 ^ 21 = (unat E - 1) div 2 ^ 21
         \<and> page_aligned dev \<and> unat dev < 2 ^ 39 \<and> (dev < A \<or> E \<le> dev))"

text \<open>The tables the set-up leaves behind.\<close>

definition id_mapped :: "'a mem_state_scheme \<Rightarrow> phy_addr \<Rightarrow> memory \<Rightarrow> bool" where
  "id_mapped s dev m \<longleftrightarrow>
     (let R = get_id_map_root s
      in pt_tree m R \<and> table_frames m R \<subseteq> {Suc (frame (get_id_map_region_start s)) ..< frame (get_id_map_region_start s) + 7}
         \<and> (\<forall>x. image_page s x \<longrightarrow> translate m R x = Leaf 3 (leaf_desc x rwx_perms NORMAL))
         \<and> translate m R dev = Leaf 3 (leaf_desc dev rw_perms DEVICE)
         \<and> (\<forall>w. va_page w \<noteq> drop_bit 12 dev \<and> (\<forall>x. image_page s x \<longrightarrow> va_page w \<noteq> drop_bit 12 x) \<longrightarrow>
              translate m R w = Fault))"

lemma image_pages:
  assumes "id_map_layout s dev"
  defines "xs \<equiv> page_addrs (sym_addr s image_start) (sym_addr s image_end)"
  shows "unat (sym_addr s image_end) + 4096 \<le> 2 ^ 64" "x \<in> set xs \<longleftrightarrow> image_page s x" "xs \<noteq> []"
    and "\<forall>x \<in> set xs. page_aligned x \<and> va_path x = va_path (sym_addr s image_start)"
    and "distinct (map va_page xs)" "image_page s x \<Longrightarrow> unat x < 2 ^ 39" "image_page s x \<Longrightarrow> drop_bit 12 x \<noteq> drop_bit 12 dev"
proof -
  let ?A = "sym_addr s image_start" and ?E = "sym_addr s image_end"
  have l: "page_aligned ?A" "?A < ?E" "unat ?E \<le> 2 ^ 39" "unat ?A div 2 ^ 21 = (unat ?E - 1) div 2 ^ 21"
    "page_aligned dev" "dev < ?A \<or> ?E \<le> dev"
    using assms(1) by (simp_all add: id_map_layout_def Let_def)
  show e: "unat ?E + 4096 \<le> 2 ^ 64" using l(3) by simp
  have mem: "x \<in> set xs \<longleftrightarrow> image_page s x" for x
    using set_page_addrs [OF l(1) e, of x] by (simp add: xs_def image_page_def)
  then show "x \<in> set xs \<longleftrightarrow> image_page s x" .
  have "?A \<in> set xs" unfolding mem using l(1,2) by (simp add: image_page_def)
  then show "xs \<noteq> []" by auto
  show low: "unat x < 2 ^ 39" if "image_page s x" for x
    using that l(3) by (simp add: image_page_def word_less_nat_alt)
  show "\<forall>x \<in> set xs. page_aligned x \<and> va_path x = va_path ?A"
  proof
    fix x assume "x \<in> set xs"
    then have x: "page_aligned x" "unat ?A \<le> unat x" "unat x \<le> unat ?E - 1"
      using mem [of x] by (auto simp: image_page_def word_le_nat_alt word_less_nat_alt)
    then have "unat ?A div 2 ^ 21 \<le> unat x div 2 ^ 21" "unat x div 2 ^ 21 \<le> (unat ?E - 1) div 2 ^ 21"
      by (simp_all only: div_le_mono)
    then have "unat x div 2 ^ 21 = unat ?A div 2 ^ 21" using l(4) by linarith
    with x(1) show "page_aligned x \<and> va_path x = va_path ?A" using va_path_block by blast
  qed
  have vp: "va_page x = drop_bit 12 x" "page_aligned x" if "x \<in> set xs" for x
    using low [of x] that by (simp_all add: mem va_page_low image_page_def)
  show "distinct (map va_page xs)"
    using distinct_page_addrs [OF e, of ?A] vp by (auto simp: distinct_map inj_on_def simp flip: xs_def intro: drop_bit12_inj)
  show "drop_bit 12 x \<noteq> drop_bit 12 dev" if "image_page s x"
    using drop_bit12_inj [OF _ l(5), of x] that l(6) by (auto simp: image_page_def)
qed

lemma outside_pool_foreign:
  assumes "id_map_pool I s" "table_frames (mem s) R \<subseteq> {frame I ..< frame I + 7}" "frame a \<notin> {frame I ..< frame I + 7}"
  shows "foreign s R a"
  using assms pool_view [OF assms(1), of "frame a"] by (auto simp: foreign_def)

text \<open>The pool with its root table: what the loops start from.\<close>

definition id_map_start :: "phy_addr \<Rightarrow> 'a alloc_state_scheme \<Rightarrow> bool" where
  "id_map_start I s \<longleftrightarrow> id_map_pool I s \<and> pt_ok s (I + PAGE_SIZE) \<and> (\<forall>w. translate (mem s) (I + PAGE_SIZE) w = Fault)
     \<and> table_frames (mem s) (I + PAGE_SIZE) = {Suc (frame I)} \<and> card (free_frames s) = 5"

lemma id_map_start_reached:
  assumes inv: "alloc_inv s" and empty: "inits s = {}" and kb: "kernel_base_va s = 0"
    and I: "page_aligned I" "I \<noteq> 0" "unat I + 7 * 4096 \<le> 2 ^ 48"
    and zero: "\<And>x. frame x = Suc (frame I) \<Longrightarrow> mem s x = 0"
  obtains s1 s2 where "page_allocator_add_region I (ID_MAP_SIZE + PAGE_SIZE) False s = (True, s1)"
    "page_alloc 1 s1 = (I + PAGE_SIZE, s2)" "id_map_start I s2"
    "s2 = s\<lparr>mem := mem s2, mem_chunks := mem_chunks s2\<rparr>" "\<forall>a. frame a \<noteq> frame I \<longrightarrow> mem s2 a = mem s a"
    "I + PAGE_SIZE \<noteq> PHYS_ADDR_NULL"
proof -
  let ?R = "I + PAGE_SIZE"
  obtain s1 where s1: "page_allocator_add_region I (ID_MAP_SIZE + PAGE_SIZE) False s = (True, s1)" "alloc_inv s1"
    and pool1: "id_map_pool I s1" and u1: "\<And>f. frame_used s1 f \<longleftrightarrow> f = frame I"
    and m1: "\<And>a. frame a \<noteq> frame I \<Longrightarrow> mem s1 a = mem s a"
    and e1: "s1 = s\<lparr>mem := mem s1, mem_chunks := mem_chunks s1\<rparr>"
    using add_pool [OF inv empty kb I] by blast
  obtain s2 where s2: "page_alloc 1 s1 = (?R, s2)" "alloc_inv s2" and e2: "s2 = s1\<lparr>mem := mem s2\<rparr>"
    and u2: "\<And>f. frame_used s2 f \<longleftrightarrow> f = frame I \<or> f = Suc (frame I)"
    and m2: "\<And>a. frame a \<noteq> frame I \<Longrightarrow> mem s2 a = mem s1 a"
    using alloc_root [OF s1(2) pool1 u1 I] by auto
  have pool2: "id_map_pool I s2" by (subst e2) (simp add: pool1)
  have e12: "s2 = s\<lparr>mem := mem s2, mem_chunks := mem_chunks s2\<rparr>" by (subst (1 2 3) e2, subst e1) simp
  have kb2: "kernel_base_va s2 = 0" by (subst e12) (simp add: kb)
  have R: "frame ?R = Suc (frame I)" "page_aligned ?R" "unat ?R = unat I + 4096"
    using aligned_step [OF I(1), of 1] I(3) by simp_all
  have tok: "table_ok ?R" using R I(3) by (auto simp: table_ok_def)
  have lim: "\<forall>i \<in> inits s2. \<forall>f \<in> chunk_frames (mem_chunks s2 ! i). f < 2 ^ 36"
    using pool2 I(3) by (auto simp: id_map_pool_def frame_def)
  have "mem s2 x = 0" if "frame x = frame ?R" for x
    using zero [of x] m1 [of x] m2 [of x] that by (simp add: R(1))
  note zr = pt_ok_zero_root [OF s2(2) tok _ _ lim _ this]
  have "pt_ok s2 ?R" "translate (mem s2) ?R w = Fault" "table_frames (mem s2) ?R = {frame ?R}" for w
    by (rule zr; simp add: pool_view [OF pool2] R(1) u2 kb2)+
  moreover have "free_frames s2 = {frame I + 2 ..< frame I + 7}"
    by (auto simp: free_frames_def pool_view [OF pool2] u2)
  ultimately have "id_map_start I s2" using pool2 R(1) by (simp add: id_map_start_def)
  moreover have "?R \<noteq> PHYS_ADDR_NULL" using tok by (simp add: table_ok_def PHYS_ADDR_NULL_def)
  ultimately show thesis using that s1(1) s2(1) e12 m1 m2 by simp
qed

lemma id_map_pages:
  assumes st: "id_map_start I s2" and lay: "id_map_layout s dev"
    and I: "get_id_map_region_start s = I" and kb: "kernel_base_va s2 = 0"
  obtains s3 s4 where
    "run_steps (\<lambda>x. map_page (I + PAGE_SIZE) x x rwx_perms NORMAL) (page_addrs (sym_addr s image_start) (sym_addr s image_end)) s2
       = (True, s3)"
    "map_page (I + PAGE_SIZE) dev dev rw_perms DEVICE s3 = (True, s4)" "pt_ok s4 (I + PAGE_SIZE)"
    "s3 = s2\<lparr>mem := mem s3\<rparr>" "s4 = s2\<lparr>mem := mem s4\<rparr>" "id_mapped s dev (mem s4)"
    "\<forall>a. frame a \<notin> {frame I ..< frame I + 7} \<longrightarrow> mem s4 a = mem s2 a"
proof -
  define R where "R = I + PAGE_SIZE"
  let ?A = "sym_addr s image_start" and ?E = "sym_addr s image_end"
  have root: "get_id_map_root s = R" and dev: "page_aligned dev" "unat dev < 2 ^ 39" and A: "unat ?A < 2 ^ 39"
    using lay I by (simp_all add: id_map_layout_def Let_def R_def word_less_nat_alt)
  have pool: "id_map_pool I s2" and ok2: "pt_ok s2 R" and f2: "\<And>w. translate (mem s2) R w = Fault"
    and t2: "table_frames (mem s2) R = {Suc (frame I)}" and free: "card (free_frames s2) = 5"
    using st by (simp_all add: id_map_start_def R_def)
  have pv2: "pa_to_va s2 = (\<lambda>x. x)" by (simp add: pa_to_va_def kb fun_eq_iff)
  note im = image_pages [OF lay]
  let ?xs = "page_addrs ?A ?E" and ?step = "\<lambda>x. map_page (pa_to_va s2 R) x x rwx_perms NORMAL"
  obtain s3 where s3: "run_steps ?step ?xs s2 = (True, s3)" "5 \<le> card (free_frames s3) + 3"
    and p3: "table_at (mem s3) R (va_path ?A) \<noteq> None"
    using run_one_block [OF ok2 im(4) im(3)] free by fastforce
  have r3: "pt_ok s3 R \<and> s3 = s2\<lparr>mem := mem s3\<rparr>
    \<and> (\<forall>x \<in> set ?xs. translate (mem s3) R x = Leaf 3 (leaf_desc x rwx_perms NORMAL))
    \<and> (\<forall>w. va_page w \<notin> (\<lambda>x. va_page x) ` set ?xs \<longrightarrow> translate (mem s3) R w = translate (mem s2) R w)
    \<and> (\<forall>a. foreign s2 R a \<longrightarrow> foreign s3 R a \<and> mem s3 a = mem s2 a)"
    using im(5) by (intro run_map_pages [OF ok2 s3(1)]) (simp_all add: rwx_perms_def)
  have ok3: "pt_ok s3 R" and e3: "s3 = s2\<lparr>mem := mem s3\<rparr>" using r3 by blast+
  have pv3: "pa_to_va s3 = (\<lambda>x. x)" by (subst e3) (simp add: pv2)
  have "table_at (mem s3) R (take 1 (va_path dev)) \<noteq> None"
  proof -
    have "table_at (mem s3) R (take 1 (va_path ?A) @ drop 1 (va_path ?A)) \<noteq> None" using p3 by simp
    then have "table_at (mem s3) R (take 1 (va_path ?A)) \<noteq> None"
      unfolding table_at_append by (cases "table_at (mem s3) R (take 1 (va_path ?A))") simp_all
    then show ?thesis using va_path_low dev(2) A by simp
  qed
  then obtain s4 where s4: "map_page R dev dev rw_perms DEVICE s3 = (True, s4)"
    using map_page_budget [OF ok3 dev(1) dev(1), of 1 rw_perms DEVICE] s3(2) by (auto simp: pv3)
  note eff = map_page_effect [OF ok3, unfolded pv3, OF s4]
  have e4: "s4 = s2\<lparr>mem := mem s4\<rparr>" using eff(2) by (subst (asm) e3) simp
  have out: "foreign s4 R a \<and> mem s4 a = mem s2 a" if "frame a \<notin> {frame I ..< frame I + 7}" for a
    using outside_pool_foreign [OF pool _ that, of R] r3 eff(5) [of a] by (simp add: t2)
  have "id_mapped s dev (mem s4)" unfolding id_mapped_def Let_def root I
  proof (intro conjI allI impI)
    show "pt_tree (mem s4) R" by (rule pt_okD(2) [OF eff(1)])
    show "table_frames (mem s4) R \<subseteq> {Suc (frame I) ..< frame I + 7}"
    proof
      fix f assume f: "f \<in> table_frames (mem s4) R"
      then obtain t where "f = frame t" by (auto simp: table_frames_def)
      with f have "f \<in> {frame I ..< frame I + 7}" using out [of t] by (auto simp: foreign_def)
      moreover have "is_bitmap_frame s4 (frame I)" by (subst e4) (simp add: pool_view [OF pool])
      then have "f \<noteq> frame I" using pt_okD(3) [OF eff(1) f] by auto
      ultimately show "f \<in> {Suc (frame I) ..< frame I + 7}" by auto
    qed
    show "translate (mem s4) R x = Leaf 3 (leaf_desc x rwx_perms NORMAL)" if "image_page s x" for x
      using that im(2,6,7) [of x] eff(4) [of x] r3 dev(2) by (simp add: va_page_low)
    show "translate (mem s4) R dev = Leaf 3 (leaf_desc dev rw_perms DEVICE)" using eff(3) by (simp add: rw_perms_def)
    show "translate (mem s4) R w = Fault"
      if "va_page w \<noteq> drop_bit 12 dev \<and> (\<forall>x. image_page s x \<longrightarrow> va_page w \<noteq> drop_bit 12 x)" for w
    proof -
      have "va_page w \<noteq> va_page x" if "x \<in> set ?xs" for x
        using that im(2,6) [of x] \<open>va_page w \<noteq> drop_bit 12 dev \<and> _\<close> by (simp add: va_page_low)
      then have "va_page w \<notin> va_page ` set ?xs" by blast
      then have "translate (mem s3) R w = Fault" using r3 f2 by simp
      with that dev(2) show ?thesis using eff(4) [of w] by (simp add: va_page_low)
    qed
  qed
  with that [of s3 s4] s3(1) s4 eff(1) e3 e4 out show thesis by (simp add: pv2 R_def)
qed

lemma setup_id_map_run:
  assumes inv: "alloc_inv s" and empty: "inits s = {}" and kb: "kernel_base_va s = 0"
    and lay: "id_map_layout s dev"
    and zero: "\<And>x. frame x = Suc (frame (get_id_map_region_start s)) \<Longrightarrow> mem s x = 0"
  shows "\<exists>s'. setup_kernel_id_map dev s = Some (True, s') \<and> alloc_inv s' \<and> inits s' = {}
    \<and> s' = s\<lparr>mem := mem s', mem_chunks := mem_chunks s'\<rparr> \<and> id_mapped s dev (mem s')
    \<and> (\<forall>a. frame a \<notin> {frame (get_id_map_region_start s) ..< frame (get_id_map_region_start s) + 7} \<longrightarrow> mem s' a = mem s a)"
proof -
  define I where "I = get_id_map_region_start s"
  have I: "page_aligned I" "I \<noteq> 0" "unat I + 7 * 4096 \<le> 2 ^ 48" and root: "get_id_map_root s = I + PAGE_SIZE"
    using lay by (simp_all add: id_map_layout_def Let_def I_def)
  obtain s1 s2 where s12: "page_allocator_add_region I (ID_MAP_SIZE + PAGE_SIZE) False s = (True, s1)"
    "page_alloc 1 s1 = (I + PAGE_SIZE, s2)" and st: "id_map_start I s2"
    and e2: "s2 = s\<lparr>mem := mem s2, mem_chunks := mem_chunks s2\<rparr>" and m2: "\<forall>a. frame a \<noteq> frame I \<longrightarrow> mem s2 a = mem s a"
    and nn: "I + PAGE_SIZE \<noteq> PHYS_ADDR_NULL"
    by (rule id_map_start_reached [OF inv empty kb I zero [folded I_def]])
  have sel: "kernel_base_va s2 = 0" "sym_addr s2 = sym_addr s" by (subst e2, simp add: kb sym_addr_def fun_eq_iff)+
  obtain s3 s4 where s3: "run_steps (\<lambda>x. map_page (I + PAGE_SIZE) x x rwx_perms NORMAL)
      (page_addrs (sym_addr s image_start) (sym_addr s image_end)) s2 = (True, s3)"
    and s4: "map_page (I + PAGE_SIZE) dev dev rw_perms DEVICE s3 = (True, s4)" "pt_ok s4 (I + PAGE_SIZE)"
    and e3: "s3 = s2\<lparr>mem := mem s3\<rparr>" and e4: "s4 = s2\<lparr>mem := mem s4\<rparr>" and idm: "id_mapped s dev (mem s4)"
    and m4: "\<forall>a. frame a \<notin> {frame I ..< frame I + 7} \<longrightarrow> mem s4 a = mem s2 a"
    by (rule id_map_pages [OF st lay I_def [symmetric] sel(1)])
  obtain ok s' where rem: "page_allocator_remove_region I s4 = (ok, s')" by fastforce
  note rs = remove_region_spec [OF pt_okD(1) [OF s4(2)] rem]
  have "id_map_pool I s4" using st by (subst e4) (simp add: id_map_start_def)
  then have "ok" "inits s' = {}" using rs by (auto simp: id_map_pool_def)
  moreover have "s' = s\<lparr>mem := mem s', mem_chunks := mem_chunks s'\<rparr>"
  proof -
    obtain x where x: "s' = s4\<lparr>mem_chunks := x\<rparr>"
    proof
      show "s' = s4\<lparr>mem_chunks := mem_chunks s'\<rparr>"
        using rem by (auto simp: page_allocator_remove_region_def upd_chunk_def split: option.splits)
    qed
    have "s4\<lparr>mem_chunks := x\<rparr> = s\<lparr>mem := mem s4, mem_chunks := x\<rparr>" by (subst (1 2) e4, subst e2) simp
    then show ?thesis by (simp add: x)
  qed
  moreover have "get_id_map_root s3 = I + PAGE_SIZE" using root by (subst e3) (simp add: get_id_map_root_def sel(2))
  then have "setup_kernel_id_map dev s = Some (True, s')"
    using s12 nn s3 s4(1) rem image_pages(1) [OF lay] kb
    by (simp add: setup_kernel_id_map_def I_def [symmetric] root sel pa_to_va_def page_loop_runs)
  moreover have "mem s' a = mem s a" if "frame a \<notin> {frame I ..< frame I + 7}" for a
    using that m4 m2 rs by auto
  ultimately show ?thesis using rs idm by (simp add: I_def)
qed

text \<open>
  C15. \<^verbatim>\<open>setup_kernel_id_map\<close>: with the layout of the linker script, whose table pages are zero when the
  image is loaded, an image inside one 2 MB block and a device below 512 GB, the set-up succeeds:
  six pages are enough. Then exactly the pages of the image are identity mapped with all kernel
  rights and exactly the page of the device with device attributes, every other address faults,
  the temporary region is gone and no byte outside the seven pages has changed.
\<close>

theorem setup_kernel_id_map_correct:
  assumes inv: "alloc_inv s" and empty: "inits s = {}" and kb: "kernel_base_va s = 0"
    and lay: "id_map_layout s dev"
    and zero: "\<And>x. frame x = Suc (frame (get_id_map_region_start s)) \<Longrightarrow> mem s x = 0"
  shows "\<exists>s'. setup_kernel_id_map dev s = Some (True, s') \<and> alloc_inv s' \<and> inits s' = {}
    \<and> s' = s\<lparr>mem := mem s', mem_chunks := mem_chunks s'\<rparr> \<and> id_mapped s dev (mem s')
    \<and> (\<forall>a. frame a \<notin> {frame (get_id_map_region_start s) ..< frame (get_id_map_region_start s) + 7} \<longrightarrow> mem s' a = mem s a)"
  by (rule setup_id_map_run [OF assms])

end
