(* ===== verification/Boot_Correct.thy ===== *)
theory Boot_Correct
  imports Boot Setup_Correct Id_Map
begin

text \<open>
  What \<^verbatim>\<open>main\<close> achieves before it jumps to the high half: the identity map, the page allocator and
  the kernel map compose, and the MMU is turned on only when both address spaces are complete.
\<close>

section \<open>Parts of the state that do not matter to memory management\<close>

lemma same_machine:
  assumes "mem t = mem s" "mem_chunks t = mem_chunks s" "kernel_base_va t = kernel_base_va s"
  shows "inits t = inits s" "alloc_inv t = alloc_inv s" "frame_used t = frame_used s" "frame_managed t = frame_managed s"
    "is_bitmap_frame t = is_bitmap_frame s" "free_frames t = free_frames s" "pt_ok t root = pt_ok s root"
proof -
  show i: "inits t = inits s" using assms by (simp add: inits_def)
  have pu: "page_used d k t = page_used d k s" for d k
    using assms by (simp add: page_used_def bitmap_test_def load_byte_def va_to_pa_def)
  show a: "alloc_inv t = alloc_inv s"
    using assms by (simp add: alloc_inv_def i pu chunk_shape_def bitmap_marked_def pa_to_va_def)
  show u: "frame_used t = frame_used s" and m: "frame_managed t = frame_managed s"
    and b: "is_bitmap_frame t = is_bitmap_frame s"
    using assms by (simp_all add: fun_eq_iff frame_used_def frame_managed_def is_bitmap_frame_def i pu)
  then show "free_frames t = free_frames s" by (simp add: free_frames_def)
  show "pt_ok t root = pt_ok s root" using assms by (simp add: pt_ok_def a i u m b)
qed

lemma same_symbols:
  assumes "pc_base t = pc_base s" "syms t = syms s"
  shows "sym_addr t = sym_addr s" "get_image_size t = get_image_size s" "get_id_map_region_start t = get_id_map_region_start s"
    "get_id_map_root t = get_id_map_root s" "get_kernel_map_root t = get_kernel_map_root s"
    "image_page t = image_page s" "id_map_layout t dev = id_map_layout s dev" "id_mapped t dev m = id_mapped s dev m"
    "usable_region t r = usable_region s r" "region_perms t = region_perms s"
proof -
  show sy: "sym_addr t = sym_addr s" using assms by (simp add: sym_addr_def fun_eq_iff)
  then show im: "image_page t = image_page s" by (simp add: image_page_def fun_eq_iff)
  show "get_image_size t = get_image_size s" "get_id_map_region_start t = get_id_map_region_start s"
    "get_id_map_root t = get_id_map_root s" "get_kernel_map_root t = get_kernel_map_root s"
    by (simp_all add: get_image_size_def get_id_map_region_start_def get_id_map_root_def get_kernel_map_root_def sy)
  then show "id_map_layout t dev = id_map_layout s dev" "id_mapped t dev m = id_mapped s dev m"
    by (simp_all add: id_map_layout_def id_mapped_def sy im)
  show "usable_region t r = usable_region s r" by (rule usable_region_cong [OF assms])
  show "region_perms t = region_perms s" by (simp add: region_perms_def sy fun_eq_iff)
qed

section \<open>The layout the boot relies on\<close>

abbreviation UART0 :: phy_addr where
  "UART0 \<equiv> 0x09000000"

text \<open>
  The state in which \<^verbatim>\<open>boot.s\<close> calls \<^verbatim>\<open>main\<close>: nothing managed, running at physical addresses, the image laid out
  by the linker script with zeroed tables, a valid blob that describes at most ten usable regions
  below the 48-bit limit, with the image and the blob inside regions and the UART outside. The blob
  overlaps neither the image nor the pages that will hold the bitmaps of the allocator, and what libfdt
  reads from it depends on its own bytes only: as long as they are kept, the library finds the header
  valid, the same size, and the same memory.
\<close>

definition blob_valid :: "fdt_library \<Rightarrow> u64 \<Rightarrow> memory_map_t \<Rightarrow> u32 \<Rightarrow> (virt_addr \<Rightarrow> u8) \<Rightarrow> bool" where
  "blob_valid L fdt mm n v \<longleftrightarrow> fdt_check_header (L v) fdt = 0 \<and> 0 < FDT_ERR_INTERNAL (L v)
     \<and> memory_described (L v) fdt mm \<and> fdt_totalsize (L v) fdt = n"

definition boot_ready :: "fdt_library \<Rightarrow> u64 \<Rightarrow> memory_map_t \<Rightarrow> 'a alloc_state_scheme \<Rightarrow> bool" where
  "boot_ready L fdt mm s \<longleftrightarrow>
     alloc_inv s \<and> inits s = {} \<and> kernel_base_va s = 0 \<and> pc_base s = 0
     \<and> id_map_layout s UART0 \<and> (\<forall>x. frame x = Suc (frame (get_id_map_region_start s)) \<longrightarrow> mem s x = 0)
     \<and> (\<forall>x. frame x \<in> {frame (get_id_map_region_start s) ..< frame (get_id_map_region_start s) + 7} \<longrightarrow>
          sym_addr s image_start \<le> x \<and> x < sym_addr s image_end \<and> frame x \<noteq> frame (get_kernel_map_root s))
     \<and> table_ok (get_kernel_map_root s)
     \<and> sym_addr s image_start \<le> get_kernel_map_root s \<and> get_kernel_map_root s < sym_addr s image_end
     \<and> blob_valid L fdt mm (fdt_totalsize (L (mem s)) fdt) (mem s)
     \<and> regions mm \<noteq> [] \<and> length (regions mm) \<le> 10 \<and> apart_regions (regions mm)
     \<and> (\<forall>r \<in> set (regions mm). usable_region s r \<and> region_ok r \<and> \<not> in_region r UART0)
     \<and> in_one_region (regions mm) (sym_addr s image_start) (NUM_PAGES (get_image_size s))
     \<and> in_one_region (regions mm) fdt (NUM_PAGES (ucast (fdt_totalsize (L (mem s)) fdt)))
     \<and> blob_off_bitmaps fdt (fdt_totalsize (L (mem s)) fdt) (regions mm)
     \<and> (\<forall>a \<in> blob_bytes fdt (fdt_totalsize (L (mem s)) fdt). \<not> (sym_addr s image_start \<le> a \<and> a < sym_addr s image_end))
     \<and> (\<forall>v. (\<forall>a \<in> blob_bytes fdt (fdt_totalsize (L (mem s)) fdt). v a = mem s a) \<longrightarrow>
          blob_valid L fdt mm (fdt_totalsize (L (mem s)) fdt) v)"

lemma boot_readyD:
  assumes "boot_ready L fdt mm s"
  shows "alloc_inv s" "inits s = {}" "kernel_base_va s = 0" "pc_base s = 0" "id_map_layout s UART0"
    and "frame x = Suc (frame (get_id_map_region_start s)) \<Longrightarrow> mem s x = 0"
    and "frame x \<in> {frame (get_id_map_region_start s) ..< frame (get_id_map_region_start s) + 7} \<Longrightarrow>
      sym_addr s image_start \<le> x \<and> x < sym_addr s image_end \<and> frame x \<noteq> frame (get_kernel_map_root s)"
    and "table_ok (get_kernel_map_root s)" "sym_addr s image_start \<le> get_kernel_map_root s"
      "get_kernel_map_root s < sym_addr s image_end"
    and "fdt_check_header (L (mem s)) fdt = 0" "0 < FDT_ERR_INTERNAL (L (mem s))" "memory_described (L (mem s)) fdt mm"
    and "regions mm \<noteq> []" "length (regions mm) \<le> 10" "apart_regions (regions mm)"
    and "\<forall>r \<in> set (regions mm). usable_region s r" "\<forall>r \<in> set (regions mm). region_ok r"
      "r \<in> set (regions mm) \<Longrightarrow> \<not> in_region r UART0"
    and "in_one_region (regions mm) (sym_addr s image_start) (NUM_PAGES (get_image_size s))"
      "in_one_region (regions mm) fdt (NUM_PAGES (ucast (fdt_totalsize (L (mem s)) fdt)))"
    and "blob_off_bitmaps fdt (fdt_totalsize (L (mem s)) fdt) (regions mm)"
      "a \<in> blob_bytes fdt (fdt_totalsize (L (mem s)) fdt) \<Longrightarrow> \<not> (sym_addr s image_start \<le> a \<and> a < sym_addr s image_end)"
      "(\<And>a. a \<in> blob_bytes fdt (fdt_totalsize (L (mem s)) fdt) \<Longrightarrow> v a = mem s a) \<Longrightarrow>
       blob_valid L fdt mm (fdt_totalsize (L (mem s)) fdt) v"
  using assms unfolding boot_ready_def blob_valid_def by (elim conjE, blast)+

section \<open>The image lies in the regions\<close>

lemma round_up_page: "k \<le> (k + 4095) div 4096 * (4096 :: nat)"
  using div_mult_mod_eq [of "k + 4095" 4096] mod_less_divisor [of 4096 "k + 4095"] by linarith

lemma image_size_pages:
  assumes "id_map_layout s dev"
  shows "unat (get_image_size s) = unat (sym_addr s image_end) - unat (sym_addr s image_start)"
    "unat (sym_addr s image_end) \<le> unat (sym_addr s image_start) + unat (NUM_PAGES (get_image_size s)) * 4096"
    "page_aligned (sym_addr s image_start)"
proof -
  have l: "sym_addr s image_start < sym_addr s image_end" "unat (sym_addr s image_end) \<le> 2 ^ 39"
    "page_aligned (sym_addr s image_start)"
    using assms by (simp_all add: id_map_layout_def Let_def)
  show "page_aligned (sym_addr s image_start)" by (rule l(3))
  show sz: "unat (get_image_size s) = unat (sym_addr s image_end) - unat (sym_addr s image_start)"
    unfolding get_image_size_def using l(1) by (simp add: unat_sub word_less_nat_alt word_le_nat_alt)
  then have "unat (get_image_size s) + 4096 \<le> 2 ^ 64" using l(2) by simp
  then have n: "unat (NUM_PAGES (get_image_size s)) = (unat (get_image_size s) + 4095) div 4096"
    by (simp add: NUM_PAGES_unat)
  show "unat (sym_addr s image_end) \<le> unat (sym_addr s image_start) + unat (NUM_PAGES (get_image_size s)) * 4096"
    using sz l(1) round_up_page [of "unat (get_image_size s)"] unfolding n word_less_nat_alt by linarith
qed

lemma image_frame:
  assumes lay: "id_map_layout s dev" and x: "sym_addr s image_start \<le> x" "x < sym_addr s image_end"
  shows "frame x \<in> block_frames (sym_addr s image_start) (NUM_PAGES (get_image_size s))"
proof -
  note im = image_size_pages [OF lay]
  have "unat x < (frame (sym_addr s image_start) + unat (NUM_PAGES (get_image_size s))) * 4096"
    "frame (sym_addr s image_start) * 4096 \<le> unat x"
    using x im(2) page_aligned_unat [OF im(3)] by (simp_all add: word_le_nat_alt word_less_nat_alt)
  then show ?thesis by (simp add: block_frames_def frame_def div_less_iff_less_mult less_eq_div_iff_mult_less_eq)
qed

lemma in_one_region_frames:
  assumes "in_one_region rs a n" "page_aligned a"
  shows "\<exists>r \<in> set rs. block_frames a n \<subseteq> region_frames r"
proof -
  obtain r where r: "r \<in> set rs" "frame a \<in> region_frames r"
    and e: "unat a + unat n * 4096 \<le> (unat (base r) + unat (memory_region_t.size r)) div 4096 * 4096"
    using assms(1) by (auto simp: in_one_region_def)
  have "(frame a + unat n) * 4096 \<le> (unat (base r) + unat (memory_region_t.size r)) div 4096 * 4096"
    using e page_aligned_unat [OF assms(2)] by (simp add: algebra_simps)
  then have "frame a + unat n \<le> (unat (base r) + unat (memory_region_t.size r)) div 4096" by simp
  with r show ?thesis by (auto simp: block_frames_def region_frames_def)
qed

lemma image_in_region:
  assumes lay: "id_map_layout s dev"
    and reg: "in_one_region rs (sym_addr s image_start) (NUM_PAGES (get_image_size s))"
    and ok: "\<forall>r \<in> set rs. region_ok r" and x: "image_page s x"
  shows "\<exists>r \<in> set rs. in_region r x"
proof -
  note im = image_size_pages [OF lay]
  let ?A = "sym_addr s image_start"
  obtain r where r: "r \<in> set rs" "frame ?A \<in> region_frames r"
    and e: "unat ?A + unat (NUM_PAGES (get_image_size s)) * 4096 \<le> (unat (base r) + unat (memory_region_t.size r)) div 4096 * 4096"
    using reg by (auto simp: in_one_region_def)
  have "unat (base r) + unat (memory_region_t.size r) \<le> 2 ^ 48" using ok r(1) by (simp add: region_ok_def)
  then have s: "unat (base r + memory_region_t.size r) = unat (base r) + unat (memory_region_t.size r)"
    by (intro unat_add64) simp
  have "(unat (base r) + 4095) div 4096 \<le> frame ?A" using r(2) by (simp add: region_frames_def)
  then have "unat (base r) \<le> frame ?A * 4096" using round_up_page [of "unat (base r)"] by (meson le_trans mult_le_mono1)
  then have "unat (base r) \<le> unat ?A" using page_aligned_unat [OF im(3)] by simp
  moreover have "unat x < unat (base r) + unat (memory_region_t.size r)"
    using x im(2) e div_times_less_eq_dividend [of "unat (base r) + unat (memory_region_t.size r)" 4096]
    unfolding image_page_def word_less_nat_alt by linarith
  ultimately have "in_region r x" using x s by (simp add: in_region_def image_page_def word_le_nat_alt word_less_nat_alt)
  with r(1) show ?thesis by blast
qed

text \<open>The identity map lives in its table pages.\<close>

lemma id_mapped_keep:
  assumes im: "id_mapped s dev m"
    and eq: "\<And>a. frame a \<in> {Suc (frame (get_id_map_region_start s)) ..< frame (get_id_map_region_start s) + 7} \<Longrightarrow> m' a = m a"
  shows "id_mapped s dev m'"
proof -
  let ?R = "get_id_map_root s"
  have tree: "pt_tree m ?R"
    and sub: "table_frames m ?R \<subseteq> {Suc (frame (get_id_map_region_start s)) ..< frame (get_id_map_region_start s) + 7}"
    using im by (simp_all add: id_mapped_def Let_def)
  have eq': "m' a = m a" if "frame a \<in> table_frames m ?R" for a using eq sub that by blast
  note tf = tree_frames [where m' = m', OF tree eq', simplified]
  have "translate m' ?R w = translate m ?R w" for w
    using translate_leaf [OF tree, of w] translate_leaf [OF tf(1), of w] tf(3) [OF va_path_ok(1) va_path_ok(3)] by simp
  then show ?thesis using im tf(1,2) by (simp add: id_mapped_def Let_def)
qed

section \<open>The kernel map and the UART\<close>

text \<open>What the kernel map is to contain: the pages of the regions and the UART, and nothing else.\<close>

definition kernel_mapped :: "'a alloc_state_scheme \<Rightarrow> memory_map_t \<Rightarrow> 'b alloc_state_scheme \<Rightarrow> bool" where
  "kernel_mapped s mm s' \<longleftrightarrow>
     (let K = get_kernel_map_root s
      in pt_ok s' K
         \<and> (\<forall>r \<in> set (regions mm). \<forall>x. in_region r x \<longrightarrow>
              translate (mem s') K (x + KERNEL_BASE) = Leaf 3 (leaf_desc x (region_perms s x) NORMAL))
         \<and> translate (mem s') K (UART0 + KERNEL_BASE) = Leaf 3 (leaf_desc UART0 rw_perms DEVICE)
         \<and> (\<forall>w. va_page w \<noteq> drop_bit 12 UART0 \<and> (\<forall>r \<in> set (regions mm). \<forall>x. in_region r x \<longrightarrow> va_page w \<noteq> drop_bit 12 x) \<longrightarrow>
              translate (mem s') K w = Fault))"

text \<open>A set-up step either delivers what it should or runs out of pages.\<close>

lemma kernel_and_uart:
  assumes inv: "alloc_inv s" and low: "kernel_base_va s = 0" "pc_base s = 0"
    and root: "table_ok (get_kernel_map_root s)" "\<not> is_bitmap_frame s (frame (get_kernel_map_root s))"
      "frame_used s (frame (get_kernel_map_root s))"
    and lim: "\<forall>i \<in> inits s. \<forall>f \<in> chunk_frames (mem_chunks s ! i). f < 2 ^ 36"
    and mm: "count mm = int (length (regions mm))" "regions mm \<noteq> []" "\<forall>r \<in> set (regions mm). region_ok r"
    and uart: "\<forall>r \<in> set (regions mm). \<not> in_region r UART0"
  shows "(\<exists>s'. setup_kernel_map (Some mm) s = Some (False, s') \<and> out_of_pages s s')
    \<or> (\<exists>s1. setup_kernel_map (Some mm) s = Some (True, s1) \<and> s1 = s\<lparr>mem := mem s1\<rparr>
        \<and> (\<exists>b s'. map_page (get_kernel_map_root s1) (UART0 + KERNEL_BASE) UART0 rw_perms DEVICE s1 = (b, s')
             \<and> (\<not> b \<longrightarrow> out_of_pages s s')
             \<and> (b \<longrightarrow> s' = s\<lparr>mem := mem s'\<rparr> \<and> kernel_mapped s mm s'
                  \<and> (\<forall>a. frame a \<noteq> frame (get_kernel_map_root s) \<and> \<not> is_bitmap_frame s (frame a)
                       \<and> (frame_managed s (frame a) \<longrightarrow> frame_used s (frame a)) \<longrightarrow>
                     mem s' a = mem s a \<and> foreign s' (get_kernel_map_root s) a))))"
proof -
  define K where "K = get_kernel_map_root s"
  have K: "K = kernel_pg_dir_root_start (syms s)" using low(2) by (simp add: K_def get_kernel_map_root_def sym_addr_def)
  have root': "table_ok K" "\<not> is_bitmap_frame s (frame K)" "frame_managed s (frame K) \<longrightarrow> frame_used s (frame K)"
    using root by (simp_all add: K_def)
  from setup_kernel_map_run [OF inv low K root' lim mm] obtain b s1 where
    run: "setup_kernel_map (Some mm) s = Some (b, s1)" and no: "\<not> b \<Longrightarrow> out_of_pages s s1"
    and ok1: "b \<Longrightarrow> pt_ok s1 K"
    and reg: "b \<Longrightarrow> \<forall>r \<in> set (regions mm). \<forall>x. in_region r x \<longrightarrow>
              translate (mem s1) K (x + KERNEL_BASE) = Leaf 3 (leaf_desc x (region_perms s x) NORMAL)"
    and fault: "b \<Longrightarrow> \<forall>w. (\<forall>r \<in> set (regions mm). \<forall>x. in_region r x \<longrightarrow> va_page w \<noteq> drop_bit 12 x) \<longrightarrow> translate (mem s1) K w = Fault"
    and e1: "b \<Longrightarrow> s1 = s\<lparr>mem := mem s1\<rparr>"
    and fr: "b \<Longrightarrow> \<forall>a. frame a \<noteq> frame K \<and> \<not> is_bitmap_frame s (frame a) \<and> (frame_managed s (frame a) \<longrightarrow> frame_used s (frame a)) \<longrightarrow>
              mem s1 a = mem s a \<and> foreign s1 K a"
    by (elim exE conjE impCE) blast+
  show ?thesis
  proof (cases b)
    case False
    then have "setup_kernel_map (Some mm) s = Some (False, s1)" using run by simp
    then show ?thesis using no [OF False] by blast
  next
    case True
    then have run': "setup_kernel_map (Some mm) s = Some (True, s1)" using run by simp
    have sel: "get_kernel_map_root s1 = K" "pa_to_va s1 K = K"
      by (subst e1 [OF True], simp add: K_def get_kernel_map_root_def sym_addr_def pa_to_va_def low)+
    obtain c s' where mp: "map_page K (UART0 + KERNEL_BASE) UART0 rw_perms DEVICE s1 = (c, s')" by fastforce
    have al: "page_aligned UART0" "page_aligned (UART0 + KERNEL_BASE)" by (simp_all add: page_aligned_def KERNEL_BASE_def)
    have x1: "s1\<lparr>mem := m\<rparr> = s\<lparr>mem := m\<rparr>" for m by (subst e1 [OF True]) simp
    have "out_of_pages s s'" if "\<not> c"
      by (rule out_of_pages_after [OF map_page_out_of_pages [OF ok1 [OF True] al] e1 [OF True]]) (use mp that sel in auto)
    moreover have "s' = s\<lparr>mem := mem s'\<rparr> \<and> kernel_mapped s mm s'
                  \<and> (\<forall>a. frame a \<noteq> frame K \<and> \<not> is_bitmap_frame s (frame a)
                       \<and> (frame_managed s (frame a) \<longrightarrow> frame_used s (frame a)) \<longrightarrow> mem s' a = mem s a \<and> foreign s' K a)" if c
    proof -
      note eff = map_page_effect [OF ok1 [OF True], unfolded sel, OF mp [unfolded eqTrueI [OF that]]]
      have vu: "va_page (UART0 + KERNEL_BASE) = drop_bit 12 UART0" by (rule va_page_high) simp
      have ne: "va_page (x + KERNEL_BASE) \<noteq> drop_bit 12 UART0" if "r \<in> set (regions mm)" "in_region r x" for r x
      proof
        assume "va_page (x + KERNEL_BASE) = drop_bit 12 UART0"
        then have "drop_bit 12 x = drop_bit 12 UART0" using va_page_high in_region_bound mm(3) that by metis
        then have "x = UART0" using that(2) al(1) drop_bit12_inj unfolding in_region_def by blast
        with uart that show False by blast
      qed
      have "kernel_mapped s mm s'" unfolding kernel_mapped_def Let_def K_def [symmetric]
      proof (intro conjI ballI allI impI)
        show "pt_ok s' K" by (rule eff(1))
        show "translate (mem s') K (UART0 + KERNEL_BASE) = Leaf 3 (leaf_desc UART0 rw_perms DEVICE)"
          using eff(3) unfolding rw_perms_def by simp
        show "translate (mem s') K (x + KERNEL_BASE) = Leaf 3 (leaf_desc x (region_perms s x) NORMAL)"
          if "r \<in> set (regions mm)" "in_region r x" for r x
          using eff(4) [of "x + KERNEL_BASE"] ne [OF that] reg [OF True] that unfolding vu by metis
        show "translate (mem s') K w = Fault"
          if "va_page w \<noteq> drop_bit 12 UART0 \<and> (\<forall>r \<in> set (regions mm). \<forall>x. in_region r x \<longrightarrow> va_page w \<noteq> drop_bit 12 x)" for w
          using eff(4) [of w] fault [OF True] that unfolding vu by metis
      qed
      moreover have "s' = s\<lparr>mem := mem s'\<rparr>" using eff(2) unfolding x1 .
      moreover have "mem s' a = mem s a \<and> foreign s' K a" if "frame a \<noteq> frame K \<and> \<not> is_bitmap_frame s (frame a)
                       \<and> (frame_managed s (frame a) \<longrightarrow> frame_used s (frame a))" for a
        using fr [OF True] that eff(5) [of a] by metis
      ultimately show ?thesis by blast
    qed
    moreover have "map_page (get_kernel_map_root s1) (UART0 + KERNEL_BASE) UART0 rw_perms DEVICE s1 = (c, s')"
      using mp by (simp only: sel)
    ultimately show ?thesis using run' e1 [OF True] unfolding K_def [symmetric] by blast
  qed
qed

section \<open>The identity map and the allocator\<close>

lemma boot_ready_cong:
  assumes "mem t = mem s" "mem_chunks t = mem_chunks s" "kernel_base_va t = kernel_base_va s"
    "pc_base t = pc_base s" "syms t = syms s"
  shows "boot_ready L fdt mm t = boot_ready L fdt mm s"
  using assms(1,3,4) by (simp add: boot_ready_def same_machine [OF assms(1-3)] same_symbols [OF assms(4,5)])

lemma id_map_and_allocator:
  fixes s :: "('d, 'a) kernel_state_scheme"
  assumes rdy: "boot_ready L fdt mm s"
  shows "\<exists>s1 s2. setup_kernel_id_map UART0 s = Some (True, s1) \<and> 0 < FDT_ERR_INTERNAL (L (load_byte s1))
    \<and> fdt_totalsize (L (load_byte s1)) fdt = fdt_totalsize (L (mem s)) fdt
    \<and> get_mem (L (load_byte s1)) fdt (Some m0) (kprintf fmt args s1) = Some (0, Some mm, kprintf fmt args s1)
    \<and> setup_page_allocator L m0 fdt (kprintf fmt args s1) = Some (True, s2)
    \<and> s2 = s\<lparr>mem := mem s2, mem_chunks := mem_chunks s2, console := console s2\<rparr>
    \<and> alloc_inv s2 \<and> id_mapped s UART0 (mem s2)
    \<and> (\<forall>i \<in> inits s2. \<forall>f \<in> chunk_frames (mem_chunks s2 ! i). f < 2 ^ 36)
    \<and> (\<forall>a. sym_addr s image_start \<le> a \<and> a < sym_addr s image_end \<longrightarrow>
         \<not> is_bitmap_frame s2 (frame a) \<and> frame_used s2 (frame a))
    \<and> (\<exists>ci \<in> inits s2. block_frames (sym_addr s image_start) (NUM_PAGES (get_image_size s)) \<subseteq> chunk_frames (mem_chunks s2 ! ci))"
proof -
  note D = boot_readyD [OF rdy]
  let ?I = "frame (get_id_map_region_start s)"
  obtain s1 where s1: "setup_kernel_id_map UART0 s = Some (True, s1)" "alloc_inv s1" "inits s1 = {}"
    and e1: "s1 = s\<lparr>mem := mem s1, mem_chunks := mem_chunks s1\<rparr>" and im: "id_mapped s UART0 (mem s1)"
    and m1: "\<forall>a. frame a \<notin> {?I ..< ?I + 7} \<longrightarrow> mem s1 a = mem s a"
    using setup_id_map_run [OF D(1,2,3,5,6)] by blast
  define t where "t = kprintf fmt args s1"
  have sel1: "kernel_base_va s1 = 0" "pc_base s1 = pc_base s" "syms s1 = syms s" by (subst e1, simp add: D)+
  have selt: "kernel_base_va t = 0" "pc_base t = pc_base s" "syms t = syms s" by (simp_all add: t_def kprintf_def sel1)
  note sy = same_symbols [OF selt(2,3)]
  define n where "n = fdt_totalsize (L (mem s)) fdt"
  define K where "K = L (load_byte t)"
  have lt: "load_byte t = mem s1" "load_byte s1 = mem s1"
    using load_byte_low [OF selt(1)] load_byte_low [OF sel1(1)] by (simp_all add: t_def kprintf_def)
  have valid: "blob_valid L fdt mm n v" if "\<forall>a \<in> blob_bytes fdt n. v a = mem s1 a" for v
  proof (unfold n_def, rule D(24), fold n_def)
    fix a assume a: "a \<in> blob_bytes fdt n"
    then have "\<not> (sym_addr s image_start \<le> a \<and> a < sym_addr s image_end)" using D(23) by (simp add: n_def)
    then have "frame a \<notin> {?I ..< ?I + 7}" using D(7) [of a] by blast
    then show "v a = mem s a" using that a m1 by simp
  qed
  have K: "fdt_check_header K fdt = 0" "0 < FDT_ERR_INTERNAL K" "memory_described K fdt mm" "fdt_totalsize K fdt = n"
    using valid [of "mem s1"] by (simp_all add: K_def lt blob_valid_def)
  have size: "size_in_blob L fdt t" unfolding size_in_blob_def K_def [symmetric] K(4)
    using valid by (simp add: lt(1) blob_valid_def)
  have gm: "get_mem K fdt (Some m0) u = Some (0, Some mm, u)" for u :: "('d, 'a) kernel_state_scheme"
    by (rule get_mem_of_described [OF K(3)])
  have "fdt \<noteq> 0" using K(3) by (simp add: memory_described_def Let_def)
  have inv: "alloc_inv t" "inits t = {}" using s1(2,3) by (simp_all add: t_def kprintf_def)
  obtain s2 where s2: "setup_page_allocator L m0 fdt t = Some (True, s2)" "alloc_inv s2"
    and man: "\<forall>f. frame_managed s2 f \<longleftrightarrow> (\<exists>r \<in> set (regions mm). f \<in> region_frames r)"
    and us: "\<forall>f. frame_used s2 f \<longleftrightarrow> (\<exists>r \<in> set (regions mm). f \<in> region_bitmap r)
         \<or> f \<in> block_frames (sym_addr s image_start) (NUM_PAGES (get_image_size s))
         \<or> f \<in> block_frames fdt (NUM_PAGES (ucast n))"
    and img: "\<forall>a. sym_addr s image_start \<le> a \<and> a < sym_addr s image_end \<longrightarrow> mem s2 a = mem t a"
    and bm: "\<forall>f. is_bitmap_frame s2 f \<longleftrightarrow> (\<exists>r \<in> set (regions mm). f \<in> region_bitmap r)"
    and cs: "chunk_sets s2 = region_frames ` set (regions mm)"
    and e2: "s2 = t\<lparr>mem := mem s2, mem_chunks := mem_chunks s2, console := console s2\<rparr>"
    using setup_page_allocator_run [where L = L and s = t and K = K, OF inv selt(1) K_def \<open>fdt \<noteq> 0\<close> K(1,2) gm order_refl D(15), unfolded sy K(4),
        OF D(17,16,20) D(21) [folded n_def] size D(22) [folded n_def]]
    by (elim exE conjE) (rule that, assumption+)
  have "s2 = s\<lparr>mem := mem s2, mem_chunks := mem_chunks s2, console := console s2\<rparr>"
  proof -
    have "t\<lparr>mem := m, mem_chunks := y, console := c\<rparr> = s\<lparr>mem := m, mem_chunks := y, console := c\<rparr>" for m y c
      unfolding t_def kprintf_def by (subst e1) simp
    with e2 show ?thesis by simp
  qed
  moreover have "f < 2 ^ 36" if "i \<in> inits s2" "f \<in> chunk_frames (mem_chunks s2 ! i)" for i f
  proof -
    have "frame_managed s2 f" using that by (auto simp: frame_managed_def)
    then obtain r where r: "r \<in> set (regions mm)" "f \<in> region_frames r" using man by blast
    then have "unat (base r) + unat (memory_region_t.size r) \<le> 2 ^ 48" using D(18) by (simp add: region_ok_def)
    then have "(unat (base r) + unat (memory_region_t.size r)) div 4096 \<le> 2 ^ 48 div 4096" by (rule div_le_mono)
    with r(2) show ?thesis by (simp add: region_frames_def)
  qed
  moreover have "\<not> is_bitmap_frame s2 (frame a) \<and> frame_used s2 (frame a)"
    if "sym_addr s image_start \<le> a \<and> a < sym_addr s image_end" for a
    using that bm us image_not_bitmap D(17) image_frame [OF D(5)] by blast
  moreover have "id_mapped s UART0 (mem s2)"
  proof (rule id_mapped_keep [OF im])
    fix a assume "frame a \<in> {Suc ?I ..< ?I + 7}"
    then have "sym_addr s image_start \<le> a \<and> a < sym_addr s image_end" using D(7) [of a] by simp
    then show "mem s2 a = mem s1 a" using img by (simp add: t_def kprintf_def)
  qed
  moreover have "\<exists>ci \<in> inits s2. block_frames (sym_addr s image_start) (NUM_PAGES (get_image_size s)) \<subseteq> chunk_frames (mem_chunks s2 ! ci)"
  proof -
    obtain r where r: "r \<in> set (regions mm)"
      "block_frames (sym_addr s image_start) (NUM_PAGES (get_image_size s)) \<subseteq> region_frames r"
      using in_one_region_frames [OF D(20)] image_size_pages(3) [OF D(5)] by blast
    then have "region_frames r \<in> chunk_sets s2" using cs by simp
    then show ?thesis using r(2) by (auto simp: chunk_sets_def)
  qed
  moreover have "L (load_byte s1) = K" by (simp add: K_def lt)
  ultimately show ?thesis using s1(1) s2 gm K(2,4) unfolding t_def n_def
    by (intro exI [of _ s1] exI [of _ s2] conjI) (simp_all only:, blast+)
qed

section \<open>The whole boot in the low half\<close>

text \<open>The machine that the low half hands over: MMU on, both address spaces complete.\<close>

definition ready_to_jump :: "'a alloc_state_scheme \<Rightarrow> memory_map_t \<Rightarrow> sys_regs \<Rightarrow> sys_regs \<Rightarrow> 'b alloc_state_scheme \<Rightarrow> bool" where
  "ready_to_jump s mm r r' s' \<longleftrightarrow>
     r' = \<lparr>mair_el1 = mair_value, tcr_el1 = tcr_value, ttbr0_el1 = get_id_map_root s, ttbr1_el1 = get_kernel_map_root s,
           sctlr_el1 = sctlr_enable (sctlr_el1 r)\<rparr>
     \<and> id_mapped s UART0 (mem s') \<and> kernel_mapped s mm s'
     \<and> (\<forall>x. image_page s x \<longrightarrow>
          translate (mem s') (ttbr0_el1 r') x = Leaf 3 (leaf_desc x rwx_perms NORMAL)
          \<and> translate (mem s') (ttbr1_el1 r') (x + KERNEL_BASE) = Leaf 3 (leaf_desc x rwx_perms NORMAL))"

lemma ready_to_jumpI:
  assumes rdy: "boot_ready L fdt mm s" and im: "id_mapped s UART0 (mem s')" and km: "kernel_mapped s mm s'"
  shows "ready_to_jump s mm r \<lparr>mair_el1 = mair_value, tcr_el1 = tcr_value, ttbr0_el1 = get_id_map_root s,
    ttbr1_el1 = get_kernel_map_root s, sctlr_el1 = sctlr_enable (sctlr_el1 r)\<rparr> s'"
proof -
  note D = boot_readyD [OF rdy]
  have "translate (mem s') (get_kernel_map_root s) (x + KERNEL_BASE) = Leaf 3 (leaf_desc x rwx_perms NORMAL)"
    if x: "image_page s x" for x
  proof -
    have "region_perms s x = rwx_perms" using x by (simp add: region_perms_def image_page_def)
    moreover obtain q where "q \<in> set (regions mm)" "in_region q x"
      using image_in_region [OF D(5,20,18) x] by blast
    ultimately show ?thesis using km unfolding kernel_mapped_def Let_def by metis
  qed
  then show ?thesis using im km unfolding ready_to_jump_def by (simp add: id_mapped_def Let_def)
qed

lemma roots_nonzero:
  assumes "id_map_layout s dev"
  shows "get_id_map_root s \<noteq> 0"
proof -
  have "unat (get_id_map_region_start s) + 7 * 4096 \<le> 2 ^ 48" "get_id_map_root s = get_id_map_region_start s + PAGE_SIZE"
    using assms by (simp_all add: id_map_layout_def Let_def)
  then have "unat (get_id_map_root s) = unat (get_id_map_region_start s) + 4096" by (simp add: unat_add64)
  then show ?thesis by auto
qed

text \<open>The two messages of \<^verbatim>\<open>main\<close> for a kernel map that could not be completed.\<close>

definition table_failures :: "(string \<times> va_arg list) set" where
  "table_failures = {(''Error while setting up kernel map'' @ LF, []), (''Error while mapping uart'' @ LF, [])}"

lemma out_of_pages_report:
  fixes s s' :: "('d, 'a) boot_state_scheme"
  assumes "out_of_pages s s'" "(msg, []) \<in> table_failures"
  shows "mmu_regs (kprintf msg [] s') = mmu_regs s \<and> card (free_frames (kprintf msg [] s')) < 3
    \<and> last (console (kprintf msg [] s')) \<in> table_failures"
proof -
  have "card (free_frames (kprintf msg [] s')) < 3"
    using assms by (simp add: out_of_pages_def kprintf_def same_machine [of "s'\<lparr>console := _\<rparr>" s'])
  moreover have e: "s' = s\<lparr>mem := mem s'\<rparr>" using assms unfolding out_of_pages_def by blast
  have "mmu_regs s' = mmu_regs s" by (subst e) simp
  ultimately show ?thesis using assms(2) by (simp add: kprintf_def)
qed

text \<open>
  What the jump to the high half relies on besides: the frames of the identity map are allocated
  in one chunk, and neither a bitmap nor a table of the kernel map is among them.
\<close>

abbreviation id_frames :: "'a mem_state_scheme \<Rightarrow> nat set" where
  "id_frames s \<equiv> {frame (get_id_map_region_start s) ..< frame (get_id_map_region_start s) + 7}"

definition handed_over :: "'a alloc_state_scheme \<Rightarrow> 'b alloc_state_scheme \<Rightarrow> bool" where
  "handed_over s s' \<longleftrightarrow> kernel_base_va s' = 0 \<and> pc_base s' = 0 \<and> syms s' = syms s
     \<and> (\<forall>f \<in> id_frames s. \<not> is_bitmap_frame s' f \<and> frame_used s' f \<and> f \<notin> table_frames (mem s') (get_kernel_map_root s))
     \<and> (\<exists>ci \<in> inits s'. id_frames s \<subseteq> chunk_frames (mem_chunks s' ! ci))"

lemma frame_surj:
  assumes "f < 2 ^ 52"
  obtains a where "frame a = f"
proof
  have "unat (of_nat (f * 4096) :: u64) = f * 4096" using assms by (intro unat_of_nat64) simp
  then show "frame (of_nat (f * 4096)) = f" by (simp add: frame_def)
qed

lemma handed_overI:
  fixes s s' :: "('d, 'a) boot_state_scheme"
  assumes lay: "id_map_layout s dev" and sel: "kernel_base_va s' = 0" "pc_base s' = 0" "syms s' = syms s"
    and fr: "\<And>a. frame a \<in> id_frames s \<Longrightarrow> foreign s' (get_kernel_map_root s) a \<and> frame_managed s' (frame a) \<and> frame a \<in> B"
    and one: "\<exists>ci \<in> inits s'. B \<subseteq> chunk_frames (mem_chunks s' ! ci)"
  shows "handed_over s (s'\<lparr>mmu_regs := y, console := c\<rparr>)"
proof -
  have "unat (get_id_map_region_start s) + 7 * 4096 \<le> 2 ^ 48" using lay by (simp add: id_map_layout_def Let_def)
  then have lim: "frame (get_id_map_region_start s) + 7 < 2 ^ 52" by (simp add: frame_def)
  have "f \<in> B \<and> \<not> is_bitmap_frame s' f \<and> frame_used s' f \<and> f \<notin> table_frames (mem s') (get_kernel_map_root s)"
    if f: "f \<in> id_frames s" for f
  proof -
    have "f < 2 ^ 52" using f lim by simp
    then obtain a where "frame a = f" by (rule frame_surj)
    with fr [of a] f show ?thesis by (auto simp: foreign_def)
  qed
  moreover from this one have "\<exists>ci \<in> inits s'. id_frames s \<subseteq> chunk_frames (mem_chunks s' ! ci)" by blast
  ultimately show ?thesis
    using sel by (simp add: handed_over_def same_machine [of "s'\<lparr>mmu_regs := y\<rparr>" s'])
qed

lemma boot_console_same:
  "mem (boot_console b low p s) = mem s" "mem_chunks (boot_console b low p s) = mem_chunks s"
  "kernel_base_va (boot_console b low p s) = kernel_base_va s" "pc_base (boot_console b low p s) = pc_base s"
  "syms (boot_console b low p s) = syms s" "mmu_regs (boot_console b low p s) = mmu_regs s"
  by (simp_all add: boot_console_def print_kernelite_logo_def kprintf_def set_kprintf_console_def pl011_init_def
      pl011_enable_rx_interrupt_def vread32_def vwrite32_def Let_def split: prod.split)

text \<open>The rest of the low half, once the first three set-ups have succeeded.\<close>

lemma boot_low_half_tail:
  fixes s :: "('d, 'a) boot_state_scheme"
  assumes "s3 = boot_console b (code_at (pc_base s) C) UART0 s" and "setup_kernel_id_map UART0 s3 = Some (True, s4)"
    and "s5 = kprintf (''fdt adrr = 0x%lx size = 0x%x'' @ LF) [Num fdt, U32 (fdt_totalsize (L (load_byte s4)) fdt)] s4"
    and "get_mem (L (load_byte s4)) fdt (Some m0) s5 = Some (0, Some mm, s5)" "setup_page_allocator L m0 fdt s5 = Some (True, s7)"
  shows "setup_kernel_map (Some mm) s7 = Some (False, s8) \<Longrightarrow>
      boot_low_half b L C m0 fdt s = Some (False, kprintf (''Error while setting up kernel map'' @ LF) [] s8)"
    and "setup_kernel_map (Some mm) s7 = Some (True, s8) \<Longrightarrow>
      map_page (get_kernel_map_root s8) (UART0 + KERNEL_BASE) UART0 rw_perms DEVICE s8 = (False, s9) \<Longrightarrow>
      boot_low_half b L C m0 fdt s = Some (False, kprintf (''Error while mapping uart'' @ LF) [] s9)"
    and "setup_kernel_map (Some mm) s7 = Some (True, s8) \<Longrightarrow>
      map_page (get_kernel_map_root s8) (UART0 + KERNEL_BASE) UART0 rw_perms DEVICE s8 = (True, s9) \<Longrightarrow>
      enable_mmu (get_id_map_root s9) (get_kernel_map_root s9) s9 (mmu_regs s9) = (True, events) \<Longrightarrow>
      boot_low_half b L C m0 fdt s
        = Some (True, enable_mmu_report (s9\<lparr>mmu_regs := run_events events (mmu_regs s9)\<rparr>))"
proof -
  have "load_byte s5 = load_byte s4" by (simp add: assms(3) kprintf_def load_byte_console)
  note eqs = assms(1,3) [symmetric] assms(2,4,5) this
  show "setup_kernel_map (Some mm) s7 = Some (False, s8) \<Longrightarrow>
      boot_low_half b L C m0 fdt s = Some (False, kprintf (''Error while setting up kernel map'' @ LF) [] s8)"
    and "setup_kernel_map (Some mm) s7 = Some (True, s8) \<Longrightarrow>
      map_page (get_kernel_map_root s8) (UART0 + KERNEL_BASE) UART0 rw_perms DEVICE s8 = (False, s9) \<Longrightarrow>
      boot_low_half b L C m0 fdt s = Some (False, kprintf (''Error while mapping uart'' @ LF) [] s9)"
    and "setup_kernel_map (Some mm) s7 = Some (True, s8) \<Longrightarrow>
      map_page (get_kernel_map_root s8) (UART0 + KERNEL_BASE) UART0 rw_perms DEVICE s8 = (True, s9) \<Longrightarrow>
      enable_mmu (get_id_map_root s9) (get_kernel_map_root s9) s9 (mmu_regs s9) = (True, events) \<Longrightarrow>
      boot_low_half b L C m0 fdt s
        = Some (True, enable_mmu_report (s9\<lparr>mmu_regs := run_events events (mmu_regs s9)\<rparr>))"
    by (simp_all add: boot_low_half_def eqs Let_def del: append.simps append_Cons)
qed

text \<open>The roots are not null, so the MMU is turned on, with the physical addresses of the roots.\<close>

lemma enable_mmu_boot:
  assumes "boot_ready L fdt mm s" "kernel_base_va t = 0" "pc_base t = pc_base s" "syms t = syms s"
  obtains es where "enable_mmu (get_id_map_root t) (get_kernel_map_root t) t r = (True, es)"
    "run_events es r = \<lparr>mair_el1 = mair_value, tcr_el1 = tcr_value, ttbr0_el1 = get_id_map_root s,
      ttbr1_el1 = get_kernel_map_root s, sctlr_el1 = sctlr_enable (sctlr_el1 r)\<rparr>"
proof -
  note D = boot_readyD [OF assms(1)]
  note sy = same_symbols [OF assms(3,4)]
  have "get_id_map_root t \<noteq> 0" "get_kernel_map_root t \<noteq> 0" using roots_nonzero [OF D(5)] D(8) by (simp_all add: sy table_ok_def)
  then have "fst (enable_mmu (get_id_map_root t) (get_kernel_map_root t) t r)"
    "run_events (snd (enable_mmu (get_id_map_root t) (get_kernel_map_root t) t r)) r =
      \<lparr>mair_el1 = mair_value, tcr_el1 = tcr_value, ttbr0_el1 = get_id_map_root s,
      ttbr1_el1 = get_kernel_map_root s, sctlr_el1 = sctlr_enable (sctlr_el1 r)\<rparr>"
    using assms(2) by (simp_all add: enable_mmu_def sy va_to_pa_def)
  then show thesis using that by (metis (full_types) prod.collapse)
qed

lemma ready_to_jump_regs: "ready_to_jump s mm q r (t\<lparr>mmu_regs := y, console := c\<rparr>) = ready_to_jump s mm q r t"
proof -
  have "kernel_mapped s mm (t\<lparr>mmu_regs := y, console := c\<rparr>) = kernel_mapped s mm t"
    by (simp add: kernel_mapped_def same_machine(7) [of "t\<lparr>mmu_regs := y, console := c\<rparr>" t])
  then show ?thesis by (simp add: ready_to_jump_def)
qed

lemma boot_low_half_run:
  assumes rdy: "boot_ready L fdt mm s"
  shows "\<exists>ok s'. boot_low_half b L C m0 fdt s = Some (ok, s')
    \<and> (ok \<longrightarrow> ready_to_jump s mm (mmu_regs s) (mmu_regs s') s' \<and> handed_over s s')
    \<and> (\<not> ok \<longrightarrow> mmu_regs s' = mmu_regs s \<and> card (free_frames s') < 3 \<and> last (console s') \<in> table_failures)"
proof -
  define s3 where "s3 = boot_console b (code_at (pc_base s) C) UART0 s"
  note same = boot_console_same [of b "code_at (pc_base s) C" UART0 s, folded s3_def]
  have rdy3: "boot_ready L fdt mm s3" using rdy boot_ready_cong [OF same(1-5)] by simp
  note D = boot_readyD [OF rdy3] and sy = same_symbols [OF same(4,5)]
  let ?msg = "''fdt adrr = 0x%lx size = 0x%x'' @ LF" and ?args = "[Num fdt, U32 (fdt_totalsize (L (mem s3)) fdt)]"
  obtain s4 s7 where s4: "setup_kernel_id_map UART0 s3 = Some (True, s4)"
    and err: "0 < FDT_ERR_INTERNAL (L (load_byte s4))"
    and size: "fdt_totalsize (L (load_byte s4)) fdt = fdt_totalsize (L (mem s3)) fdt"
    and gm: "get_mem (L (load_byte s4)) fdt (Some m0) (kprintf ?msg ?args s4) = Some (0, Some mm, kprintf ?msg ?args s4)"
    and s7: "setup_page_allocator L m0 fdt (kprintf ?msg ?args s4) = Some (True, s7)"
    and e7: "s7 = s3\<lparr>mem := mem s7, mem_chunks := mem_chunks s7, console := console s7\<rparr>"
    and inv7: "alloc_inv s7" and im7: "id_mapped s3 UART0 (mem s7)"
    and lim: "\<forall>i \<in> inits s7. \<forall>f \<in> chunk_frames (mem_chunks s7 ! i). f < 2 ^ 36"
    and one: "\<exists>ci \<in> inits s7. block_frames (sym_addr s3 image_start) (NUM_PAGES (get_image_size s3)) \<subseteq> chunk_frames (mem_chunks s7 ! ci)"
    and img: "\<forall>a. sym_addr s3 image_start \<le> a \<and> a < sym_addr s3 image_end \<longrightarrow>
         \<not> is_bitmap_frame s7 (frame a) \<and> frame_used s7 (frame a)"
    using id_map_and_allocator [OF rdy3, of m0 ?msg ?args] by blast
  note tail = boot_low_half_tail [OF s3_def s4 _ gm s7, unfolded size, OF refl]
  have sel7: "kernel_base_va s7 = 0" "pc_base s7 = 0" "mmu_regs s7 = mmu_regs s" "pc_base s7 = pc_base s3" "syms s7 = syms s3"
    by (subst e7, simp add: D(3,4) same(6))+
  note sy7 = same_symbols [OF sel7(4,5)]
  let ?K = "get_kernel_map_root s3"
  have K: "\<not> is_bitmap_frame s7 (frame ?K)" "frame_used s7 (frame ?K)" using img D(9,10) by blast+
  have wf: "count mm = int (length (regions mm))"
    using get_mem_wf(1) [OF gm] err by (simp add: memory_map_wf_def)
  have uart: "\<forall>r \<in> set (regions mm). \<not> in_region r UART0" using D(19) by blast
  consider (pages) s8 where "setup_kernel_map (Some mm) s7 = Some (False, s8)" "out_of_pages s7 s8"
    | (no_uart) s8 s9 where "setup_kernel_map (Some mm) s7 = Some (True, s8)"
        "map_page (get_kernel_map_root s8) (UART0 + KERNEL_BASE) UART0 rw_perms DEVICE s8 = (False, s9)" "out_of_pages s7 s9"
    | (mapped) s8 s9 where "setup_kernel_map (Some mm) s7 = Some (True, s8)"
        "map_page (get_kernel_map_root s8) (UART0 + KERNEL_BASE) UART0 rw_perms DEVICE s8 = (True, s9)"
        "s9 = s7\<lparr>mem := mem s9\<rparr>" "kernel_mapped s7 mm s9"
        "\<forall>a. frame a \<noteq> frame ?K \<and> \<not> is_bitmap_frame s7 (frame a)
           \<and> (frame_managed s7 (frame a) \<longrightarrow> frame_used s7 (frame a)) \<longrightarrow> mem s9 a = mem s7 a \<and> foreign s9 ?K a"
    using kernel_and_uart [OF inv7 sel7(1,2), unfolded sy7, OF D(8) K lim wf D(14,18) uart] by (metis (full_types))
  then show ?thesis
  proof cases
    case pages
    note rep = out_of_pages_report [OF pages(2), of "''Error while setting up kernel map'' @ LF"]
    show ?thesis using tail(1) [OF pages(1)] rep unfolding table_failures_def sel7(3) by blast
  next
    case no_uart
    note rep = out_of_pages_report [OF no_uart(3), of "''Error while mapping uart'' @ LF"]
    show ?thesis using tail(2) [OF no_uart(1,2)] rep unfolding table_failures_def sel7(3) by blast
  next
    case mapped
    have sel9: "kernel_base_va s9 = 0" "pc_base s9 = pc_base s" "syms s9 = syms s" "mmu_regs s9 = mmu_regs s"
      using boot_readyD(4) [OF rdy] by (subst mapped(3), simp add: sel7 same)+
    have idf: "mem s9 a = mem s7 a \<and> foreign s9 ?K a \<and> frame_managed s9 (frame a)
        \<and> frame a \<in> block_frames (sym_addr s3 image_start) (NUM_PAGES (get_image_size s3))"
      if "frame a \<in> {frame (get_id_map_region_start s3) ..< frame (get_id_map_region_start s3) + 7}" for a
    proof -
      have a: "sym_addr s3 image_start \<le> a" "a < sym_addr s3 image_end" "frame a \<noteq> frame ?K" using D(7) [OF that] by simp_all
      moreover have "frame_managed s9 = frame_managed s7" by (subst mapped(3)) simp
      ultimately show ?thesis using mapped(5) img used_managed image_frame [OF D(5) a(1,2)] by metis
    qed
    then have "id_mapped s3 UART0 (mem s9)" by (intro id_mapped_keep [OF im7]) simp
    moreover have "kernel_mapped s mm s9" using mapped(4) by (simp only: kernel_mapped_def sy7 sy)
    ultimately have rj: "ready_to_jump s mm r \<lparr>mair_el1 = mair_value, tcr_el1 = tcr_value, ttbr0_el1 = get_id_map_root s,
        ttbr1_el1 = get_kernel_map_root s, sctlr_el1 = sctlr_enable (sctlr_el1 r)\<rparr> s9" for r
      using ready_to_jumpI [OF rdy] by (simp only: sy)
    obtain es where "enable_mmu (get_id_map_root s9) (get_kernel_map_root s9) s9 (mmu_regs s9) = (True, es)"
      and r: "run_events es (mmu_regs s9) = \<lparr>mair_el1 = mair_value, tcr_el1 = tcr_value, ttbr0_el1 = get_id_map_root s,
        ttbr1_el1 = get_kernel_map_root s, sctlr_el1 = sctlr_enable (sctlr_el1 (mmu_regs s9))\<rparr>"
      by (rule enable_mmu_boot [OF rdy sel9(1-3)])
    note res = tail(3) [OF mapped(1,2) this(1)]
    have "handed_over s (s9\<lparr>mmu_regs := y, console := c\<rparr>)" for c y
    proof (rule handed_overI [OF boot_readyD(5) [OF rdy] sel9(1) _ sel9(3)])
      show "pc_base s9 = 0" using sel9(2) boot_readyD(4) [OF rdy] by simp
      have "chunk_frames (mem_chunks s9 ! i) = chunk_frames (mem_chunks s7 ! i)" "inits s9 = inits s7" for i by (subst mapped(3), simp)+
      then show "\<exists>ci \<in> inits s9. block_frames (sym_addr s3 image_start) (NUM_PAGES (get_image_size s3)) \<subseteq> chunk_frames (mem_chunks s9 ! ci)"
        using one by simp
    qed (use idf in \<open>simp add: sy\<close>)
    with res rj show ?thesis
      by (intro exI [of _ True]) (simp add: enable_mmu_report_def kprintf_def r [unfolded sel9(4)] ready_to_jump_regs sel9(4))
  qed
qed

text \<open>
  C2. The boot in the low half, from the state in which \<^verbatim>\<open>boot.s\<close> calls \<^verbatim>\<open>main\<close>: it always returns. Either it
  runs out of pages for the tables of the kernel map (fewer than three pages are free at the
  end), has reported one of the two failures as its last message and has not touched an MMU register; or it turns the MMU on with the
  identity map in TTBR0 and the kernel map in TTBR1. Then every page of the kernel image is
  mapped executable to itself both at its own address and at its higher-half address, so the jump
  finds its code; the kernel map holds exactly the memory of the device tree and the UART, and the
  identity map exactly the image and the UART. The starting state excludes a device tree blob that
  overlaps the image or the first pages of a region, where the bitmaps will be: there the code overwrites
  the blob before it reads its size.
\<close>

theorem boot_low_half_correct:
  assumes rdy: "boot_ready L fdt mm s"
  shows "\<exists>ok s'. boot_low_half b L C m0 fdt s = Some (ok, s')
    \<and> (ok \<longrightarrow> ready_to_jump s mm (mmu_regs s) (mmu_regs s') s')
    \<and> (\<not> ok \<longrightarrow> mmu_regs s' = mmu_regs s \<and> card (free_frames s') < 3 \<and> last (console s') \<in> table_failures)"
  using boot_low_half_run [OF assms] by blast

end
