(* ===== verification/Gicv3_Hardware.thy ===== *)
theory Gicv3_Hardware
  imports Gicv3
begin

text \<open>
  What the driver relies on of the interrupt controller, as a locale: the configuration registers
  of the distributor and of the redistributor's SGI frame behave as the comments of
  \<^verbatim>\<open>drivers/gicv3.c\<close> describe them. The SGI frame has one word of each bit register and eight
  priority words, for the INTIDs below 32; the distributor's words for the same INTIDs (such as
  \<^verbatim>\<open>GICD_ISENABLER0\<close>, which the source documents as RAZ/WI) are outside the contract, because the driver
  never accesses them. Writing 1 to a set-enable or clear-enable bit enables or disables the
  interrupt; the group registers are read-write; a priority byte implements only its high bits.
  A controller need not implement every INTID, none above 1019 exists, and with a single security
  state the group modifier registers are RES0: fields that are not implemented read as zero and
  ignore writes. A write touches no other register, and \<^verbatim>\<open>MPIDR_EL1\<close> is constant. The
  abstract view of the controller is a function from INTIDs to configurations; the lemmas of the
  locale say what each step of the driver does to that function.
\<close>

section \<open>Configuration registers\<close>

datatype gic_reg = IGROUPR | ISENABLER | ICENABLER | IPRIORITYR | IGRPMODR

fun reg_offset :: "gic_reg \<Rightarrow> u64" where
  "reg_offset IGROUPR = 0x80"
| "reg_offset ISENABLER = 0x100"
| "reg_offset ICENABLER = 0x180"
| "reg_offset IPRIORITYR = 0x400"
| "reg_offset IGRPMODR = 0xD00"

definition reg_addr :: "virt_addr \<Rightarrow> gic_reg \<Rightarrow> nat \<Rightarrow> virt_addr" where
  "reg_addr F k n = F + reg_offset k + of_nat (4 * n)"

type_synonym gic_regs = "virt_addr \<times> gic_reg \<times> nat \<Rightarrow> u32"

text \<open>
  The words of a register that serve INTIDs below 32 belong to the SGI frame, the others (for the
  INTIDs below 1024) to the distributor.
\<close>

definition private_words :: "gic_reg \<Rightarrow> nat" where
  "private_words k = (if k = IPRIORITYR then 8 else 1)"

definition reg_count :: "gic_reg \<Rightarrow> nat" where
  "reg_count k = (if k = IPRIORITYR then 256 else 32)"

definition gic_word :: "virt_addr \<Rightarrow> virt_addr \<Rightarrow> virt_addr \<Rightarrow> gic_reg \<Rightarrow> nat \<Rightarrow> bool" where
  "gic_word dist sgi F k n \<longleftrightarrow>
     F = sgi \<and> n < private_words k \<or> F = dist \<and> private_words k \<le> n \<and> n < reg_count k"

text \<open>What a controller implements, and the mask of the implemented bits of a register.\<close>

record gic_params =
  implemented :: "nat \<Rightarrow> bool"
  group_modifier :: bool
  prio_bits :: u8

definition bit_intid :: "gic_reg \<Rightarrow> nat \<Rightarrow> nat \<Rightarrow> nat" where
  "bit_intid k n m = (if k = IPRIORITYR then 4 * n + m div 8 else 32 * n + m)"

definition impl_bit :: "gic_params \<Rightarrow> gic_reg \<Rightarrow> nat \<Rightarrow> nat \<Rightarrow> bool" where
  "impl_bit P k n m \<longleftrightarrow> implemented P (bit_intid k n m) \<and> (k = IGRPMODR \<longrightarrow> group_modifier P)
     \<and> (k = IPRIORITYR \<longrightarrow> bit (prio_bits P) (m mod 8))"

definition impl_mask :: "gic_params \<Rightarrow> gic_reg \<Rightarrow> nat \<Rightarrow> u32" where
  "impl_mask P k n = horner_sum of_bool 2 (map (impl_bit P k n) [0..<32])"

lemma bit_impl_mask: "bit (impl_mask P k n) m \<longleftrightarrow> m < 32 \<and> impl_bit P k n m"
  by (auto simp: impl_mask_def bit_horner_sum_bit_iff)

text \<open>The effect of writing \<open>v\<close> to register \<open>k\<close>\<open><n>\<close> of frame \<open>F\<close>.\<close>

fun written :: "gic_params \<Rightarrow> virt_addr \<Rightarrow> gic_reg \<Rightarrow> nat \<Rightarrow> u32 \<Rightarrow> gic_regs \<Rightarrow> gic_regs" where
  "written P F ISENABLER n v r = r((F, ISENABLER, n) := r (F, ISENABLER, n) OR (v AND impl_mask P ISENABLER n))"
| "written P F ICENABLER n v r = r((F, ISENABLER, n) := r (F, ISENABLER, n) AND NOT v)"
| "written P F k n v r = r((F, k, n) := v AND impl_mask P k n)"

definition lane :: "nat \<Rightarrow> u32 \<Rightarrow> u8" where
  "lane k r = ucast (drop_bit (8 * k) r)"

record intid_cfg =
  enabled :: bool
  group1 :: bool
  grpmod :: bool
  prio :: u8
  route :: u64

section \<open>Which register holds an INTID\<close>

definition reg_index :: "gic_reg \<Rightarrow> nat \<Rightarrow> nat" where
  "reg_index k j = (if k = IPRIORITYR then j div 4 else j div 32)"

definition intid_frame :: "virt_addr \<Rightarrow> virt_addr \<Rightarrow> nat \<Rightarrow> virt_addr" where
  "intid_frame dist sgi j = (if j < 32 then sgi else dist)"

definition intid_reg :: "virt_addr \<Rightarrow> virt_addr \<Rightarrow> gic_reg \<Rightarrow> nat \<Rightarrow> virt_addr \<times> gic_reg \<times> nat" where
  "intid_reg dist sgi k j = (intid_frame dist sgi j, k, reg_index k j)"

lemma intid_reg_eq_iff:
  "intid_reg dist sgi k i = intid_reg dist sgi k' j \<longleftrightarrow> k = k' \<and> reg_index k i = reg_index k j"
proof -
  have "i < 32 \<longleftrightarrow> j < 32" if "reg_index k i = reg_index k j"
  proof (cases "k = IPRIORITYR")
    case True
    then have "i div 4 < 8 \<longleftrightarrow> j div 4 < 8" using that by (simp add: reg_index_def)
    then show ?thesis by (simp add: div_less_iff_less_mult)
  next
    case False
    then have "i div 32 = 0 \<longleftrightarrow> j div 32 = 0" using that by (simp add: reg_index_def)
    then show ?thesis by (simp add: div_eq_0_iff)
  qed
  then show ?thesis by (auto simp: intid_reg_def intid_frame_def)
qed

lemma intid_reg_kind: "fst (snd (intid_reg dist sgi k j)) = k"
  by (simp add: intid_reg_def)

lemma bit_intid_flag: "k \<noteq> IPRIORITYR \<Longrightarrow> bit_intid k (reg_index k j) (j mod 32) = j"
  by (simp add: bit_intid_def reg_index_def)

lemma bit_intid_prio: "n < 8 \<Longrightarrow> bit_intid IPRIORITYR (reg_index IPRIORITYR j) (8 * (j mod 4) + n) = j"
  by (simp add: bit_intid_def reg_index_def)

text \<open>
  The configuration of an INTID, read off the registers; an INTID that is not implemented has the
  configuration of a disabled interrupt.
\<close>

definition cfg_of ::
  "gic_params \<Rightarrow> virt_addr \<Rightarrow> virt_addr \<Rightarrow> gic_regs \<Rightarrow> (nat \<Rightarrow> u64) \<Rightarrow> nat \<Rightarrow> intid_cfg" where
  "cfg_of P dist sgi r rt j =
     \<lparr>enabled = (implemented P j \<and> bit (r (intid_reg dist sgi ISENABLER j)) (j mod 32)),
      group1 = (implemented P j \<and> bit (r (intid_reg dist sgi IGROUPR j)) (j mod 32)),
      grpmod = (implemented P j \<and> bit (r (intid_reg dist sgi IGRPMODR j)) (j mod 32)),
      prio = (if implemented P j then lane (j mod 4) (r (intid_reg dist sgi IPRIORITYR j)) else 0),
      route = (if 32 \<le> j \<and> implemented P j then rt j else 0)\<rparr>"

lemma same_word: "reg_index k i = reg_index k j \<Longrightarrow> k \<noteq> IPRIORITYR \<Longrightarrow> i \<noteq> j \<Longrightarrow> i mod 32 \<noteq> j mod 32"
  unfolding reg_index_def by (metis div_mult_mod_eq)

lemma same_prio_word: "reg_index IPRIORITYR i = reg_index IPRIORITYR j \<Longrightarrow> i \<noteq> j \<Longrightarrow> i mod 4 \<noteq> j mod 4"
  unfolding reg_index_def by (metis div_mult_mod_eq)

section \<open>One-bit and byte-lane updates\<close>

lemma bit_set_one: "n < 32 \<Longrightarrow> bit (x OR push_bit m 1 :: u32) n \<longleftrightarrow> bit x n \<or> n = m"
  by (auto simp: bit_simps)

lemma bit_clear_one: "n < 32 \<Longrightarrow> bit (x AND NOT (push_bit m 1) :: u32) n \<longleftrightarrow> bit x n \<and> n \<noteq> m"
  by (auto simp: bit_simps)

lemma bit_lane: "bit (lane k r) n \<longleftrightarrow> n < 8 \<and> bit r (8 * k + n)"
  by (auto simp: lane_def bit_simps)

lemma in_lane: "n < 8 \<Longrightarrow> 8 * m \<le> 8 * k + n \<and> 8 * k + n < 8 * m + 8 \<longleftrightarrow> k = (m :: nat)"
  by auto

lemma bit_put_lane:
  assumes "m < 4" "k < 4" "n < 8"
  shows "bit ((raw AND NOT (push_bit (8 * m) 0xFF)) OR push_bit (8 * m) (ucast (p :: u8)) :: u32) (8 * k + n)
     \<longleftrightarrow> (if k = m then bit p n else bit raw (8 * k + n))"
proof -
  have mask: "(0xFF :: u32) = mask 8" by (simp add: mask_eq_exp_minus_1)
  have "8 * k + n < 32" using assms by simp
  moreover have "\<not> bit p i" if "8 \<le> i" for i using that by (auto dest: bit_imp_le_length)
  ultimately show ?thesis using in_lane [OF assms(3), of m k] assms unfolding mask
    by (auto simp: bit_simps)
qed

text \<open>The bit and the lane of an implemented INTID under a register update made for another INTID.\<close>

lemma intid_bit_set:
  fixes r :: gic_regs
  assumes "k \<noteq> IPRIORITYR" "k \<noteq> IGRPMODR" "implemented P j"
  shows "bit ((r(intid_reg dist sgi k i := (r (intid_reg dist sgi k i) OR push_bit (i mod 32) 1)
            AND impl_mask P k (reg_index k i))) (intid_reg dist sgi k' j)) (j mod 32)
    \<longleftrightarrow> bit (r (intid_reg dist sgi k' j)) (j mod 32) \<or> k' = k \<and> j = i"
proof (cases "intid_reg dist sgi k' j = intid_reg dist sgi k i")
  case True
  then have same: "k' = k" "reg_index k i = reg_index k j" "i = j \<or> i mod 32 \<noteq> j mod 32"
    using same_word [OF _ assms(1), of i j] by (auto simp: intid_reg_eq_iff)
  have "impl_bit P k (reg_index k j) (j mod 32)"
    using assms by (simp add: impl_bit_def bit_intid_flag)
  then show ?thesis unfolding True using same
    by (auto simp: bit_set_one bit_and_iff bit_impl_mask simp del: push_bit_of_1)
qed auto

lemma intid_bit_clear:
  fixes r :: gic_regs
  assumes "k \<noteq> IPRIORITYR"
  shows "bit ((r(intid_reg dist sgi k i := r (intid_reg dist sgi k i) AND NOT (push_bit (i mod 32) 1))) (intid_reg dist sgi k' j)) (j mod 32)
    \<longleftrightarrow> bit (r (intid_reg dist sgi k' j)) (j mod 32) \<and> \<not> (k' = k \<and> j = i)"
proof (cases "intid_reg dist sgi k' j = intid_reg dist sgi k i")
  case True
  then have "k' = k" "i = j \<or> i mod 32 \<noteq> j mod 32"
    using same_word [OF _ assms, of i j] by (auto simp: intid_reg_eq_iff)
  then show ?thesis unfolding True by (auto simp: bit_clear_one simp del: push_bit_of_1)
next
  case False
  then show ?thesis by auto
qed

lemma unat_lane_shift: "unat (of_nat i mod 4 * 8 :: u32) = 8 * (i mod 4)" if "i < 1024"
proof -
  have "unat (of_nat i :: u32) = i" using that by (simp add: unat_of_nat)
  then have "unat (of_nat i mod 4 :: u32) = i mod 4" by (simp add: unat_mod_distrib)
  then show ?thesis by (simp add: unat_word_ariths mult.commute)
qed

lemma intid_lane_put:
  fixes r :: gic_regs
  assumes "i < 1024" "implemented P j"
    and raz: "r (intid_reg dist sgi IPRIORITYR i) AND impl_mask P IPRIORITYR (reg_index IPRIORITYR i)
      = r (intid_reg dist sgi IPRIORITYR i)"
  shows "lane (j mod 4) ((r(intid_reg dist sgi IPRIORITYR i :=
            put_priority (of_nat i) p (r (intid_reg dist sgi IPRIORITYR i))
              AND impl_mask P IPRIORITYR (reg_index IPRIORITYR i))) (intid_reg dist sgi IPRIORITYR j))
    = (if j = i then p AND prio_bits P else lane (j mod 4) (r (intid_reg dist sgi IPRIORITYR j)))" (is "?l = ?r")
proof (cases "intid_reg dist sgi IPRIORITYR j = intid_reg dist sgi IPRIORITYR i")
  case True
  let ?x = "intid_reg dist sgi IPRIORITYR i" and ?M = "impl_mask P IPRIORITYR (reg_index IPRIORITYR i)"
  have put: "put_priority (of_nat i) p raw =
      (raw AND NOT (push_bit (8 * (i mod 4)) 0xFF)) OR push_bit (8 * (i mod 4)) (ucast p)" for raw
    using unat_lane_shift [OF assms(1)] by (simp only: put_priority_def Let_def)
  have word: "reg_index IPRIORITYR i = reg_index IPRIORITYR j" and "i = j \<or> i mod 4 \<noteq> j mod 4"
    using True same_prio_word [of i j] by (auto simp: intid_reg_eq_iff)
  then have ij: "j mod 4 = i mod 4 \<longleftrightarrow> j = i" by auto
  have bnd: "8 * (j mod 4) + n < 32" if "n < 8" for n
  proof -
    have "j mod 4 < 4" by simp
    then show ?thesis using that by linarith
  qed
  have M: "bit ?M (8 * (j mod 4) + n) = bit (prio_bits P) n" if "n < 8" for n
    using that assms(2) bit_intid_prio [OF that, of j] bnd [OF that]
    unfolding word by (simp add: bit_impl_mask impl_bit_def)
  have old: "bit (r ?x) (8 * (j mod 4) + n) \<Longrightarrow> bit (prio_bits P) n" if "n < 8" for n
    using arg_cong [OF raz, of "\<lambda>w. bit w (8 * (j mod 4) + n)"] M [OF that] by (auto simp: bit_and_iff)
  have "lane (j mod 4) (put_priority (of_nat i) p (r ?x) AND ?M) = ?r"
  proof (rule bit_word_eqI)
    fix n assume "n < LENGTH(8)"
    then have n: "n < 8" by simp
    have "bit (put_priority (of_nat i) p (r ?x)) (8 * (j mod 4) + n)
      \<longleftrightarrow> (if j = i then bit p n else bit (r ?x) (8 * (j mod 4) + n))"
      unfolding put using bit_put_lane [of "i mod 4" "j mod 4" n "r ?x" p] n ij by simp
    then show "bit (lane (j mod 4) (put_priority (of_nat i) p (r ?x) AND ?M)) n = bit ?r n"
      using n M [OF n] old [OF n] by (auto simp: bit_lane bit_and_iff True)
  qed
  then show ?thesis unfolding True by simp
next
  case False
  then show ?thesis by auto
qed

section \<open>Configurations under register updates\<close>

fun put_flag :: "gic_reg \<Rightarrow> bool \<Rightarrow> intid_cfg \<Rightarrow> intid_cfg" where
  "put_flag ISENABLER v c = c\<lparr>enabled := v\<rparr>"
| "put_flag IGROUPR v c = c\<lparr>group1 := v\<rparr>"
| "put_flag IGRPMODR v c = c\<lparr>grpmod := v\<rparr>"
| "put_flag _ v c = c"

text \<open>A change of one configuration, which only an implemented INTID can undergo.\<close>

definition cfg_update ::
  "gic_params \<Rightarrow> nat \<Rightarrow> (intid_cfg \<Rightarrow> intid_cfg) \<Rightarrow> (nat \<Rightarrow> intid_cfg) \<Rightarrow> nat \<Rightarrow> intid_cfg" where
  "cfg_update P i f c = (if implemented P i then c(i := f (c i)) else c)"

lemma cfg_update_apply: "cfg_update P i f c j = (if j = i \<and> implemented P i then f (c i) else c j)"
  by (simp add: cfg_update_def)

lemma cfg_update_twice: "cfg_update P i g (cfg_update P i f c) = cfg_update P i (\<lambda>x. g (f x)) c"
  by (simp add: fun_eq_iff cfg_update_apply)

lemma cfg_of_sel:
  "enabled (cfg_of P dist sgi r rt j) \<longleftrightarrow> implemented P j \<and> bit (r (intid_reg dist sgi ISENABLER j)) (j mod 32)"
  "group1 (cfg_of P dist sgi r rt j) \<longleftrightarrow> implemented P j \<and> bit (r (intid_reg dist sgi IGROUPR j)) (j mod 32)"
  "grpmod (cfg_of P dist sgi r rt j) \<longleftrightarrow> implemented P j \<and> bit (r (intid_reg dist sgi IGRPMODR j)) (j mod 32)"
  "prio (cfg_of P dist sgi r rt j) = (if implemented P j then lane (j mod 4) (r (intid_reg dist sgi IPRIORITYR j)) else 0)"
  "route (cfg_of P dist sgi r rt j) = (if 32 \<le> j \<and> implemented P j then rt j else 0)"
  by (simp_all add: cfg_of_def)

lemma other_kind [simp]:
  "k \<noteq> k' \<Longrightarrow> (r(intid_reg dist sgi k i := v)) (intid_reg dist sgi k' j) = r (intid_reg dist sgi k' j)"
  by (simp add: intid_reg_eq_iff)

lemma cfg_bit_set:
  assumes "k = IGROUPR \<or> k = ISENABLER"
  shows "cfg_of P dist sgi (r(intid_reg dist sgi k i := (r (intid_reg dist sgi k i) OR push_bit (i mod 32) 1)
            AND impl_mask P k (reg_index k i))) rt
    = cfg_update P i (put_flag k True) (cfg_of P dist sgi r rt)" (is "?l = ?r")
proof
  fix j
  have "implemented P j \<Longrightarrow> bit ((r(intid_reg dist sgi k i := (r (intid_reg dist sgi k i) OR push_bit (i mod 32) 1)
            AND impl_mask P k (reg_index k i))) (intid_reg dist sgi k' j)) (j mod 32)
    \<longleftrightarrow> bit (r (intid_reg dist sgi k' j)) (j mod 32) \<or> k' = k \<and> j = i" for k'
    using assms by (intro intid_bit_set) auto
  note sel = cfg_of_sel cfg_update_apply this
  show "?l j = ?r j" unfolding cfg_update_apply
    using assms by (cases "implemented P j"; intro intid_cfg.equality; auto simp: sel simp del: fun_upd_apply push_bit_of_1)
qed

lemma put_flag_fun:
  "put_flag ISENABLER v = (\<lambda>c. c\<lparr>enabled := v\<rparr>)" "put_flag IGROUPR v = (\<lambda>c. c\<lparr>group1 := v\<rparr>)"
  "put_flag IGRPMODR v = (\<lambda>c. c\<lparr>grpmod := v\<rparr>)"
  by (rule ext, simp)+

lemma cfg_bit_clear:
  assumes "k \<noteq> IPRIORITYR"
  shows "cfg_of P dist sgi (r(intid_reg dist sgi k i := r (intid_reg dist sgi k i) AND NOT (push_bit (i mod 32) 1))) rt
    = cfg_update P i (put_flag k False) (cfg_of P dist sgi r rt)" (is "?l = ?r")
proof
  fix j
  note sel = cfg_of_sel cfg_update_apply intid_bit_clear
  show "?l j = ?r j" unfolding cfg_update_apply
    using assms by (intro intid_cfg.equality; cases k; auto simp: sel simp del: fun_upd_apply push_bit_of_1)
qed

lemma cfg_priority:
  assumes "i < 1024" "r (intid_reg dist sgi IPRIORITYR i) AND impl_mask P IPRIORITYR (reg_index IPRIORITYR i)
      = r (intid_reg dist sgi IPRIORITYR i)"
  shows "cfg_of P dist sgi (r(intid_reg dist sgi IPRIORITYR i :=
            put_priority (of_nat i) p (r (intid_reg dist sgi IPRIORITYR i))
              AND impl_mask P IPRIORITYR (reg_index IPRIORITYR i))) rt
    = cfg_update P i (\<lambda>c. c\<lparr>prio := p AND prio_bits P\<rparr>) (cfg_of P dist sgi r rt)" (is "?l = ?r")
proof
  fix j
  note sel = cfg_of_sel cfg_update_apply intid_lane_put [where P = P and r = r and dist = dist and sgi = sgi and p = p, OF assms(1) _ assms(2)]
  show "?l j = ?r j" unfolding cfg_update_apply
    by (cases "implemented P j"; intro intid_cfg.equality; auto simp: sel simp del: fun_upd_apply)
qed

lemma cfg_route:
  assumes "32 \<le> i"
  shows "cfg_of P dist sgi r (if implemented P i then rt(i := w) else rt)
    = cfg_update P i (\<lambda>c. c\<lparr>route := w\<rparr>) (cfg_of P dist sgi r rt)"
  using assms by (intro ext intid_cfg.equality) (auto simp: cfg_of_sel cfg_update_apply)

section \<open>The contract of the interrupt controller\<close>

definition intid_addr :: "virt_addr \<Rightarrow> virt_addr \<Rightarrow> gic_reg \<Rightarrow> nat \<Rightarrow> virt_addr" where
  "intid_addr dist sgi k j = reg_addr (intid_frame dist sgi j) k (reg_index k j)"

text \<open>The register words of every INTID are words that the contract covers.\<close>

lemma intid_word: "j < 1024 \<Longrightarrow> gic_word dist sgi (intid_frame dist sgi j) k (reg_index k j)"
  by (auto simp: gic_word_def intid_frame_def reg_index_def private_words_def reg_count_def
      div_less_iff_less_mult less_eq_div_iff_mult_less_eq)

locale gic_hardware =
  fixes b :: "'d bus" and reg :: "'d \<Rightarrow> gic_regs" and router :: "'d \<Rightarrow> nat \<Rightarrow> u64"
    and P :: gic_params and mpidr :: u64 and dist :: virt_addr and sgi :: virt_addr
  assumes intids: "implemented P j \<Longrightarrow> j < 1020"
    and core: "sysreg_read b reg_mpidr_el1 d = (mpidr, d)"
    and read: "gic_word dist sgi F k n \<Longrightarrow> k \<noteq> ICENABLER \<Longrightarrow>
      mmio_read32 b (reg_addr F k n) d = (reg d (F, k, n), d)"
    and raz: "gic_word dist sgi F k n \<Longrightarrow> reg d (F, k, n) AND impl_mask P k n = reg d (F, k, n)"
    and "write": "gic_word dist sgi F k n \<Longrightarrow>
      reg (mmio_write32 b (reg_addr F k n) v d) = written P F k n v (reg d)"
    and write_router: "gic_word dist sgi F k n \<Longrightarrow>
      router (mmio_write32 b (reg_addr F k n) v d) = router d"
    and route_reg: "32 \<le> n \<Longrightarrow> n < 1024 \<Longrightarrow>
      reg (mmio_write64 b (dist + 0x6000 + of_nat (8 * n)) w d) = reg d"
    and route_write: "32 \<le> n \<Longrightarrow> n < 1024 \<Longrightarrow>
      router (mmio_write64 b (dist + 0x6000 + of_nat (8 * n)) w d)
        = (if implemented P n then (router d)(n := w) else router d)"
begin

definition view :: "'d \<Rightarrow> nat \<Rightarrow> intid_cfg" where
  "view d = cfg_of P dist sgi (reg d) (router d)"

lemma read_intid:
  "k \<noteq> ICENABLER \<Longrightarrow> j < 1024 \<Longrightarrow>
   mmio_read32 b (intid_addr dist sgi k j) d = (reg d (intid_reg dist sgi k j), d)"
  unfolding intid_addr_def intid_reg_def by (rule read [OF intid_word])

lemma raz_intid:
  "j < 1024 \<Longrightarrow> reg d (intid_reg dist sgi k j) AND impl_mask P k (reg_index k j) = reg d (intid_reg dist sgi k j)"
  unfolding intid_reg_def by (rule raz [OF intid_word])

lemma write_intid:
  "j < 1024 \<Longrightarrow> reg (mmio_write32 b (intid_addr dist sgi k j) v d)
     = written P (intid_frame dist sgi j) k (reg_index k j) v (reg d)"
  "j < 1024 \<Longrightarrow> router (mmio_write32 b (intid_addr dist sgi k j) v d) = router d"
  unfolding intid_addr_def
  using "write" [OF intid_word] write_router [OF intid_word] by blast+

lemmas intid_reg_fold = intid_reg_def [symmetric]

lemma view_group:
  assumes "i < 1024"
  shows "view (mmio_write32 b (intid_addr dist sgi IGROUPR i)
      (reg d (intid_reg dist sgi IGROUPR i) OR push_bit (i mod 32) 1) d)
    = cfg_update P i (\<lambda>c. c\<lparr>group1 := True\<rparr>) (view d)"
  using cfg_bit_set [of IGROUPR P dist sgi "reg d" i "router d"]
  by (simp add: view_def write_intid assms intid_reg_fold put_flag_fun del: push_bit_of_1)

lemma view_clear:
  assumes "i < 1024" "k = IGROUPR \<or> k = IGRPMODR"
  shows "view (mmio_write32 b (intid_addr dist sgi k i)
      (reg d (intid_reg dist sgi k i) AND NOT (push_bit (i mod 32) 1)) d)
    = cfg_update P i (put_flag k False) (view d)"
proof -
  let ?x = "intid_reg dist sgi k i"
  have "(reg d ?x AND NOT (push_bit (i mod 32) 1)) AND impl_mask P k (reg_index k i)
      = reg d ?x AND NOT (push_bit (i mod 32) 1)"
    using raz_intid [OF assms(1), of d k] by (simp only: and.assoc and.commute [of "NOT _"]) (simp only: and.assoc [symmetric])
  then show ?thesis using assms(2) cfg_bit_clear [of k P dist sgi "reg d" i "router d"]
    by (auto simp add: view_def write_intid assms(1) intid_reg_fold simp del: push_bit_of_1)
qed

lemma view_enable:
  assumes "i < 1024"
  shows "view (mmio_write32 b (intid_addr dist sgi ISENABLER i) (push_bit (i mod 32) 1) d)
      = cfg_update P i (\<lambda>c. c\<lparr>enabled := True\<rparr>) (view d)"
    and "view (mmio_write32 b (intid_addr dist sgi ICENABLER i) (push_bit (i mod 32) 1) d)
      = cfg_update P i (\<lambda>c. c\<lparr>enabled := False\<rparr>) (view d)"
proof -
  let ?x = "intid_reg dist sgi ISENABLER i" and ?M = "impl_mask P ISENABLER (reg_index ISENABLER i)"
  have eq: "(intid_frame dist sgi i, ISENABLER, reg_index ICENABLER i) = ?x"
    by (simp add: intid_reg_def reg_index_def)
  have M: "reg d ?x OR (v AND ?M) = (reg d ?x OR v) AND ?M" for v
    using raz_intid [OF assms, of d ISENABLER] by (simp only: bit.conj_disj_distrib2)
  show "view (mmio_write32 b (intid_addr dist sgi ISENABLER i) (push_bit (i mod 32) 1) d)
      = cfg_update P i (\<lambda>c. c\<lparr>enabled := True\<rparr>) (view d)"
    using cfg_bit_set [of ISENABLER P dist sgi "reg d" i "router d"]
    by (simp add: view_def write_intid assms intid_reg_fold put_flag_fun M del: push_bit_of_1)
  show "view (mmio_write32 b (intid_addr dist sgi ICENABLER i) (push_bit (i mod 32) 1) d)
      = cfg_update P i (\<lambda>c. c\<lparr>enabled := False\<rparr>) (view d)"
    using cfg_bit_clear [of ISENABLER P dist sgi "reg d" i "router d"]
    by (simp add: view_def write_intid assms eq intid_reg_fold put_flag_fun del: push_bit_of_1)
qed

lemma view_priority:
  assumes "i < 1024"
  shows "view (mmio_write32 b (intid_addr dist sgi IPRIORITYR i)
      (put_priority (of_nat i) p (reg d (intid_reg dist sgi IPRIORITYR i))) d)
    = cfg_update P i (\<lambda>c. c\<lparr>prio := p AND prio_bits P\<rparr>) (view d)"
  using cfg_priority [where r = "reg d" and p = p and rt = "router d", OF assms raz_intid [OF assms]]
  by (simp add: view_def write_intid assms intid_reg_fold)

lemma view_route:
  assumes "32 \<le> i" "i < 1024"
  shows "view (mmio_write64 b (dist + 0x6000 + of_nat (8 * i)) w d) = cfg_update P i (\<lambda>c. c\<lparr>route := w\<rparr>) (view d)"
  unfolding view_def route_reg [OF assms] route_write [OF assms] by (rule cfg_route [OF assms(1)])

end

end
