(* ===== verification/Gicv3_Correct.thy ===== *)
theory Gicv3_Correct
  imports Gicv3_Hardware
begin

text \<open>
  The interrupt configuration done by \<^verbatim>\<open>drivers/gicv3.c\<close> refines an abstract controller: a function
  from INTIDs to configurations of which each driver call changes exactly one entry, and none when
  the controller does not implement the INTID.
\<close>

section \<open>Register addresses of an INTID\<close>

definition gic_core :: "u64 \<Rightarrow> u32" where
  "gic_core mpidr = ucast (bf_get mpidr_el1_t MPIDR_aff0 mpidr)"

text \<open>The driver's base addresses are those of the hardware's frames, for the running core.\<close>

definition gic_attached ::
  "u64 \<Rightarrow> virt_addr \<Rightarrow> virt_addr \<Rightarrow> ('d, 'a) gic_state_scheme \<Rightarrow> bool" where
  "gic_attached mpidr dist sgi s \<longleftrightarrow> dist_base s = dist \<and> get_gicr_sgi_base s (gic_core mpidr) = sgi"

lemma gic_attached_hardware [simp]:
  "gic_attached mpidr dist sgi (s\<lparr>hardware := d\<rparr>) = gic_attached mpidr dist sgi s"
  by (simp add: gic_attached_def get_gicr_sgi_base_def get_redist_base_def)

lemma ucast_scaled: "unat n * m < 2 ^ 32 \<Longrightarrow> ucast (n * of_nat m :: u32) = (of_nat (m * unat n) :: u64)"
proof -
  assume *: "unat n * m < 2 ^ 32"
  have "unat (n * of_nat m :: u32) = m * unat n"
  proof (cases "unat n = 0")
    case True
    then have "n = 0" by (simp add: unsigned_eq_0_iff)
    then show ?thesis by simp
  next
    case False
    then have "m \<le> unat n * m" by simp
    then have "m < 2 ^ 32" using * by linarith
    then have "unat (of_nat m :: u32) = m" by (simp add: unat_of_nat)
    then show ?thesis using * by (simp add: unat_word_ariths mult.commute)
  qed
  then have "(of_nat (unat (n * of_nat m :: u32)) :: u64) = of_nat (m * unat n)" by (rule arg_cong)
  then show ?thesis by (simp only: of_nat_unat)
qed

lemma scaled_index:
  assumes "unat intid < 1024"
  shows "ucast (intid div 4 * 4 :: u32) = (of_nat (4 * (unat intid div 4)) :: u64)"
    and "ucast (intid div 32 * 4 :: u32) = (of_nat (4 * (unat intid div 32)) :: u64)"
    and "ucast (intid * 8 :: u32) = (of_nat (8 * unat intid) :: u64)"
proof -
  have "unat (intid div 4) = unat intid div 4" "unat (intid div 32) = unat intid div 32"
    by (simp_all add: unat_div_distrib)
  then show "ucast (intid div 4 * 4 :: u32) = (of_nat (4 * (unat intid div 4)) :: u64)"
    and "ucast (intid div 32 * 4 :: u32) = (of_nat (4 * (unat intid div 32)) :: u64)"
    and "ucast (intid * 8 :: u32) = (of_nat (8 * unat intid) :: u64)"
    using ucast_scaled [of "intid div 4" 4] ucast_scaled [of "intid div 32" 4] ucast_scaled [of intid 8] assms
    by (simp_all only:) simp_all
qed

lemma sgi_addresses:
  assumes "gic_attached mpidr dist sgi s" "unat intid < 32"
  shows "get_gicr_isenabler0 s (gic_core mpidr) = intid_addr dist sgi ISENABLER (unat intid)"
    and "get_gicr_icenabler0 s (gic_core mpidr) = intid_addr dist sgi ICENABLER (unat intid)"
    and "get_gicr_igroupr0 s (gic_core mpidr) = intid_addr dist sgi IGROUPR (unat intid)"
    and "get_gicr_igrpmodr0 s (gic_core mpidr) = intid_addr dist sgi IGRPMODR (unat intid)"
    and "get_gicr_ipriorityr s (gic_core mpidr) (intid div 4) = intid_addr dist sgi IPRIORITYR (unat intid)"
  using assms scaled_index(1) [of intid]
  by (simp_all add: gic_attached_def get_gicr_isenabler0_def get_gicr_icenabler0_def get_gicr_igroupr0_def
      get_gicr_igrpmodr0_def get_gicr_ipriorityr_def intid_addr_def reg_addr_def intid_frame_def reg_index_def)

lemma spi_addresses:
  assumes "gic_attached mpidr dist sgi s" "32 \<le> unat intid" "unat intid < 1024"
  shows "get_gicd_isenabler s (intid div 32) = intid_addr dist sgi ISENABLER (unat intid)"
    and "get_gicd_icenabler s (intid div 32) = intid_addr dist sgi ICENABLER (unat intid)"
    and "get_gicd_igroupr s (intid div 32) = intid_addr dist sgi IGROUPR (unat intid)"
    and "get_gicd_igrpmodr s (intid div 32) = intid_addr dist sgi IGRPMODR (unat intid)"
    and "get_gicd_ipriorityr s (intid div 4) = intid_addr dist sgi IPRIORITYR (unat intid)"
    and "get_gicd_irouter s intid = dist + 0x6000 + of_nat (8 * unat intid)"
  using assms scaled_index [OF assms(3)]
  by (simp_all add: gic_attached_def get_gicd_isenabler_def get_gicd_icenabler_def get_gicd_igroupr_def
      get_gicd_igrpmodr_def get_gicd_ipriorityr_def get_gicd_irouter_def intid_addr_def reg_addr_def
      intid_frame_def reg_index_def)

lemma getters_hardware [simp]:
  "get_gicd_igroupr (s\<lparr>hardware := d\<rparr>) = get_gicd_igroupr s"
  "get_gicd_igrpmodr (s\<lparr>hardware := d\<rparr>) = get_gicd_igrpmodr s"
  "get_gicd_ipriorityr (s\<lparr>hardware := d\<rparr>) = get_gicd_ipriorityr s"
  "get_gicd_irouter (s\<lparr>hardware := d\<rparr>) = get_gicd_irouter s"
  "get_gicd_isenabler (s\<lparr>hardware := d\<rparr>) = get_gicd_isenabler s"
  "get_gicd_icenabler (s\<lparr>hardware := d\<rparr>) = get_gicd_icenabler s"
  "get_redist_base (s\<lparr>hardware := d\<rparr>) = get_redist_base s"
  "get_gicr_sgi_base (s\<lparr>hardware := d\<rparr>) = get_gicr_sgi_base s"
  "get_gicr_waker (s\<lparr>hardware := d\<rparr>) = get_gicr_waker s"
  "get_gicr_isenabler0 (s\<lparr>hardware := d\<rparr>) = get_gicr_isenabler0 s"
  "get_gicr_icenabler0 (s\<lparr>hardware := d\<rparr>) = get_gicr_icenabler0 s"
  "get_gicr_igroupr0 (s\<lparr>hardware := d\<rparr>) = get_gicr_igroupr0 s"
  "get_gicr_igrpmodr0 (s\<lparr>hardware := d\<rparr>) = get_gicr_igrpmodr0 s"
  "get_gicr_ipriorityr (s\<lparr>hardware := d\<rparr>) = get_gicr_ipriorityr s"
  "get_gicd_ctlr (s\<lparr>hardware := d\<rparr>) = get_gicd_ctlr s"
  "get_gicd_typer (s\<lparr>hardware := d\<rparr>) = get_gicd_typer s"
  "get_gicd_iidr (s\<lparr>hardware := d\<rparr>) = get_gicd_iidr s"
  by (simp_all add: fun_eq_iff get_gicd_igroupr_def get_gicd_igrpmodr_def get_gicd_ipriorityr_def get_gicd_irouter_def get_gicd_isenabler_def get_gicd_icenabler_def get_redist_base_def get_gicr_sgi_base_def get_gicr_waker_def get_gicr_isenabler0_def get_gicr_icenabler0_def get_gicr_igroupr0_def get_gicr_igrpmodr0_def get_gicr_ipriorityr_def get_gicd_ctlr_def get_gicd_typer_def get_gicd_iidr_def)

section \<open>Each step changes one configuration\<close>

text \<open>The configuration a registration establishes, and the one a removal leaves.\<close>

definition configured_cfg :: "u8 \<Rightarrow> intid_cfg" where
  "configured_cfg pm = \<lparr>enabled = True, group1 = True, grpmod = False, prio = 0xA0 AND pm, route = 0\<rparr>"

definition reset_cfg :: intid_cfg where
  "reset_cfg = \<lparr>enabled = False, group1 = False, grpmod = False, prio = 0, route = 0\<rparr>"

context gic_hardware
begin

definition changes ::
  "nat \<Rightarrow> (intid_cfg \<Rightarrow> intid_cfg) \<Rightarrow> bool \<times> ('d, 'a) gic_state_scheme \<Rightarrow> ('d, 'a) gic_state_scheme \<Rightarrow> bool" where
  "changes i f res s \<longleftrightarrow>
     (\<exists>d. res = (True, s\<lparr>hardware := d\<rparr>) \<and> view d = cfg_update P i f (view (hardware s)))"

lemma changesI:
  "view d = cfg_update P i f (view (hardware s)) \<Longrightarrow> changes i f (True, s\<lparr>hardware := d\<rparr>) s"
  by (auto simp: changes_def)

lemma changesE:
  assumes "changes i f res s"
  obtains d where "res = (True, s\<lparr>hardware := d\<rparr>)" "view d = cfg_update P i f (view (hardware s))"
  using assms by (auto simp: changes_def)

lemma changes_chain:
  assumes "changes i f res s"
    and "\<And>d. res = (True, s\<lparr>hardware := d\<rparr>) \<Longrightarrow> changes i g (op (s\<lparr>hardware := d\<rparr>)) (s\<lparr>hardware := d\<rparr>)"
  shows "changes i (\<lambda>c. g (f c)) (let (ok, s1) = res in if \<not> ok then (False, s1) else op s1) s"
  using assms(1)
proof (rule changesE)
  fix d assume d: "res = (True, s\<lparr>hardware := d\<rparr>)" "view d = cfg_update P i f (view (hardware s))"
  from assms(2) [OF d(1)] show ?thesis by (auto simp: changes_def d cfg_update_twice)
qed

lemmas io = vread32_def vwrite32_def vwrite64_def

lemma word32_less: "intid < 32 \<longleftrightarrow> unat (intid :: u32) < 32" "31 < intid \<longleftrightarrow> \<not> unat intid < 32"
  "intid < 1024 \<longleftrightarrow> unat intid < 1024"
  by (simp_all add: word_less_nat_alt) arith

lemma unat_mod_32: "unat (intid mod 32 :: u32) = unat intid mod 32"
  by (simp add: unat_mod_distrib)

text \<open>SGIs and PPIs.\<close>

lemma sgi_steps:
  assumes at: "gic_attached mpidr dist sgi s" and i: "unat intid < 32"
  shows "changes (unat intid) (\<lambda>c. c\<lparr>group1 := True, grpmod := False\<rparr>)
      (set_sgi_ppi_group1_ns b (gic_core mpidr) intid s) s"
    and "changes (unat intid) (\<lambda>c. c\<lparr>group1 := False, grpmod := False\<rparr>)
      (clear_sgi_ppi_group b (gic_core mpidr) intid s) s"
    and "changes (unat intid) (\<lambda>c. c\<lparr>prio := p AND prio_bits P\<rparr>) (set_sgi_ppi_priority b (gic_core mpidr) intid p s) s"
    and "changes (unat intid) (\<lambda>c. c\<lparr>enabled := True\<rparr>) (enable_sgi_ppi b (gic_core mpidr) intid s) s"
    and "changes (unat intid) (\<lambda>c. c\<lparr>enabled := False\<rparr>) (disable_sgi_ppi b (gic_core mpidr) intid s) s"
proof -
  have lt: "unat intid < 1024" and m: "unat intid mod 32 = unat intid" using i by simp_all
  note upd = view_group [OF lt, unfolded m] view_clear [OF lt, unfolded m] view_enable [OF lt, unfolded m] view_priority [OF lt, simplified]
  note ops = set_sgi_ppi_group1_ns_def clear_sgi_ppi_group_def set_sgi_ppi_priority_def enable_sgi_ppi_def
    disable_sgi_ppi_def
  show "changes (unat intid) (\<lambda>c. c\<lparr>group1 := True, grpmod := False\<rparr>)
      (set_sgi_ppi_group1_ns b (gic_core mpidr) intid s) s"
    and "changes (unat intid) (\<lambda>c. c\<lparr>group1 := False, grpmod := False\<rparr>)
      (clear_sgi_ppi_group b (gic_core mpidr) intid s) s"
    and "changes (unat intid) (\<lambda>c. c\<lparr>prio := p AND prio_bits P\<rparr>) (set_sgi_ppi_priority b (gic_core mpidr) intid p s) s"
    and "changes (unat intid) (\<lambda>c. c\<lparr>enabled := True\<rparr>) (enable_sgi_ppi b (gic_core mpidr) intid s) s"
    and "changes (unat intid) (\<lambda>c. c\<lparr>enabled := False\<rparr>) (disable_sgi_ppi b (gic_core mpidr) intid s) s"
    using i lt by (auto intro!: changesI simp: ops word32_less io sgi_addresses [OF at i] read_intid upd cfg_update_twice put_flag_fun
        simp del: push_bit_of_1)
qed

text \<open>SPIs.\<close>

lemma spi_steps:
  assumes at: "gic_attached mpidr dist sgi s" and i: "32 \<le> unat intid" and lt: "unat intid < 1024"
  shows "changes (unat intid) (\<lambda>c. c\<lparr>group1 := True, grpmod := False\<rparr>) (set_spi_group1_ns b intid s) s"
    and "changes (unat intid) (\<lambda>c. c\<lparr>group1 := False, grpmod := False\<rparr>) (clear_spi_group b intid s) s"
    and "changes (unat intid) (\<lambda>c. c\<lparr>prio := p AND prio_bits P\<rparr>) (set_spi_priority b intid p s) s"
    and "changes (unat intid) (\<lambda>c. c\<lparr>route := route_value a0 a1 a2 a3\<rparr>) (set_spi_route b intid a0 a1 a2 a3 s) s"
    and "changes (unat intid) (\<lambda>c. c\<lparr>route := 0\<rparr>) (clear_spi_route b intid s) s"
    and "changes (unat intid) (\<lambda>c. c\<lparr>enabled := True\<rparr>) (enable_spi b intid s) s"
    and "changes (unat intid) (\<lambda>c. c\<lparr>enabled := False\<rparr>) (disable_spi b intid s) s"
proof -
  note upd = view_group [OF lt] view_clear [OF lt] view_enable [OF lt] view_priority [OF lt, simplified] view_route [OF i lt]
  note ops = set_spi_group1_ns_def clear_spi_group_def set_spi_priority_def set_spi_route_def
    clear_spi_route_def enable_spi_def disable_spi_def
  show "changes (unat intid) (\<lambda>c. c\<lparr>group1 := True, grpmod := False\<rparr>) (set_spi_group1_ns b intid s) s"
    and "changes (unat intid) (\<lambda>c. c\<lparr>group1 := False, grpmod := False\<rparr>) (clear_spi_group b intid s) s"
    and "changes (unat intid) (\<lambda>c. c\<lparr>prio := p AND prio_bits P\<rparr>) (set_spi_priority b intid p s) s"
    and "changes (unat intid) (\<lambda>c. c\<lparr>route := route_value a0 a1 a2 a3\<rparr>) (set_spi_route b intid a0 a1 a2 a3 s) s"
    and "changes (unat intid) (\<lambda>c. c\<lparr>route := 0\<rparr>) (clear_spi_route b intid s) s"
    and "changes (unat intid) (\<lambda>c. c\<lparr>enabled := True\<rparr>) (enable_spi b intid s) s"
    and "changes (unat intid) (\<lambda>c. c\<lparr>enabled := False\<rparr>) (disable_spi b intid s) s"
    using i lt by (auto intro!: changesI simp: ops word32_less io spi_addresses [OF at i lt] read_intid upd cfg_update_twice put_flag_fun unat_mod_32
        simp del: push_bit_of_1 of_nat_mult)
qed

lemma clear_sgi_priority_eq:
  "unat intid < 32 \<Longrightarrow> clear_sgi_ppi_priority b c intid s = set_sgi_ppi_priority b c intid 0 s"
  by (simp add: clear_sgi_ppi_priority_def word32_less)

lemma clear_spi_priority_eq:
  "32 \<le> unat intid \<Longrightarrow> clear_spi_priority b intid s = set_spi_priority b intid 0 s"
  by (simp add: clear_spi_priority_def word32_less)

lemma last_step: "(let (ok, s1) = res in if \<not> ok then (False, s1) else (True, s1)) = res"
  by (cases res) auto

lemma configure_sgi_changes:
  assumes "gic_attached mpidr dist sgi s" "unat intid < 32"
  shows "changes (unat intid) (\<lambda>c. c\<lparr>group1 := True, grpmod := False, prio := p AND prio_bits P, enabled := True\<rparr>)
      (configure_sgi_ppi b (gic_core mpidr) intid p s) s"
  unfolding configure_sgi_ppi_def last_step
  by (rule changes_chain [where f = "\<lambda>c. c\<lparr>group1 := True, grpmod := False\<rparr>"
        and g = "\<lambda>c. c\<lparr>prio := p AND prio_bits P, enabled := True\<rparr>"],
      rule sgi_steps [OF assms],
      rule changes_chain [where f = "\<lambda>c. c\<lparr>prio := p AND prio_bits P\<rparr>" and g = "\<lambda>c. c\<lparr>enabled := True\<rparr>"])
     (simp_all add: sgi_steps assms)

lemma unconfigure_sgi_changes:
  assumes "gic_attached mpidr dist sgi s" "unat intid < 32"
  shows "changes (unat intid) (\<lambda>c. c\<lparr>enabled := False, prio := 0, group1 := False, grpmod := False\<rparr>)
      (unconfigure_sgi_ppi b (gic_core mpidr) intid s) s"
  unfolding unconfigure_sgi_ppi_def last_step
  by (intro changes_chain [where f = "\<lambda>c. c\<lparr>enabled := False\<rparr>"
        and g = "\<lambda>c. c\<lparr>prio := 0, group1 := False, grpmod := False\<rparr>"]
      changes_chain [where f = "\<lambda>c. c\<lparr>prio := 0\<rparr>" and g = "\<lambda>c. c\<lparr>group1 := False, grpmod := False\<rparr>"])
     (simp_all add: clear_sgi_priority_eq sgi_steps sgi_steps(3) [where p = 0, simplified] assms)

lemma configure_spi_changes:
  assumes "gic_attached mpidr dist sgi s" "32 \<le> unat intid" "unat intid < 1024"
  shows "changes (unat intid)
      (\<lambda>c. c\<lparr>group1 := True, grpmod := False, prio := p AND prio_bits P, route := route_value a0 a1 a2 a3, enabled := True\<rparr>)
      (configure_spi b intid p a0 a1 a2 a3 s) s"
  unfolding configure_spi_def last_step
  by (rule changes_chain [where f = "\<lambda>c. c\<lparr>group1 := True, grpmod := False\<rparr>"
        and g = "\<lambda>c. c\<lparr>prio := p AND prio_bits P, route := route_value a0 a1 a2 a3, enabled := True\<rparr>"],
      rule spi_steps [OF assms],
      rule changes_chain [where f = "\<lambda>c. c\<lparr>prio := p AND prio_bits P\<rparr>"
        and g = "\<lambda>c. c\<lparr>route := route_value a0 a1 a2 a3, enabled := True\<rparr>"],
      simp add: spi_steps assms,
      rule changes_chain [where f = "\<lambda>c. c\<lparr>route := route_value a0 a1 a2 a3\<rparr>" and g = "\<lambda>c. c\<lparr>enabled := True\<rparr>"])
     (simp_all add: spi_steps assms)

lemma unconfigure_spi_changes:
  assumes "gic_attached mpidr dist sgi s" "32 \<le> unat intid" "unat intid < 1024"
  shows "changes (unat intid) (\<lambda>c. c\<lparr>enabled := False, prio := 0, route := 0, group1 := False, grpmod := False\<rparr>)
      (unconfigure_spi b intid s) s"
  unfolding unconfigure_spi_def last_step
  by (intro changes_chain [where f = "\<lambda>c. c\<lparr>enabled := False\<rparr>"
        and g = "\<lambda>c. c\<lparr>prio := 0, route := 0, group1 := False, grpmod := False\<rparr>"]
      changes_chain [where f = "\<lambda>c. c\<lparr>prio := 0\<rparr>" and g = "\<lambda>c. c\<lparr>route := 0, group1 := False, grpmod := False\<rparr>"]
      changes_chain [where f = "\<lambda>c. c\<lparr>route := 0\<rparr>" and g = "\<lambda>c. c\<lparr>group1 := False, grpmod := False\<rparr>"])
     (simp_all add: clear_spi_priority_eq spi_steps spi_steps(3) [where p = 0, simplified] assms)

lemma core_id: "get_core_id b s = (gic_core mpidr, s)"
  by (simp add: get_core_id_def READ_SYS_REG_def core gic_core_def)

lemma changes_to:
  assumes "changes i f res s" "f (view (hardware s) i) = c"
  shows "\<exists>d. res = (True, s\<lparr>hardware := d\<rparr>) \<and> view d = cfg_update P i (\<lambda>_. c) (view (hardware s))"
proof -
  have "cfg_update P i f (view (hardware s)) = cfg_update P i (\<lambda>_. c) (view (hardware s))"
    using assms(2) by (simp add: cfg_update_def)
  then show ?thesis using assms(1) by (auto simp: changes_def)
qed

lemma sgi_route: "i < 32 \<Longrightarrow> route (view d i) = 0"
  by (simp add: view_def cfg_of_sel)

lemma register_changes:
  assumes at: "gic_attached mpidr dist sgi s" and lt: "irq < MAX_INT_ID"
  shows "\<exists>d. gicv3_register_irq b irq h s =
      (True, s\<lparr>hardware := d, dispatch_table := (dispatch_table s)[unat irq := h]\<rparr>)
    \<and> view d = cfg_update P (unat irq) (\<lambda>_. configured_cfg (prio_bits P)) (view (hardware s))"
proof (cases "unat irq < 32")
  case True
  have "\<exists>d. configure_sgi_ppi b (gic_core mpidr) irq 0xA0 s = (True, s\<lparr>hardware := d\<rparr>)
    \<and> view d = cfg_update P (unat irq) (\<lambda>_. configured_cfg (prio_bits P)) (view (hardware s))"
    by (rule changes_to [OF configure_sgi_changes [OF at True]], rule intid_cfg.equality)
      (simp_all add: sgi_route True configured_cfg_def)
  then obtain d where "configure_sgi_ppi b (gic_core mpidr) irq 0xA0 s = (True, s\<lparr>hardware := d\<rparr>)"
    "view d = cfg_update P (unat irq) (\<lambda>_. configured_cfg (prio_bits P)) (view (hardware s))" by blast
  then show ?thesis using lt True
    by (intro exI [of _ d]) (simp add: gicv3_register_irq_def core_id word32_less not_le)
next
  case False
  have lt': "unat irq < 1024" using lt by (simp add: MAX_INT_ID_def word32_less)
  have rv: "route_value 0 0 0 0 = 0" by code_simp
  have "\<exists>d. configure_spi b irq 0xA0 0 0 0 0 s = (True, s\<lparr>hardware := d\<rparr>)
    \<and> view d = cfg_update P (unat irq) (\<lambda>_. configured_cfg (prio_bits P)) (view (hardware s))"
    by (rule changes_to [OF configure_spi_changes [OF at _ lt']], use False in simp,
        rule intid_cfg.equality) (simp_all add: rv configured_cfg_def)
  then obtain d where "configure_spi b irq 0xA0 0 0 0 0 s = (True, s\<lparr>hardware := d\<rparr>)"
    "view d = cfg_update P (unat irq) (\<lambda>_. configured_cfg (prio_bits P)) (view (hardware s))" by blast
  then show ?thesis using lt False
    by (intro exI [of _ d]) (simp add: gicv3_register_irq_def word32_less not_le)
qed

lemma unregister_changes:
  assumes at: "gic_attached mpidr dist sgi s" and lt: "irq < MAX_INT_ID"
  shows "\<exists>d. gicv3_unregister_irq b irq s =
      s\<lparr>hardware := d, dispatch_table := (dispatch_table s)[unat irq := \<lparr>handler = 0, private_data = 0\<rparr>]\<rparr>
    \<and> view d = cfg_update P (unat irq) (\<lambda>_. reset_cfg) (view (hardware s))"
proof (cases "unat irq < 32")
  case True
  have "\<exists>d. unconfigure_sgi_ppi b (gic_core mpidr) irq s = (True, s\<lparr>hardware := d\<rparr>)
    \<and> view d = cfg_update P (unat irq) (\<lambda>_. reset_cfg) (view (hardware s))"
    by (rule changes_to [OF unconfigure_sgi_changes [OF at True]], rule intid_cfg.equality)
      (simp_all add: sgi_route True reset_cfg_def)
  then obtain d where "unconfigure_sgi_ppi b (gic_core mpidr) irq s = (True, s\<lparr>hardware := d\<rparr>)"
    "view d = cfg_update P (unat irq) (\<lambda>_. reset_cfg) (view (hardware s))" by blast
  then show ?thesis using lt True
    by (intro exI [of _ d]) (simp add: gicv3_unregister_irq_def core_id word32_less not_le)
next
  case False
  have lt': "unat irq < 1024" using lt by (simp add: MAX_INT_ID_def word32_less)
  have "\<exists>d. unconfigure_spi b irq s = (True, s\<lparr>hardware := d\<rparr>)
    \<and> view d = cfg_update P (unat irq) (\<lambda>_. reset_cfg) (view (hardware s))"
    by (rule changes_to [OF unconfigure_spi_changes [OF at _ lt']], use False in simp,
        rule intid_cfg.equality) (simp_all add: reset_cfg_def)
  then obtain d where "unconfigure_spi b irq s = (True, s\<lparr>hardware := d\<rparr>)"
    "view d = cfg_update P (unat irq) (\<lambda>_. reset_cfg) (view (hardware s))" by blast
  then show ?thesis using lt False
    by (intro exI [of _ d]) (simp add: gicv3_unregister_irq_def word32_less not_le)
qed

end

end
