(* ===== verification/Gicv3_Irq.thy ===== *)
theory Gicv3_Irq
  imports Gicv3_Correct
begin

text \<open>
  The interface of the GICv3 driver: registration, removal and dispatch of interrupts, as
  refinement of an abstract interrupt table, and the polling loops of the bring-up.
\<close>

section \<open>The abstract interrupt table\<close>

record irq_spec =
  cfgs :: "nat \<Rightarrow> intid_cfg"
  handlers :: "handler_data_t list"

definition no_handler :: handler_data_t where
  "no_handler = \<lparr>handler = 0, private_data = 0\<rparr>"

definition spec_register :: "gic_params \<Rightarrow> nat \<Rightarrow> handler_data_t \<Rightarrow> irq_spec \<Rightarrow> bool \<times> irq_spec" where
  "spec_register P i h a =
     (if i < 1024 then
        (True, \<lparr>cfgs = (if implemented P i then (cfgs a)(i := configured_cfg (prio_bits P)) else cfgs a),
                handlers = (handlers a)[i := h]\<rparr>)
      else (False, a))"

definition spec_unregister :: "gic_params \<Rightarrow> nat \<Rightarrow> irq_spec \<Rightarrow> irq_spec" where
  "spec_unregister P i a =
     (if i < 1024 then
        \<lparr>cfgs = (if implemented P i then (cfgs a)(i := reset_cfg) else cfgs a),
         handlers = (handlers a)[i := no_handler]\<rparr>
      else a)"

definition irq_abs ::
  "gic_params \<Rightarrow> ('d \<Rightarrow> gic_regs) \<Rightarrow> ('d \<Rightarrow> nat \<Rightarrow> u64) \<Rightarrow> virt_addr \<Rightarrow> virt_addr \<Rightarrow> ('d, 'a) gic_state_scheme
     \<Rightarrow> irq_spec" where
  "irq_abs P reg router dist sgi s =
     \<lparr>cfgs = cfg_of P dist sgi (reg (hardware s)) (router (hardware s)), handlers = dispatch_table s\<rparr>"

lemma MAX_INT_ID_nat: "irq < MAX_INT_ID \<longleftrightarrow> unat irq < 1024"
  by (simp add: MAX_INT_ID_def word_less_nat_alt)

lemma range_error_frame [simp]:
  "hardware (range_error i s) = hardware s" "dispatch_table (range_error i s) = dispatch_table s"
  "gic_attached mpidr dist sgi (range_error i s) = gic_attached mpidr dist sgi s"
  by (simp_all add: range_error_def kprintf_def gic_attached_def get_gicr_sgi_base_def get_redist_base_def)

lemma gic_attached_table [simp]:
  "gic_attached mpidr dist sgi (s\<lparr>dispatch_table := t\<rparr>) = gic_attached mpidr dist sgi s"
  by (simp add: gic_attached_def get_gicr_sgi_base_def get_redist_base_def)

lemma register_refines:
  assumes hw: "gic_hardware b reg router P mpidr dist sgi" and at: "gic_attached mpidr dist sgi s"
  shows "map_prod id (irq_abs P reg router dist sgi) (gicv3_register_irq b irq h s)
       = spec_register P (unat irq) h (irq_abs P reg router dist sgi s)
    \<and> gic_attached mpidr dist sgi (snd (gicv3_register_irq b irq h s))"
proof (cases "irq < MAX_INT_ID")
  case True
  then show ?thesis
    using gic_hardware.register_changes [OF hw at True, of h] gic_hardware.view_def [OF hw] at
    by (auto simp: spec_register_def irq_abs_def MAX_INT_ID_nat cfg_update_def)
next
  case False
  then have "gicv3_register_irq b irq h s = (False, range_error irq s)" by (simp add: gicv3_register_irq_def not_less)
  with False at show ?thesis by (simp add: spec_register_def irq_abs_def MAX_INT_ID_nat)
qed

lemma unregister_refines:
  assumes hw: "gic_hardware b reg router P mpidr dist sgi" and at: "gic_attached mpidr dist sgi s"
  shows "irq_abs P reg router dist sgi (gicv3_unregister_irq b irq s)
       = spec_unregister P (unat irq) (irq_abs P reg router dist sgi s)
    \<and> gic_attached mpidr dist sgi (gicv3_unregister_irq b irq s)"
proof (cases "irq < MAX_INT_ID")
  case True
  then show ?thesis
    using gic_hardware.unregister_changes [OF hw at True] gic_hardware.view_def [OF hw] at
    by (auto simp: spec_unregister_def irq_abs_def MAX_INT_ID_nat no_handler_def cfg_update_def)
next
  case False
  then have "gicv3_unregister_irq b irq s = range_error irq s" by (simp add: gicv3_unregister_irq_def not_less)
  with False at show ?thesis by (simp add: spec_unregister_def irq_abs_def MAX_INT_ID_nat)
qed

text \<open>
  C33. Registration refines the abstract table: the call succeeds exactly for INTIDs below 1024, and
  stores the handler. When the controller implements the INTID (none above 1019 exists), it is then
  enabled in group 1 non-secure with priority \<open>0xA0\<close> (as far as implemented) and routed to the
  first core; otherwise no configuration changes. The configuration and handler of every other INTID
  are unchanged. Removal resets exactly that INTID and its handler. This is what the code
  does, which is more than its documentation allows: \<^verbatim>\<open>gicv3.h\<close> restricts the argument to 0-1019, but
  1020-1023 are accepted, and \<^verbatim>\<open>icu.h\<close> says that an INTID already registered is refused, but the
  old handler is replaced.
\<close>

theorem gicv3_refines_irq_table:
  assumes "gic_hardware b reg router P mpidr dist sgi" and "gic_attached mpidr dist sgi s"
  shows "map_prod id (irq_abs P reg router dist sgi) (gicv3_register_irq b irq h s)
       = spec_register P (unat irq) h (irq_abs P reg router dist sgi s)
    \<and> irq_abs P reg router dist sgi (gicv3_unregister_irq b irq s)
       = spec_unregister P (unat irq) (irq_abs P reg router dist sgi s)"
  using register_refines [OF assms] unregister_refines [OF assms] by blast

section \<open>Sequences of calls\<close>

inductive irq_calls ::
  "'d bus \<Rightarrow> ('d, 'a) gic_state_scheme \<Rightarrow> ('d, 'a) gic_state_scheme \<Rightarrow> bool" for b s0 where
  start: "irq_calls b s0 s0"
| register: "irq_calls b s0 s \<Longrightarrow> handler h \<noteq> 0 \<Longrightarrow> irq_calls b s0 (snd (gicv3_register_irq b irq h s))"
| unregister: "irq_calls b s0 s \<Longrightarrow> irq_calls b s0 (gicv3_unregister_irq b irq s)"

text \<open>An INTID that the controller implements is enabled exactly when a handler is registered for it.\<close>

definition irq_consistent :: "gic_params \<Rightarrow> irq_spec \<Rightarrow> bool" where
  "irq_consistent P a \<longleftrightarrow> length (handlers a) = 1024
     \<and> (\<forall>i<1024. implemented P i \<longrightarrow> (enabled (cfgs a i) \<longleftrightarrow> handler (handlers a ! i) \<noteq> 0))"

lemma spec_keeps_consistent:
  "irq_consistent P a \<Longrightarrow> handler h \<noteq> 0 \<Longrightarrow> irq_consistent P (snd (spec_register P i h a))"
  "irq_consistent P a \<Longrightarrow> irq_consistent P (spec_unregister P i a)"
  by (auto simp: irq_consistent_def spec_register_def spec_unregister_def configured_cfg_def reset_cfg_def
      no_handler_def nth_list_update)

text \<open>
  C34. From a consistent state, any sequence of registrations (of handlers that are not null) and
  removals, with arbitrary INTIDs, keeps the hardware and the dispatch table consistent: an
  interrupt that the controller can deliver has a handler, and the interrupt of a registered handler
  is enabled if the controller implements it. The second part shows that no other INTID can be
  delivered: it is never enabled.
\<close>

theorem enabled_iff_handler:
  assumes "gic_hardware b reg router P mpidr dist sgi" and "gic_attached mpidr dist sgi s0"
    and "irq_consistent P (irq_abs P reg router dist sgi s0)" and "irq_calls b s0 s"
  shows "irq_consistent P (irq_abs P reg router dist sgi s)
    \<and> (\<forall>i. enabled (cfgs (irq_abs P reg router dist sgi s) i) \<longrightarrow> i < 1020 \<and> handler (dispatch_table s ! i) \<noteq> 0)"
proof -
  have "gic_attached mpidr dist sgi s \<and> irq_consistent P (irq_abs P reg router dist sgi s)"
    using assms(4)
  proof (induction rule: irq_calls.induct)
    case (register s h irq)
    then have "irq_abs P reg router dist sgi (snd (gicv3_register_irq b irq h s))
        = snd (spec_register P (unat irq) h (irq_abs P reg router dist sgi s))"
      using register_refines [OF assms(1), of s irq h] by (metis snd_map_prod)
    with register show ?case
      using register_refines [OF assms(1), of s irq h] spec_keeps_consistent(1) by metis
  next
    case (unregister s irq)
    then show ?case using unregister_refines [OF assms(1), of s irq] spec_keeps_consistent(2) by metis
  qed (use assms in simp)
  then have ok: "irq_consistent P (irq_abs P reg router dist sgi s)" by blast
  have "i < 1020 \<and> handler (dispatch_table s ! i) \<noteq> 0" if en: "enabled (cfgs (irq_abs P reg router dist sgi s) i)" for i
  proof -
    have "implemented P i" using en by (simp add: irq_abs_def cfg_of_sel)
    moreover from this have "i < 1020" by (rule gic_hardware.intids [OF assms(1)])
    ultimately show ?thesis using ok en by (auto simp: irq_consistent_def irq_abs_def)
  qed
  with ok show ?thesis by blast
qed

section \<open>Dispatch\<close>

lemma iar_width: "bf_width icc_iar1_el1_t IAR1_intid = 24" "bf_offset icc_iar1_el1_t IAR1_intid = 0"
  "bf_width icc_eoir1_el1_t EOIR1_intid = 24" "bf_offset icc_eoir1_el1_t EOIR1_intid = 0"
  by (simp_all add: icc_iar1_el1_t_def icc_eoir1_el1_t_def)

text \<open>The INTID that an acknowledge register value carries, and the value that ends that interrupt.\<close>

definition acked :: "u64 \<Rightarrow> u32" where
  "acked iar = ucast (take_bit 24 iar)"

lemma acked_field: "ucast (bf_get icc_iar1_el1_t IAR1_intid iar) = acked iar"
  by (simp add: acked_def bf_get_def iar_width)

lemma eoi_value: "bf_set icc_eoir1_el1_t EOIR1_intid (ucast (acked iar)) 0 = take_bit 24 iar"
  by (rule bit_word_eqI) (auto simp: acked_def bf_set_def iar_width bit_simps)

lemma handle_irq_cases:
  assumes "sysreg_read b reg_icc_iar1_el1 (hardware s) = (iar, d)"
  shows "gicv3_handle_irq b invoke s =
    (if acked iar \<ge> 1022 then
       Some (s\<lparr>hardware := d, daif := daif s AND NOT 0xF,
         console := console s @ [if acked iar < MAX_INT_ID then (''Spurious interrupt, ignoring'' @ LF, [])
           else (''Error: out-of-range INTID %u received'' @ LF, [U32 (acked iar)])]\<rparr>)
     else
       map_option (WRITE_SYS_REG b reg_icc_eoir1_el1 (take_bit 24 iar))
         (let h = dispatch_table s ! unat (acked iar)
          in if handler h \<noteq> 0 then invoke (handler h) (private_data h) (s\<lparr>hardware := d\<rparr>)
             else Some (kprintf (''Warning: no handler registered for INTID %u'' @ LF) [U32 (acked iar)]
                    (s\<lparr>hardware := d\<rparr>))))"
proof -
  have range: "1022 \<le> i \<and> i < 1024 \<longleftrightarrow> i = 1022 \<or> i = 1023" for i :: u32
    unfolding word_le_nat_alt word_less_nat_alt by (auto simp: word_eq_iff_unsigned [where 'a = nat])
  show ?thesis
    using assms range [of "acked iar"]
    by (auto simp: gicv3_handle_irq_def READ_SYS_REG_def acked_field eoi_value MAX_INT_ID_def unmask_all_exceptions_def
        kprintf_def Let_def not_less intro: order_trans [of 1022 1024])
qed

text \<open>
  C35. Dispatch, on every branch. An INTID of 1022, 1023 (spurious) or above (out of range) is not
  ended and unmasks the exceptions. For any other INTID the registered handler is called once, with its private data, on
  the state after the acknowledge; then exactly the acknowledged INTID is written to the
  end-of-interrupt register. Without a handler the interrupt is still ended. The handler of a
  dispatched interrupt decides whether the call returns. \<open>Any other\<close> includes the special INTIDs 1020
  and 1021: the comments of \<^verbatim>\<open>gicv3.c\<close> say that 1020-1023 are never dispatched, but the code tests only
  for 1022 and 1023, so these two reach the dispatch table and are ended like interrupts.
\<close>

theorem gicv3_handle_irq_dispatch:
  assumes "sysreg_read b reg_icc_iar1_el1 (hardware s) = (iar, d)"
  shows "gicv3_handle_irq b invoke s =
    (if acked iar \<ge> 1022 then
       Some (s\<lparr>hardware := d, daif := daif s AND NOT 0xF,
         console := console s @ [if acked iar < MAX_INT_ID then (''Spurious interrupt, ignoring'' @ LF, [])
           else (''Error: out-of-range INTID %u received'' @ LF, [U32 (acked iar)])]\<rparr>)
     else
       map_option (WRITE_SYS_REG b reg_icc_eoir1_el1 (take_bit 24 iar))
         (let h = dispatch_table s ! unat (acked iar)
          in if handler h \<noteq> 0 then invoke (handler h) (private_data h) (s\<lparr>hardware := d\<rparr>)
             else Some (kprintf (''Warning: no handler registered for INTID %u'' @ LF) [U32 (acked iar)]
                    (s\<lparr>hardware := d\<rparr>))))"
  by (rule handle_irq_cases [OF assms])

text \<open>
  Registration reaches dispatch: when the controller acknowledges the INTID that was just
  registered, the driver calls exactly the registered handler with its private data and then ends
  that INTID.
\<close>

theorem registered_irq_is_dispatched:
  assumes "gic_hardware b reg router P mpidr dist sgi" and "gic_attached mpidr dist sgi s"
    and "length (dispatch_table s) = 1024" and "irq < 1022" and "handler h \<noteq> 0"
    and "sysreg_read b reg_icc_iar1_el1 (hardware (snd (gicv3_register_irq b irq h s))) = (ucast irq, d)"
  shows "gicv3_handle_irq b invoke (snd (gicv3_register_irq b irq h s)) =
    map_option (WRITE_SYS_REG b reg_icc_eoir1_el1 (ucast irq))
      (invoke (handler h) (private_data h) ((snd (gicv3_register_irq b irq h s))\<lparr>hardware := d\<rparr>))"
proof -
  have lt: "unat irq < 1022" using assms(4) by (simp add: word_less_nat_alt)
  then have "irq < MAX_INT_ID" by (simp add: MAX_INT_ID_nat)
  then have "dispatch_table (snd (gicv3_register_irq b irq h s)) ! unat irq = h"
    using gic_hardware.register_changes [OF assms(1,2), of irq h] lt assms(3) by auto
  moreover have "take_bit 24 (ucast irq :: u64) = ucast irq"
  proof -
    have "unat (take_bit 24 (ucast irq :: u64)) = unat (ucast irq :: u64)"
      using lt by (simp add: unsigned_take_bit_eq unsigned_ucast_eq take_bit_nat_eq_self)
    then show ?thesis by (rule unsigned_word_eqI)
  qed
  moreover have "acked (ucast irq) = irq"
    unfolding acked_def calculation(2) by (rule bit_word_eqI) (auto simp: bit_simps)
  moreover have "\<not> 1022 \<le> irq" using assms(4) by (simp add: not_le)
  ultimately show ?thesis
    using handle_irq_cases [OF assms(6), of invoke] assms(5) by (simp add: Let_def)
qed

end
