(* ===== verification/Timer_Correct.thy ===== *)
theory Timer_Correct
  imports Timer Gicv3_Irq
begin

text \<open>
  Correctness of the system timer. The locale \<open>generic_timer\<close> states what the driver relies on of
  the hardware timer: which registers an access changes. On it, one run of the interrupt service
  routine moves the deadline by exactly one period, so the deadlines stay on the grid fixed when
  the timer was started, however late the interrupts are served.
\<close>

section \<open>The hardware timer\<close>

text \<open>The control values that the driver writes.\<close>

lemma ctl_layout:
  "bf_offset cntp_ctl_el0_t CNTP_is_enable = 0" "bf_width cntp_ctl_el0_t CNTP_is_enable = 1"
  "bf_offset cntp_ctl_el0_t CNTP_is_masked = 1" "bf_width cntp_ctl_el0_t CNTP_is_masked = 1"
  "bf_offset cntp_ctl_el0_t CNTP_is_condition_fulfilled = 2" "bf_width cntp_ctl_el0_t CNTP_is_condition_fulfilled = 1"
  by (simp_all add: cntp_ctl_el0_t_def)

lemma ctl_fields:
  "bf_get cntp_ctl_el0_t CNTP_is_condition_fulfilled v = 0 \<longleftrightarrow> \<not> bit v 2"
  "take_bit 2 (bf_set cntp_ctl_el0_t CNTP_is_masked 1 v) = take_bit 2 v OR 2"
  "take_bit 2 (bf_set cntp_ctl_el0_t CNTP_is_masked 0 (bf_set cntp_ctl_el0_t CNTP_is_enable 1 w)) = 1"
  for v w :: u64
proof -
  have two: "bit (2 :: u64) k \<longleftrightarrow> k = 1" for k using bit_exp_iff [of 1 k, where 'a = u64] by auto
  show "bf_get cntp_ctl_el0_t CNTP_is_condition_fulfilled v = 0 \<longleftrightarrow> \<not> bit v 2"
  proof -
    have "bf_get cntp_ctl_el0_t CNTP_is_condition_fulfilled v = of_bool (bit v 2)"
      by (rule bit_word_eqI) (auto simp: bit_bf_get ctl_layout bit_simps numeral_2_eq_2)
    then show ?thesis by simp
  qed
  show "take_bit 2 (bf_set cntp_ctl_el0_t CNTP_is_masked 1 v) = take_bit 2 v OR 2"
    by (rule bit_word_eqI) (auto simp: bit_simps bit_bf_set ctl_layout two)
  show "take_bit 2 (bf_set cntp_ctl_el0_t CNTP_is_masked 0 (bf_set cntp_ctl_el0_t CNTP_is_enable 1 w)) = 1"
    by (rule bit_word_eqI) (auto simp: bit_simps bit_bf_set ctl_layout)
qed

text \<open>\<open>ctl\<close> holds the two writable bits of the control register, \<open>cval\<close> the deadline.\<close>

locale generic_timer =
  fixes b :: "'d bus" and ctl :: "'d \<Rightarrow> u64" and cval :: "'d \<Rightarrow> u64"
  assumes read_ctl: "sysreg_read b reg_CNTP_CTL_EL0 d = (v, d') \<Longrightarrow> take_bit 2 v = ctl d \<and> ctl d' = ctl d \<and> cval d' = cval d"
    and write_ctl: "ctl (sysreg_write b reg_CNTP_CTL_EL0 v d) = take_bit 2 v" "cval (sysreg_write b reg_CNTP_CTL_EL0 v d) = cval d"
    and read_cval: "sysreg_read b reg_CNTP_CVAL_EL0 d = (v, d') \<Longrightarrow> v = cval d \<and> ctl d' = ctl d \<and> cval d' = cval d"
    and write_cval: "cval (sysreg_write b reg_CNTP_CVAL_EL0 v d) = v" "ctl (sysreg_write b reg_CNTP_CVAL_EL0 v d) = ctl d"
begin

lemma isr_not_fulfilled:
  assumes "\<not> bit (fst (sysreg_read b reg_CNTP_CTL_EL0 (hardware s))) 2"
  shows "timer_isr b invoke s = Some (s\<lparr>hardware := snd (sysreg_read b reg_CNTP_CTL_EL0 (hardware s))\<rparr>)"
  using assms by (simp add: timer_isr_def READ_SYS_REG_eq ctl_fields)

lemma isr_fulfilled:
  assumes f: "bit (fst (sysreg_read b reg_CNTP_CTL_EL0 (hardware s))) 2" and r: "timer_isr b invoke s = Some s'"
  obtains s2 s3 where "s2 = s\<lparr>hardware := hardware s2\<rparr>" "ctl (hardware s2) = ctl (hardware s) OR 2"
    "cval (hardware s2) = cval (hardware s)"
    "invoke (handler (tick_handler s)) (private_data (tick_handler s)) s2 = Some s3"
    "s' = s3\<lparr>hardware := hardware s'\<rparr>" "cval (hardware s') = cval (hardware s3) + period_ticks s3" "ctl (hardware s') = 1"
proof -
  obtain v d where v: "sysreg_read b reg_CNTP_CTL_EL0 (hardware s) = (v, d)" by fastforce
  define v1 where "v1 = bf_set cntp_ctl_el0_t CNTP_is_masked 1 v"
  define s2 where "s2 = s\<lparr>hardware := sysreg_write b reg_CNTP_CTL_EL0 v1 d\<rparr>"
  have c: "bf_get cntp_ctl_el0_t CNTP_is_condition_fulfilled v \<noteq> 0" using f by (simp add: v ctl_fields)
  obtain s3 where s3: "invoke (handler (tick_handler s)) (private_data (tick_handler s)) s2 = Some s3"
    using r c by (auto simp: timer_isr_def READ_SYS_REG_eq v WRITE_SYS_REG_def v1_def s2_def Option.bind_eq_Some_conv Let_def)
  obtain u e where u: "sysreg_read b reg_CNTP_CVAL_EL0 (hardware s3) = (u, e)" by fastforce
  have s': "s' = s3\<lparr>hardware := sysreg_write b reg_CNTP_CTL_EL0
      (bf_set cntp_ctl_el0_t CNTP_is_masked 0 (bf_set cntp_ctl_el0_t CNTP_is_enable 1 v1))
      (sysreg_write b reg_CNTP_CVAL_EL0 (u + period_ticks s3) e)\<rparr>"
    using r c s3 by (simp add: timer_isr_def READ_SYS_REG_eq v u WRITE_SYS_REG_def v1_def [symmetric] s2_def [symmetric])
  show thesis
  proof (rule that)
    show "s2 = s\<lparr>hardware := hardware s2\<rparr>" "s' = s3\<lparr>hardware := hardware s'\<rparr>" by (simp_all add: s2_def s')
    show "ctl (hardware s2) = ctl (hardware s) OR 2" "cval (hardware s2) = cval (hardware s)"
      using read_ctl [OF v] by (simp_all add: s2_def v1_def write_ctl ctl_fields)
    show "invoke (handler (tick_handler s)) (private_data (tick_handler s)) s2 = Some s3" by (rule s3)
    show "cval (hardware s') = cval (hardware s3) + period_ticks s3" "ctl (hardware s') = 1"
      using read_cval [OF u] by (simp_all add: s' write_ctl write_cval ctl_fields)
  qed
qed

end

section \<open>Runs of the timer\<close>

text \<open>
  \<open>n\<close> service routines whose condition was fulfilled, with anything in between that leaves the
  deadline and the period alone.
\<close>

inductive timer_run ::
  "'d bus \<Rightarrow> ('d \<Rightarrow> u64) \<Rightarrow> (u64 \<Rightarrow> u64 \<Rightarrow> ('d, 'a) timer_state_scheme \<Rightarrow> ('d, 'a) timer_state_scheme option)
     \<Rightarrow> ('d, 'a) timer_state_scheme \<Rightarrow> nat \<Rightarrow> ('d, 'a) timer_state_scheme \<Rightarrow> bool"
  for b cval invoke s0 where
  start: "timer_run b cval invoke s0 0 s0"
| tick: "timer_run b cval invoke s0 n s \<Longrightarrow> bit (fst (sysreg_read b reg_CNTP_CTL_EL0 (hardware s))) 2 \<Longrightarrow>
    timer_isr b invoke s = Some s' \<Longrightarrow> timer_run b cval invoke s0 (Suc n) s'"
| other: "timer_run b cval invoke s0 n s \<Longrightarrow> cval (hardware s') = cval (hardware s) \<Longrightarrow>
    period_ticks s' = period_ticks s \<Longrightarrow> timer_run b cval invoke s0 n s'"

definition keeps_timer ::
  "('d \<Rightarrow> u64) \<Rightarrow> (u64 \<Rightarrow> u64 \<Rightarrow> ('d, 'a) timer_state_scheme \<Rightarrow> ('d, 'a) timer_state_scheme option) \<Rightarrow> bool" where
  "keeps_timer cval invoke \<longleftrightarrow>
     (\<forall>h p s s'. invoke h p s = Some s' \<longrightarrow> cval (hardware s') = cval (hardware s) \<and> period_ticks s' = period_ticks s)"

lemma timer_run_deadline:
  assumes hw: "generic_timer b ctl cval" and keep: "keeps_timer cval invoke"
    and run: "timer_run b cval invoke s0 n s"
  shows "cval (hardware s) = cval (hardware s0) + of_nat n * period_ticks s0 \<and> period_ticks s = period_ticks s0"
  using run
proof (induction rule: timer_run.induct)
  case (tick n s s')
  obtain s2 s3 where s2: "s2 = s\<lparr>hardware := hardware s2\<rparr>" and c2: "cval (hardware s2) = cval (hardware s)"
    and inv: "invoke (handler (tick_handler s)) (private_data (tick_handler s)) s2 = Some s3"
    and s': "s' = s3\<lparr>hardware := hardware s'\<rparr>" "cval (hardware s') = cval (hardware s3) + period_ticks s3"
    using generic_timer.isr_fulfilled [OF hw tick.hyps(2,3)] by metis
  have "period_ticks s2 = period_ticks s" by (subst s2) simp
  moreover have "cval (hardware s3) = cval (hardware s2)" "period_ticks s3 = period_ticks s2"
    using keep inv by (auto simp: keeps_timer_def)
  moreover have "period_ticks s' = period_ticks s3" by (subst s'(1)) simp
  ultimately show ?case using tick.IH c2 s'(2) by (simp add: algebra_simps)
qed simp_all

lemma setup_isr_result:
  assumes hw: "generic_timer b ctl cval" and r: "setup_isr b C int_id h s = (True, s')"
  defines "reg \<equiv> icu_register_irq b int_id \<lparr>handler = addr_timer_isr C, private_data = 0\<rparr> (s\<lparr>tick_handler := h\<rparr>)"
  shows "fst reg" "cval (hardware s') = fst (sysreg_read b reg_CNTPCT_EL0 (hardware (snd reg))) + period_ticks (snd reg)"
    "ctl (hardware s') = 1" "s' = (snd reg)\<lparr>hardware := hardware s'\<rparr>"
proof -
  obtain ok s2 where ok: "reg = (ok, s2)" by fastforce
  have h: "\<lparr>handler = handler h, private_data = private_data h\<rparr> = h" by simp
  note r' = r [unfolded setup_isr_def h Let_def reg_def [symmetric] ok]
  show "fst reg" using r' by (auto simp: ok split: if_splits)
  then have s': "s' = s2\<lparr>hardware := sysreg_write b reg_CNTP_CTL_EL0
      (bf_set cntp_ctl_el0_t CNTP_is_masked 0 (bf_set cntp_ctl_el0_t CNTP_is_enable 1 0))
      (sysreg_write b reg_CNTP_CVAL_EL0 (fst (sysreg_read b reg_CNTPCT_EL0 (hardware s2)) + period_ticks s2)
        (snd (sysreg_read b reg_CNTPCT_EL0 (hardware s2))))\<rparr>"
    using r' by (simp add: ok READ_SYS_REG_eq WRITE_SYS_REG_def)
  show "cval (hardware s') = fst (sysreg_read b reg_CNTPCT_EL0 (hardware (snd reg))) + period_ticks (snd reg)"
    "ctl (hardware s') = 1" "s' = (snd reg)\<lparr>hardware := hardware s'\<rparr>"
    using generic_timer.write_ctl [OF hw] generic_timer.write_cval [OF hw] by (simp_all add: s' ok ctl_fields)
qed

text \<open>
  C39. The tick does not drift. When the timer has been started, after any number \<open>n\<close> of served
  ticks the next deadline is exactly \<open>n + 1\<close> periods after the counter value read at the start
  (modulo the width of the counter), however late the ticks were served. The conditions: every
  handler, and every other step between the ticks, leaves the compare value and the period alone. So
  a restart of the timer or a change of its period in between is excluded.
\<close>

theorem timer_does_not_drift:
  assumes "generic_timer b ctl cval" and "keeps_timer cval invoke"
    and "setup_isr b C int_id h s = (True, s0)" and "timer_run b cval invoke s0 n s'"
  shows "cval (hardware s') =
    fst (sysreg_read b reg_CNTPCT_EL0
      (hardware (snd (icu_register_irq b int_id \<lparr>handler = addr_timer_isr C, private_data = 0\<rparr> (s\<lparr>tick_handler := h\<rparr>)))))
    + of_nat (Suc n) * period_ticks s0"
proof -
  note set = setup_isr_result [OF assms(1,3)]
  have "period_ticks s0 = period_ticks (snd (icu_register_irq b int_id
      \<lparr>handler = addr_timer_isr C, private_data = 0\<rparr> (s\<lparr>tick_handler := h\<rparr>)))"
    by (subst set(4)) simp
  with timer_run_deadline [OF assms(1,2,4)] set(2) show ?thesis by (simp add: algebra_simps)
qed

section \<open>From the interrupt to the tick handler\<close>

text \<open>
  C38. The whole path of a tick. After a successful start of the timer on an INTID below 1020, with a
  controller that behaves as documented, when the
  controller acknowledges the timer's INTID and the timer condition holds, the interrupt handler
  runs the service routine: the tick handler given at the start is called with its private data
  while the timer interrupt is masked, the deadline moves by one period, the timer is left enabled
  and unmasked, and then exactly that interrupt is ended.
\<close>

theorem timer_tick_end_to_end:
  assumes gic: "gic_hardware b reg router P mpidr dist sgi" and tim: "generic_timer b ctl cval"
    and at: "gic_attached mpidr dist sgi s" "length (dispatch_table s) = 1024"
    and id: "int_id < 1020" and isr: "addr_timer_isr C \<noteq> 0"
    and set: "setup_isr b C int_id h s = (True, s0)"
    and ack: "sysreg_read b reg_icc_iar1_el1 (hardware s0) = (ucast int_id, d)"
    and due: "bit (fst (sysreg_read b reg_CNTP_CTL_EL0 d)) 2"
    and call: "\<And>t. invoke (addr_timer_isr C) 0 t = timer_isr b tick t"
    and ret: "icu_handle_irq b invoke s0 = Some s'"
  shows "\<exists>s2 s3 d'. tick (handler h) (private_data h) s2 = Some s3
    \<and> bit (ctl (hardware s2)) 1 \<and> cval (hardware s2) = cval d
    \<and> s' = WRITE_SYS_REG b reg_icc_eoir1_el1 (ucast int_id) (s3\<lparr>hardware := d'\<rparr>)
    \<and> cval d' = cval (hardware s3) + period_ticks s3 \<and> ctl d' = 1"
proof -
  let ?hd = "\<lparr>handler = addr_timer_isr C, private_data = 0\<rparr>"
  let ?s1 = "s\<lparr>tick_handler := h\<rparr>"
  have lt: "unat int_id < 1020" using id by (simp add: word_less_nat_alt)
  have id': "int_id < 1022" using lt by (simp add: word_less_nat_alt)
  have "int_id < MAX_INT_ID" using lt by (simp add: MAX_INT_ID_nat)
  moreover have "gic_attached mpidr dist sgi ?s1"
    using at(1) by (simp add: gic_attached_def get_gicr_sgi_base_def get_redist_base_def)
  ultimately obtain e where reg: "icu_register_irq b int_id ?hd ?s1 =
      (True, ?s1\<lparr>hardware := e, dispatch_table := (dispatch_table ?s1)[unat int_id := ?hd]\<rparr>)"
    using gic_hardware.register_changes [OF gic, of ?s1 int_id ?hd] by (auto simp: icu_register_irq_def)
  note res = setup_isr_result [OF tim set, unfolded reg snd_conv]
  have s0: "dispatch_table s0 ! unat int_id = ?hd" "tick_handler s0 = h"
    using at(2) lt by (subst res(4), simp)+
  have tb: "take_bit 24 (ucast int_id :: u64) = ucast int_id"
  proof -
    have "unat (take_bit 24 (ucast int_id :: u64)) = unat (ucast int_id :: u64)"
      using lt by (simp add: unsigned_take_bit_eq unsigned_ucast_eq take_bit_nat_eq_self)
    then show ?thesis by (rule unsigned_word_eqI)
  qed
  have acked: "acked (ucast int_id) = int_id"
    unfolding acked_def tb by (rule bit_word_eqI) (auto simp: bit_simps)
  have "icu_handle_irq b invoke s0 =
      map_option (WRITE_SYS_REG b reg_icc_eoir1_el1 (ucast int_id)) (timer_isr b tick (s0\<lparr>hardware := d\<rparr>))"
    using id' isr by (simp add: icu_handle_irq_def handle_irq_cases [OF ack] acked s0 call tb leD Let_def not_le [symmetric])
  then obtain t where t: "timer_isr b tick (s0\<lparr>hardware := d\<rparr>) = Some t"
    and s': "s' = WRITE_SYS_REG b reg_icc_eoir1_el1 (ucast int_id) t"
    using ret by (cases "timer_isr b tick (s0\<lparr>hardware := d\<rparr>)") auto
  obtain s2 s3 where "s2 = s0\<lparr>hardware := hardware s2\<rparr>" "ctl (hardware s2) = ctl d OR 2"
    "cval (hardware s2) = cval d" "tick (handler h) (private_data h) s2 = Some s3"
    "t = s3\<lparr>hardware := hardware t\<rparr>" "cval (hardware t) = cval (hardware s3) + period_ticks s3" "ctl (hardware t) = 1"
    using generic_timer.isr_fulfilled [OF tim _ t] due s0(2) by auto
  moreover from this have "bit (ctl (hardware s2)) 1" by (simp add: bit_simps)
  ultimately show ?thesis using s' by metis
qed

section \<open>The period\<close>

text \<open>
  C40. The period in ticks is the product of the frequency and the milliseconds, modulo
  \<open>2 ^ 64\<close>, divided by 1000, and \<^verbatim>\<open>set_period\<close> accepts it exactly when it is below \<open>2 ^ 32\<close>: without
  overflow of the product this is the exact period, but a product that wraps around can be
  accepted with a period that is too short.
\<close>

theorem set_period_value:
  assumes "sysreg_read b reg_CNTFRQ_EL0 (hardware s) = (freq, d)"
  shows "unat (period_ticks (snd (set_period b ms s))) = unat freq * unat ms mod 2 ^ 64 div 1000
    \<and> (fst (set_period b ms s) \<longleftrightarrow> unat freq * unat ms mod 2 ^ 64 div 1000 < 2 ^ 32)
    \<and> (unat freq * unat ms < 2 ^ 64 \<longrightarrow>
         (fst (set_period b ms s) \<longleftrightarrow> unat freq * unat ms div 1000 < 2 ^ 32))"
proof -
  have p: "unat (freq * ms div MILLISECONDS_PER_SECOND) = unat freq * unat ms mod 2 ^ 64 div 1000"
    by (simp add: unat_div64 MILLISECONDS_PER_SECOND_def unat_word_ariths)
  have "period_ticks (snd (set_period b ms s)) = freq * ms div MILLISECONDS_PER_SECOND"
    by (simp add: set_period_def READ_SYS_REG_def assms kprintf_def Let_def)
  moreover have "fst (set_period b ms s) \<longleftrightarrow> unat (freq * ms div MILLISECONDS_PER_SECOND) < 2 ^ 32"
    by (auto simp: set_period_def READ_SYS_REG_def assms kprintf_def Let_def word_less_nat_alt)
  ultimately show ?thesis using p by simp
qed

end
