(* ===== verification/Boot_High.thy ===== *)
theory Boot_High
  imports Boot_Correct Timer_Correct
begin

text \<open>
  After the jump: the move of the kernel to the high half keeps the kernel map and gives the pages
  of the identity map back to the allocator, and the interrupt path from the vector to the device
  drivers.
\<close>

section \<open>Entering the high half\<close>

definition high_half_entered ::
  "('d, 'a) boot_state_scheme \<Rightarrow> memory_map_t \<Rightarrow> ('d, 'a) boot_state_scheme \<Rightarrow> ('d, 'a) boot_state_scheme \<Rightarrow> bool" where
  "high_half_entered s mm s1 s' \<longleftrightarrow>
     kernel_base_va s' = KERNEL_BASE \<and> pc_base s' = KERNEL_BASE
     \<and> ttbr0_el1 (mmu_regs s') = 0 \<and> bf_get tcr_reg_t T_epd0 (tcr_el1 (mmu_regs s')) = 1
     \<and> ttbr1_el1 (mmu_regs s') = get_kernel_map_root s \<and> sctlr_el1 (mmu_regs s') = sctlr_el1 (mmu_regs s1)
     \<and> kernel_mapped s mm s'
     \<and> (\<forall>f. frame_managed s' f = frame_managed s1 f)
     \<and> (\<forall>f. frame_used s' f \<longleftrightarrow> frame_used s1 f \<and> f \<notin> id_frames s)
     \<and> (\<forall>a. \<not> is_bitmap_frame s1 (frame a) \<longrightarrow> mem s' a = mem s1 a)"

lemma pt_ok_fixup:
  assumes ok: "pt_ok s root" and low: "kernel_base_va s = 0"
    and s': "s' = fixup_page_allocator (update_kernel_base_va s)"
  shows "pt_ok s' root" "mem s' = mem s" "frame_used s' = frame_used s" "frame_managed s' = frame_managed s"
    "is_bitmap_frame s' = is_bitmap_frame s" "inits s' = inits s"
    "i \<in> inits s \<Longrightarrow> chunk_frames (mem_chunks s' ! i) = chunk_frames (mem_chunks s ! i)"
proof -
  have pa: "\<forall>i \<in> inits s. unat (mem_base (mem_chunks s ! i)) < 2 ^ 48"
  proof
    fix i assume i: "i \<in> inits s"
    have sh: "chunk_shape (mem_chunks s ! i) s" by (rule alloc_invD(1) [OF pt_okD(1) [OF ok] i])
    then have "frame (mem_base (mem_chunks s ! i)) \<in> chunk_frames (mem_chunks s ! i)"
      by (simp add: chunk_frames_def chunk_shape_def unat_gt_0)
    then have "frame (mem_base (mem_chunks s ! i)) < 2 ^ 36" using ok i unfolding pt_ok_def by blast
    then show "unat (mem_base (mem_chunks s ! i)) < 2 ^ 48"
      using sh page_aligned_unat [of "mem_base (mem_chunks s ! i)"] by (simp add: chunk_shape_def)
  qed
  note fx = fixup_high_half [OF pt_okD(1) [OF ok] low pa s']
  show m: "mem s' = mem s" and i: "inits s' = inits s" using fx by blast+
  show u: "frame_used s' = frame_used s" and man: "frame_managed s' = frame_managed s"
    and b: "is_bitmap_frame s' = is_bitmap_frame s" using fx by blast+
  show c: "chunk_frames (mem_chunks s' ! i) = chunk_frames (mem_chunks s ! i)" if "i \<in> inits s" for i using fx that by blast
  have "kernel_base_va s' = KERNEL_BASE" by (simp add: s' fixup_page_allocator_def update_kernel_base_va_def)
  then show "pt_ok s' root" using ok fx c by (simp add: pt_ok_def m i u man b)
qed

text \<open>Freeing pages that are no tables does not disturb an address space.\<close>

lemma pt_ok_page_free:
  assumes ok: "pt_ok s root" and ci: "ci \<in> inits s" and al: "page_aligned a" and n: "unat n < 2 ^ 52"
    and sub: "block_frames a n \<subseteq> chunk_frames (mem_chunks s ! ci)" "frame a \<in> block_frames a n"
    and fr: "\<And>f. f \<in> block_frames a n \<Longrightarrow> \<not> is_bitmap_frame s f \<and> f \<notin> table_frames (mem s) root"
    and s': "s' = page_free a n s"
  shows "pt_ok s' root" "s' = s\<lparr>mem := mem s'\<rparr>" "frame_used s' f \<longleftrightarrow> frame_used s f \<and> f \<notin> block_frames a n"
    "\<not> is_bitmap_frame s (frame x) \<Longrightarrow> mem s' x = mem s x" "translate (mem s') root w = translate (mem s) root w"
proof -
  define c where "c = mem_chunks s ! ci"
  have "frame a < 2 ^ 52" by (rule frame_lt)
  then have "frame a \<in> chunk_frames c" "frame a - frame (mem_base c) + unat n < 2 ^ 64" using sub n by (auto simp: c_def)
  then have spec: "\<forall>f. frame_used s' f \<longleftrightarrow> frame_used s f \<and> f \<notin> block_frames a n \<inter> chunk_frames c"
    "s' = s\<lparr>mem := mem s'\<rparr>" "\<forall>x. frame x \<notin> bitmap_frames c \<longrightarrow> mem s' x = mem s x"
    "block_frames a n \<inter> bitmap_frames c = {} \<longrightarrow> alloc_inv s'"
    using page_free_spec [OF pt_okD(1) [OF ok], of a n] ci unfolding s' c_def by blast+
  show e: "s' = s\<lparr>mem := mem s'\<rparr>" by (rule spec(2))
  have bc: "is_bitmap_frame s g" if "g \<in> bitmap_frames c" for g using that ci by (auto simp: is_bitmap_frame_def c_def)
  show m: "mem s' x = mem s x" if "\<not> is_bitmap_frame s (frame x)" for x using that spec(3) bc by blast
  show u: "frame_used s' f \<longleftrightarrow> frame_used s f \<and> f \<notin> block_frames a n" for f using spec(1) sub(1) unfolding c_def by blast
  have "alloc_inv s'" using spec(4) fr bc by blast
  have tf: "mem s' x = mem s x" if "frame x \<in> table_frames (mem s) root" for x using m pt_okD(3) [OF ok that] by blast
  note tree = tree_frames [where m' = "mem s'", OF pt_okD(2) [OF ok] tf, simplified]
  show "translate (mem s') root w = translate (mem s) root w"
    using translate_leaf [OF pt_okD(2) [OF ok], of w] translate_leaf [OF tree(1), of w]
      tree(3) [OF va_path_ok(1) va_path_ok(3)] by simp
  have view: "frame_managed s' = frame_managed s" "is_bitmap_frame s' = is_bitmap_frame s" "inits s' = inits s"
    "mem_chunks s' = mem_chunks s" "kernel_base_va s' = kernel_base_va s" by (subst e, simp)+
  show "pt_ok s' root"
    using ok \<open>alloc_inv s'\<close> tree(1) fr unfolding pt_ok_def tree(2) view u by blast
qed

text \<open>Up to the freeing only the fix-up of the allocator matters to memory management.\<close>

lemma enter_high_half_steps:
  fixes s :: "('d, 'a) boot_state_scheme"
  defines "s3 \<equiv> fixup_page_allocator (update_kernel_base_va s)"
  obtains s6 c where
    "enter_high_half b H s = (page_free (va_to_pa s6 (get_id_map_region_start s6)) (ID_MAP_NUM_PAGES + 1) s6)\<lparr>console := c\<rparr>"
    "mem s6 = mem s3" "mem_chunks s6 = mem_chunks s3" "kernel_base_va s6 = KERNEL_BASE" "pc_base s6 = pc_base s"
    "syms s6 = syms s" "mmu_regs s6 = disable_low_map (mmu_regs s)" "kernel_base_va s3 = KERNEL_BASE"
proof -
  define dev where "dev = \<lparr>mmio_base = pa_to_va s3 0x09000000, putc = addr_pl011_putc H, getc = addr_pl011_getc H\<rparr>"
  define s5 where "s5 = WRITE_SYS_REG b reg_vbar_el1 (addr_vector_table H)
    (set_kprintf_console \<lparr>con_putc = addr_uart0_putchar H, con_getc = 0\<rparr> ((pl011_enable_rx_interrupt b dev s3)\<lparr>uart0 := dev\<rparr>))"
  define s6 where "s6 = kprintf (''Freeing id map page table pages...'' @ LF) [] (s5\<lparr>mmu_regs := disable_low_map (mmu_regs s5)\<rparr>)"
  have 3: "kernel_base_va s3 = KERNEL_BASE" "pc_base s3 = pc_base s" "syms s3 = syms s" "mmu_regs s3 = mmu_regs s"
    by (simp_all add: s3_def fixup_page_allocator_def update_kernel_base_va_def)
  have 5: "mem s5 = mem s3" "mem_chunks s5 = mem_chunks s3" "kernel_base_va s5 = kernel_base_va s3" "pc_base s5 = pc_base s3"
    "syms s5 = syms s3" "mmu_regs s5 = mmu_regs s3"
    by (simp_all add: s5_def WRITE_SYS_REG_def set_kprintf_console_def pl011_enable_rx_interrupt_def vread32_def vwrite32_def
        Let_def split: prod.split)
  show thesis
  proof
    show "enter_high_half b H s = (page_free (va_to_pa s6 (get_id_map_region_start s6)) (ID_MAP_NUM_PAGES + 1) s6)\<lparr>console :=
        console (enter_high_half b H s)\<rparr>"
      by (simp add: enter_high_half_def s3_def [symmetric] pl011_init_def dev_def [symmetric] s5_def [symmetric] s6_def [symmetric]
          Let_def del: append.simps append_Cons) (simp add: kprintf_def)
  qed (simp_all add: s6_def kprintf_def 3 5)
qed

lemma epd0_width: "bf_width tcr_reg_t T_epd0 = 1"
  by (simp add: tcr_reg_t_def)

lemma enter_high_half_run:
  fixes s s1 :: "('d, 'a) boot_state_scheme"
  assumes lay: "id_map_layout s dev" and pc: "pc_base s = 0" and ho: "handed_over s s1" and km: "kernel_mapped s mm s1"
    and r: "ttbr1_el1 (mmu_regs s1) = get_kernel_map_root s"
  shows "high_half_entered s mm s1 (enter_high_half b H (switch_to_high_va s1))"
proof -
  define K I s2 where "K = get_kernel_map_root s" and "I = get_id_map_region_start s" and "s2 = switch_to_high_va s1"
  have I: "page_aligned I" "I = idmap_pg_dir_bitmap_start (syms s)"
    using lay pc by (simp_all add: id_map_layout_def Let_def I_def get_id_map_region_start_def sym_addr_def)
  have blk: "block_frames I (ID_MAP_NUM_PAGES + 1) = id_frames s" by (simp add: block_frames_def I_def ID_MAP_NUM_PAGES_def)
  have sel: "kernel_base_va s1 = 0" "pc_base s1 = 0" "syms s1 = syms s" using ho by (simp_all add: handed_over_def)
  have m2: "mem s2 = mem s1" "mem_chunks s2 = mem_chunks s1" "kernel_base_va s2 = kernel_base_va s1"
    by (simp_all add: s2_def switch_to_high_va_def)
  note v2 = same_machine [OF m2]
  define s3 where "s3 = fixup_page_allocator (update_kernel_base_va s2)"
  have ok2: "pt_ok s2 K" using km by (simp add: kernel_mapped_def Let_def K_def v2)
  note fx = pt_ok_fixup [OF ok2 _ s3_def, unfolded v2 m2, OF sel(1)]
  obtain s6 c where run: "enter_high_half b H s2 =
      (page_free (va_to_pa s6 (get_id_map_region_start s6)) (ID_MAP_NUM_PAGES + 1) s6)\<lparr>console := c\<rparr>"
    and m6: "mem s6 = mem s3" "mem_chunks s6 = mem_chunks s3" "kernel_base_va s6 = KERNEL_BASE"
    and s6: "pc_base s6 = pc_base s2" "syms s6 = syms s2" "mmu_regs s6 = disable_low_map (mmu_regs s2)"
      "kernel_base_va s3 = KERNEL_BASE"
    unfolding s3_def by (rule enter_high_half_steps)
  have pc6: "pc_base s6 = KERNEL_BASE" "syms s6 = syms s"
    by (simp_all add: s6 s2_def switch_to_high_va_def sel)
  have "va_to_pa s6 (get_id_map_region_start s6) = I"
    by (simp add: va_to_pa_def get_id_map_region_start_def sym_addr_def pc6 m6 I(2))
  define s7 where "s7 = page_free I (ID_MAP_NUM_PAGES + 1) s6"
  note v6 = same_machine [OF m6(1,2), unfolded m6(3) s6(4), OF refl]
  from ho obtain ci where ci: "ci \<in> inits s1" "id_frames s \<subseteq> chunk_frames (mem_chunks s1 ! ci)"
    by (auto simp: handed_over_def)
  have pf: "pt_ok s6 K" "ci \<in> inits s6" "unat (ID_MAP_NUM_PAGES + 1) < 2 ^ 52"
    "block_frames I (ID_MAP_NUM_PAGES + 1) \<subseteq> chunk_frames (mem_chunks s6 ! ci)"
    "frame I \<in> block_frames I (ID_MAP_NUM_PAGES + 1)"
    using fx ci by (simp_all add: v6 m6 blk) (simp_all add: ID_MAP_NUM_PAGES_def I_def)
  have fr: "\<not> is_bitmap_frame s6 f \<and> f \<notin> table_frames (mem s6) K" if "f \<in> block_frames I (ID_MAP_NUM_PAGES + 1)" for f
    using that ho unfolding handed_over_def blk v6 m6(1) fx(2,5) K_def by blast
  note free = pt_ok_page_free [OF pf(1,2) I(1) pf(3-5) fr s7_def]
  have mem7: "mem s7 a = mem s1 a" if "\<not> is_bitmap_frame s1 (frame a)" for a
    using free(4) [of a] that by (simp add: v6 m6 fx)
  have sel7: "kernel_base_va s7 = KERNEL_BASE" "pc_base s7 = KERNEL_BASE" "mmu_regs s7 = disable_low_map (mmu_regs s1)"
    using arg_cong [OF free(2), of kernel_base_va] arg_cong [OF free(2), of pc_base] arg_cong [OF free(2), of mmu_regs]
      m6(3) pc6(1) s6(3) by (simp_all add: s2_def switch_to_high_va_def)
  have man: "frame_managed s7 = frame_managed s1" using arg_cong [OF free(2), of frame_managed] by (simp add: v6 fx)
  have tr: "translate (mem s7) K w = translate (mem s1) K w" for w using free(5) by (simp add: m6 fx)
  have used: "frame_used s7 f \<longleftrightarrow> frame_used s1 f \<and> f \<notin> id_frames s" for f using free(3) unfolding blk v6 fx(3) .
  have "enter_high_half b H s2 = s7\<lparr>console := c\<rparr>" using run \<open>va_to_pa s6 _ = I\<close> by (simp add: s7_def)
  moreover note v8 = same_machine [of "s7\<lparr>console := c\<rparr>" s7]
  have "kernel_mapped s mm (s7\<lparr>console := c\<rparr>)"
    using km free(1) unfolding kernel_mapped_def Let_def K_def [symmetric] by (simp add: v8 tr)
  moreover have "bf_get tcr_reg_t T_epd0 (bf_set tcr_reg_t T_epd0 1 x) = 1" for x :: u64
    using tcr.get_set [of T_epd0 T_epd0 1 x] by (simp add: epd0_width)
  ultimately show ?thesis
    using r used mem7 man unfolding s2_def high_half_entered_def
    by (simp add: v8 sel7 disable_low_map_def)
qed

text \<open>
  C3. From the entry in \<^verbatim>\<open>main\<close> into the high half: when the low half hands over, the code that runs after
  the jump moves the kernel to its high addresses. Then the lower half of the address space is
  switched off (TTBR0 cleared, EPD0 set), the kernel map still translates exactly the memory of
  the device tree and the UART, the allocator works through high pointers on the same regions, and
  exactly the seven pages of the identity map have become free; no byte outside the bitmaps of
  the allocator has changed.
\<close>

theorem boot_enters_high_half:
  assumes "boot_ready L fdt mm s"
  shows "\<exists>ok s1. boot_low_half b L C m0 fdt s = Some (ok, s1)
    \<and> (ok \<longrightarrow> high_half_entered s mm s1 (enter_high_half b H (switch_to_high_va s1)))"
proof -
  note D = boot_readyD [OF assms]
  obtain ok s1 where low: "boot_low_half b L C m0 fdt s = Some (ok, s1)"
    and rj: "ok \<longrightarrow> ready_to_jump s mm (mmu_regs s) (mmu_regs s1) s1 \<and> handed_over s s1"
    using boot_low_half_run [OF assms] by blast
  have "high_half_entered s mm s1 (enter_high_half b H (switch_to_high_va s1))" if ok
  proof (rule enter_high_half_run [OF D(5,4)])
    have j: "ready_to_jump s mm (mmu_regs s) (mmu_regs s1) s1" and h: "handed_over s s1" using rj that by blast+
    show "handed_over s s1" by (rule h)
    show "kernel_mapped s mm s1" using j unfolding ready_to_jump_def by blast
    have "mmu_regs s1 = \<lparr>mair_el1 = mair_value, tcr_el1 = tcr_value, ttbr0_el1 = get_id_map_root s,
        ttbr1_el1 = get_kernel_map_root s, sctlr_el1 = sctlr_enable (sctlr_el1 (mmu_regs s))\<rparr>"
      using j unfolding ready_to_jump_def by blast
    then show "ttbr1_el1 (mmu_regs s1) = get_kernel_map_root s" by simp
  qed
  with low show ?thesis by blast
qed

section \<open>Interrupts\<close>

text \<open>
  C16. The path of a received character, through every layer: after \<^verbatim>\<open>pl011_register_handler\<close>, when the
  interrupt controller acknowledges the interrupt of the UART, \<^verbatim>\<open>el1_irq_handler\<close> returns exactly
  when the receive FIFO becomes non-empty after finitely many polls. Then exactly one character
  has been read and sent back, the receive interrupt is cleared and the interrupt of the UART, and
  no other, is ended; nothing but the hardware has changed. The registration always succeeds: when
  a handler was registered for INTID 33 before, it is replaced, although \<^verbatim>\<open>uart.h\<close> documents that
  the call then returns false.
\<close>

theorem uart_irq_echoes:
  fixes s :: "('d, 'a) boot_state_scheme"
  assumes gic: "gic_hardware b reg router P mpidr dist sgi" and at: "gic_attached mpidr dist sgi s"
    and len: "length (dispatch_table s) = 1024"
    and H: "addr_pl011_rx_handler H \<notin> {0, addr_timer_isr H, addr_timer_tick_handler H}"
    and s0: "s0 = snd (pl011_register_handler b H (addr_uart0 H) s)"
    and ack: "sysreg_read b reg_icc_iar1_el1 (hardware s0) = (33, d)"
  defines "p \<equiv> mmio_base (uart0 s)"
  shows "fst (pl011_register_handler b H (addr_uart0 H) s) \<and> uart0 s0 = uart0 s
    \<and> (el1_irq_handler b (kernel_invoke b H) s0 \<noteq> None \<longleftrightarrow> (\<exists>n. \<not> bit (nth_read b (p + UART_FR) n d) 4))
    \<and> (\<forall>s'. el1_irq_handler b (kernel_invoke b H) s0 = Some s' \<longrightarrow>
         (\<exists>n d' v. d' = after_reads b (p + UART_FR) (Suc n) d
            \<and> (\<forall>m<n. bit (nth_read b (p + UART_FR) m d) 4) \<and> \<not> bit (nth_read b (p + UART_FR) n d) 4
            \<and> v = take_bit 8 (fst (mmio_read32 b (p + UART_DR) d'))
            \<and> s' = s0\<lparr>hardware := sysreg_write b reg_icc_eoir1_el1 33
                 (mmio_write32 b (p + UART_ICR) 0x10
                    (mmio_write32 b (p + UART_DR) v (snd (mmio_read32 b (p + UART_DR) d'))))\<rparr>))"
proof -
  define h where "h = \<lparr>handler = addr_pl011_rx_handler H, private_data = addr_uart0 H\<rparr>"
  have "(33 :: u32) < MAX_INT_ID" by (simp add: MAX_INT_ID_nat)
  then obtain e where "gicv3_register_irq b 33 h s = (True, s\<lparr>hardware := e, dispatch_table := (dispatch_table s)[33 := h]\<rparr>)"
    using gic_hardware.register_changes [OF gic at, of 33 h] by auto
  then have ok: "fst (pl011_register_handler b H (addr_uart0 H) s)" and s0': "s0 = s\<lparr>hardware := e, dispatch_table := (dispatch_table s)[33 := h]\<rparr>"
    by (simp_all add: s0 pl011_register_handler_def icu_register_irq_def h_def)
  have nth: "dispatch_table s0 ! 33 = h" and uart: "uart0 s0 = uart0 s" using len by (simp_all add: s0')
  have "acked 33 = 33" "take_bit 24 (33 :: u64) = 33" by code_simp+
  then have run: "el1_irq_handler b (kernel_invoke b H) s0 =
      map_option (WRITE_SYS_REG b reg_icc_eoir1_el1 33) (pl011_rx_handler b (uart0 s) (s0\<lparr>hardware := d\<rparr>))"
    using H uart by (simp add: el1_irq_handler_def icu_handle_irq_def handle_irq_cases [OF ack] nth Let_def)
      (simp add: h_def kernel_invoke_def invoke_handler_def)
  note eff = rx_handler_effect [of b "uart0 s" "s0\<lparr>hardware := d\<rparr>", folded p_def]
  show ?thesis
  proof (intro conjI allI impI)
    show "el1_irq_handler b (kernel_invoke b H) s0 \<noteq> None \<longleftrightarrow> (\<exists>n. \<not> bit (nth_read b (p + UART_FR) n d) 4)"
      using eff by (simp add: run)
    fix s' assume "el1_irq_handler b (kernel_invoke b H) s0 = Some s'"
    then obtain t where t: "pl011_rx_handler b (uart0 s) (s0\<lparr>hardware := d\<rparr>) = Some t" "s' = WRITE_SYS_REG b reg_icc_eoir1_el1 33 t"
      by (auto simp: run)
    with eff obtain n where "\<forall>m<n. bit (nth_read b (p + UART_FR) m d) 4" "\<not> bit (nth_read b (p + UART_FR) n d) 4"
      "t = s0\<lparr>hardware := mmio_write32 b (p + UART_ICR) 0x10 (mmio_write32 b (p + UART_DR)
          (take_bit 8 (fst (mmio_read32 b (p + UART_DR) (after_reads b (p + UART_FR) (Suc n) d))))
          (snd (mmio_read32 b (p + UART_DR) (after_reads b (p + UART_FR) (Suc n) d))))\<rparr>" by auto
    then show "\<exists>n d' v. d' = after_reads b (p + UART_FR) (Suc n) d
            \<and> (\<forall>m<n. bit (nth_read b (p + UART_FR) m d) 4) \<and> \<not> bit (nth_read b (p + UART_FR) n d) 4
            \<and> v = take_bit 8 (fst (mmio_read32 b (p + UART_DR) d'))
            \<and> s' = s0\<lparr>hardware := sysreg_write b reg_icc_eoir1_el1 33
                 (mmio_write32 b (p + UART_ICR) 0x10
                    (mmio_write32 b (p + UART_DR) v (snd (mmio_read32 b (p + UART_DR) d'))))\<rparr>"
      using t(2) by (intro exI [of _ n]) (simp add: WRITE_SYS_REG_def)
  qed (rule ok uart)+
qed

end
