(* ===== verification/Gicv3_Bringup.thy ===== *)
theory Gicv3_Bringup
  imports Gicv3_Irq
begin

text \<open>
  The bring-up sequence of \<^verbatim>\<open>gicv3_init\<close>: when its two polling loops end, and in which state the
  sequence leaves the CPU interface. What a bus has been told is observed through a log of the
  system register writes, the contract of the locale \<open>write_log\<close>; the register dumps between the
  steps only read.
\<close>

section \<open>The polling loops\<close>

lemma print_gicr_waker_hardware [simp]:
  "hardware (print_gicr_waker b c s) = snd (mmio_read32 b (get_gicr_waker s c) (hardware s))"
  by (simp add: print_gicr_waker_def stmts_def kprintf_def vread32_def split: prod.split)

lemma print_gicr_waker_bases [simp]:
  "redist_base (print_gicr_waker b c s) = redist_base s" "dist_base (print_gicr_waker b c s) = dist_base s"
  by (simp_all add: print_gicr_waker_def stmts_def kprintf_def vread32_def split: prod.split)

text \<open>What the driver writes to \<^verbatim>\<open>GICD_CTLR\<close> and \<^verbatim>\<open>GICR_WAKER\<close>.\<close>

definition ctlr_on :: "u32 \<Rightarrow> u32" where
  "ctlr_on raw = bf_set gicd_ctlr_t CTLR_are_s 1 (bf_set gicd_ctlr_t CTLR_are_ns 1
     (bf_set gicd_ctlr_t CTLR_enable_grp1ns 1 raw))"

definition waker_awake :: "u32 \<Rightarrow> u32" where
  "waker_awake raw = bf_set gicr_waker_t WAKER_processor_sleep 0 raw"

definition write_back :: "'d bus \<Rightarrow> virt_addr \<Rightarrow> (u32 \<Rightarrow> u32) \<Rightarrow> 'd \<Rightarrow> 'd" where
  "write_back b p f d = (let (v, d1) = mmio_read32 b p d in mmio_write32 b p (f v) d1)"

lemma waits_for_hardware:
  "(set_up_gicd_ctrl b s \<noteq> None \<longleftrightarrow>
      (\<exists>n. bf_get gicd_ctlr_t CTLR_rwp
             (nth_read b (get_gicd_ctlr s) n (write_back b (get_gicd_ctlr s) ctlr_on (hardware s))) = 0))
   \<and> (set_gicr_waker b c s \<noteq> None \<longleftrightarrow>
      (\<exists>n. bf_get gicr_waker_t WAKER_children_asleep
             (nth_read b (get_gicr_waker s c) n
               (after_reads b (get_gicr_waker s c) 1
                 (write_back b (get_gicr_waker s c) waker_awake
                   (after_reads b (get_gicr_waker s c) 1 (hardware s))))) = 0))"
proof
  have p: "\<forall>(s :: ('a, 'b) gic_state_scheme) d. get_gicd_ctlr (s\<lparr>hardware := d\<rparr>) = get_gicd_ctlr s" by simp
  show "set_up_gicd_ctrl b s \<noteq> None \<longleftrightarrow>
      (\<exists>n. bf_get gicd_ctlr_t CTLR_rwp
             (nth_read b (get_gicd_ctlr s) n (write_back b (get_gicd_ctlr s) ctlr_on (hardware s))) = 0)"
    using poll_while_returns [OF p, where b = b]
    by (simp add: set_up_gicd_ctrl_def poll_rwp_def write_back_def ctlr_on_def vread32_def vwrite32_def
        split: prod.split)
next
  have p: "\<forall>(s :: ('a, 'b) gic_state_scheme) d. get_gicr_waker (s\<lparr>hardware := d\<rparr>) c = get_gicr_waker s c" by simp
  have q: "get_gicr_waker (print_gicr_waker b c s) c = get_gicr_waker s c" for s :: "('a, 'b) gic_state_scheme"
    by (simp add: get_gicr_waker_def get_redist_base_def)
  show "set_gicr_waker b c s \<noteq> None \<longleftrightarrow>
      (\<exists>n. bf_get gicr_waker_t WAKER_children_asleep
             (nth_read b (get_gicr_waker s c) n
               (after_reads b (get_gicr_waker s c) 1
                 (write_back b (get_gicr_waker s c) waker_awake
                   (after_reads b (get_gicr_waker s c) 1 (hardware s))))) = 0)"
    using poll_while_returns [OF p, where b = b]
    by (simp add: set_gicr_waker_def poll_children_asleep_def write_back_def waker_awake_def vread32_def vwrite32_def q
        reads_simps split: prod.split)
qed

text \<open>
  C36. Both waits of the bring-up are for the hardware only. \<^verbatim>\<open>set_up_gicd_ctrl\<close> enables group 1 and
  affinity routing and returns exactly if some later read of \<^verbatim>\<open>GICD_CTLR\<close> has RWP clear;
  \<^verbatim>\<open>set_gicr_waker\<close> clears ProcessorSleep and returns exactly if some later read of \<^verbatim>\<open>GICR_WAKER\<close> has
  ChildrenAsleep clear.
\<close>

theorem gicv3_waits_for_hardware:
  "(set_up_gicd_ctrl b s \<noteq> None \<longleftrightarrow>
      (\<exists>n. bf_get gicd_ctlr_t CTLR_rwp
             (nth_read b (get_gicd_ctlr s) n (write_back b (get_gicd_ctlr s) ctlr_on (hardware s))) = 0))
   \<and> (set_gicr_waker b c s \<noteq> None \<longleftrightarrow>
      (\<exists>n. bf_get gicr_waker_t WAKER_children_asleep
             (nth_read b (get_gicr_waker s c) n
               (after_reads b (get_gicr_waker s c) 1
                 (write_back b (get_gicr_waker s c) waker_awake
                   (after_reads b (get_gicr_waker s c) 1 (hardware s))))) = 0))"
  by (rule waits_for_hardware)

section \<open>The state after the bring-up\<close>

text \<open>The values the bring-up leaves in the CPU interface, whatever the registers held before.\<close>

definition cpu_interface_on :: "(sysreg_name \<Rightarrow> u64 option) \<Rightarrow> bool" where
  "cpu_interface_on l \<longleftrightarrow>
     l reg_icc_pmr_el1 = Some 0xFF
     \<and> (\<exists>v. l reg_icc_sre_el1 = Some v \<and> bf_get icc_sre_el1_t SRE_sre v = 1)
     \<and> (\<exists>v. l reg_icc_ctlr_el1 = Some v \<and> bf_get icc_ctlr_el1_t ICTLR_eoi_mode v = 0)
     \<and> (\<exists>v. l reg_icc_igrpen1_el1 = Some v \<and> bf_get icc_igrpen1_el1_t IGRPEN1_enable v = 1)
     \<and> (\<exists>v. l reg_icc_bpr1_el1 = Some v \<and> v \<le> 7)"

lemma binary_point_bound: "bf_set icc_bpr1_el1_t BPR1_binary_point (ucast (x AND 0x7 :: u8)) (0 :: u64) \<le> 7"
proof -
  have w: "bf_width icc_bpr1_el1_t BPR1_binary_point = 3" "bf_offset icc_bpr1_el1_t BPR1_binary_point = 0"
    by (simp_all add: icc_bpr1_el1_t_def)
  have "bf_set icc_bpr1_el1_t BPR1_binary_point v 0 = take_bit 3 v" for v :: u64
    by (rule bit_word_eqI) (auto simp: bf_set_def w bit_simps)
  moreover have "take_bit 3 v \<le> 7" for v :: u64
  proof -
    have "unat (take_bit 3 v) = unat v mod 8"
      by (simp only: unsigned_take_bit_eq) (simp add: take_bit_eq_mod)
    moreover have "unat v mod 8 < 8" by simp
    ultimately show ?thesis by (simp only: word_le_nat_alt) simp
  qed
  ultimately show ?thesis by simp
qed

locale write_log =
  fixes b :: "'d bus" and log :: "'d \<Rightarrow> sysreg_name \<Rightarrow> u64 option"
  assumes log_write: "log (sysreg_write b r v d) = (log d)(r \<mapsto> v)"
    and log_read: "log (snd (sysreg_read b r d)) = log d"
    and log_mmio_read: "log (snd (mmio_read32 b p d)) = log d"
    and log_mmio_write: "log (mmio_write32 b p w d) = log d"
begin

text \<open>Statements that only read the hardware and print.\<close>

definition quiet :: "(('d, 'a) gic_state_scheme \<Rightarrow> ('d, 'a) gic_state_scheme) \<Rightarrow> bool" where
  "quiet f \<longleftrightarrow> (\<forall>s. log (hardware (f s)) = log (hardware s) \<and> daif (f s) = daif s)"

lemma quiet_log: "quiet f \<Longrightarrow> log (hardware (f s)) = log (hardware s)"
  and quiet_daif: "quiet f \<Longrightarrow> daif (f s) = daif s"
  by (simp_all add: quiet_def)

lemma quiet_prims:
  "quiet id" "quiet (kprintf fmt args)" "quiet (kprintf_field b p l f fmt fargs)"
  by (simp_all add: quiet_def kprintf_def kprintf_field_def vread32_eq log_mmio_read)

lemma quiet_fold: "\<forall>x \<in> set xs. quiet (f x) \<Longrightarrow> quiet (fold f xs)"
  by (induction xs) (auto simp: quiet_def)

lemma quiet_stmts: "\<forall>f \<in> set fs. quiet f \<Longrightarrow> quiet (stmts fs)"
proof -
  assume "\<forall>f \<in> set fs. quiet f"
  then have "quiet (fold (\<lambda>f. f) fs)" by (intro quiet_fold) simp
  then show ?thesis by (simp add: quiet_def stmts_def)
qed

lemma stmts_quiet:
  "\<forall>f \<in> set fs. quiet f \<Longrightarrow> log (hardware (stmts fs s)) = log (hardware s)"
  "\<forall>f \<in> set fs. quiet f \<Longrightarrow> daif (stmts fs s) = daif s"
  using quiet_stmts quiet_log quiet_daif by blast+

lemma quiet_lambda:
  "(\<And>s. log (hardware (f s)) = log (hardware s)) \<Longrightarrow> (\<And>s. daif (f s) = daif s) \<Longrightarrow> quiet f"
  by (simp add: quiet_def)

lemmas dump_simps = vread32_eq READ_SYS_REG_eq Let_def quiet_prims stmts_quiet quiet_fold log_mmio_read log_read

lemma quiet_print_gicd_ctlr: "quiet (print_gicd_ctlr b)"
  by (rule quiet_lambda) (simp_all add: print_gicd_ctlr_def dump_simps)

lemma quiet_print_mpidr_el1: "quiet (print_mpidr_el1 b)"
  by (rule quiet_lambda) (simp_all add: print_mpidr_el1_def dump_simps)

lemma quiet_print_icc_sre_el1: "quiet (print_icc_sre_el1 b)"
  by (rule quiet_lambda) (simp_all add: print_icc_sre_el1_def dump_simps)

lemma quiet_print_icc_ctlr_el1: "quiet (print_icc_ctlr_el1 b)"
  by (rule quiet_lambda) (simp_all add: print_icc_ctlr_el1_def dump_simps)

lemma quiet_print_icc_pmr_el1: "quiet (print_icc_pmr_el1 b)"
  by (rule quiet_lambda) (simp_all add: print_icc_pmr_el1_def dump_simps)

lemma quiet_print_icc_bpr1_el1: "quiet (print_icc_bpr1_el1 b)"
  by (rule quiet_lambda) (simp_all add: print_icc_bpr1_el1_def dump_simps)

lemma quiet_print_icc_igrpen1_el1: "quiet (print_icc_igrpen1_el1 b)"
  by (rule quiet_lambda) (simp_all add: print_icc_igrpen1_el1_def dump_simps)

lemma quiet_print_gicr_waker: "quiet (print_gicr_waker b c)"
  by (rule quiet_lambda) (simp_all add: print_gicr_waker_def dump_simps)

lemma quiet_print_gicr_isenabler0: "quiet (print_gicr_isenabler0 b c)"
  by (rule quiet_lambda) (simp_all add: print_gicr_isenabler0_def dump_simps)

lemma quiet_print_gicr_igroup: "quiet (print_gicr_igroup b c)"
  by (rule quiet_lambda) (simp_all add: print_gicr_igroup_def dump_simps)

lemma quiet_print_current_el: "quiet (print_current_el b)"
  by (rule quiet_lambda) (simp_all add: print_current_el_def dump_simps read_current_el_def kprintf_def)

lemma quiet_print_ipriority_step: "quiet (print_ipriority_step b c i)"
  by (rule quiet_lambda) (simp_all add: print_ipriority_step_def dump_simps)

lemma quiet_print_gicr_ipriorityr: "quiet (print_gicr_ipriorityr b c)"
  by (rule quiet_lambda) (simp_all add: print_gicr_ipriorityr_def dump_simps quiet_print_ipriority_step)

lemma quiet_print_typer: "quiet (print_gicd_typer b)"
  by (rule quiet_lambda) (simp_all add: print_gicd_typer_def dump_simps quiet_def kprintf_def kprintf_field_def)

lemma quiet_print_iidr: "quiet (print_gicd_iidr b)"
  by (rule quiet_lambda) (simp_all add: print_gicd_iidr_def dump_simps quiet_def kprintf_def kprintf_field_def)

lemmas quiet_prints = quiet_print_gicd_ctlr quiet_print_mpidr_el1 quiet_print_icc_sre_el1 quiet_print_icc_ctlr_el1
  quiet_print_icc_pmr_el1 quiet_print_icc_bpr1_el1 quiet_print_icc_igrpen1_el1 quiet_print_gicr_waker
  quiet_print_gicr_isenabler0 quiet_print_gicr_igroup quiet_print_current_el quiet_print_gicr_ipriorityr
  quiet_print_typer quiet_print_iidr quiet_prims

lemmas quiet_frame = quiet_prints [THEN quiet_log] quiet_prints [THEN quiet_daif]

lemma cpu_setup_log:
  "cpu_interface_on (log (hardware (gicv3_cpu_setup b c s)))"
proof -
  have pmr: "bf_set icc_pmr_el1_t PMR_priority 0xFF 0 = (0xFF :: u64)" by code_simp
  have widths: "bf_width icc_sre_el1_t SRE_sre = 1" "bf_width icc_ctlr_el1_t ICTLR_eoi_mode = 1"
    "bf_width icc_igrpen1_el1_t IGRPEN1_enable = 1"
    by (simp_all add: icc_sre_el1_t_def icc_ctlr_el1_t_def icc_igrpen1_el1_t_def)
  show ?thesis unfolding cpu_interface_on_def
    by (simp add: gicv3_cpu_setup_def stmts_def quiet_frame enable_icc_sys_reg_interface_def mask_all_core_interrupts_def
        unmask_all_core_interrupts_def set_core_priority_threshold_def set_core_min_binary_point_def
        set_core_binary_point_def set_combined_eoi_mode_def enable_grp1_interrupts_def unmask_all_exceptions_def
        READ_SYS_REG_eq WRITE_SYS_REG_def log_write log_read pmr widths binary_point_bound)
qed

end

text \<open>
  C37. When the bring-up returns, the CPU interface delivers group 1 interrupts of every priority: the
  system register interface is on, the priority mask is open, end-of-interrupt is in combined mode,
  the binary point is a legal value, group 1 is enabled, and all exceptions of the core are unmasked.
\<close>

theorem gicv3_bring_up_opens_interface:
  assumes "write_log b log" and "gicv3_bring_up b s = Some s'"
  shows "cpu_interface_on (log (hardware s')) \<and> daif s' AND 0xF = 0"
proof -
  obtain c s9 where s': "s' = gicv3_cpu_setup b c s9"
    using assms(2) unfolding gicv3_bring_up_def Let_def
    by (auto simp: bind_eq_Some_conv case_prod_beta)
  have "(x AND - 16) AND 15 = 0" for x :: u64
  proof -
    have "(- 16 :: u64) AND 15 = 0" by code_simp
    then show ?thesis by (simp add: and.assoc)
  qed
  then have "daif s' AND 0xF = 0"
    by (simp add: s' gicv3_cpu_setup_def stmts_def unmask_all_exceptions_def kprintf_def)
  with write_log.cpu_setup_log [OF assms(1)] show ?thesis unfolding s' by blast
qed

end
