(* ===== verification/Gicv3_Demo.thy ===== *)
theory Gicv3_Demo
  imports Gicv3_Bringup
begin

text \<open>
  An executable interrupt controller with the documented register behaviour, at the addresses of
  the QEMU \<^verbatim>\<open>virt\<close> machine: 288 INTIDs, a single security state, five priority bits, and the words of
  the distributor for the INTIDs below 32 RAZ/WI. The contracts of the driver's proofs are
  interpreted on it, and the theorems applied to it.
\<close>

definition DIST :: virt_addr where "DIST = 0x8000000"
definition REDIST :: virt_addr where "REDIST = 0x80A0000"
definition SGI :: virt_addr where "SGI = REDIST + 0x10000"

record sim =
  sim_regs :: gic_regs
  sim_routers :: "nat \<Rightarrow> u64"
  sim_sys :: "sysreg_name \<Rightarrow> u64"
  sim_log :: "sysreg_name \<Rightarrow> u64 option"

definition decode_offset :: "nat \<Rightarrow> (gic_reg \<times> nat) option" where
  "decode_offset off =
     (if off < 0x80 then None
      else if off < 0x100 then Some (IGROUPR, (off - 0x80) div 4)
      else if off < 0x180 then Some (ISENABLER, (off - 0x100) div 4)
      else if off < 0x200 then Some (ICENABLER, (off - 0x180) div 4)
      else if off < 0x400 then None
      else if off < 0x800 then Some (IPRIORITYR, (off - 0x400) div 4)
      else if off < 0xD00 then None
      else if off < 0xD80 then Some (IGRPMODR, (off - 0xD00) div 4)
      else None)"

definition decode :: "virt_addr \<Rightarrow> (virt_addr \<times> gic_reg \<times> nat) option" where
  "decode a =
     (if unat (a - DIST) < 0x10000 then map_option (Pair DIST) (decode_offset (unat (a - DIST)))
      else if unat (a - SGI) < 0x10000 then map_option (Pair SGI) (decode_offset (unat (a - SGI)))
      else None)"

definition SIM :: gic_params where
  "SIM = \<lparr>implemented = (\<lambda>j. j < 288), group_modifier = False, prio_bits = 0xF8\<rparr>"

fun sim_word :: "virt_addr \<times> gic_reg \<times> nat \<Rightarrow> bool" where
  "sim_word (F, k, n) = gic_word DIST SGI F k n"

fun sim_mask :: "virt_addr \<times> gic_reg \<times> nat \<Rightarrow> u32" where
  "sim_mask (F, k, n) = impl_mask SIM k n"

definition sim_view :: "sim \<Rightarrow> gic_regs" where
  "sim_view d x = (if sim_word x then sim_regs d x AND sim_mask x else 0)"

definition sim_bus :: "sim bus" where
  "sim_bus =
     \<lparr>mmio_read32 = (\<lambda>a d. (case decode a of Some x \<Rightarrow> sim_view d x | None \<Rightarrow> 0, d)),
      mmio_write32 = (\<lambda>a v d. case decode a of
          Some (F, k, n) \<Rightarrow>
            if gic_word DIST SGI F k n then d\<lparr>sim_regs := written SIM F k n v (sim_regs d)\<rparr> else d
        | None \<Rightarrow> d),
      mmio_write64 = (\<lambda>a v d. if 0x6100 \<le> unat (a - DIST) \<and> unat (a - DIST) < 0x8000
            \<and> implemented SIM ((unat (a - DIST) - 0x6000) div 8)
          then d\<lparr>sim_routers := (sim_routers d)((unat (a - DIST) - 0x6000) div 8 := v)\<rparr> else d),
      sysreg_read = (\<lambda>r d. (if r = reg_mpidr_el1 then 0x80000000 else sim_sys d r, d)),
      sysreg_write = (\<lambda>r v d. d\<lparr>sim_sys := (sim_sys d)(r := v), sim_log := (sim_log d)(r \<mapsto> v)\<rparr>)\<rparr>"

lemma unat_offset:
  assumes "n < reg_count k"
  shows "unat (reg_offset k + of_nat (4 * n)) = unat (reg_offset k) + 4 * n"
    and "unat (reg_offset k) + 4 * n < 0x1000"
proof -
  show "unat (reg_offset k) + 4 * n < 0x1000" using assms by (cases k) (simp_all add: reg_count_def)
  then have "4 * n < 2 ^ 64" by simp
  then have u: "unat (of_nat (4 * n) :: u64) = 4 * n" by (rule unat_of_nat64)
  have "unat (reg_offset k) + unat (of_nat (4 * n) :: u64) < 2 ^ 64"
    using \<open>unat (reg_offset k) + 4 * n < 0x1000\<close> unfolding u by simp
  then show "unat (reg_offset k + of_nat (4 * n)) = unat (reg_offset k) + 4 * n"
    by (subst unat_add64) (simp_all only: u)
qed

lemma decode_offset_reg: "n < reg_count k \<Longrightarrow> decode_offset (unat (reg_offset k) + 4 * n) = Some (k, n)"
  by (cases k) (simp_all add: decode_offset_def reg_count_def)

lemma decode_reg:
  assumes "F = DIST \<or> F = SGI" "n < reg_count k"
  shows "decode (reg_addr F k n) = Some (F, k, n)"
proof -
  note u = unat_offset [OF assms(2)]
  have self: "unat (reg_addr F k n - F) = unat (reg_offset k) + 4 * n" using u(1) by (simp add: reg_addr_def)
  have "reg_addr SGI k n - DIST = 0xB0000 + (reg_offset k + of_nat (4 * n))"
    by (simp add: reg_addr_def SGI_def DIST_def REDIST_def)
  moreover have "unat (0xB0000 + (reg_offset k + of_nat (4 * n)) :: u64) = 0xB0000 + (unat (reg_offset k) + 4 * n)"
    using u by (subst unat_add64) simp_all
  ultimately have far: "\<not> unat (reg_addr SGI k n - DIST) < 0x10000" by simp
  show ?thesis
    using assms(1) self far u(2) decode_offset_reg [OF assms(2)] by (auto simp: decode_def)
qed

lemma sim_word_frame: "gic_word DIST SGI F k n \<Longrightarrow> (F = DIST \<or> F = SGI) \<and> n < reg_count k"
  by (auto simp: gic_word_def private_words_def reg_count_def)

lemma gic_word_enable: "gic_word dist sgi F ICENABLER n = gic_word dist sgi F ISENABLER n"
  by (simp add: gic_word_def private_words_def reg_count_def)

text \<open>The set-enable word of the distributor for the INTIDs below 32 reads as zero and ignores writes.\<close>

lemma sim_isenabler0_raz_wi:
  "mmio_read32 sim_bus (DIST + 0x100) d = (0, d)" "mmio_write32 sim_bus (DIST + 0x100) v d = d"
proof -
  have "DIST + 0x100 = reg_addr DIST ISENABLER 0" by (simp add: reg_addr_def)
  then have "decode (DIST + 0x100) = Some (DIST, ISENABLER, 0)" by (simp add: decode_reg reg_count_def)
  moreover have "\<not> gic_word DIST SGI DIST ISENABLER 0"
    by (simp add: gic_word_def private_words_def DIST_def SGI_def REDIST_def)
  ultimately show "mmio_read32 sim_bus (DIST + 0x100) d = (0, d)" "mmio_write32 sim_bus (DIST + 0x100) v d = d"
    by (simp_all add: sim_bus_def sim_view_def)
qed

lemma sim_view_written:
  assumes "gic_word DIST SGI F k n"
  shows "sim_view (d\<lparr>sim_regs := written SIM F k n v (sim_regs d)\<rparr>) = written SIM F k n v (sim_view d)"
  using assms by (cases k)
    (auto simp: sim_view_def fun_eq_iff and.assoc gic_word_enable bit.conj_disj_distrib2 and.commute [of "NOT v"])

interpretation sim: gic_hardware sim_bus sim_view sim_routers SIM "0x80000000" DIST SGI
proof
  show "implemented SIM j \<Longrightarrow> j < 1020" for j by (simp add: SIM_def)
next
  fix F k n v d
  assume w: "gic_word DIST SGI F k n"
  note dec = decode_reg [of F n k] sim_word_frame [OF w]
  show "k \<noteq> ICENABLER \<Longrightarrow> mmio_read32 sim_bus (reg_addr F k n) d = (sim_view d (F, k, n), d)"
    by (simp add: sim_bus_def dec)
  show "sim_view d (F, k, n) AND impl_mask SIM k n = sim_view d (F, k, n)"
    by (simp add: sim_view_def w and.assoc)
  show "sim_view (mmio_write32 sim_bus (reg_addr F k n) v d) = written SIM F k n v (sim_view d)"
    using sim_view_written [OF w] by (simp add: sim_bus_def dec w)
  show "sim_routers (mmio_write32 sim_bus (reg_addr F k n) v d) = sim_routers d"
    by (simp add: sim_bus_def dec w)
next
  fix n :: nat and w d
  assume n: "32 \<le> n" "n < 1024"
  have "unat (DIST + 0x6000 + of_nat (8 * n) - DIST) = 0x6000 + 8 * n"
  proof -
    have "unat (of_nat (8 * n) :: u64) = 8 * n" using n by (intro unat_of_nat64) simp
    then have "unat (0x6000 + of_nat (8 * n) :: u64) = 0x6000 + 8 * n"
      using n by (subst unat_add64) (simp_all del: of_nat_mult)
    then show ?thesis by (simp add: algebra_simps)
  qed
  then show "sim_view (mmio_write64 sim_bus (DIST + 0x6000 + of_nat (8 * n)) w d) = sim_view d"
    and "sim_routers (mmio_write64 sim_bus (DIST + 0x6000 + of_nat (8 * n)) w d)
      = (if implemented SIM n then (sim_routers d)(n := w) else sim_routers d)"
    using n by (auto simp: sim_bus_def sim_view_def fun_eq_iff simp del: of_nat_mult)
qed (simp_all add: sim_bus_def)

interpretation simlog: write_log sim_bus sim_log
  by unfold_locales (auto simp: sim_bus_def split: option.split)

section \<open>Witnesses\<close>

definition sim_reset :: sim where
  "sim_reset = \<lparr>sim_regs = (\<lambda>_. 0), sim_routers = (\<lambda>_. 0), sim_sys = (\<lambda>_. 0)(reg_icc_iar1_el1 := 33),
     sim_log = (\<lambda>_. None)\<rparr>"

definition gic_demo :: "sim gic_state" where
  "gic_demo = \<lparr>mem = (\<lambda>_. 0), kernel_base_va = 0, pc_base = 0,
     syms = \<lparr>image_start = 0, image_end = 0, idmap_pg_dir_bitmap_start = 0, idmap_pg_dir_start = 0,
             kernel_pg_dir_root_start = 0\<rparr>,
     mem_chunks = [], allocated = 0, kalloc_page_head = 0,
     hardware = sim_reset, console = [], daif = 0xF,
     dist_base = DIST, redist_base = REDIST, dispatch_table = replicate 1024 no_handler\<rparr>"

definition demo_handler :: handler_data_t where
  "demo_handler = \<lparr>handler = 0x40001000, private_data = 0x40002000\<rparr>"

lemma gic_demo_attached: "gic_attached 0x80000000 DIST SGI gic_demo"
proof -
  have "gic_core 0x80000000 = 0" by code_simp
  then show ?thesis by (simp add: gic_attached_def gic_demo_def get_gicr_sgi_base_def get_redist_base_def SGI_def)
qed

lemma gic_demo_sel [simp]:
  "hardware gic_demo = sim_reset" "dispatch_table gic_demo = replicate 1024 no_handler"
  by (simp_all add: gic_demo_def)

lemma gic_demo_consistent: "irq_consistent SIM (irq_abs SIM sim_view sim_routers DIST SGI gic_demo)"
  by (simp add: irq_consistent_def irq_abs_def cfg_of_sel sim_view_def sim_reset_def no_handler_def)

theorem gicv3_refines_irq_table_witness:
  "fst (gicv3_register_irq sim_bus 33 demo_handler gic_demo)
   \<and> cfgs (irq_abs SIM sim_view sim_routers DIST SGI (snd (gicv3_register_irq sim_bus 33 demo_handler gic_demo))) 33
     = configured_cfg 0xF8"
proof -
  have "fst (map_prod id (irq_abs SIM sim_view sim_routers DIST SGI) (gicv3_register_irq sim_bus 33 demo_handler gic_demo))"
    "cfgs (snd (map_prod id (irq_abs SIM sim_view sim_routers DIST SGI) (gicv3_register_irq sim_bus 33 demo_handler gic_demo))) 33
     = configured_cfg 0xF8"
    using gicv3_refines_irq_table [OF sim.gic_hardware_axioms gic_demo_attached, of 33 demo_handler]
    by (simp_all add: spec_register_def SIM_def)
  then show ?thesis by simp
qed

theorem enabled_iff_handler_witness:
  "irq_consistent SIM (irq_abs SIM sim_view sim_routers DIST SGI
     (gicv3_unregister_irq sim_bus 27 (snd (gicv3_register_irq sim_bus 33 demo_handler gic_demo))))"
proof -
  have "irq_calls sim_bus gic_demo
     (gicv3_unregister_irq sim_bus 27 (snd (gicv3_register_irq sim_bus 33 demo_handler gic_demo)))"
    by (intro irq_calls.intros) (simp add: demo_handler_def)
  then show ?thesis
    using enabled_iff_handler [OF sim.gic_hardware_axioms gic_demo_attached gic_demo_consistent] by blast
qed

lemma demo_iar: "sysreg_read sim_bus reg_icc_iar1_el1 (hardware gic_demo) = (33, sim_reset)"
  by (simp add: sim_bus_def sim_reset_def)

theorem gicv3_handle_irq_dispatch_witness:
  "gicv3_handle_irq sim_bus (\<lambda>_ _. Some) gic_demo \<noteq> None"
  by (subst gicv3_handle_irq_dispatch [OF demo_iar]) (simp add: Let_def)

lemma sim_sys_writes [simp]:
  "sim_sys (mmio_write32 sim_bus a v d) = sim_sys d" "sim_sys (mmio_write64 sim_bus a w d) = sim_sys d"
  "snd (mmio_read32 sim_bus a d) = d"
  by (auto simp: sim_bus_def split: option.split)

lemma demo_register_iar:
  "sysreg_read sim_bus reg_icc_iar1_el1 (hardware (snd (gicv3_register_irq sim_bus 33 demo_handler gic_demo)))
   = (ucast (33 :: u32), hardware (snd (gicv3_register_irq sim_bus 33 demo_handler gic_demo)))"
proof -
  have "sim_sys (hardware (snd (gicv3_register_irq sim_bus 33 demo_handler gic_demo))) reg_icc_iar1_el1 = 33"
    by (simp add: gicv3_register_irq_def configure_spi_def set_spi_group1_ns_def set_spi_priority_def
        set_spi_route_def enable_spi_def vread32_eq vwrite32_def vwrite64_def MAX_INT_ID_def Let_def)
      (simp add: sim_reset_def)
  then show ?thesis by (simp add: sim_bus_def)
qed

theorem registered_irq_is_dispatched_witness:
  "gicv3_handle_irq sim_bus (\<lambda>_ _. Some) (snd (gicv3_register_irq sim_bus 33 demo_handler gic_demo)) =
    map_option (WRITE_SYS_REG sim_bus reg_icc_eoir1_el1 33)
      (Some ((snd (gicv3_register_irq sim_bus 33 demo_handler gic_demo))
         \<lparr>hardware := hardware (snd (gicv3_register_irq sim_bus 33 demo_handler gic_demo))\<rparr>))"
  using registered_irq_is_dispatched [OF sim.gic_hardware_axioms gic_demo_attached _ _ _ demo_register_iar,
      of "\<lambda>_ _. Some"]
  by (simp add: demo_handler_def)

text \<open>A bus on which every register reads as zero and that records the system register writes.\<close>

definition idle_bus :: "(sysreg_name \<Rightarrow> u64 option) bus" where
  "idle_bus =
     \<lparr>mmio_read32 = (\<lambda>a d. (0, d)), mmio_write32 = (\<lambda>a v d. d), mmio_write64 = (\<lambda>a v d. d),
      sysreg_read = (\<lambda>r d. (0, d)), sysreg_write = (\<lambda>r v d. d(r \<mapsto> v))\<rparr>"

interpretation idle: write_log idle_bus "\<lambda>d. d"
  by unfold_locales (simp_all add: idle_bus_def)

definition idle_demo :: "(sysreg_name \<Rightarrow> u64 option) gic_state" where
  "idle_demo = \<lparr>mem = (\<lambda>_. 0), kernel_base_va = 0, pc_base = 0,
     syms = \<lparr>image_start = 0, image_end = 0, idmap_pg_dir_bitmap_start = 0, idmap_pg_dir_start = 0,
             kernel_pg_dir_root_start = 0\<rparr>,
     mem_chunks = [], allocated = 0, kalloc_page_head = 0,
     hardware = (\<lambda>_. None), console = [], daif = 0,
     dist_base = DIST, redist_base = REDIST, dispatch_table = replicate 1024 no_handler\<rparr>"

lemma idle_nth_read: "nth_read idle_bus p n d = 0"
  by (induction n arbitrary: d) (simp_all add: reads_simps idle_bus_def)

lemma idle_bring_up:
  fixes s :: "(sysreg_name \<Rightarrow> u64 option) gic_state"
  shows "\<exists>s'. gicv3_bring_up idle_bus s = Some s'"
proof -
  define U where "U x = the (set_up_gicd_ctrl idle_bus x)" for x :: "(sysreg_name \<Rightarrow> u64 option) gic_state"
  define W where "W c x = the (set_gicr_waker idle_bus c x)"
    for x :: "(sysreg_name \<Rightarrow> u64 option) gic_state" and c
  have "set_up_gicd_ctrl idle_bus x = Some (U x)" "set_gicr_waker idle_bus c x = Some (W c x)"
    for x :: "(sysreg_name \<Rightarrow> u64 option) gic_state" and c
    using waits_for_hardware [of idle_bus x c] by (auto simp: idle_nth_read U_def W_def)
  then show ?thesis unfolding gicv3_bring_up_def Let_def by (simp add: case_prod_beta)
qed

theorem gicv3_bring_up_opens_interface_witness:
  "\<exists>s'. gicv3_bring_up idle_bus idle_demo = Some s' \<and> cpu_interface_on (hardware s') \<and> daif s' AND 0xF = 0"
  using idle_bring_up [of idle_demo] gicv3_bring_up_opens_interface [OF idle.write_log_axioms] by blast

end
