(* ===== verification/Timer_Demo.thy ===== *)
theory Timer_Demo
  imports Timer_Correct Uart Gicv3_Demo
begin

text \<open>
  The timer and UART theorems applied to a simulated interrupt controller with a generic timer
  whose condition is always fulfilled, and to a UART that always has a character to deliver.
\<close>

section \<open>The timer\<close>

definition timer_bus :: "sim bus" where
  "timer_bus = sim_bus\<lparr>sysreg_read := (\<lambda>r d. if r = reg_CNTP_CTL_EL0 then (take_bit 2 (sim_sys d r) OR 4, d)
     else sysreg_read sim_bus r d)\<rparr>"

interpretation simtimer: generic_timer timer_bus "\<lambda>d. take_bit 2 (sim_sys d reg_CNTP_CTL_EL0)"
    "\<lambda>d. sim_sys d reg_CNTP_CVAL_EL0"
proof unfold_locales
  have "take_bit 2 (take_bit 2 x OR 4) = take_bit 2 x" for x :: u64
    by (rule bit_word_eqI) (auto simp: bit_simps dest: less_2_cases)
  then show "sysreg_read timer_bus reg_CNTP_CTL_EL0 d = (v, d') \<Longrightarrow> take_bit 2 v = take_bit 2 (sim_sys d reg_CNTP_CTL_EL0)
      \<and> take_bit 2 (sim_sys d' reg_CNTP_CTL_EL0) = take_bit 2 (sim_sys d reg_CNTP_CTL_EL0)
      \<and> sim_sys d' reg_CNTP_CVAL_EL0 = sim_sys d reg_CNTP_CVAL_EL0" for d v d'
    by (auto simp: timer_bus_def)
qed (auto simp: timer_bus_def sim_bus_def)

interpretation tsim: gic_hardware timer_bus sim_view sim_routers SIM "0x80000000" DIST SGI
  using sim.gic_hardware_axioms unfolding gic_hardware_def by (simp add: timer_bus_def)

definition demo_code :: code_symbols where
  "demo_code = \<lparr>addr_timer_isr = 0x40081000, addr_timer_tick_handler = 0x40082000,
     addr_pl011_rx_handler = 0x40083000, addr_pl011_putc = 0x40084000, addr_pl011_getc = 0x40085000,
     addr_uart0 = 0x40086000, addr_uart0_putchar = 0x40086800,
     addr_vector_table = 0x40087000, addr_exit_msg = 0x40088000, addr_current_pc = 0x40089000\<rparr>"

definition demo_tick :: handler_data_t where
  "demo_tick = \<lparr>handler = 0x40082000, private_data = 0\<rparr>"

text \<open>The non-secure physical timer is PPI 14, INTID 30; the counter reads 1000.\<close>

definition timer_demo :: "sim timer_state" where
  "timer_demo = gic_state.extend
     (gic_demo\<lparr>hardware := sim_reset\<lparr>sim_sys := (\<lambda>_. 0)(reg_icc_iar1_el1 := 30, reg_CNTPCT_EL0 := 1000,
        reg_CNTFRQ_EL0 := 62500000)\<rparr>\<rparr>)
     \<lparr>period_ticks = 62500, tick_handler = \<lparr>handler = 0, private_data = 0\<rparr>\<rparr>"

lemma timer_demo_sel:
  "dispatch_table timer_demo = replicate 1024 no_handler" "period_ticks timer_demo = 62500"
  "sim_sys (hardware timer_demo) = (\<lambda>_. 0)(reg_icc_iar1_el1 := 30, reg_CNTPCT_EL0 := 1000, reg_CNTFRQ_EL0 := 62500000)"
  "gic_attached 0x80000000 DIST SGI timer_demo"
proof -
  show "gic_attached 0x80000000 DIST SGI timer_demo"
    using gic_demo_attached by (simp add: gic_attached_def timer_demo_def gic_state.extend_def get_gicr_sgi_base_def
        get_redist_base_def)
qed (simp_all add: timer_demo_def gic_state.extend_def gic_demo_def)

lemma timer_bus_writes [simp]:
  "sim_sys (mmio_write32 timer_bus a v d) = sim_sys d" "sim_sys (mmio_write64 timer_bus a w d) = sim_sys d"
  "snd (mmio_read32 timer_bus a d) = d"
  "sysreg_read timer_bus reg_mpidr_el1 d = (0x80000000, d)"
  by (simp_all add: timer_bus_def) (simp add: sim_bus_def)

lemma demo_register:
  "icu_register_irq timer_bus 30 h (timer_demo\<lparr>tick_handler := t\<rparr>) =
    (True, snd (icu_register_irq timer_bus 30 h (timer_demo\<lparr>tick_handler := t\<rparr>)))"
  "sim_sys (hardware (snd (icu_register_irq timer_bus 30 h (timer_demo\<lparr>tick_handler := t\<rparr>)))) = sim_sys (hardware timer_demo)"
  "period_ticks (snd (icu_register_irq timer_bus 30 h (timer_demo\<lparr>tick_handler := t\<rparr>))) = 62500"
  by (simp_all add: icu_register_irq_def gicv3_register_irq_def get_core_id_def READ_SYS_REG_def configure_sgi_ppi_def
      set_sgi_ppi_group1_ns_def set_sgi_ppi_priority_def enable_sgi_ppi_def vread32_eq vwrite32_def MAX_INT_ID_def Let_def
      timer_demo_sel)

definition demo_registered :: "sim timer_state" where
  "demo_registered = snd (icu_register_irq timer_bus 30 \<lparr>handler = addr_timer_isr demo_code, private_data = 0\<rparr>
     (timer_demo\<lparr>tick_handler := demo_tick\<rparr>))"

lemmas demo_reg = demo_register [of "\<lparr>handler = addr_timer_isr demo_code, private_data = 0\<rparr>" demo_tick,
    folded demo_registered_def]

lemma timer_bus_sysreg [simp]:
  "sysreg_read timer_bus reg_CNTPCT_EL0 d = (sim_sys d reg_CNTPCT_EL0, d)"
  "sysreg_read timer_bus reg_icc_iar1_el1 d = (sim_sys d reg_icc_iar1_el1, d)"
  "sysreg_read timer_bus reg_CNTFRQ_EL0 d = (sim_sys d reg_CNTFRQ_EL0, d)"
  "sim_sys (sysreg_write timer_bus r v d) = (sim_sys d)(r := v)"
  by (simp_all add: timer_bus_def) (simp_all add: sim_bus_def)

definition timer_started :: "sim timer_state" where
  "timer_started = snd (setup_isr timer_bus demo_code 30 demo_tick timer_demo)"

lemma demo_tick_eta: "\<lparr>handler = handler demo_tick, private_data = private_data demo_tick\<rparr> = demo_tick"
  by (simp add: demo_tick_def)

lemma demo_setup_eq:
  "setup_isr timer_bus demo_code 30 demo_tick timer_demo =
     (True, demo_registered\<lparr>hardware := sysreg_write timer_bus reg_CNTP_CTL_EL0
        (bf_set cntp_ctl_el0_t CNTP_is_masked 0 (bf_set cntp_ctl_el0_t CNTP_is_enable 1 0))
        (sysreg_write timer_bus reg_CNTP_CVAL_EL0 63500 (hardware demo_registered))\<rparr>)"
  unfolding setup_isr_def demo_tick_eta Let_def demo_reg(1)
  by (simp add: READ_SYS_REG_eq WRITE_SYS_REG_def demo_reg timer_demo_sel)

lemma demo_setup: "setup_isr timer_bus demo_code 30 demo_tick timer_demo = (True, timer_started)"
  unfolding timer_started_def demo_setup_eq snd_conv ..

lemma timer_started_sys:
  "sim_sys (hardware timer_started) reg_icc_iar1_el1 = 30" "period_ticks timer_started = 62500"
  unfolding timer_started_def demo_setup_eq by (simp_all add: demo_reg timer_demo_sel)

lemma isr_returns: "\<exists>s'. timer_isr timer_bus (\<lambda>_ _. Some) s = Some s'"
  by (simp add: timer_isr_def READ_SYS_REG_eq Let_def)

lemma demo_due: "bit (fst (sysreg_read timer_bus reg_CNTP_CTL_EL0 d)) 2"
  using bit_exp_iff [of 2 2, where 'a = u64] by (simp add: timer_bus_def bit_simps)

theorem timer_does_not_drift_witness:
  "sim_sys (hardware (the (timer_isr timer_bus (\<lambda>_ _. Some) timer_started))) reg_CNTP_CVAL_EL0 = 1000 + 2 * 62500"
proof -
  obtain s' where s': "timer_isr timer_bus (\<lambda>_ _. Some) timer_started = Some s'" using isr_returns by blast
  have run: "timer_run timer_bus (\<lambda>d. sim_sys d reg_CNTP_CVAL_EL0) (\<lambda>_ _. Some) timer_started (Suc 0) s'"
    by (rule timer_run.tick [OF timer_run.start demo_due s'])
  have "keeps_timer (\<lambda>d. sim_sys d reg_CNTP_CVAL_EL0) (\<lambda>_ _. Some :: sim timer_state \<Rightarrow> _)"
    by (simp add: keeps_timer_def)
  from timer_does_not_drift [OF simtimer.generic_timer_axioms this demo_setup run]
  have "sim_sys (hardware s') reg_CNTP_CVAL_EL0 = 1000 + of_nat (Suc (Suc 0)) * 62500"
    by (simp add: demo_registered_def [symmetric] demo_reg timer_demo_sel timer_started_sys)
  then show ?thesis by (simp add: s')
qed

theorem timer_tick_end_to_end_witness:
  "\<exists>s3 d'. icu_handle_irq timer_bus (\<lambda>_ _. timer_isr timer_bus (\<lambda>_ _. Some)) timer_started
       = Some (WRITE_SYS_REG timer_bus reg_icc_eoir1_el1 30 (s3\<lparr>hardware := d'\<rparr>))
     \<and> take_bit 2 (sim_sys d' reg_CNTP_CTL_EL0) = 1"
proof -
  let ?i = "\<lambda>_ _. timer_isr timer_bus (\<lambda>_ _. Some)"
  have ack: "sysreg_read timer_bus reg_icc_iar1_el1 (hardware timer_started) = (ucast (30 :: u32), hardware timer_started)"
    by (simp add: timer_started_sys)
  have "icu_handle_irq timer_bus ?i timer_started \<noteq> None"
    using isr_returns by (auto simp: icu_handle_irq_def handle_irq_cases [OF ack] Let_def)
  then obtain s' where s': "icu_handle_irq timer_bus ?i timer_started = Some s'" by blast
  have "length (dispatch_table timer_demo) = 1024" "addr_timer_isr demo_code \<noteq> 0"
    by (simp_all add: timer_demo_sel demo_code_def)
  from timer_tick_end_to_end [OF tsim.gic_hardware_axioms simtimer.generic_timer_axioms timer_demo_sel(4) this(1) _ this(2)
      demo_setup ack demo_due refl s']
  show ?thesis using s' by auto
qed

theorem set_period_value_witness:
  "\<not> fst (set_period timer_bus 0xFFFFFFFF timer_demo) \<and> fst (set_period timer_bus (2 ^ 59) timer_demo)
   \<and> period_ticks (snd (set_period timer_bus (2 ^ 59) timer_demo)) = 0"
proof -
  have f: "sysreg_read timer_bus reg_CNTFRQ_EL0 (hardware timer_demo) = (62500000, hardware timer_demo)"
    by (simp add: timer_demo_sel)
  from set_period_value [OF f, of "0xFFFFFFFF"] set_period_value [OF f, of "2 ^ 59"] show ?thesis by (simp add: unat_eq_0)
qed

section \<open>The UART\<close>

text \<open>The device records the writes; the flags say that a character is waiting.\<close>

definition uart_bus :: "(u64 \<times> u32) list bus" where
  "uart_bus = \<lparr>mmio_read32 = (\<lambda>a d. (if a = 0x09000000 then 0x141 else 0, d)), mmio_write32 = (\<lambda>a v d. d @ [(a, v)]),
     mmio_write64 = (\<lambda>a v d. d), sysreg_read = (\<lambda>r d. (0, d)), sysreg_write = (\<lambda>r v d. d)\<rparr>"

definition uart_demo :: uart_device_t where
  "uart_demo = \<lparr>mmio_base = 0x09000000, putc = 0x40084000, getc = 0x40085000\<rparr>"

definition uart_demo_state :: "(u64 \<times> u32) list kernel_state" where
  "uart_demo_state = \<lparr>mem = (\<lambda>_. 0), kernel_base_va = 0, pc_base = 0, syms = syms gic_demo, mem_chunks = [],
     allocated = 0, kalloc_page_head = 0, hardware = [], console = [], daif = 0\<rparr>"

theorem pl011_rx_handler_echoes_witness:
  "\<exists>s'. pl011_rx_handler uart_bus uart_demo uart_demo_state = Some s'
    \<and> hardware s' = [(0x09000000, 0x41), (0x09000044, 0x10)]"
proof -
  have rd: "after_reads uart_bus a n d = d" for a n d
    by (induction n) (simp_all add: reads_simps uart_bus_def)
  have nr: "nth_read uart_bus 0x09000018 n d = 0" for n d by (simp add: nth_read_def rd) (simp add: uart_bus_def)
  note e = pl011_rx_handler_echoes [of uart_bus uart_demo uart_demo_state]
  have "\<exists>n. \<not> bit (nth_read uart_bus (mmio_base uart_demo + UART_FR) n (hardware uart_demo_state)) 4"
    by (simp add: uart_demo_def UART_FR_def nr)
  then obtain s' where "pl011_rx_handler uart_bus uart_demo uart_demo_state = Some s'" using e by auto
  with e show ?thesis
    by (auto simp: rd) (simp add: uart_bus_def uart_demo_def UART_DR_def UART_ICR_def uart_demo_state_def)
qed

end
