(* ===== verification/Boot_Demo.thy ===== *)
theory Boot_Demo
  imports Boot_High Timer_Demo
begin

text \<open>
  The boot theorems applied to the QEMU \<^verbatim>\<open>virt\<close> machine with 128 MB of memory: a device tree with one
  memory node, the kernel image at \<open>0x40080000\<close>, the blob at \<open>0x44000000\<close>. The library reads the magic number
  and the size of the blob from memory.
\<close>

section \<open>The machine\<close>

definition memory_reg :: "u8 list" where
  "memory_reg = [0, 0, 0, 0, 0x40, 0, 0, 0, 0, 0, 0, 0, 0x08, 0, 0, 0]"

definition demo_fdt :: libfdt where
  "demo_fdt =
     \<lparr>fdt_check_header = (\<lambda>_. 0), fdt_totalsize = (\<lambda>_. 0x100000), fdt_path_offset = (\<lambda>_ _. 0),
      fdt_address_cells = (\<lambda>_ _. 2), fdt_size_cells = (\<lambda>_ _. 2),
      fdt_getprop = (\<lambda>_ node name. if node = 64 \<and> name = ''reg'' then Some memory_reg else None),
      fdt_node_offset_by_prop_value = (\<lambda>_ prev name val. if prev < 64 \<and> name = ''device_type'' then 64 else -1),
      fdt_node_offset_by_compatible = (\<lambda>_ _ _. -1), fdt_node_offset_by_phandle = (\<lambda>_ _. -1),
      fdt_parent_offset = (\<lambda>_ _. -1), FDT_ERR_NOTFOUND = 1, FDT_ERR_BADMAGIC = 9, FDT_ERR_BADVERSION = 10,
      FDT_ERR_BADSTATE = 7, FDT_ERR_INTERNAL = 13, FDT_ERR_BADNCELLS = 14\<rparr>"

definition be32 :: "(virt_addr \<Rightarrow> u8) \<Rightarrow> virt_addr \<Rightarrow> u32" where
  "be32 v p = fdt32_to_cpu (v p) (v (p + 1)) (v (p + 2)) (v (p + 3))"

definition demo_library :: fdt_library where
  "demo_library v = demo_fdt
     \<lparr>fdt_check_header := (\<lambda>p. if be32 v p = 0xD00DFEED then 0 else - 9), fdt_totalsize := (\<lambda>p. be32 v (p + 4))\<rparr>"

definition demo_mem :: memory where
  "demo_mem = (\<lambda>_. 0)(0x44000000 := 0xD0, 0x44000001 := 0x0D, 0x44000002 := 0xFE, 0x44000003 := 0xED, 0x44000005 := 0x10)"

definition demo_ram :: memory_region_t where
  "demo_ram = \<lparr>base = 0x40000000, size = 0x8000000\<rparr>"

definition demo_map :: memory_map_t where
  "demo_map = \<lparr>regions = [demo_ram], count = 1\<rparr>"

definition boot_syms :: linker_symbols where
  "boot_syms = \<lparr>image_start = 0x40080000, image_end = 0x40100000, idmap_pg_dir_bitmap_start = 0x40090000,
     idmap_pg_dir_start = 0x40091000, kernel_pg_dir_root_start = 0x400A0000\<rparr>"

definition boot_demo :: "sim boot_state" where
  "boot_demo = \<lparr>mem = demo_mem, kernel_base_va = 0, pc_base = 0, syms = boot_syms,
     mem_chunks = replicate 10 \<lparr>bitmap = 0, total_pages = 0, mem_base = 0, initialized = False\<rparr>,
     allocated = 0, kalloc_page_head = 0, hardware = sim_reset, console = [], daif = 0xF,
     dist_base = DIST, redist_base = REDIST, dispatch_table = replicate 1024 no_handler,
     period_ticks = 0, tick_handler = no_handler,
     uart0 = uart_demo, serial_console = \<lparr>con_putc = 0, con_getc = 0\<rparr>, mmu_regs = reset_regs\<rparr>"

lemma boot_demo_sel [simp]:
  "mem boot_demo = demo_mem" "kernel_base_va boot_demo = 0" "pc_base boot_demo = 0" "syms boot_demo = boot_syms"
  "hardware boot_demo = sim_reset" "dispatch_table boot_demo = replicate 1024 no_handler" "uart0 boot_demo = uart_demo"
  by (simp_all add: boot_demo_def)

lemma boot_demo_empty: "inits boot_demo = {}" "alloc_inv boot_demo"
proof -
  show i: "inits boot_demo = {}" by (auto simp: inits_def boot_demo_def)
  show "alloc_inv boot_demo" unfolding alloc_inv_def i by (simp add: boot_demo_def MAX_MEM_CHUNKS_def)
qed

lemma boot_demo_syms [simp]:
  "sym_addr boot_demo image_start = 0x40080000" "sym_addr boot_demo image_end = 0x40100000"
  "get_id_map_region_start boot_demo = 0x40090000" "get_id_map_root boot_demo = 0x40091000"
  "get_kernel_map_root boot_demo = 0x400A0000" "get_image_size boot_demo = 0x80000"
  by (simp_all add: sym_addr_def boot_syms_def get_id_map_region_start_def get_id_map_root_def get_kernel_map_root_def
      get_image_size_def)

section \<open>The device tree\<close>

lemma demo_nodes:
  "node_chain (next_memory_node demo_fdt p) (-1) [64]" "\<forall>n \<in> set [64]. reg_wellformed demo_fdt p 2 2 n"
  by (simp_all add: demo_fdt_def reg_wellformed_def memory_reg_def)

lemma demo_regions: "node_regions demo_fdt p 2 2 64 = [demo_ram]"
proof -
  have "prop_cells memory_reg = [0, 0x40000000, 0, 0x8000000]" by code_simp
  then have "reg_regions 2 2 (prop_cells memory_reg) = [demo_ram]"
    by (subst reg_regions.simps, subst reg_regions.simps) (simp add: cells_value_def demo_ram_def)
  then show ?thesis by (simp add: node_regions_def demo_fdt_def demo_ram_def)
qed

lemma demo_described: "memory_described demo_fdt 0x44000000 demo_map"
proof -
  have r: "fdt_path_offset demo_fdt 0x44000000 ''/'' = 0" "fdt_address_cells demo_fdt 0x44000000 0 = 2"
    "fdt_size_cells demo_fdt 0x44000000 0 = 2" by (simp_all add: demo_fdt_def)
  show ?thesis unfolding memory_described_def Let_def r
    using demo_nodes [of "0x44000000"]
    by (intro conjI exI [of _ "[64]"]) (simp_all add: demo_regions map_of_regions_def demo_map_def)
qed

text \<open>The library on a memory that holds the first eight bytes of the blob.\<close>

lemma demo_library_eq:
  assumes "\<forall>a \<in> blob_bytes 0x44000000 0x100000. v a = demo_mem a"
  shows "fdt_check_header (demo_library v) 0x44000000 = 0" "fdt_totalsize (demo_library v) 0x44000000 = 0x100000"
    "memory_described (demo_library v) 0x44000000 demo_map" "0 < FDT_ERR_INTERNAL (demo_library v)"
proof -
  have "a \<in> blob_bytes 0x44000000 0x100000" if "a \<in> {0x44000000 ..< 0x44000008}" for a
    using that by (simp add: blob_bytes_def word_le_nat_alt word_less_nat_alt)
  then have v: "v a = demo_mem a" if "a \<in> {0x44000000 ..< 0x44000008}" for a using that assms by blast
  have b: "be32 v 0x44000000 = 0xD00DFEED" "be32 v 0x44000004 = 0x100000"
    unfolding be32_def by (simp_all add: v) (simp_all add: demo_mem_def fdt32_to_cpu_def)
  show "fdt_check_header (demo_library v) 0x44000000 = 0" "fdt_totalsize (demo_library v) 0x44000000 = 0x100000"
    using b by (simp_all add: demo_library_def)
  show "0 < FDT_ERR_INTERNAL (demo_library v)" by (simp add: demo_library_def demo_fdt_def)
  have "node_regions (demo_library v) = node_regions demo_fdt" "reg_wellformed (demo_library v) = reg_wellformed demo_fdt"
    by (simp_all add: demo_library_def reg_wellformed_def node_regions_def fun_eq_iff)
  then have "memory_described (demo_library v) p m = memory_described demo_fdt p m" for p m
    by (simp add: memory_described_def) (simp add: demo_library_def)
  then show "memory_described (demo_library v) 0x44000000 demo_map" using demo_described by simp
qed

lemmas demo_library_mem = demo_library_eq [of demo_mem, simplified]

section \<open>Ready to boot\<close>

lemma demo_frames_ram: "region_frames demo_ram = {0x40000 ..< 0x48000}"
  by (simp add: region_frames_def demo_ram_def)

lemma demo_usable: "usable_region boot_demo demo_ram" "region_ok demo_ram" "\<not> in_region demo_ram UART0"
proof -
  have "region_fits (base demo_ram) (memory_region_t.size demo_ram)" by (simp add: region_fits_def demo_ram_def)
  moreover have b: "region_base (base demo_ram) = 0x40000000" "region_pages (base demo_ram) (memory_region_t.size demo_ram) = 0x8000"
    by (code_simp)+
  moreover have "NUM_PAGES ((0x8000 + 7) div 8) = 1" by code_simp
  ultimately show "usable_region boot_demo demo_ram"
    unfolding usable_region_def b by (simp add: check_kernel_binary_overlap_def PAGE_SIZE_def)
  show "region_ok demo_ram" "\<not> in_region demo_ram UART0"
    by (simp_all add: region_ok_def in_region_def demo_ram_def page_aligned_def)
qed

lemma demo_layout: "id_map_layout boot_demo UART0"
  by (simp add: id_map_layout_def Let_def page_aligned_def PAGE_SIZE_def)

lemma demo_placed:
  "in_one_region (regions demo_map) 0x40080000 (NUM_PAGES 0x80000)"
  "in_one_region (regions demo_map) 0x44000000 (NUM_PAGES 0x100000)"
proof -
  have n: "NUM_PAGES 0x80000 = 0x80" "NUM_PAGES 0x100000 = 0x100" by code_simp+
  show "in_one_region (regions demo_map) 0x40080000 (NUM_PAGES 0x80000)"
    "in_one_region (regions demo_map) 0x44000000 (NUM_PAGES 0x100000)"
    by (simp_all add: in_one_region_def demo_map_def demo_frames_ram frame_def n) (simp_all add: demo_ram_def n)
qed

lemma demo_bitmap: "region_bitmap demo_ram = {0x40000}"
  by (simp add: region_bitmap_def Let_def demo_ram_def) auto

lemma demo_blob:
  assumes "a \<in> blob_bytes 0x44000000 0x100000"
  shows "frame a \<notin> region_bitmap demo_ram" "\<not> (0x40080000 \<le> a \<and> a < 0x40100000)"
proof -
  have a: "0x44000000 \<le> unat a" using assms by (simp add: blob_bytes_def)
  then have "0x44000000 div 4096 \<le> frame a" unfolding frame_def by (rule div_le_mono)
  then show "frame a \<notin> region_bitmap demo_ram" by (simp add: demo_bitmap)
  show "\<not> (0x40080000 \<le> a \<and> a < 0x40100000)" using a by (simp add: word_less_nat_alt)
qed

lemma demo_off_bitmaps: "blob_off_bitmaps 0x44000000 0x100000 (regions demo_map)"
  using demo_blob(1) by (simp add: blob_off_bitmaps_def demo_map_def)

lemma demo_root_zero: "frame x = Suc (frame 0x40090000) \<Longrightarrow> demo_mem x = 0"
  by (auto simp: demo_mem_def frame_def)

lemma demo_ready: "boot_ready demo_library 0x44000000 demo_map boot_demo"
proof -
  have rs: "regions demo_map = [demo_ram]" by (simp add: demo_map_def)
  have "0x40080000 \<le> x \<and> x < 0x40100000 \<and> frame x \<noteq> frame 0x400A0000"
    if "frame x \<in> {frame 0x40090000 ..< frame 0x40090000 + 7}" for x :: phy_addr
  proof -
    have "0x40090 \<le> frame x" "frame x < 0x40097" using that by (simp_all add: frame_def)
    then have "0x40090000 \<le> unat x" "unat x < 0x40097000" "frame x \<noteq> 0x400A0" by (simp_all add: frame_def)
    then show ?thesis by (simp add: word_le_nat_alt word_less_nat_alt) (simp add: frame_def)
  qed
  moreover have "blob_valid demo_library 0x44000000 demo_map 0x100000 v"
    if "\<forall>a \<in> blob_bytes 0x44000000 0x100000. v a = demo_mem a" for v
    using demo_library_eq [OF that] by (simp add: blob_valid_def)
  moreover have "a \<notin> blob_bytes 0x44000000 0x100000 \<or> \<not> (0x40080000 \<le> a \<and> a < 0x40100000)" for a
    using demo_blob(2) by blast
  ultimately show ?thesis
    unfolding boot_ready_def boot_demo_sel demo_library_mem
    using boot_demo_empty demo_layout demo_usable demo_placed demo_off_bitmaps demo_root_zero
    by (simp add: rs) (auto simp: table_ok_def page_aligned_def)
qed

section \<open>Witnesses\<close>

theorem get_mem_correct_witness:
  "get_mem demo_fdt 0x44000000 (Some demo_map) boot_demo = Some (0, Some demo_map, boot_demo)"
proof -
  have r: "fdt_path_offset demo_fdt 0x44000000 ''/'' = 0" "fdt_address_cells demo_fdt 0x44000000 0 = 2"
    "fdt_size_cells demo_fdt 0x44000000 0 = 2" by (simp_all add: demo_fdt_def)
  show ?thesis
    using get_mem_correct [of "0x44000000" demo_fdt "[64]" demo_map boot_demo] demo_nodes [of "0x44000000"]
    by (simp add: r demo_regions map_of_regions_def demo_map_def)
qed

theorem get_mem_type_witness: "memory_map_wf demo_map"
proof -
  have "get_mem demo_fdt 0x44000000 (Some demo_map) boot_demo = Some (0, Some demo_map, boot_demo)"
    by (rule get_mem_of_described [OF demo_described])
  from get_mem_type [OF this] show ?thesis by (simp add: demo_fdt_def)
qed

theorem setup_page_allocator_establishes_witness:
  "\<exists>s'. setup_page_allocator demo_library demo_map 0x44000000 boot_demo = Some (True, s') \<and> alloc_inv s'
    \<and> frame_used s' 0x40000 \<and> \<not> frame_used s' 0x40001 \<and> frame_used s' 0x40080"
proof -
  have lb: "load_byte boot_demo = demo_mem" using load_byte_low [of boot_demo] by simp
  have size: "size_in_blob demo_library 0x44000000 boot_demo"
    unfolding size_in_blob_def lb demo_library_mem using demo_library_eq(2) by blast
  have rs: "length (regions demo_map) \<le> 10" "\<forall>r \<in> set (regions demo_map). usable_region boot_demo r"
    "apart_regions (regions demo_map)" using demo_usable by (simp_all add: demo_map_def)
  have n: "NUM_PAGES 0x80000 = 0x80" "NUM_PAGES 0x100000 = 0x100" by code_simp+
  have blocks: "block_frames 0x40080000 0x80 = {0x40080 ..< 0x40100}" "block_frames 0x44000000 0x100 = {0x44000 ..< 0x44100}"
    by (simp_all add: block_frames_def frame_def)
  obtain s' where r: "setup_page_allocator demo_library demo_map 0x44000000 boot_demo = Some (True, s')" "alloc_inv s'"
    and u: "\<forall>f. frame_used s' f \<longleftrightarrow> (\<exists>r \<in> set (regions demo_map). f \<in> region_bitmap r)
         \<or> f \<in> block_frames 0x40080000 (NUM_PAGES 0x80000)
         \<or> f \<in> block_frames 0x44000000 (NUM_PAGES 0x100000)"
    using setup_page_allocator_establishes [where L = demo_library and s = boot_demo and fdt = "0x44000000" and ?m0.0 = demo_map,
        OF boot_demo_empty(2,1) boot_demo_sel(2) refl, unfolded lb demo_library_mem,
        OF _ refl demo_library_mem(4) get_mem_of_described [OF demo_library_mem(3)] order_refl rs _ _ size demo_off_bitmaps]
      demo_placed by auto
  have "frame_used s' f \<longleftrightarrow> f = 0x40000 \<or> f \<in> {0x40080 ..< 0x40100} \<or> f \<in> {0x44000 ..< 0x44100}" for f
    using u by (simp add: demo_map_def demo_bitmap n blocks)
  then show ?thesis using r by (intro exI [of _ s']) simp
qed

theorem setup_kernel_id_map_correct_witness:
  "\<exists>s'. setup_kernel_id_map UART0 boot_demo = Some (True, s')
    \<and> translate (mem s') 0x40091000 0x40080000 = Leaf 3 (leaf_desc 0x40080000 rwx_perms NORMAL)"
  using setup_kernel_id_map_correct [OF boot_demo_empty(2,1) boot_demo_sel(2) demo_layout] demo_root_zero
  by (auto simp: id_mapped_def image_page_def page_aligned_def)

theorem boot_low_half_correct_witness:
  "\<exists>ok s'. boot_low_half sim_bus demo_library demo_code demo_map 0x44000000 boot_demo = Some (ok, s')
    \<and> (ok \<longrightarrow> ttbr0_el1 (mmu_regs s') = 0x40091000) \<and> (\<not> ok \<longrightarrow> mmu_regs s' = reset_regs)"
proof -
  have "mmu_regs boot_demo = reset_regs" by (simp add: boot_demo_def)
  moreover from boot_low_half_correct [OF demo_ready, of sim_bus demo_code demo_map] obtain ok s' where
    low: "boot_low_half sim_bus demo_library demo_code demo_map 0x44000000 boot_demo = Some (ok, s')"
    and on: "ok \<longrightarrow> ready_to_jump boot_demo demo_map (mmu_regs boot_demo) (mmu_regs s') s'"
    and off: "\<not> ok \<longrightarrow> mmu_regs s' = mmu_regs boot_demo" by blast
  moreover have "ttbr0_el1 (mmu_regs s') = 0x40091000" if ok
  proof -
    have "mmu_regs s' = \<lparr>mair_el1 = mair_value, tcr_el1 = tcr_value, ttbr0_el1 = get_id_map_root boot_demo,
        ttbr1_el1 = get_kernel_map_root boot_demo, sctlr_el1 = sctlr_enable (sctlr_el1 (mmu_regs boot_demo))\<rparr>"
      using on that unfolding ready_to_jump_def by blast
    then show ?thesis by simp
  qed
  ultimately show ?thesis by metis
qed

theorem boot_enters_high_half_witness:
  "\<exists>ok s1. boot_low_half sim_bus demo_library demo_code demo_map 0x44000000 boot_demo = Some (ok, s1)
    \<and> (ok \<longrightarrow> ttbr0_el1 (mmu_regs (enter_high_half sim_bus demo_code (switch_to_high_va s1))) = 0)"
  using boot_enters_high_half [OF demo_ready, of sim_bus demo_code demo_map demo_code]
  unfolding high_half_entered_def by blast

lemma boot_demo_attached: "gic_attached 0x80000000 DIST SGI boot_demo"
  using gic_demo_attached by (simp add: gic_attached_def boot_demo_def gic_demo_def get_gicr_sgi_base_def get_redist_base_def)

theorem uart_irq_echoes_witness:
  "el1_irq_handler sim_bus (kernel_invoke sim_bus demo_code)
     (snd (pl011_register_handler sim_bus demo_code (addr_uart0 demo_code) boot_demo)) \<noteq> None"
proof -
  define s0 where "s0 = snd (pl011_register_handler sim_bus demo_code (addr_uart0 demo_code) boot_demo)"
  have "sim_sys (hardware s0) reg_icc_iar1_el1 = 33"
    unfolding s0_def
    by (simp add: pl011_register_handler_def icu_register_irq_def gicv3_register_irq_def configure_spi_def set_spi_group1_ns_def
        set_spi_priority_def set_spi_route_def enable_spi_def vread32_eq vwrite32_def vwrite64_def MAX_INT_ID_def Let_def)
      (simp add: sim_reset_def)
  then have ack: "sysreg_read sim_bus reg_icc_iar1_el1 (hardware s0) = (33, hardware s0)" by (simp add: sim_bus_def)
  have H: "addr_pl011_rx_handler demo_code \<notin> {0, addr_timer_isr demo_code, addr_timer_tick_handler demo_code}"
    by (simp add: demo_code_def)
  have "fst (mmio_read32 sim_bus 0x09000018 d) = 0" for d by (simp add: sim_bus_def decode_def DIST_def SGI_def REDIST_def)
  then have "nth_read sim_bus (mmio_base (uart0 boot_demo) + UART_FR) 0 d = 0" for d
    by (simp add: reads_simps uart_demo_def UART_FR_def)
  then have "\<not> bit (nth_read sim_bus (mmio_base (uart0 boot_demo) + UART_FR) 0 (hardware s0)) 4" by simp
  then show ?thesis
    using uart_irq_echoes [OF sim.gic_hardware_axioms boot_demo_attached _ H s0_def ack]
    unfolding s0_def [symmetric] by (metis boot_demo_sel(6) length_replicate)
qed

theorem panic_print_c_reports_witness:
  "\<exists>digits. panic_print_c uart_bus 1 uart_demo_state = uart_demo_state\<lparr>hardware := transmit uart_bus 0x09000000
        (lit_bytes (CRLF @ ''!!! KERNEL PANIC !!!'' @ CRLF @ ''Error Code:    '' @ ''0x'') @ digits
         @ lit_bytes (CRLF @ ''Error Message: '') @ lit_bytes ''CPU not in EL1''
         @ lit_bytes (CRLF @ ''Halting system.'' @ CRLF)) []\<rparr>
     \<and> (\<forall>t p. cstring (t :: mem_state) p (lit_bytes ''0x'' @ digits) \<longrightarrow> strtoul p 0 16 t = Some (1, t))"
proof -
  have h: "hardware uart_demo_state = []" by (simp add: uart_demo_state_def)
  show ?thesis using panic_print_c_reports [of uart_bus 1 uart_demo_state] unfolding h by blast
qed

end
