(* ===== verification/Page_Table_Dump.thy ===== *)
theory Page_Table_Dump
  imports Page_Table_Maps Devices
begin

text \<open>
  The printers of \<^verbatim>\<open>page_table/page_table.c\<close>. They change nothing but the console, so each gives the
  list of its calls of \<^verbatim>\<open>kprintf\<close>, and \<^verbatim>\<open>dump_memory_map\<close> appends them. The theorems: the dump
  lists, in ascending order and once each, exactly the pages whose level 3 entry is valid, hence
  every page the hardware translates; and the descriptor printers use a conversion that
  \<^verbatim>\<open>vprintf\<close> does not know, so that it takes an integer for a string.
\<close>

type_synonym kprintf_call = "string \<times> va_arg list"

section \<open>Descriptors in detail\<close>

definition page_sh_str :: "u64 \<Rightarrow> string \<times> kprintf_call list" where
  "page_sh_str desc =
     (let sh = bf_get page_desc_t PD_sh desc
      in if sh = sh_code SH_NON_SHAREABLE then (''Non-shareable'', [])
         else if sh = sh_code SH_OUTER_SHAREABLE then (''Outer Shareable'', [])
         else if sh = sh_code SH_INNER_SHAREABLE then (''Inner Shareable'', [])
         else (''Reserved'', [(''Error: Unknown Shareability'' @ LF, [])]))"

definition page_ap_str :: "u64 \<Rightarrow> string \<times> kprintf_call list" where
  "page_ap_str desc =
     (let ap = bf_get page_desc_t PD_ap desc
      in if ap = ap_code AP_PRIV_RW then (''EL1: Read/Write, EL0: No Access'', [])
         else if ap = ap_code AP_PRIV_UNPRIV_RW then (''EL1: Read/Write, EL0: Read/Write'', [])
         else if ap = ap_code AP_PRIV_RO then (''EL1: Read-Only,  EL0: No Access'', [])
         else if ap = ap_code AP_PRIV_UNPRIV_RO then (''EL1: Read-Only,  EL0: Read-Only'', [])
         else (''Unknown'', [(''Error: Unknown AP string'' @ LF, [])]))"

text \<open>\<^verbatim>\<open>cond ? a : b\<close> on a field, as an argument for \<^verbatim>\<open>%s\<close>.\<close>

abbreviation pd_choice :: "u64 \<Rightarrow> pd_field \<Rightarrow> string \<Rightarrow> string \<Rightarrow> va_arg" where
  "pd_choice desc f a b \<equiv> Txt (if bf_get page_desc_t f desc \<noteq> 0 then a else b)"

abbreviation td_choice :: "u64 \<Rightarrow> td_field \<Rightarrow> string \<Rightarrow> string \<Rightarrow> va_arg" where
  "td_choice desc f a b \<equiv> Txt (if bf_get table_desc_t f desc \<noteq> 0 then a else b)"

definition print_page_descriptor :: "u64 \<Rightarrow> kprintf_call list" where
  "print_page_descriptor desc =
     (let physical_address = push_bit PAGE_SHIFT (bf_get page_desc_t PD_frame_addr_47_12 desc)
            OR push_bit PA_49_48_SHIFT (bf_get page_desc_t PD_frame_addr_49_48 desc);
          (sh_str, sh_err) = page_sh_str desc;
          (ap_str, ap_err) = page_ap_str desc;
          fld = (\<lambda>f. Num (bf_get page_desc_t f desc))
      in sh_err @ ap_err @ [
        (''===================================================='' @ LF, []),
        (''  AArch64 Stage 1 %s Descriptor Decode'' @ LF, [pd_choice desc PD_is_page ''PAGE (L3)'' ''BLOCK (L1/L2)'']),
        (''===================================================='' @ LF, []),
        (''  Validity             : %s'' @ LF, [pd_choice desc PD_valid ''VALID'' ''INVALID'']),
        (''  Calculated Output PA : 0x%016llX'' @ LF, [Num physical_address]),
        (''  MAIR Attribute Index : %u (AttrIndx[2:0]: %u, AttrIndx[3]: %u)'' @ LF,
           [Num (push_bit 3 (bf_get page_desc_t PD_attr_indx_3 desc) OR bf_get page_desc_t PD_attr_indx desc),
            fld PD_attr_indx, fld PD_attr_indx_3]),
        (''  Security State       : %s'' @ LF, [pd_choice desc PD_non_secure ''Non-Secure (NS)'' ''Secure / Realm'']),
        (''  Access Permissions   : [0x%X] %s'' @ LF, [fld PD_ap, Txt ap_str]),
        (''  Shareability         : [0x%X] %s'' @ LF, [fld PD_sh, Txt sh_str]),
        (''  Access Flag (AF)     : %u (%s)'' @ LF,
           [fld PD_access_flag, pd_choice desc PD_access_flag ''Accessed'' ''Fault on Access'']),
        (''  Global Mapping (nG)  : %s'' @ LF, [pd_choice desc PD_non_global ''Local (ASID-specific)'' ''Global'']),
        (''------------------ Lower & Upper Attributes ---------'' @ LF, []),
        (''  Guarded Page (BTI)   : %s'' @ LF, [pd_choice desc PD_guarded_page ''Enabled'' ''Disabled'']),
        (''  Dirty Bit Mod (DBM)  : %s'' @ LF, [pd_choice desc PD_dirty_bit ''Dirty / Enabled'' ''Clean / Disabled'']),
        (''  Contiguous Hint      : %s'' @ LF, [pd_choice desc PD_contiguous ''Set (Coalesce TLB)'' ''Not Set'']),
        (''  Execute-Never (PXN)  : %s'' @ LF, [pd_choice desc PD_pxn ''YES (Privileged XN)'' ''NO'']),
        (''  Execute-Never (UXN/XN): %s'' @ LF, [pd_choice desc PD_xn ''YES (Execute-Never)'' ''NO'']),
        (''------------------ System Extensions ----------------'' @ LF, []),
        (''  Software Reserved    : 0x%X'' @ LF, [fld PD_sw_reserved]),
        (''  POIndex / PBHA[3:1]  : 0x%X'' @ LF, [fld PD_po_index]),
        (''  AMEC / MECID Bit     : %u'' @ LF, [fld PD_amec]),
        (''===================================================='' @ LF, [])])"

definition table_ap_str :: "u64 \<Rightarrow> string \<times> kprintf_call list" where
  "table_ap_str desc =
     (let ap = bf_get table_desc_t TD_ap_table desc
      in if ap = aptable_code APTABLE_EL0_NO_RESTRICTION_EL1_NO_RESTRICTION then
           (''No effect on downstream permissions'', [])
         else if ap = aptable_code APTABLE_EL0_NO_ACCESS_EL1_NO_RESTRICTION then
           (''Downstream EL0 access restricted (Forces AP[1] to 0 block/page side)'', [])
         else if ap = aptable_code APTABLE_EL0_NO_WRITE_EL1_NO_WRITE then
           (''Downstream Write access restricted (Forces Read-Only down the chain)'', [])
         else if ap = aptable_code APTABLE_EL0_NO_ACCESS_EL1_NO_WRITE then
           (''Downstream Read-Only + EL0 restricted combined'', [])
         else (''No effect on downstream permissions'', [(''Error: Unknown AP string'' @ LF, [])]))"

definition print_table_descriptor :: "u64 \<Rightarrow> kprintf_call list" where
  "print_table_descriptor desc =
     (let next_table_address = push_bit PAGE_SHIFT (bf_get table_desc_t TD_nlta_47_12 desc)
            OR push_bit PA_49_48_SHIFT (bf_get table_desc_t TD_nlta_49_48 desc)
            OR push_bit PA_51_50_SHIFT (bf_get table_desc_t TD_nlta_51_50 desc);
          (ap_table_str, ap_err) = table_ap_str desc;
          fld = (\<lambda>f. Num (bf_get table_desc_t f desc))
      in ap_err @ [
        (''===================================================='' @ LF, []),
        (''  AArch64 Stage 1 TABLE (L0/L1/L2) Descriptor Decode'' @ LF, []),
        (''===================================================='' @ LF, []),
        (''  Validity             : %s'' @ LF, [td_choice desc TD_valid ''VALID'' ''INVALID'']),
        (''  Type Bit (is_table)  : %u (%s)'' @ LF,
           [fld TD_is_table, td_choice desc TD_is_table ''Table Link'' ''FAULT (Should be Block)'']),
        (''  Next-Level Table PA  : 0x%016llX'' @ LF, [Num next_table_address]),
        (''  Table Access Flag(AF): %u (%s)'' @ LF,
           [fld TD_access_flag, td_choice desc TD_access_flag ''Enabled/Set'' ''Not Set / Ignored'']),
        (''------------------ Hierarchical Controls -----------'' @ LF, []),
        (''  NSTable (Security)   : %s'' @ LF,
           [td_choice desc TD_ns_table ''Force Non-Secure downstream'' ''Follow root security domain'']),
        (''  APTable (Permissions): [0x%X] %s'' @ LF, [fld TD_ap_table, Txt ap_table_str]),
        (''  XNTable (Exec-Never) : %s'' @ LF,
           [td_choice desc TD_xn_table ''Force Execute-Never downstream (UXN/XN)'' ''No structural execution limit'']),
        (''  PXNTable (Priv-XN)   : %s'' @ LF,
           [td_choice desc TD_pxn_table ''Force Privileged Execute-Never downstream'' ''No privileged execution limit'']),
        (''------------------ Hardware / Feature Bit States ----'' @ LF, []),
        (''  Protected (PnCH)     : %s'' @ LF,
           [td_choice desc TD_protected ''Stage 1 Protected Attribute Active'' ''Disabled / Ignored'']),
        (''  RES0 Check (Bit 50)  : %u'' @ LF, [fld TD_res_50]),
        (''------------------ Reserved / Ignored Blocks --------'' @ LF, []),
        (''  Ignored Bits [7:2]   : 0x%02X'' @ LF, [fld TD_ignored_7_2]),
        (''  Ignored Bit [11]     : %u'' @ LF, [fld TD_ignored_11]),
        (''  Ignored Bit [51]     : %u'' @ LF, [fld TD_ignored_51]),
        (''  Ignored Bits [58:53] : 0x%02X'' @ LF, [fld TD_ignored_58_53]),
        (''===================================================='' @ LF, [])])"

section \<open>The tree\<close>

text \<open>The bar in the indentation is a box-drawing character of three UTF-8 bytes.\<close>

definition print_indent :: "nat \<Rightarrow> kprintf_call list" where
  "print_indent level = replicate level (''    '' @ [CHR 0xE2, CHR 0x94, CHR 0x82] @ ''   '', [])"

definition page_address :: "u64 \<Rightarrow> phy_addr" where
  "page_address entry = push_bit PAGE_SHIFT (bf_get page_desc_t PD_frame_addr_47_12 entry)
     OR push_bit PA_49_48_SHIFT (bf_get page_desc_t PD_frame_addr_49_48 entry)"

definition leaf_args :: "u64 \<Rightarrow> va_arg list" where
  "leaf_args entry =
     (let ap = bf_get page_desc_t PD_ap entry;
          pxn = bf_get page_desc_t PD_pxn entry;
          xn = bf_get page_desc_t PD_xn entry;
          sh = bf_get page_desc_t PD_sh entry
      in [Num (page_address entry),
          Txt (if ap = ap_code AP_PRIV_RW then ''EL1_RW'' else if ap = ap_code AP_PRIV_UNPRIV_RW then ''EL01_RW''
               else if ap = ap_code AP_PRIV_RO then ''EL1_RO'' else ''EL01_RO''),
          Txt (if pxn \<noteq> 0 \<and> xn \<noteq> 0 then ''NX'' else if pxn \<noteq> 0 then ''PXN'' else if xn \<noteq> 0 then ''UXN'' else ''X''),
          Txt (if sh = sh_code SH_INNER_SHAREABLE then ''Inner-Shareable''
               else if sh = sh_code SH_OUTER_SHAREABLE then ''Outer-Shareable'' else ''Non-Shareable''),
          Num (bf_get page_desc_t PD_access_flag entry)])"

definition table_args :: "u64 \<Rightarrow> va_arg list" where
  "table_args entry =
     (let ap_table = bf_get table_desc_t TD_ap_table entry
      in [Num (push_bit PAGE_SHIFT (bf_get table_desc_t TD_nlta_47_12 entry)
               OR push_bit PA_49_48_SHIFT (bf_get table_desc_t TD_nlta_49_48 entry)
               OR push_bit PA_51_50_SHIFT (bf_get table_desc_t TD_nlta_51_50 entry)),
          Txt (if ap_table = aptable_code APTABLE_EL0_NO_RESTRICTION_EL1_NO_RESTRICTION then ''No-Restrict''
               else if ap_table = aptable_code APTABLE_EL0_NO_ACCESS_EL1_NO_RESTRICTION then ''Table-EL0-NA''
               else if ap_table = aptable_code APTABLE_EL0_NO_WRITE_EL1_NO_WRITE then ''Table-RO''
               else ''Table-EL0-NA_EL1-RO'')])"

definition LEVEL_FMT :: string where
  "LEVEL_FMT = ''|--> Entering LEVEL %d Table [Base VA Range: 0x%lx]'' @ LF"

definition ENTRY_FMT :: string where
  "ENTRY_FMT = ''|-- Entry [%d] (VA: 0x%lx -> 0x%lx) ''"

definition PAGE_FMT :: string where
  "PAGE_FMT = ''[PAGE] --> Maps to Output PA: 0x%lx [%s, %s, %s, AF:%d]'' @ LF"

definition BLOCK_FMT :: string where
  "BLOCK_FMT = ''[BLOCK MAP] --> Maps huge block to Physical PA: 0x%lx [%s, %s, %s, AF:%d]'' @ LF"

definition TABLE_FMT :: string where
  "TABLE_FMT = ''[TABLE LINK] --> Next Table PA: 0x%lx [Hierarchical: %s]'' @ LF"

definition dump_perms :: page_permissions_t where
  "dump_perms = \<lparr>read = True, write = True, execute = True, user_accessible = True\<rparr>"

text \<open>
  \<^verbatim>\<open>get_next_level_table(&entry, perms)\<close> for the local copy \<open>entry\<close> of a valid entry: nothing is allocated,
  and a refusal is reported on the console.
\<close>

definition next_table_of_copy :: "u64 \<Rightarrow> page_permissions_t \<Rightarrow> 'a alloc_state_scheme \<Rightarrow> virt_addr \<times> kprintf_call list" where
  "next_table_of_copy entry perms s =
     (if \<not> check_table_permissions entry perms
      then (0, [(''Security Violation: Upstream table entry layout restricts requested page profile'' @ LF, [])])
      else (pa_to_va s (get_page_table_entry_address entry), []))"

function print_page_table_tree :: "'a alloc_state_scheme \<Rightarrow> virt_addr \<Rightarrow> nat \<Rightarrow> u64 \<Rightarrow> kprintf_call list" where
  "print_page_table_tree s table_base current_level base_va =
     (if table_base = 0 \<or> current_level > 3 then []
      else
        let va_stride = push_bit (12 + (3 - current_level) * 9) 1
        in print_indent current_level
           @ [(LEVEL_FMT, [I32 (int current_level), Num base_va])]
           @ concat (map (\<lambda>i.
               let entry = load_u64 s (entry_ptr table_base (of_nat i))
               in if bf_get page_table_entry_t GEN_valid entry = 0 then []
                  else
                    let entry_va_start = base_va + of_nat i * va_stride;
                        entry_va_end = entry_va_start + va_stride - 1
                    in print_indent (current_level + 1)
                       @ [(ENTRY_FMT, [I32 (int i), Num entry_va_start, Num entry_va_end])]
                       @ (if current_level = 3 then [(PAGE_FMT, leaf_args entry)]
                          else if bf_get page_table_entry_t GEN_type entry = 1 then
                            let nxt = next_table_of_copy entry dump_perms s
                            in (TABLE_FMT, table_args entry) # snd nxt
                               @ print_page_table_tree s (fst nxt) (current_level + 1) entry_va_start
                          else [(BLOCK_FMT, leaf_args entry)])) [0 ..< 512]))"
  by pat_completeness auto
termination
  by (relation "measure (\<lambda>(s, t, l, va). 4 - l)") auto

declare print_page_table_tree.simps [simp del]

definition dump_memory_map :: "virt_addr \<Rightarrow> ('d, 'a) kernel_state_scheme \<Rightarrow> ('d, 'a) kernel_state_scheme" where
  "dump_memory_map root s =
     (let s1 = kprintf (''--- Memory Map Dump Start ---'' @ LF) [] s;
          s2 = fold (\<lambda>(fmt, args). kprintf fmt args) (print_page_table_tree s1 root 0 0) s1
      in kprintf (''--- Memory Map Dump End ---'' @ LF) [] s2)"

section \<open>What the dump reports\<close>

text \<open>
  The pages a listing reports: the address in an \<open>Entry\<close> line that a \<open>[PAGE]\<close> line follows, with the
  output address of that line.
\<close>

definition page_of_pair :: "kprintf_call \<Rightarrow> kprintf_call \<Rightarrow> (virt_addr \<times> phy_addr) list" where
  "page_of_pair a b =
     (if fst a = ENTRY_FMT \<and> fst b = PAGE_FMT
      then (case (snd a, snd b) of ([_, Num va, _], Num pa # _) \<Rightarrow> [(va, pa)] | _ \<Rightarrow> [])
      else [])"

fun reported :: "kprintf_call list \<Rightarrow> (virt_addr \<times> phy_addr) list" where
  "reported (a # b # ls) = page_of_pair a b @ reported (b # ls)"
| "reported ls = []"

definition no_page_first :: "kprintf_call list \<Rightarrow> bool" where
  "no_page_first ls \<longleftrightarrow> ls = [] \<or> fst (hd ls) \<noteq> PAGE_FMT"

lemma reported_append: "no_page_first ys \<Longrightarrow> reported (xs @ ys) = reported xs @ reported ys"
  by (induction xs rule: reported.induct; cases ys) (simp_all add: no_page_first_def page_of_pair_def)

lemma no_page_first_append: "no_page_first xs \<Longrightarrow> no_page_first ys \<Longrightarrow> no_page_first (xs @ ys)"
  by (cases xs) (simp_all add: no_page_first_def)

lemma no_page_first_concat: "(\<And>x. x \<in> set xs \<Longrightarrow> no_page_first (f x)) \<Longrightarrow> no_page_first (concat (map f xs))"
  by (induction xs) (simp_all add: no_page_first_append, simp add: no_page_first_def)

lemma reported_concat:
  "(\<And>x. x \<in> set xs \<Longrightarrow> no_page_first (f x)) \<Longrightarrow> reported (concat (map f xs)) = concat (map (\<lambda>x. reported (f x)) xs)"
  by (induction xs) (simp_all add: reported_append no_page_first_concat)

lemma formats_differ [simp]:
  "PAGE_FMT \<noteq> ENTRY_FMT" "ENTRY_FMT \<noteq> PAGE_FMT" "TABLE_FMT \<noteq> ENTRY_FMT" "TABLE_FMT \<noteq> PAGE_FMT"
  "BLOCK_FMT \<noteq> PAGE_FMT" "LEVEL_FMT \<noteq> PAGE_FMT"
  by (simp_all add: LEVEL_FMT_def PAGE_FMT_def ENTRY_FMT_def TABLE_FMT_def BLOCK_FMT_def)

lemma print_indent_quiet [simp]: "no_page_first (print_indent n)" "reported (print_indent n) = []"
proof -
  show "no_page_first (print_indent n)" by (cases n) (simp_all add: no_page_first_def print_indent_def PAGE_FMT_def)
  show "reported (print_indent n) = []"
    by (induction n rule: induct_nat_012) (simp_all add: print_indent_def page_of_pair_def ENTRY_FMT_def)
qed

text \<open>The pages of a subtree with \<open>k\<close> levels of tables below \<open>t\<close>, with their descriptors.\<close>

fun tree_pages :: "memory \<Rightarrow> nat \<Rightarrow> phy_addr \<Rightarrow> virt_addr \<Rightarrow> (virt_addr \<times> u64) list" where
  "tree_pages m 0 t va = concat (map (\<lambda>i.
     let d = load64 m (t + 8 * of_nat i)
     in if bit d 0 then [(va + of_nat i * push_bit 12 1, d)] else []) [0 ..< 512])"
| "tree_pages m (Suc k) t va = concat (map (\<lambda>i.
     let d = load64 m (t + 8 * of_nat i)
     in if bit d 0 \<and> bit d 1 then tree_pages m k (next_table d) (va + of_nat i * push_bit (12 + Suc k * 9) 1)
        else []) [0 ..< 512])"

lemma generic_bits:
  "bf_get page_table_entry_t GEN_valid (d :: u64) = 0 \<longleftrightarrow> \<not> bit d 0"
  "bf_get page_table_entry_t GEN_type (d :: u64) = 1 \<longleftrightarrow> bit d 1"
proof -
  show "bf_get page_table_entry_t GEN_valid d = 0 \<longleftrightarrow> \<not> bit d 0"
    by (simp add: entry_views(1) td_valid_bit)
  have "bf_get page_table_entry_t GEN_type d = take_bit 1 (drop_bit 1 d)"
    by (simp add: bf_get_def page_table_entry_t_def)
  also have "\<dots> = of_bool (bit d 1)"
    by (simp add: bit_iff_odd_drop_bit mod2_eq_if)
  finally show "bf_get page_table_entry_t GEN_type d = 1 \<longleftrightarrow> bit d 1" by simp
qed

lemma page_address_output: "page_address d = output_address d"
  by (simp add: page_address_def output_address_def PAGE_SHIFT_def PA_49_48_SHIFT_def)

lemma next_table_of_copy_set:
  assumes "table_ok a"
  shows "next_table_of_copy (set_next_level_table a) dump_perms s = (pa_to_va s a, [])"
  using table_desc_roundtrip [of a dump_perms] assms by (simp add: next_table_of_copy_def table_ok_def)

text \<open>The lines of one entry.\<close>

definition entry_lines :: "nat \<Rightarrow> nat \<Rightarrow> virt_addr \<Rightarrow> virt_addr \<Rightarrow> kprintf_call list \<Rightarrow> kprintf_call list" where
  "entry_lines l i va va' ls = print_indent (Suc l) @ [(ENTRY_FMT, [I32 (int i), Num va, Num va'])] @ ls"

lemma entry_lines_quiet: "no_page_first (entry_lines l i va va' ls)"
  unfolding entry_lines_def
  by (rule no_page_first_append, rule print_indent_quiet, simp add: no_page_first_def)

lemma reported_entry_page: "reported (entry_lines l i va va' [(PAGE_FMT, leaf_args d)]) = [(va, output_address d)]"
proof -
  have "page_of_pair (ENTRY_FMT, [I32 (int i), Num va, Num va']) (PAGE_FMT, leaf_args d) = [(va, output_address d)]"
    by (simp add: page_of_pair_def leaf_args_def Let_def page_address_output)
  thus ?thesis
    unfolding entry_lines_def by (subst reported_append) (simp_all add: no_page_first_def)
qed

lemma reported_entry_table:
  assumes "no_page_first ls"
  shows "reported (entry_lines l i va va' ((TABLE_FMT, as) # ls)) = reported ls"
proof -
  have "reported ((TABLE_FMT, as) # ls) = reported ([(TABLE_FMT, as)] @ ls)" by simp
  also have "\<dots> = reported ls" by (simp only: reported_append [OF assms] reported.simps append_Nil)
  finally show ?thesis
    unfolding entry_lines_def
    by (subst reported_append) (simp_all add: no_page_first_def page_of_pair_def)
qed

definition entry_chunk :: "'a alloc_state_scheme \<Rightarrow> virt_addr \<Rightarrow> nat \<Rightarrow> virt_addr \<Rightarrow> nat \<Rightarrow> kprintf_call list" where
  "entry_chunk s t l va i =
     (let entry = load_u64 s (entry_ptr t (of_nat i)); va' = va + of_nat i * push_bit (12 + (3 - l) * 9) 1
      in if \<not> bit entry 0 then []
         else entry_lines l i va' (va' + push_bit (12 + (3 - l) * 9) 1 - 1)
           (if l = 3 then [(PAGE_FMT, leaf_args entry)]
            else if bit entry 1 then
              (TABLE_FMT, table_args entry) # snd (next_table_of_copy entry dump_perms s)
              @ print_page_table_tree s (fst (next_table_of_copy entry dump_perms s)) (Suc l) va'
            else [(BLOCK_FMT, leaf_args entry)]))"

lemma entry_chunk_quiet: "no_page_first (entry_chunk s t l va i)"
  by (simp add: entry_chunk_def Let_def entry_lines_quiet) (simp add: no_page_first_def)

lemma tree_lines:
  assumes "t \<noteq> 0" "l \<le> 3"
  shows "print_page_table_tree s t l va =
    print_indent l @ [(LEVEL_FMT, [I32 (int l), Num va])] @ concat (map (entry_chunk s t l va) [0 ..< 512])"
  by (subst print_page_table_tree.simps)
    (use assms in \<open>simp add: generic_bits Let_def entry_lines_def entry_chunk_def [abs_def] cong: if_cong\<close>)

lemma tree_no_page_first: "no_page_first (print_page_table_tree s t l va)"
proof (cases "t = 0 \<or> \<not> l \<le> 3")
  case True
  then show ?thesis by (subst print_page_table_tree.simps) (auto simp: no_page_first_def)
next
  case False
  then have "t \<noteq> 0" "l \<le> 3" by simp_all
  then show ?thesis
    unfolding tree_lines [OF \<open>t \<noteq> 0\<close> \<open>l \<le> 3\<close>]
    by (intro no_page_first_append [OF print_indent_quiet(1)]) (simp add: no_page_first_def)
qed

lemma reported_tree:
  assumes "t \<noteq> 0" "l \<le> 3"
  shows "reported (print_page_table_tree s t l va) = concat (map (\<lambda>i. reported (entry_chunk s t l va i)) [0 ..< 512])"
proof -
  note quiet = no_page_first_concat [OF entry_chunk_quiet]
  have "no_page_first ([(LEVEL_FMT, [I32 (int l), Num va])] @ concat (map (entry_chunk s t l va) [0 ..< 512]))"
    by (simp add: no_page_first_def)
  note reported_append [OF this, of "print_indent l"] reported_append [OF quiet, of "[(LEVEL_FMT, [I32 (int l), Num va])]"]
  then show ?thesis
    unfolding tree_lines [OF assms] reported_concat [OF entry_chunk_quiet] by simp
qed

text \<open>On a well-formed tree the listing reports the pages of \<open>tree_pages\<close>.\<close>

lemma reported_tree_pages:
  assumes ok: "pt_ok s root"
  shows "is_path p \<Longrightarrow> length p + k = 3 \<Longrightarrow> table_at (mem s) root p = Some t \<Longrightarrow>
    reported (print_page_table_tree s (pa_to_va s t) (3 - k) va)
    = map (\<lambda>(va, d). (va, output_address d)) (tree_pages (mem s) k t va)"
proof (induction k arbitrary: p t va)
  case 0
  have "pa_to_va s t \<noteq> 0"
    using pa_to_va_nonzero(2) [OF ok pt_tree_ok [OF pt_okD(2) [OF ok] 0(1,3)], of 0] by simp
  then show ?case
    by (simp add: reported_tree map_concat o_def entry_chunk_def load_u64_def entry_ptr_def va_to_pa_add Let_def
        reported_entry_page if_distrib [of "map f" for f] if_distrib [of reported] cong: if_cong)
      (intro arg_cong [where f = concat] map_cong refl, simp)
next
  case (Suc k)
  have t: "table_ok t" by (rule pt_tree_ok [OF pt_okD(2) [OF ok] Suc.prems(1,3)])
  have nz: "pa_to_va s t \<noteq> 0" using pa_to_va_nonzero(2) [OF ok t, of 0] by simp
  have lev: "3 - (3 - Suc k) = Suc k" "Suc (3 - Suc k) = 3 - k" "3 - Suc k \<noteq> 3" using Suc.prems(2) by simp_all
  have chunk: "reported (entry_chunk s (pa_to_va s t) (3 - Suc k) va i) =
      map (\<lambda>(va, d). (va, output_address d))
       (let d = load64 (mem s) (t + 8 * of_nat i)
        in if bit d 0 \<and> bit d 1 then tree_pages (mem s) k (next_table d) (va + of_nat i * push_bit (12 + Suc k * 9) 1)
           else [])" if "i < 512" for i
  proof (cases "bit (load64 (mem s) (t + 8 * of_nat i)) 0")
    case False
    then show ?thesis
      by (simp add: entry_chunk_def load_u64_def entry_ptr_def va_to_pa_add Let_def)
  next
    case True
    have i: "(of_nat i :: u64) < 512" using that by (simp add: word_less_nat_alt unat_of_nat)
    obtain a where a: "table_ok a" "load64 (mem s) (t + 8 * of_nat i) = set_next_level_table a"
      using pt_tree_entry [OF pt_okD(2) [OF ok] Suc.prems(1) _ Suc.prems(3) i True] Suc.prems(2) by auto
    have b1: "bit (set_next_level_table a) 1" "bit (set_next_level_table a) 0"
      by (simp_all add: bit_set_next_level_table)
    have "table_at (mem s) root (p @ [of_nat i]) = Some a"
      using Suc.prems(3) a b1 by (simp add: table_at_append next_table_set)
    moreover have "is_path (p @ [of_nat i])" "length (p @ [of_nat i :: u64]) + k = 3"
      using Suc.prems(1,2) i by (auto simp: is_path_def)
    ultimately have "reported (print_page_table_tree s (pa_to_va s a) (3 - k) va')
        = map (\<lambda>(va, d). (va, output_address d)) (tree_pages (mem s) k a va')" for va'
      by (intro Suc.IH)
    then show ?thesis
      using a b1 lev
      by (simp add: entry_chunk_def load_u64_def entry_ptr_def va_to_pa_add Let_def next_table_of_copy_set
          next_table_set reported_entry_table tree_no_page_first)
  qed
  have "reported (print_page_table_tree s (pa_to_va s t) (3 - Suc k) va)
      = concat (map (\<lambda>i. reported (entry_chunk s (pa_to_va s t) (3 - Suc k) va i)) [0 ..< 512])"
    by (rule reported_tree [OF nz]) simp
  also have "\<dots> = map (\<lambda>(va, d). (va, output_address d)) (tree_pages (mem s) (Suc k) t va)"
    unfolding tree_pages.simps map_concat map_map 
    by (intro arg_cong [where f = concat] map_cong refl) (simp only: o_def, rule chunk, simp)
  finally show ?case .
qed

section \<open>The pages of a tree by address\<close>

fun path_of :: "nat \<Rightarrow> virt_addr \<Rightarrow> u64 list" where
  "path_of 0 va = []"
| "path_of (Suc k) va = take_bit 9 (drop_bit (12 + Suc k * 9) va) # path_of k va"

lemma path_of_va: "path_of 3 va = va_path va"
  by (simp add: numeral_3_eq_3 va_path_def idx_take_bit)

lemma div_add_aligned:
  fixes B V n i :: nat
  assumes "B mod 2 ^ (n + 9) = 0" "i < 512"
  shows "V div 2 ^ n = (B + i * 2 ^ n) div 2 ^ n \<longleftrightarrow> V div 2 ^ (n + 9) = B div 2 ^ (n + 9) \<and> V div 2 ^ n mod 512 = i"
proof -
  obtain b where B: "B = b * 512 * 2 ^ n" using assms(1) by (auto simp: mod_eq_0_iff_dvd power_add elim!: dvdE)
  have "(B + i * 2 ^ n) div 2 ^ n = b * 512 + i" by (simp add: B flip: distrib_right)
  moreover have "V div 2 ^ (n + 9) = (V div 2 ^ n) div 512" "B div 2 ^ (n + 9) = b"
    by (simp_all add: power_add div_mult2_eq B)
  moreover have "q = b * 512 + i \<longleftrightarrow> q div 512 = b \<and> q mod 512 = i" for q :: nat
    using assms(2) div_mult_mod_eq [of q 512] by auto
  ultimately show ?thesis by metis
qed

lemma ex_slot:
  assumes "B mod 2 ^ (n + 9) = (0 :: nat)"
  shows "(\<exists>i < 512. V div 2 ^ n = (B + i * 2 ^ n) div 2 ^ n \<and> Q i)
    \<longleftrightarrow> V div 2 ^ (n + 9) = B div 2 ^ (n + 9) \<and> Q (V div 2 ^ n mod 512)"
proof -
  have "(\<exists>i < 512. V div 2 ^ n = (B + i * 2 ^ n) div 2 ^ n \<and> Q i)
      \<longleftrightarrow> (\<exists>i < 512. (V div 2 ^ (n + 9) = B div 2 ^ (n + 9) \<and> V div 2 ^ n mod 512 = i) \<and> Q i)"
    using div_add_aligned [OF assms] by (intro ex_cong1 conj_cong refl) blast
  then show ?thesis using mod_less_divisor [of 512 "V div 2 ^ n"] by auto
qed

lemma unat_slot:
  assumes "unat (b :: u64) + 2 ^ (n + 9) \<le> 2 ^ 48" "i < 512"
  shows "unat (b + of_nat i * push_bit n 1) = unat b + i * 2 ^ n"
    and "unat b + i * 2 ^ n + 2 ^ n \<le> unat b + 2 ^ (n + 9)"
proof -
  have le: "i * 2 ^ n + 2 ^ n \<le> 2 ^ (n + 9)" 
    using mult_le_mono1 [of "Suc i" 512 "2 ^ n"] assms(2) by (simp add: power_add)
  then show "unat b + i * 2 ^ n + 2 ^ n \<le> unat b + 2 ^ (n + 9)" by simp
  have "of_nat i * push_bit n 1 = (of_nat (i * 2 ^ n) :: u64)" by (simp add: push_bit_eq_mult)
  moreover have "i * 2 ^ n < 2 ^ 48" using le assms(1) zero_less_power [of "2 :: nat" n] by linarith
  moreover from this have "unat (of_nat (i * 2 ^ n) :: u64) = i * 2 ^ n" by (simp only: unat_of_nat) simp
  ultimately have "unat (of_nat i * push_bit n 1 :: u64) = i * 2 ^ n" by (simp only:)
  then show "unat (b + of_nat i * push_bit n 1) = unat b + i * 2 ^ n"
    using le assms(1) by (subst unat_add64) simp_all
qed

lemma take9_eq: "take_bit 9 (drop_bit n va) = (of_nat (unat va div 2 ^ n mod 512) :: u64)"
proof -
  have "unat (take_bit 9 (drop_bit n va)) = take_bit 9 (drop_bit n (unat va))"
    by (simp only: unsigned_take_bit_eq unat_drop_bit_eq)
  then have "unat (take_bit 9 (drop_bit n va)) = unat va div 2 ^ n mod 512"
    by (simp only: take_bit_eq_mod drop_bit_eq_div) simp
  from arg_cong [OF this, of "of_nat :: nat \<Rightarrow> u64"] show ?thesis by (simp only: of_nat_unat ucast_id)
qed

lemma same_page_nat: "W mod 4096 = 0 \<Longrightarrow> V mod 4096 = 0 \<and> V div 4096 = W div 4096 \<longleftrightarrow> V = (W :: nat)"
  by (metis div_mult_mod_eq)

lemma slot_pre:
  assumes "unat b mod 2 ^ (n + 9) = 0" "unat (b :: u64) + 2 ^ (n + 9) \<le> 2 ^ 48" "i < 512"
  shows "unat (b + of_nat i * push_bit n 1) mod 2 ^ n = 0" "unat (b + of_nat i * push_bit n 1) + 2 ^ n \<le> 2 ^ 48"
    "unat (b + of_nat i * push_bit n 1) = unat b + i * 2 ^ n"
proof -
  show u: "unat (b + of_nat i * push_bit n 1) = unat b + i * 2 ^ n"
    by (rule unat_slot(1) [OF assms(2,3)])
  have "unat b mod 2 ^ n = 0"
    using assms(1) unfolding power_add mod_eq_0_iff_dvd by (rule dvd_mult_left)
  then show "unat (b + of_nat i * push_bit n 1) mod 2 ^ n = 0" unfolding u by simp
  show "unat (b + of_nat i * push_bit n 1) + 2 ^ n \<le> 2 ^ 48"
    unfolding u using unat_slot(2) [OF assms(2,3)] assms(2) by linarith
qed

text \<open>An address belongs to a page of the subtree exactly when it lies in its range and its path ends in a valid entry.\<close>

lemma in_tree_pages:
  assumes "unat b mod 2 ^ (21 + k * 9) = 0" "unat b + 2 ^ (21 + k * 9) \<le> 2 ^ 48"
  shows "(va, d) \<in> set (tree_pages m k t b) \<longleftrightarrow>
    page_aligned va \<and> unat va div 2 ^ (21 + k * 9) = unat b div 2 ^ (21 + k * 9)
    \<and> (\<exists>t'. table_at m t (path_of k va) = Some t' \<and> d = load64 m (t' + 8 * va_index va)) \<and> bit d 0"
  using assms
proof (induction k arbitrary: t b)
  case 0
  have slot: "page_aligned va \<and> unat va div 2 ^ 12 = (unat b + i * 2 ^ 12) div 2 ^ 12
      \<longleftrightarrow> va = b + of_nat i * push_bit 12 1" if "i < 512" for i
  proof -
    have u: "unat (b + of_nat i * push_bit 12 1) = unat b + i * 4096"
      using unat_slot(1) [of b 12 i] 0(2) that by simp
    have "4096 dvd unat b" using 0(1) by (auto simp: mod_eq_0_iff_dvd intro: dvd_trans [of _ "2 ^ 21"])
    then have "(unat b + i * 4096) mod 4096 = 0" by (simp add: mod_eq_0_iff_dvd)
    from same_page_nat [OF this] u show ?thesis
      by (simp add: page_aligned_def word_eq_iff_unsigned [where 'a = nat])
  qed
  have "(va, d) \<in> set (tree_pages m 0 t b) \<longleftrightarrow>
      (\<exists>i < 512. va = b + of_nat i * push_bit 12 1 \<and> d = load64 m (t + 8 * of_nat i) \<and> bit d 0)"
    by (auto simp: Let_def)
  also have "\<dots> \<longleftrightarrow> (\<exists>i < 512. unat va div 2 ^ 12 = (unat b + i * 2 ^ 12) div 2 ^ 12
      \<and> page_aligned va \<and> d = load64 m (t + 8 * of_nat i) \<and> bit d 0)"
    using slot by blast
  also have "\<dots> \<longleftrightarrow> unat va div 2 ^ (12 + 9) = unat b div 2 ^ (12 + 9) \<and> page_aligned va
      \<and> d = load64 m (t + 8 * of_nat (unat va div 2 ^ 12 mod 512)) \<and> bit d 0"
    by (rule ex_slot) (use 0(1) in simp)
  finally show ?case by (auto simp: va_index_def idx_take_bit take9_eq)
next
  case (Suc k)
  let ?n = "21 + k * 9"
  have n: "12 + Suc k * 9 = ?n" "21 + Suc k * 9 = ?n + 9" by simp_all
  note pre = slot_pre [OF Suc.prems [unfolded n]]
  define D where "D i = load64 m (t + 8 * of_nat i)" for i :: nat
  define Q where "Q i \<longleftrightarrow> bit (D i) 0 \<and> bit (D i) 1
      \<and> (\<exists>t'. table_at m (next_table (D i)) (path_of k va) = Some t' \<and> d = load64 m (t' + 8 * va_index va)) \<and> bit d 0" for i
  have "(va, d) \<in> set (tree_pages m (Suc k) t b) \<longleftrightarrow>
      (\<exists>i < 512. bit (D i) 0 \<and> bit (D i) 1 \<and> (va, d) \<in> set (tree_pages m k (next_table (D i)) (b + of_nat i * push_bit ?n 1)))"
    by (auto simp: Let_def D_def algebra_simps)
  also have "\<dots> \<longleftrightarrow> (\<exists>i < 512. unat va div 2 ^ ?n = (unat b + i * 2 ^ ?n) div 2 ^ ?n \<and> page_aligned va \<and> Q i)"
  proof (rule ex_cong1, rule conj_cong [OF refl])
    fix i :: nat assume "i < 512"
    note pre = pre [OF this]
    show "bit (D i) 0 \<and> bit (D i) 1 \<and> (va, d) \<in> set (tree_pages m k (next_table (D i)) (b + of_nat i * push_bit ?n 1))
        \<longleftrightarrow> unat va div 2 ^ ?n = (unat b + i * 2 ^ ?n) div 2 ^ ?n \<and> page_aligned va \<and> Q i"
      unfolding Suc.IH [OF pre(1,2)] pre(3) Q_def by blast
  qed
  also have "\<dots> \<longleftrightarrow> unat va div 2 ^ (?n + 9) = unat b div 2 ^ (?n + 9) \<and> page_aligned va \<and> Q (unat va div 2 ^ ?n mod 512)"
    by (rule ex_slot) (use Suc.prems(1) in \<open>simp only: n\<close>)
  finally show ?case
    unfolding n path_of.simps take9_eq by (auto simp: Q_def D_def Let_def split: if_splits)
qed

lemma sorted_wrt_concat:
  assumes "sorted_wrt (<) xs" "\<And>x. x \<in> set xs \<Longrightarrow> sorted_wrt P (f x)"
    and "\<And>x y u v. x \<in> set xs \<Longrightarrow> y \<in> set xs \<Longrightarrow> x < y \<Longrightarrow> u \<in> set (f x) \<Longrightarrow> v \<in> set (f y) \<Longrightarrow> P u v"
  shows "sorted_wrt P (concat (map f xs))"
  using assms
proof (induction xs)
  case (Cons a xs)
  have "sorted_wrt P (concat (map f xs))"
    by (rule Cons.IH) (use Cons.prems(1,2) in simp_all, meson Cons.prems(3) list.set_intros(2))
  then show ?case using Cons.prems(1) Cons.prems(2) [of a] Cons.prems(3) [of a] by (auto simp: sorted_wrt_append)
qed simp

lemma tree_pages_range:
  assumes "unat b mod 2 ^ (21 + k * 9) = 0" "unat b + 2 ^ (21 + k * 9) \<le> 2 ^ 48" "(va, d) \<in> set (tree_pages m k t b)"
  shows "unat b \<le> unat va" "unat va < unat b + 2 ^ (21 + k * 9)"
proof -
  let ?N = "2 ^ (21 + k * 9) :: nat"
  have "unat va div ?N = unat b div ?N" using in_tree_pages [OF assms(1,2)] assms(3) by blast
  moreover have "unat b = unat b div ?N * ?N" using assms(1) div_mult_mod_eq [of "unat b" ?N] by simp
  ultimately have "unat va = unat b + unat va mod ?N" by (metis div_mult_mod_eq)
  moreover have "unat va mod ?N < ?N" by simp
  ultimately show "unat b \<le> unat va" "unat va < unat b + ?N" by linarith+
qed

lemma tree_pages_sorted:
  assumes "unat b mod 2 ^ (21 + k * 9) = 0" "unat b + 2 ^ (21 + k * 9) \<le> 2 ^ 48"
  shows "sorted_wrt (\<lambda>x y. unat (fst x) < unat (fst y)) (tree_pages m k t b)"
  using assms
proof (induction k arbitrary: t b)
  case 0
  have "unat (b + of_nat i * push_bit 12 1) = unat b + i * 2 ^ 12" if "i < 512" for i
    using unat_slot(1) [of b 12 i] 0(2) that by simp
  then show ?case
    unfolding tree_pages.simps by (intro sorted_wrt_concat) (auto simp: Let_def split: if_splits)
next
  case (Suc k)
  let ?n = "21 + k * 9"
  have n: "12 + Suc k * 9 = ?n" "21 + Suc k * 9 = ?n + 9" by simp_all
  note pre = slot_pre [OF Suc.prems [unfolded n]]
  show ?case
    unfolding tree_pages.simps n
  proof (intro sorted_wrt_concat)
    fix i j :: nat and u v
    assume ij: "i \<in> set [0 ..< 512]" "j \<in> set [0 ..< 512]" "i < j"
      and u: "u \<in> set (let d = load64 m (t + 8 * of_nat i)
        in if bit d 0 \<and> bit d 1 then tree_pages m k (next_table d) (b + of_nat i * push_bit ?n 1) else [])"
      and v: "v \<in> set (let d = load64 m (t + 8 * of_nat j)
        in if bit d 0 \<and> bit d 1 then tree_pages m k (next_table d) (b + of_nat j * push_bit ?n 1) else [])"
    have i: "i < 512" "j < 512" using ij by simp_all
    have "unat (fst u) < unat b + i * 2 ^ ?n + 2 ^ ?n"
      using tree_pages_range(2) [OF pre(1,2) [OF i(1)], of "fst u" "snd u"] u pre(3) [OF i(1)]
      by (auto simp: Let_def split: if_splits)
    also have "\<dots> \<le> unat b + j * 2 ^ ?n"
      using mult_le_mono1 [of "Suc i" j "2 ^ ?n"] ij(3) by simp
    also have "\<dots> \<le> unat (fst v)"
      using tree_pages_range(1) [OF pre(1,2) [OF i(2)], of "fst v" "snd v"] v pre(3) [OF i(2)]
      by (auto simp: Let_def split: if_splits)
    finally show "unat (fst u) < unat (fst v)" .
  qed (use Suc.IH [OF pre(1,2)] in \<open>auto simp: Let_def\<close>)
qed

section \<open>The dump of the memory map\<close>

lemma print_page_table_tree_cong:
  assumes "mem s' = mem s" "kernel_base_va s' = kernel_base_va s"
  shows "print_page_table_tree s' t l va = print_page_table_tree s t l va"
proof (induction "4 - l" arbitrary: t l va)
  case 0
  then show ?case by (simp add: print_page_table_tree.simps)
next
  case (Suc n)
  have IH: "print_page_table_tree s' t' (Suc l) va' = print_page_table_tree s t' (Suc l) va'" for t' va'
    by (rule Suc.hyps(1)) (use Suc.hyps(2) in simp)
  have "load_u64 s' = load_u64 s" "pa_to_va s' = pa_to_va s"
    by (rule ext, simp add: assms load_u64_def va_to_pa_def pa_to_va_def)+
  then have "entry_chunk s' t l va = entry_chunk s t l va"
    by (intro ext) (simp only: entry_chunk_def IH next_table_of_copy_def Let_def)
  then show ?case
    using Suc.hyps(2) by (cases "t = 0") (simp_all add: tree_lines, simp add: print_page_table_tree.simps)
qed

lemma fold_kprintf: "fold (\<lambda>(fmt, args). kprintf fmt args) ls s = s\<lparr>console := console s @ ls\<rparr>"
  by (induction ls arbitrary: s) (auto simp: kprintf_def)

lemma dump_memory_map_lines:
  "dump_memory_map root s = s\<lparr>console := console s @ [(''--- Memory Map Dump Start ---'' @ LF, [])]
     @ print_page_table_tree s root 0 0 @ [(''--- Memory Map Dump End ---'' @ LF, [])]\<rparr>"
proof -
  have "print_page_table_tree (s\<lparr>console := c\<rparr>) root 0 0 = print_page_table_tree s root 0 0" for c
    by (rule print_page_table_tree_cong) simp_all
  then show ?thesis by (simp add: dump_memory_map_def Let_def fold_kprintf kprintf_def)
qed

lemma reported_between:
  assumes "fst a \<noteq> ENTRY_FMT" "fst z \<noteq> PAGE_FMT" "no_page_first ls"
  shows "reported ([a] @ ls @ [z]) = reported ls"
proof -
  have "no_page_first (ls @ [z])" "no_page_first [z]"
    using assms(2,3) by (cases ls; simp add: no_page_first_def)+
  then show ?thesis by (simp only: reported_append) simp
qed

text \<open>
  C17. \<^verbatim>\<open>dump_memory_map\<close> on consistent tables changes nothing but the console, to which it appends a
  listing whose pages come in ascending order, each once. They are exactly the pages whose level 3
  entry is valid, each with the address in that entry; so every address the hardware translates is
  listed with its translation, and a listed page is translated as listed unless the
  level 3 entry carries the reserved type.
\<close>

theorem dump_memory_map_lists_translations:
  assumes "pt_ok s root"
  shows "\<exists>ls. dump_memory_map (pa_to_va s root) s = s\<lparr>console := console s @ ls\<rparr>
    \<and> sorted_wrt (<) (map fst (reported ls))
    \<and> (\<forall>va pa. (va, pa) \<in> set (reported ls) \<longleftrightarrow> page_aligned va \<and> unat va < 2 ^ 48
         \<and> (\<exists>t d. table_at (mem s) root (va_path va) = Some t \<and> d = load64 (mem s) (t + 8 * va_index va)
              \<and> bit d 0 \<and> pa = output_address d
              \<and> translate (mem s) root va = (if bit d 1 then Leaf 3 d else Fault)))
    \<and> (\<forall>va l d. page_aligned va \<and> unat va < 2 ^ 48 \<and> translate (mem s) root va = Leaf l d
         \<longrightarrow> (va, output_address d) \<in> set (reported ls))"
proof (intro exI conjI)
  let ?pages = "tree_pages (mem s) 3 root 0"
  let ?ls = "[(''--- Memory Map Dump Start ---'' @ LF, [])] @ print_page_table_tree s (pa_to_va s root) 0 0
    @ [(''--- Memory Map Dump End ---'' @ LF, [])]"
  show "dump_memory_map (pa_to_va s root) s = s\<lparr>console := console s @ ?ls\<rparr>"
    by (simp only: dump_memory_map_lines)
  have "reported ?ls = reported (print_page_table_tree s (pa_to_va s root) 0 0)"
    by (rule reported_between [OF _ _ tree_no_page_first]) (simp_all add: ENTRY_FMT_def PAGE_FMT_def)
  also have "\<dots> = map (\<lambda>(va, d). (va, output_address d)) ?pages"
    using reported_tree_pages [OF assms, of "[]" 3 root 0] by (simp add: is_path_def)
  finally have rep: "reported ?ls = map (\<lambda>(va, d). (va, output_address d)) ?pages" .
  have "sorted_wrt (\<lambda>x y. unat (fst x) < unat (fst y)) ?pages" by (rule tree_pages_sorted) simp_all
  then show "sorted_wrt (<) (map fst (reported ?ls))"
    unfolding rep by (simp add: sorted_wrt_map word_less_nat_alt case_prod_unfold)
  have mem: "(va, d) \<in> set ?pages \<longleftrightarrow> page_aligned va \<and> unat va < 2 ^ 48
      \<and> (\<exists>t. table_at (mem s) root (va_path va) = Some t \<and> d = load64 (mem s) (t + 8 * va_index va)) \<and> bit d 0" for va d
    using in_tree_pages [of 0 3 va d "mem s" root] by (simp add: path_of_va div_eq_0_iff)
  have tr: "translate (mem s) root va = (case leaf_at (mem s) root (va_path va) (va_index va) of None \<Rightarrow> Fault | Some d \<Rightarrow> Leaf 3 d)" for va
    by (rule translate_leaf [OF pt_okD(2) [OF assms]])
  have "(va, pa) \<in> set (reported ?ls) \<longleftrightarrow> (\<exists>d. (va, d) \<in> set ?pages \<and> pa = output_address d)" for va pa
    unfolding rep by force
  note in_rep = this [unfolded mem]
  show "\<forall>va pa. (va, pa) \<in> set (reported ?ls) \<longleftrightarrow> page_aligned va \<and> unat va < 2 ^ 48
         \<and> (\<exists>t d. table_at (mem s) root (va_path va) = Some t \<and> d = load64 (mem s) (t + 8 * va_index va)
              \<and> bit d 0 \<and> pa = output_address d
              \<and> translate (mem s) root va = (if bit d 1 then Leaf 3 d else Fault))"
    unfolding in_rep tr by (auto simp: leaf_at_def Let_def)
  show "\<forall>va l d. page_aligned va \<and> unat va < 2 ^ 48 \<and> translate (mem s) root va = Leaf l d
         \<longrightarrow> (va, output_address d) \<in> set (reported ?ls)"
    unfolding in_rep tr by (auto simp: leaf_at_def Let_def split: option.splits if_splits)
qed

section \<open>The descriptor printers\<close>

lemma console_text_undefined:
  "(fmt, args) \<in> set ls \<Longrightarrow> vprintf True (lit_bytes fmt) args = None \<Longrightarrow> console_text ls = None"
  by (induction ls rule: console_text.induct) (auto split: option.splits)

text \<open>The conversion \<^verbatim>\<open>%X\<close> is put out as it stands and takes no argument, so \<^verbatim>\<open>%s\<close> gets the number.\<close>

lemma hex_then_string:
  "vprintf True (lit_bytes (''  Access Permissions   : [0x%X] %s'' @ LF)) [Num x, Txt y] = None"
  "vprintf True (lit_bytes (''  APTable (Permissions): [0x%X] %s'' @ LF)) [Num x, Txt y] = None"
  by (simp_all add: vprintf_def lit_bytes_def LF_def skip_length_def conversion_def)

text \<open>
  C30. The printers of a single descriptor never work: for every page descriptor and every table
  descriptor the text they ask \<^verbatim>\<open>kprintf\<close> for is undefined, because \<^verbatim>\<open>vprintf\<close> has no conversion \<^verbatim>\<open>%X\<close> and
  takes the number meant for it as the string of the \<^verbatim>\<open>%s\<close> that follows.
\<close>

theorem descriptor_printers_undefined:
  "console_text (print_page_descriptor d) = None \<and> console_text (print_table_descriptor d) = None"
proof
  show "console_text (print_page_descriptor d) = None"
    by (rule console_text_undefined [OF _ hex_then_string(1) [of "bf_get page_desc_t PD_ap d" "fst (page_ap_str d)"]])
      (simp add: print_page_descriptor_def Let_def case_prod_unfold)
  show "console_text (print_table_descriptor d) = None"
    by (rule console_text_undefined [OF _ hex_then_string(2) [of "bf_get table_desc_t TD_ap_table d" "fst (table_ap_str d)"]])
      (simp add: print_table_descriptor_def Let_def case_prod_unfold)
qed

end
