(* ===== verification/Dump_Demo.thy ===== *)
theory Dump_Demo
  imports Page_Table_Dump Page_Table_Demo
begin

text \<open>
  The theorem about \<^verbatim>\<open>dump_memory_map\<close> at work: the page \<open>0x7000\<close>, mapped by \<^verbatim>\<open>map_page\<close> to
  \<open>0x40003000\<close> in the tables of \<^verbatim>\<open>Page_Table_Demo\<close>, is in the dump.
\<close>

definition demo_kernel :: "unit kernel_state" where
  "demo_kernel = \<lparr>mem = (\<lambda>_. 0)(0x40000000 := 1), kernel_base_va = 0, pc_base = 0, syms = demo_syms,
     mem_chunks = demo_chunk # replicate 9 no_chunk, allocated = 0, kalloc_page_head = 0,
     hardware = (), console = [], daif = 0\<rparr>"

lemma demo_kernel_inits: "inits demo_kernel = {0}" "mem_chunks demo_kernel ! 0 = demo_chunk"
  by (auto simp: inits_def demo_kernel_def demo_chunk_def no_chunk_def nth_Cons' split: if_splits)

lemma demo_kernel_used: "k < 8 \<Longrightarrow> page_used demo_chunk k demo_kernel \<longleftrightarrow> k = 0"
  by (simp add: page_used_def demo_chunk_def demo_kernel_def va_to_pa_def bit_1_iff)

lemma demo_kernel_inv: "alloc_inv demo_kernel"
proof -
  have "chunk_shape demo_chunk demo_kernel"
    by (simp add: chunk_shape_def demo_chunk_def demo_kernel_def page_aligned_def pa_to_va_def)
  moreover have "bitmap_marked demo_chunk demo_kernel"
    using demo_kernel_used [of 0] by (simp add: bitmap_marked_def bitmap_page_count_def demo_chunk_def)
  ultimately show ?thesis
    by (simp add: alloc_inv_def demo_kernel_inits) (simp add: demo_kernel_def MAX_MEM_CHUNKS_def)
qed

lemma demo_kernel_frames:
  "frame_used demo_kernel f \<longleftrightarrow> f = 0x40000" "frame_managed demo_kernel f \<longleftrightarrow> f \<in> {0x40000 ..< 0x40004}"
  "is_bitmap_frame demo_kernel f \<longleftrightarrow> f = 0x40000"
proof -
  show "frame_used demo_kernel f \<longleftrightarrow> f = 0x40000"
    using demo_kernel_used [of "f - 0x40000"] by (auto simp: frame_used_def demo_kernel_inits demo_frames)
      (auto simp: demo_chunk_def frame_def)
qed (auto simp: frame_managed_def is_bitmap_frame_def demo_kernel_inits demo_frames demo_bitmap_frames)

lemma demo_kernel_pt_ok: "pt_ok demo_kernel demo_root"
proof (rule pt_ok_zero_root [OF demo_kernel_inv demo_root_ok(1)])
  have f: "frame demo_root = 0x40202" by (simp add: demo_root_def frame_def)
  show "mem demo_kernel x = 0" if "frame x = frame demo_root" for x
    using that by (auto simp: demo_kernel_def f) (simp add: frame_def)
  show "\<not> is_bitmap_frame demo_kernel (frame demo_root)"
    "frame_managed demo_kernel (frame demo_root) \<longrightarrow> frame_used demo_kernel (frame demo_root)"
    by (simp_all add: demo_kernel_frames f)
qed (simp_all add: demo_kernel_inits demo_frames, simp add: demo_kernel_def)

lemma demo_kernel_free: "free_frames demo_kernel = {0x40001, 0x40002, 0x40003}"
  by (auto simp: free_frames_def demo_kernel_frames)

theorem dump_memory_map_witness:
  "\<exists>s ls. map_page (pa_to_va demo_kernel demo_root) 0x7000 0x40003000 rw_perms NORMAL demo_kernel = (True, s)
    \<and> console (dump_memory_map (pa_to_va s demo_root) s) = ls \<and> (0x7000, 0x40003000) \<in> set (reported ls)"
proof -
  have "fst (map_page (pa_to_va demo_kernel demo_root) 0x7000 0x40003000 rw_perms NORMAL demo_kernel)"
    by (rule map_page_succeeds [OF demo_kernel_pt_ok]) (simp_all add: page_aligned_def demo_kernel_free)
  then obtain s where r: "map_page (pa_to_va demo_kernel demo_root) 0x7000 0x40003000 rw_perms NORMAL demo_kernel = (True, s)"
    by (metis (full_types) prod.collapse)
  note eff = map_page_effect [OF demo_kernel_pt_ok r]
  have out: "output_address (leaf_desc 0x40003000 rw_perms NORMAL) = 0x40003000" by code_simp
  have c: "console s = []" using arg_cong [OF eff(2), of console] by (simp add: demo_kernel_def)
  have tr: "translate (mem s) demo_root 0x7000 = Leaf 3 (leaf_desc 0x40003000 rw_perms NORMAL)"
    using eff(3) by (simp add: rw_perms_def)
  from dump_memory_map_lists_translations [OF eff(1)] obtain ls where
    d: "dump_memory_map (pa_to_va s demo_root) s = s\<lparr>console := console s @ ls\<rparr>"
    and l: "\<forall>va l d. page_aligned va \<and> unat va < 2 ^ 48 \<and> translate (mem s) demo_root va = Leaf l d
         \<longrightarrow> (va, output_address d) \<in> set (reported ls)" by blast
  have "(0x7000, 0x40003000) \<in> set (reported ls)"
    using l [rule_format, of "0x7000" 3 "leaf_desc 0x40003000 rw_perms NORMAL"] tr out by (simp add: page_aligned_def)
  then show ?thesis using r d c by simp
qed

end
