(* ===== verification/Register_Decoder.thy ===== *)
theory Register_Decoder
  imports Mmu Devices
begin

text \<open>
  \<^verbatim>\<open>tools/register_decoder\<close>: the host tool that prints the fields of SCTLR_EL1, with its own bit-field
  unions. A call of \<^verbatim>\<open>printf\<close> is recorded as its format and arguments; \<^verbatim>\<open>main\<close> maps the arguments and the text on
  the standard input to its exit status and output.
\<close>

section \<open>Unions\<close>





section \<open>Decoders\<close>



section \<open>The table of registers\<close>








section \<open>The command\<close>







section \<open>The decoder and the kernel read the register alike\<close>












section \<open>Labels\<close>




















section \<open>The command line\<close>




end
