(* ===== verification/Spec2Isabelle.thy ===== *)
theory Spec2Isabelle
  imports Page_Table_Demo Text_Demo Kalloc_Demo Boot_Demo Dump_Demo Register_Decoder
begin

text \<open>
  Verification of the Kernelite kernel.

  \<^bold>\<open>The program.\<close> Kernelite is a small AArch64 kernel for the QEMU \<^verbatim>\<open>virt\<close> machine. \<^verbatim>\<open>boot.s\<close> calls \<^verbatim>\<open>main\<close>
  (\<^verbatim>\<open>src/src/kernel/main.c\<close>) at physical addresses with the MMU off. \<^verbatim>\<open>main\<close> sets up the console on the
  UART, builds an identity map of the image in pages that the linker script reserves
  (\<^verbatim>\<open>setup_kernel_id_map\<close>), reads the memory regions from the device tree (\<^verbatim>\<open>get_mem\<close>), gives them to the
  page allocator and reserves what is in use (\<^verbatim>\<open>setup_page_allocator\<close>), maps all memory at its
  higher-half addresses (\<^verbatim>\<open>setup_kernel_map\<close>), turns the MMU on (\<^verbatim>\<open>enable_mmu\<close>) and jumps to the high half.
  There \<^verbatim>\<open>high_half_main\<close> moves the pointers of the kernel to their new addresses, frees the identity
  map, brings up the interrupt controller through the ICU layer, starts the system timer and the UART
  interrupt, waits for interrupts and exits. All components share one byte-addressed memory: the
  bitmaps of the page allocator, the translation tables and the descriptors of the heap lie in it.

  \<^bold>\<open>State.\<close> The state is one record that grows with the components, each operation being polymorphic in
  the rest: \<open>mem_state\<close> (memory, \<^verbatim>\<open>kernel_base_va\<close>, program counter half, linker symbols), \<open>alloc_state\<close>
  (region table), \<open>kalloc_state\<close> (heads of the heap lists), \<open>kernel_state\<close> (hardware, calls of \<^verbatim>\<open>kprintf\<close>,
  exception mask), \<open>gic_state\<close>, \<open>timer_state\<close> and \<open>boot_state\<close>. Machine integers are words of their width;
  every wrap-around of the C code is a wrap-around of the model.

  \<^bold>\<open>Theories.\<close>

  \<^item> \<^verbatim>\<open>Kernelite_Prelude\<close>, \<^verbatim>\<open>Memory\<close>, \<^verbatim>\<open>Bitfields\<close>: word and list lemmas, little-endian memory, packed bit-field
    structs as layouts. The locale \<open>bitfield_struct\<close> is interpreted on the layouts of the kernel.
  \<^item> \<^verbatim>\<open>Mem_Layout\<close>: \<^verbatim>\<open>mem_layout.c\<close>, \<^verbatim>\<open>linker/symbols.h\<close>, \<^verbatim>\<open>linker/linker_defines.h\<close>.
  \<^item> \<^verbatim>\<open>Page_Allocator\<close>: every function of \<^verbatim>\<open>allocator/page_allocator.c\<close>. \<^verbatim>\<open>Bitmap\<close> proves the bitmap loops in
    the locale \<open>bit_vector\<close>; \<^verbatim>\<open>Page_Allocator_Inv\<close> has the invariant \<open>alloc_inv\<close> and the view of a state as a
    set of used frames; \<^verbatim>\<open>Page_Allocator_Correct\<close>, \<^verbatim>\<open>Page_Allocator_Ops\<close> and \<^verbatim>\<open>Page_Allocator_Regions\<close> give
    each operation's effect on frames on every branch. \<^verbatim>\<open>Page_Provider\<close> states what clients rely on as the locale
    \<open>page_provider\<close>, interpreted in \<^verbatim>\<open>Page_Allocator_Client\<close>: any interleaving of allocations and
    frees keeps live blocks disjoint and leaks nothing.
  \<^item> \<^verbatim>\<open>Page_Table\<close>: \<^verbatim>\<open>page_table/page_table.c\<close> and its header. \<^verbatim>\<open>Page_Desc\<close> reads descriptors as the architecture
    does, \<^verbatim>\<open>Page_Table_Tree\<close> is the hardware walk (\<open>translate\<close>) and the tree invariant,
    \<^verbatim>\<open>Page_Table_Correct\<close> and \<^verbatim>\<open>Page_Table_Maps\<close> prove the mapping functions against the walk, \<^verbatim>\<open>Id_Map\<close> the
    identity map, \<^verbatim>\<open>Page_Table_Dump\<close> models the printers and proves that the dump lists exactly
    the mapped pages.
  \<^item> \<^verbatim>\<open>Kalloc\<close>: every function of \<^verbatim>\<open>allocator/kalloc.c\<close>, with the linked descriptors as they lie in memory;
    \<^verbatim>\<open>Kalloc_Fields\<close>, \<^verbatim>\<open>Kalloc_Blocks\<close>, \<^verbatim>\<open>Kalloc_Pages\<close>, \<^verbatim>\<open>Kalloc_Inv\<close>, \<^verbatim>\<open>Kalloc_Correct\<close> and
    \<^verbatim>\<open>Kalloc_Client\<close> relate it to a list of live blocks (\<open>heap_rep\<close>).
  \<^item> \<^verbatim>\<open>Kstring\<close> and \<^verbatim>\<open>Kprintf\<close>: \<^verbatim>\<open>utils/string.c\<close> and \<^verbatim>\<open>utils/kprintf.c\<close>.
  \<^item> \<^verbatim>\<open>Mmu\<close>: the registers of \<^verbatim>\<open>mmu/mmu.c\<close>, the order in which \<^verbatim>\<open>enable_mmu\<close> writes them, and that they fit the
    tables when decoded as the architecture does.
  \<^item> \<^verbatim>\<open>Fdt\<close> and \<^verbatim>\<open>Fdt_Correct\<close>: \<^verbatim>\<open>fdt/fdt.c\<close>; \<^verbatim>\<open>get_mem\<close> against a decoding in unbounded arithmetic.
  \<^item> \<^verbatim>\<open>Setup\<close> and \<^verbatim>\<open>Setup_Correct\<close>: \<^verbatim>\<open>utils/utils.c\<close>, which establishes \<open>alloc_inv\<close>.
  \<^item> \<^verbatim>\<open>Devices\<close>: the bus, \<^verbatim>\<open>kprintf\<close> as a record of calls, \<^verbatim>\<open>asm/asm_helper.h\<close>, core id and exception level.
  \<^item> \<^verbatim>\<open>Gicv3_Regs\<close>, \<^verbatim>\<open>Gicv3_Access\<close>, \<^verbatim>\<open>Gicv3\<close>: \<^verbatim>\<open>drivers/gicv3.c\<close>. \<^verbatim>\<open>Gicv3_Hardware\<close> states the documented
    register behaviour as the locale \<open>gic_hardware\<close> (which words of each register array exist, that only
    the fields of implemented INTIDs below 1020 are writable and the others read as zero, and
    that set and clear registers share their bits); \<^verbatim>\<open>Gicv3_Correct\<close> and \<^verbatim>\<open>Gicv3_Irq\<close> prove on it that
    registration refines an abstract interrupt table, \<^verbatim>\<open>Gicv3_Bringup\<close> when the polling loops return
    and in which state the bring-up leaves the CPU interface.
  \<^item> \<^verbatim>\<open>Timer\<close> and \<^verbatim>\<open>Timer_Correct\<close>: \<^verbatim>\<open>icu/icu.c\<close>, \<^verbatim>\<open>timer/timer.c\<close>, \<^verbatim>\<open>drivers/arm_timer.c\<close>; the tick from the
    interrupt to the handler, and that the deadlines do not drift. \<^verbatim>\<open>Uart\<close>: \<^verbatim>\<open>drivers/uart.c\<close>.
  \<^item> \<^verbatim>\<open>Exceptions\<close>: \<^verbatim>\<open>exception_handling/handler.c\<close>, \<^verbatim>\<open>error/panic.c\<close>, \<^verbatim>\<open>error/error_strings.c\<close>, \<^verbatim>\<open>exit/exit.c\<close>.
  \<^item> \<^verbatim>\<open>Boot\<close>: \<^verbatim>\<open>main.c\<close>. \<^verbatim>\<open>Boot_Correct\<close> composes the components up to the jump, \<^verbatim>\<open>Boot_High\<close> from the jump on and
    follows a received character from the vector to the echo.
  \<^item> \<^verbatim>\<open>Register_Decoder\<close>: \<^verbatim>\<open>src/tools/register_decoder\<close>, whose lines carry the names, places and values of
    the kernel's layout of SCTLR_EL1, and its command line.
  \<^item> The theories named \<^verbatim>\<open>_Demo\<close> apply the theorems to concrete machines.

  \<^bold>\<open>Loops and bounds.\<close> Loops over data are structural or have a termination proof. A loop that waits for
  hardware, follows pointers or follows offsets that libfdt returns is a \<open>partial_function (option)\<close>; \<open>None\<close>
  is not returning, and that the call returns is a statement of its own
  (\<open>kmalloc_correct\<close>, \<open>setup_kernel_map_correct\<close>, \<open>get_mem_correct\<close>, \<open>boot_low_half_correct\<close>,
  \<open>gicv3_waits_for_hardware\<close>, \<open>uart_irq_echoes\<close>). No fuel is used. Where C leaves the behaviour undefined (a
  read past a property, a conversion without its argument) the result is \<open>None\<close> too.

  \<^bold>\<open>Parameters.\<close> What is not in the sources is an argument: the hardware behind registers (\<open>bus\<close>), libfdt
  (a record of its functions; the boot code takes it as a function \<open>fdt_library\<close> of the bytes the kernel sees,
  applied to the memory at the time of each call), the addresses of functions (\<open>code_symbols\<close>) and the linker
  symbols, the effect of a call through a stored handler pointer (\<open>invoke\<close>), and what happens during \<^verbatim>\<open>wfi\<close>.
  Theorems that rely on them say what they rely on as assumptions, which the \<^verbatim>\<open>_Demo\<close> theories discharge on
  executable instances.

  \<^bold>\<open>Not modelled.\<close> The assembly files \<^verbatim>\<open>boot.s\<close>, \<^verbatim>\<open>vector.s\<close> and \<^verbatim>\<open>trampoline.s\<close> (their effect on the C code is
  \<open>boot_ready\<close>, the entry of the two handlers, and \<open>switch_to_high_va\<close>); libfdt, a submodule; the tests under
  \<^verbatim>\<open>src/tests\<close>, which only \<^verbatim>\<open>RUN_TESTS\<close> compiles. Interrupts are not interleaved with the boot code at every instruction:
  they are taken where the kernel waits. Barriers and cache maintenance have no effect in the
  sequential memory of the model. The messages of the page allocator, of the functions that build the translation tables
  and of the heap (\<^verbatim>\<open>kfree\<close> reports an unknown pointer) are left out; those of all other components are recorded,
  that of \<^verbatim>\<open>enable_mmu\<close> by \<open>enable_mmu_report\<close> in \<^verbatim>\<open>Boot\<close>.
\<close>

end
